(* ===== verification/Prelude.thy ===== *)
theory Prelude
  imports Main "HOL-Library.Word" "HOL-Library.Code_Target_Numeral"
begin

text \<open>
  What every component of the development shares: bytes and byte strings, errors as values, the
  functions of Go's \<^verbatim>\<open>strings\<close>, \<^verbatim>\<open>strconv\<close> and \<^verbatim>\<open>encoding/hex\<close> packages that the
  sources call, positional notation (used for addresses, hex text and big-endian fields), and
  the two interfaces that several components implement: a text codec and a first-match rule
  list.

  A Go \<^verbatim>\<open>string\<close> is a HOL \<^typ>\<open>string\<close>: a list of bytes. \<^verbatim>\<open>strings.TrimSpace\<close> and
  \<^verbatim>\<open>strings.ToLower\<close> are modelled on ASCII; bytes above 127 are ordinary characters to them.
  A \<^verbatim>\<open>[]byte\<close> is a list of 8-bit words.
\<close>

unbundle bit_operations_syntax

named_theorems codec_simps \<open>decoding what was encoded\<close>
named_theorems text_simps \<open>shape of printed text\<close>

type_synonym byte = "8 word"

section \<open>Errors\<close>

text \<open>
  An error made by \<^verbatim>\<open>errors.New\<close> or \<^verbatim>\<open>fmt.Errorf\<close> is represented by its literal (the format
  string, for \<^verbatim>\<open>Errorf\<close>); \<open>ErrWrap\<close> is an \<^verbatim>\<open>Errorf\<close> whose format ends in \<^verbatim>\<open>%w\<close>. \<open>ErrDriver\<close> stands
  for whatever the SQL driver, the operating system or the random source reports, \<open>ErrUnique\<close> for
  the driver's report of a violated UNIQUE constraint.
\<close>

datatype goerr = ErrNotFound | ErrDriver | ErrUnique | ErrMsg string | ErrWrap string goerr

type_synonym 'a res = "goerr + 'a"

text \<open>\<^verbatim>\<open>errors.Is(err, store.ErrNotFound)\<close>: the chain of wrapped errors is searched.\<close>

fun is_not_found :: "goerr \<Rightarrow> bool" where
  "is_not_found ErrNotFound = True"
| "is_not_found (ErrWrap _ e) = is_not_found e"
| "is_not_found _ = False"

section \<open>Positional notation\<close>

definition horner :: "nat \<Rightarrow> nat list \<Rightarrow> nat" where
  "horner b ds = foldl (\<lambda>a d. a * b + d) 0 ds"

primrec digs :: "nat \<Rightarrow> nat \<Rightarrow> nat \<Rightarrow> nat list" where
  "digs b 0 n = []"
| "digs b (Suc k) n = digs b k (n div b) @ [n mod b]"

section \<open>Characters\<close>

definition digit_char :: "nat \<Rightarrow> char" where
  "digit_char d = ''0123456789abcdef'' ! d"

definition is_digit :: "char \<Rightarrow> bool" where
  "is_digit c \<longleftrightarrow> 48 \<le> (of_char c :: nat) \<and> (of_char c :: nat) \<le> 57"

definition is_lower :: "char \<Rightarrow> bool" where
  "is_lower c \<longleftrightarrow> 97 \<le> (of_char c :: nat) \<and> (of_char c :: nat) \<le> 122"

definition is_upper :: "char \<Rightarrow> bool" where
  "is_upper c \<longleftrightarrow> 65 \<le> (of_char c :: nat) \<and> (of_char c :: nat) \<le> 90"

text \<open>\<^verbatim>\<open>asciiSpace\<close> of Go's \<^verbatim>\<open>strings\<close> package: tab, newline, vertical tab, form feed, return,
  space.\<close>

definition is_space :: "char \<Rightarrow> bool" where
  "is_space c \<longleftrightarrow> (of_char c :: nat) \<in> {9, 10, 11, 12, 13, 32}"

text \<open>The value of a hexadecimal digit, in either case.\<close>

definition hex_val :: "char \<Rightarrow> nat option" where
  "hex_val c = (let n = (of_char c :: nat) in
     if 48 \<le> n \<and> n \<le> 57 then Some (n - 48)
     else if 97 \<le> n \<and> n \<le> 102 then Some (n - 87)
     else if 65 \<le> n \<and> n \<le> 70 then Some (n - 55)
     else None)"

section \<open>The functions of package strings\<close>

definition to_lower_char :: "char \<Rightarrow> char" where
  "to_lower_char c = (if is_upper c then char_of ((of_char c :: nat) + 32) else c)"

definition to_lower :: "string \<Rightarrow> string" where
  "to_lower s = map to_lower_char s"

text \<open>\<^verbatim>\<open>strings.TrimFunc\<close>: drop from both ends while the predicate holds.\<close>

definition trim_func :: "(char \<Rightarrow> bool) \<Rightarrow> string \<Rightarrow> string" where
  "trim_func p s = rev (dropWhile p (rev (dropWhile p s)))"

definition trim_space :: "string \<Rightarrow> string" where
  "trim_space s = trim_func is_space s"

definition has_prefix :: "string \<Rightarrow> string \<Rightarrow> bool" where
  "has_prefix s p \<longleftrightarrow> take (length p) s = p"

definition has_suffix :: "string \<Rightarrow> string \<Rightarrow> bool" where
  "has_suffix s p \<longleftrightarrow> length p \<le> length s \<and> drop (length s - length p) s = p"

definition trim_suffix :: "string \<Rightarrow> string \<Rightarrow> string" where
  "trim_suffix s p = (if has_suffix s p then take (length s - length p) s else s)"

text \<open>\<^verbatim>\<open>strings.Cut(s, sep)\<close> for a one-byte separator: before, after, found.\<close>

definition cut :: "string \<Rightarrow> char \<Rightarrow> string \<times> string \<times> bool" where
  "cut s c = (if c \<in> set s
     then (takeWhile (\<lambda>x. x \<noteq> c) s, tl (dropWhile (\<lambda>x. x \<noteq> c) s), True)
     else (s, [], False))"

section \<open>Numbers as text (package strconv)\<close>

fun itoa :: "nat \<Rightarrow> string" where
  "itoa n = (if n < 10 then [digit_char n] else itoa (n div 10) @ [digit_char (n mod 10)])"

declare itoa.simps [simp del]

text \<open>\<^verbatim>\<open>strconv.ParseUint(s, 10, bits)\<close>: a non-empty run of decimal digits below \<open>2 ^ bits\<close>.\<close>

definition dec_value :: "string \<Rightarrow> nat" where
  "dec_value s = horner 10 (map (\<lambda>c. of_char c - 48) s)"

definition parse_uint :: "nat \<Rightarrow> string \<Rightarrow> nat option" where
  "parse_uint bits s =
     (if s \<noteq> [] \<and> list_all is_digit s \<and> dec_value s < 2 ^ bits then Some (dec_value s) else None)"

text \<open>\<^verbatim>\<open>strconv.ParseInt(s, 10, 64)\<close>: an optional sign, then digits, in the int64 range.\<close>

definition parse_int64 :: "string \<Rightarrow> int option" where
  "parse_int64 s = (case s of
     [] \<Rightarrow> None
   | c # cs \<Rightarrow>
       (let neg = (c = CHR ''-''); body = (if c = CHR ''-'' \<or> c = CHR ''+'' then cs else s) in
        if body = [] \<or> \<not> list_all is_digit body then None
        else (let v = int (dec_value body) in
          if neg then (if v \<le> 2 ^ 63 then Some (- v) else None)
          else (if v < 2 ^ 63 then Some v else None))))"

section \<open>Hexadecimal text (package encoding/hex)\<close>

definition hex_of_byte :: "byte \<Rightarrow> string" where
  "hex_of_byte b = [digit_char (unat b div 16), digit_char (unat b mod 16)]"

definition hex_encode :: "byte list \<Rightarrow> string" where
  "hex_encode bs = concat (map hex_of_byte bs)"

text \<open>\<^verbatim>\<open>hex.DecodeString\<close>: an odd length or a byte that is no hex digit is an error.\<close>

fun hex_decode :: "string \<Rightarrow> byte list option" where
  "hex_decode [] = Some []"
| "hex_decode [c] = None"
| "hex_decode (c # d # s) =
     (case (hex_val c, hex_val d, hex_decode s) of
        (Some x, Some y, Some bs) \<Rightarrow> Some (word_of_nat (x * 16 + y) # bs)
      | _ \<Rightarrow> None)"

section \<open>Big-endian fields (package encoding/binary)\<close>

definition be_bytes :: "nat \<Rightarrow> nat \<Rightarrow> byte list" where
  "be_bytes k n = map word_of_nat (digs 256 k n)"

definition be_value :: "byte list \<Rightarrow> nat" where
  "be_value bs = horner 256 (map unat bs)"

section \<open>Byte arrays\<close>

text \<open>Go's \<^verbatim>\<open>copy(dst, src)\<close>: as many bytes as the shorter of the two holds.\<close>

definition go_copy :: "'a list \<Rightarrow> 'a list \<Rightarrow> 'a list" where
  "go_copy dst src = take (length dst) src @ drop (length src) dst"

definition zero_key :: "byte list" where
  "zero_key = replicate 32 0"

section \<open>Integer conversions\<close>

text \<open>\<^verbatim>\<open>uint64(x)\<close> of an int64 and \<^verbatim>\<open>int64(x)\<close> of a uint64.\<close>

definition u64_of_int64 :: "int \<Rightarrow> 64 word" where
  "u64_of_int64 i = word_of_int i"

definition int64_of_u64 :: "64 word \<Rightarrow> int" where
  "int64_of_u64 w = sint w"

definition is_int64 :: "int \<Rightarrow> bool" where
  "is_int64 i \<longleftrightarrow> - (2 ^ 63) \<le> i \<and> i < 2 ^ 63"

section \<open>Lemmas: positional notation\<close>

lemma horner_Nil [simp]: "horner b [] = 0"
  by (simp add: horner_def)

lemma horner_snoc [simp]: "horner b (ds @ [d]) = horner b ds * b + d"
  by (simp add: horner_def)

lemma length_digs [simp]: "length (digs b k n) = k"
  by (induction k arbitrary: n) auto

lemma horner_digs: "0 < b \<Longrightarrow> horner b (digs b k n) = n mod b ^ k"
proof (induction k arbitrary: n)
  case (Suc k)
  then have "horner b (digs b (Suc k) n) = (n div b mod b ^ k) * b + n mod b"
    by simp
  also have "\<dots> = n mod (b * b ^ k)"
    by (simp add: mod_mult2_eq mult.commute)
  finally show ?case by simp
qed simp

lemma horner_digs_id [simp]: "0 < b \<Longrightarrow> n < b ^ k \<Longrightarrow> horner b (digs b k n) = n"
  by (simp add: horner_digs)

lemma digs_horner: "\<forall>d \<in> set ds. d < b \<Longrightarrow> digs b (length ds) (horner b ds) = ds"
proof (induction ds rule: rev_induct)
  case (snoc d ds)
  then have "d < b" by simp
  then have "(horner b ds * b + d) div b = horner b ds" "(horner b ds * b + d) mod b = d"
    by auto
  with snoc show ?case by simp
qed simp

lemma horner_less: "\<forall>d \<in> set ds. d < b \<Longrightarrow> horner b ds < b ^ length ds"
proof (induction ds rule: rev_induct)
  case (snoc d ds)
  then have IH: "horner b ds < b ^ length ds" and d: "d < b" by auto
  from IH have "Suc (horner b ds) * b \<le> b ^ length ds * b"
    by (intro mult_le_mono1) simp
  with d show ?case by (simp add: mult.commute)
qed simp

lemma set_digs_less: "0 < b \<Longrightarrow> d \<in> set (digs b k n) \<Longrightarrow> d < b"
  by (induction k arbitrary: n) auto

lemma digs_inj: "0 < b \<Longrightarrow> m < b ^ k \<Longrightarrow> n < b ^ k \<Longrightarrow> digs b k m = digs b k n \<Longrightarrow> m = n"
  by (metis horner_digs_id)

section \<open>Lemmas: big-endian fields\<close>

lemma unat_byte_less [simp]: "unat (b :: byte) < 256"
  by (rule order_less_le_trans [OF unsigned_less]) simp

lemma length_be_bytes [simp]: "length (be_bytes k n) = k"
  by (simp add: be_bytes_def)

lemma be_value_be_bytes [codec_simps]: "n < 256 ^ k \<Longrightarrow> be_value (be_bytes k n) = n"
proof -
  assume n: "n < 256 ^ k"
  have "map (unat \<circ> (word_of_nat :: nat \<Rightarrow> byte)) (digs 256 k n) = digs 256 k n"
    by (rule map_idI) (auto simp: unat_of_nat dest: set_digs_less [rotated])
  with n show ?thesis by (simp add: be_value_def be_bytes_def comp_def)
qed

lemma be_bytes_be_value [codec_simps]: "length bs = k \<Longrightarrow> be_bytes k (be_value bs) = bs"
proof -
  assume k: "length bs = k"
  have "\<forall>d \<in> set (map unat bs). d < 256"
    by auto
  from digs_horner [OF this] k have "digs 256 k (be_value bs) = map unat bs"
    by (simp add: be_value_def)
  then show ?thesis by (simp add: be_bytes_def comp_def)
qed

lemma be_value_less: "be_value bs < 256 ^ length bs"
  using horner_less [of "map unat bs" 256] by (auto simp: be_value_def)

lemma horner_append: "horner b (xs @ ys) = horner b xs * b ^ length ys + horner b ys"
  by (induction ys rule: rev_induct) (simp_all add: algebra_simps flip: append_assoc)

lemma be_value_append: "be_value (xs @ ys) = be_value xs * 256 ^ length ys + be_value ys"
  by (simp add: be_value_def horner_append)

lemma digs_append: "digs b (j + k) n = digs b j (n div b ^ k) @ digs b k n"
  by (induction k arbitrary: n) (simp_all add: div_mult2_eq)

lemma be_bytes_append: "be_bytes (j + k) n = be_bytes j (n div 256 ^ k) @ be_bytes k n"
  by (simp add: be_bytes_def digs_append)

lemma trim_space_id: "(\<And>c. c \<in> set s \<Longrightarrow> \<not> is_space c) \<Longrightarrow> trim_space s = s"
proof (cases "s = []")
  case False
  assume "\<And>c. c \<in> set s \<Longrightarrow> \<not> is_space c"
  with False have "\<not> is_space (hd s)" "\<not> is_space (hd (rev s))" by (simp_all add: hd_rev)
  then have "dropWhile is_space s = s" "dropWhile is_space (rev s) = rev s" by (simp_all add: dropWhile_eq_self_iff)
  then show ?thesis by (simp add: trim_space_def trim_func_def)
qed (simp add: trim_space_def trim_func_def)

lemma be_value_inj: "length as = length bs \<Longrightarrow> be_value as = be_value bs \<Longrightarrow> as = bs"
  by (metis be_bytes_be_value)

section \<open>Lemmas: digits and decimal text\<close>

lemma nat_lt_10_cases:
  "(d :: nat) < 10 \<Longrightarrow> d \<in> {0, 1, 2, 3, 4, 5, 6, 7, 8, 9}"
  by auto

lemma nat_lt_16_cases:
  "(d :: nat) < 16 \<Longrightarrow> d \<in> {0, 1, 2, 3, 4, 5, 6, 7, 8, 9, 10, 11, 12, 13, 14, 15}"
  by (simp, arith)

lemma digit_char_dec [text_simps]:
  assumes "d < 10"
  shows "is_digit (digit_char d)" and "of_char (digit_char d) - 48 = d"
  using nat_lt_10_cases [OF assms] by (auto simp: digit_char_def is_digit_def)

lemma hex_val_digit_char [codec_simps]: "d < 16 \<Longrightarrow> hex_val (digit_char d) = Some d"
  using nat_lt_16_cases [of d] by (auto simp: digit_char_def hex_val_def)

lemma itoa_nonempty [text_simps]: "itoa n \<noteq> []"
  by (subst itoa.simps) simp

lemma itoa_digits [text_simps]: "list_all is_digit (itoa n)"
proof (induction n rule: itoa.induct)
  case (1 n)
  then show ?case
    by (cases "n < 10") (auto simp: itoa.simps [of n] text_simps)
qed

lemma dec_value_itoa [codec_simps]: "dec_value (itoa n) = n"
proof (induction n rule: itoa.induct)
  case (1 n)
  show ?case
  proof (cases "n < 10")
    case True
    then show ?thesis
      by (simp add: itoa.simps [of n] dec_value_def horner_def text_simps)
  next
    case False
    with 1 have "horner 10 (map (\<lambda>c. of_char c - 48) (itoa (n div 10))) = n div 10"
      by (simp add: dec_value_def)
    with False show ?thesis
      by (simp add: itoa.simps [of n] dec_value_def text_simps)
  qed
qed

lemma parse_uint_itoa [codec_simps]: "n < 2 ^ bits \<Longrightarrow> parse_uint bits (itoa n) = Some n"
  by (simp add: parse_uint_def codec_simps text_simps)

lemma parse_uint_Some: "parse_uint bits s = Some n \<Longrightarrow> n < 2 ^ bits"
  by (auto simp: parse_uint_def split: if_splits)

lemma itoa_inj [simp]: "itoa m = itoa n \<longleftrightarrow> m = n"
  by (metis dec_value_itoa)

section \<open>Lemmas: hexadecimal text\<close>

lemma length_hex_encode [simp]: "length (hex_encode bs) = 2 * length bs"
  by (induction bs) (auto simp: hex_encode_def hex_of_byte_def)

lemma hex_decode_encode [codec_simps]: "hex_decode (hex_encode bs) = Some bs"
proof (induction bs)
  case Nil
  show ?case by (simp add: hex_encode_def)
next
  case (Cons b bs)
  have "unat b div 16 < 16"
    using unat_byte_less [of b] by linarith
  with Cons show ?case
    by (simp add: hex_encode_def hex_of_byte_def codec_simps)
qed

lemma hex_decode_length: "hex_decode s = Some bs \<Longrightarrow> length s = 2 * length bs"
  by (induction s arbitrary: bs rule: hex_decode.induct) (auto split: option.splits)

section \<open>Lemmas: byte arrays\<close>

lemma length_go_copy [simp]: "length (go_copy dst src) = length dst"
  by (simp add: go_copy_def)

lemma go_copy_full [simp]: "length dst = length src \<Longrightarrow> go_copy dst src = src"
  by (simp add: go_copy_def)

lemma length_zero_key [simp]: "length zero_key = 32"
  by (simp add: zero_key_def)

section \<open>Lemmas: int64 and uint64\<close>

lemma int64_u64_id [codec_simps]: "is_int64 i \<Longrightarrow> int64_of_u64 (u64_of_int64 i) = i"
  by (simp add: is_int64_def int64_of_u64_def u64_of_int64_def signed_of_int
      signed_take_bit_int_eq_self_iff)

lemma u64_int64_id [codec_simps]: "u64_of_int64 (int64_of_u64 w) = w"
  by (simp add: int64_of_u64_def u64_of_int64_def)

section \<open>Interface: a text codec\<close>

text \<open>
  Keys, addresses, prefixes and relay endpoints all travel as text (database columns, protobuf
  string fields, WireGuard's UAPI). What their readers rely on is that decoding what was
  printed gives the value back, for the values a well-formed state holds.
\<close>

locale text_codec =
  fixes enc :: "'a \<Rightarrow> string" and dec :: "string \<Rightarrow> 'a option" and valid :: "'a \<Rightarrow> bool"
  assumes dec_enc: "valid x \<Longrightarrow> dec (enc x) = Some x"
begin

lemma enc_inj: "valid x \<Longrightarrow> valid y \<Longrightarrow> enc x = enc y \<Longrightarrow> x = y"
  by (metis dec_enc option.inject)

lemma enc_eq_iff: "valid x \<Longrightarrow> valid y \<Longrightarrow> enc x = enc y \<longleftrightarrow> x = y"
  using enc_inj by blast

lemma inj_on_enc: "inj_on enc {x. valid x}"
  by (auto intro: inj_onI enc_inj)

lemma distinct_map_enc: "(\<And>x. x \<in> set xs \<Longrightarrow> valid x) \<Longrightarrow> distinct xs \<Longrightarrow> distinct (map enc xs)"
  by (auto simp: distinct_map intro: inj_onI enc_inj)

end

interpretation hex: text_codec hex_encode hex_decode "\<lambda>_. True"
  by unfold_locales (rule hex_decode_encode)

section \<open>Interface: a first-match rule list\<close>

text \<open>
  Both the packet filter and the access-rule table of the control plane are ordered rule lists
  in which the first rule that applies decides and no applying rule means deny.
\<close>

fun first_match :: "('r \<Rightarrow> 'p \<Rightarrow> bool) \<Rightarrow> ('r \<Rightarrow> bool) \<Rightarrow> 'r list \<Rightarrow> 'p \<Rightarrow> bool" where
  "first_match applies verdict [] p = False"
| "first_match applies verdict (r # rs) p =
     (if applies r p then verdict r else first_match applies verdict rs p)"

text \<open>
  The contract between two such lists: a partial translation of rules that keeps what a rule
  says and, when it drops a rule, drops one that could not apply.
\<close>

locale rule_translation =
  fixes src_applies :: "'r \<Rightarrow> 'p \<Rightarrow> bool" and src_verdict :: "'r \<Rightarrow> bool"
    and dst_applies :: "'s \<Rightarrow> 'p \<Rightarrow> bool" and dst_verdict :: "'s \<Rightarrow> bool"
    and trans :: "'r \<Rightarrow> 's option"
    and ok :: "'r \<Rightarrow> bool" and pok :: "'p \<Rightarrow> bool"
  assumes kept: "ok r \<Longrightarrow> pok p \<Longrightarrow> trans r = Some s \<Longrightarrow>
      dst_applies s p = src_applies r p \<and> dst_verdict s = src_verdict r"
    and dropped: "ok r \<Longrightarrow> pok p \<Longrightarrow> trans r = None \<Longrightarrow> \<not> src_applies r p"
begin

lemma first_match_translated:
  "\<forall>r \<in> set rs. ok r \<Longrightarrow> pok p \<Longrightarrow>
   first_match dst_applies dst_verdict (List.map_filter trans rs) p
     = first_match src_applies src_verdict rs p"
  by (induction rs) (auto simp: List.map_filter_simps dest: kept dropped split: option.splits)

end

section \<open>Reachable states\<close>

text \<open>The states a step relation reaches from its initial states, and the interface of an inductive
  invariant: it holds initially and every step keeps it.\<close>

inductive reachable :: "('s \<Rightarrow> bool) \<Rightarrow> ('s \<Rightarrow> 's \<Rightarrow> bool) \<Rightarrow> 's \<Rightarrow> bool"
  for init :: "'s \<Rightarrow> bool" and step :: "'s \<Rightarrow> 's \<Rightarrow> bool"
where
  reachable_init: "init s \<Longrightarrow> reachable init step s"
| reachable_step: "reachable init step s \<Longrightarrow> step s s' \<Longrightarrow> reachable init step s'"

locale inductive_invariant =
  fixes init :: "'s \<Rightarrow> bool" and step :: "'s \<Rightarrow> 's \<Rightarrow> bool" and inv :: "'s \<Rightarrow> bool"
  assumes inv_init: "init s \<Longrightarrow> inv s"
    and inv_step: "inv s \<Longrightarrow> step s s' \<Longrightarrow> inv s'"
begin

lemma reachable_inv: "reachable init step s \<Longrightarrow> inv s"
  by (induction rule: reachable.induct) (auto intro: inv_init inv_step)

lemma steps_inv: "step\<^sup>*\<^sup>* s s' \<Longrightarrow> inv s \<Longrightarrow> inv s'"
  by (induction rule: rtranclp_induct) (auto intro: inv_step)

end

section \<open>Interface: two systems that stay in step\<close>

text \<open>
  Two implementations of one protocol handle the same events. A relation between their states that every event
  keeps, as far as its side condition holds, is kept by every run.
\<close>

primrec run_ok :: "('ev \<Rightarrow> 't \<Rightarrow> bool) \<Rightarrow> ('ev \<Rightarrow> 't \<Rightarrow> 't) \<Rightarrow> 'ev list \<Rightarrow> 't \<Rightarrow> bool" where
  "run_ok ok g [] t \<longleftrightarrow> True"
| "run_ok ok g (e # es) t \<longleftrightarrow> ok e t \<and> run_ok ok g es (g e t)"

locale step_simulation =
  fixes matches :: "'s \<Rightarrow> 't \<Rightarrow> bool" and ok :: "'ev \<Rightarrow> 't \<Rightarrow> bool" and f :: "'ev \<Rightarrow> 's \<Rightarrow> 's" and g :: "'ev \<Rightarrow> 't \<Rightarrow> 't"
  assumes step: "matches s t \<Longrightarrow> ok e t \<Longrightarrow> matches (f e s) (g e t)"
begin

lemma run: "matches s t \<Longrightarrow> run_ok ok g es t \<Longrightarrow> matches (fold f es s) (fold g es t)"
  by (induction es arbitrary: s t) (auto intro: step)

end

section \<open>Text order\<close>

text \<open>Go and SQLite order text by its bytes; \<open>order_by\<close> is a stable sort by a text key.\<close>

fun str_less :: "string \<Rightarrow> string \<Rightarrow> bool" where
  "str_less _ [] = False"
| "str_less [] (_ # _) = True"
| "str_less (a # x) (b # y) = ((of_char a :: nat) < of_char b \<or> a = b \<and> str_less x y)"

fun insert_by :: "('a \<Rightarrow> string) \<Rightarrow> 'a \<Rightarrow> 'a list \<Rightarrow> 'a list" where
  "insert_by f r [] = [r]"
| "insert_by f r (q # qs) = (if str_less (f q) (f r) then q # insert_by f r qs else r # q # qs)"

definition order_by :: "('a \<Rightarrow> string) \<Rightarrow> 'a list \<Rightarrow> 'a list" where
  "order_by f rs = foldr (insert_by f) rs []"

lemma set_insert_by [simp]: "set (insert_by f r rs) = insert r (set rs)"
  by (induction rs) auto

lemma set_order_by [simp]: "set (order_by f rs) = set rs"
  by (induction rs) (simp_all add: order_by_def)

section \<open>Interface: searching for a free name\<close>

text \<open>
  Hostnames and files get the first of a sequence of numbered names that is not taken. The search
  asks for one name after the other; it ends because finitely many names are taken and no name
  comes twice.
\<close>

definition taken_ahead :: "(nat \<Rightarrow> 'a) \<Rightarrow> 'a set \<Rightarrow> nat \<Rightarrow> 'a \<Rightarrow> nat" where
  "taken_ahead f T i x = card {j. i \<le> j \<and> f j \<in> T} + (if x \<in> T then 1 else 0)"

lemma taken_ahead_decreases:
  assumes "finite T" and "inj f" and "x \<in> T"
  shows "taken_ahead f T (Suc i) (f i) < taken_ahead f T i x"
proof -
  let ?J = "\<lambda>i. {j. i \<le> j \<and> f j \<in> T}"
  have "finite {j. f j \<in> T}" using finite_vimageI [OF assms(1,2)] by (simp add: vimage_def)
  then have fin: "finite (?J k)" for k by (rule rev_finite_subset) auto
  have split: "?J i = ?J (Suc i) \<union> (if f i \<in> T then {i} else {})"
    by (auto simp: Suc_le_eq le_less)
  have "card (?J i) = card (?J (Suc i)) + (if f i \<in> T then 1 else 0)"
    unfolding split by (subst card_Un_disjoint) (use fin in auto)
  then show ?thesis using assms(3) by (simp add: taken_ahead_def)
qed

locale free_search =
  fixes f :: "nat \<Rightarrow> 'a" and T :: "'a set" and loop :: "nat \<Rightarrow> 'a \<Rightarrow> 'a"
  assumes finite_taken: "finite T" and numbered_inj: "inj f"
    and loop_taken: "x \<in> T \<Longrightarrow> loop i x = loop (Suc i) (f i)"
    and loop_free: "x \<notin> T \<Longrightarrow> loop i x = x"
begin

lemma search_free:
  "loop i x \<notin> T \<and> (loop i x = x \<or> (\<exists>k \<ge> i. loop i x = f k \<and> insert x (f ` {i..<k}) \<subseteq> T))"
proof (induction "taken_ahead f T i x" arbitrary: i x rule: less_induct)
  case less
  show ?case
  proof (cases "x \<in> T")
    case True
    have IH: "loop (Suc i) (f i) \<notin> T \<and> (loop (Suc i) (f i) = f i \<or>
        (\<exists>k \<ge> Suc i. loop (Suc i) (f i) = f k \<and> insert (f i) (f ` {Suc i..<k}) \<subseteq> T))"
      using less [OF taken_ahead_decreases [OF finite_taken numbered_inj True]] .
    from IH have "\<exists>k \<ge> i. loop i x = f k \<and> insert x (f ` {i..<k}) \<subseteq> T"
    proof (elim conjE disjE exE)
      assume "loop (Suc i) (f i) = f i"
      then show ?thesis using True loop_taken [OF True] by (intro exI [of _ i]) simp
    next
      fix k assume k: "Suc i \<le> k" "loop (Suc i) (f i) = f k" "insert (f i) (f ` {Suc i..<k}) \<subseteq> T"
      have "{i..<k} = insert i {Suc i..<k}" using k(1) by auto
      then show ?thesis using k True loop_taken [OF True] by (intro exI [of _ k]) simp
    qed
    then show ?thesis using IH loop_taken [OF True] by simp
  qed (simp add: loop_free)
qed

end

end
