(* ===== verification/Netip.thy ===== *)
theory Netip
  imports Prelude
begin

text \<open>
  The part of Go's \<^verbatim>\<open>net/netip\<close> that the sources use: addresses, prefixes and address-port
  pairs with their text forms. \<open>Addr\<close> is the zero value \<^verbatim>\<open>netip.Addr{}\<close>, an IPv4 address or an
  IPv6 address with its zone (the empty string for none). The parser of IPv6 text is written
  over the colon-separated fields; it accepts the same strings as the library's byte loop.

  The lemmas show that printing and parsing are inverse on zone-free addresses, on prefixes
  and on address-port pairs, that masking is idempotent and keeps what a prefix contains, and
  what \<^verbatim>\<open>Contains\<close> means as arithmetic.
\<close>

datatype Addr = NoAddr | V4 "32 word" | V6 "128 word" string

datatype Prefix = NoPrefix | Pfx Addr nat

type_synonym AddrPort = "Addr \<times> 16 word"

section \<open>Addresses\<close>

fun addr_is_valid :: "Addr \<Rightarrow> bool" where
  "addr_is_valid NoAddr = False"
| "addr_is_valid _ = True"

fun addr_is4 :: "Addr \<Rightarrow> bool" where
  "addr_is4 (V4 _) = True"
| "addr_is4 _ = False"

fun addr_is6 :: "Addr \<Rightarrow> bool" where
  "addr_is6 (V6 _ _) = True"
| "addr_is6 _ = False"

fun addr_is4in6 :: "Addr \<Rightarrow> bool" where
  "addr_is4in6 (V6 w _) \<longleftrightarrow> unat w div 2 ^ 32 = 0xffff"
| "addr_is4in6 _ \<longleftrightarrow> False"

fun addr_unmap :: "Addr \<Rightarrow> Addr" where
  "addr_unmap (V6 w z) = (if addr_is4in6 (V6 w z) then V4 (ucast w) else V6 w z)"
| "addr_unmap a = a"

fun addr_zone :: "Addr \<Rightarrow> string" where
  "addr_zone (V6 _ z) = z"
| "addr_zone _ = []"

definition no_zone :: "Addr \<Rightarrow> bool" where
  "no_zone a \<longleftrightarrow> addr_zone a = []"

text \<open>\<^verbatim>\<open>Addr.Next\<close>: the zero address past the end.\<close>

fun addr_next :: "Addr \<Rightarrow> Addr" where
  "addr_next (V4 w) = (if w + 1 = 0 then NoAddr else V4 (w + 1))"
| "addr_next (V6 w z) = (if w + 1 = 0 then NoAddr else V6 (w + 1) z)"
| "addr_next NoAddr = NoAddr"

definition as16 :: "128 word \<Rightarrow> byte list" where
  "as16 w = be_bytes 16 (unat w)"

definition addr_from16 :: "byte list \<Rightarrow> Addr" where
  "addr_from16 bs = V6 (word_of_nat (be_value bs)) []"

definition addr_from4 :: "byte list \<Rightarrow> Addr" where
  "addr_from4 bs = V4 (word_of_nat (be_value bs))"

text \<open>\<^verbatim>\<open>AddrFromSlice\<close>: only 4 and 16 bytes make an address.\<close>

definition addr_from_slice :: "byte list \<Rightarrow> Addr option" where
  "addr_from_slice bs = (if length bs = 4 then Some (addr_from4 bs)
     else if length bs = 16 then Some (addr_from16 bs) else None)"

section \<open>Prefixes\<close>

fun prefix_is_valid :: "Prefix \<Rightarrow> bool" where
  "prefix_is_valid NoPrefix = False"
| "prefix_is_valid (Pfx _ _) = True"

fun prefix_addr :: "Prefix \<Rightarrow> Addr" where
  "prefix_addr NoPrefix = NoAddr"
| "prefix_addr (Pfx a _) = a"

text \<open>\<^verbatim>\<open>Bits\<close> is -1 for the zero prefix.\<close>

fun prefix_bits :: "Prefix \<Rightarrow> int" where
  "prefix_bits NoPrefix = -1"
| "prefix_bits (Pfx _ b) = int b"

fun addr_bit_len :: "Addr \<Rightarrow> nat" where
  "addr_bit_len NoAddr = 0"
| "addr_bit_len (V4 _) = 32"
| "addr_bit_len (V6 _ _) = 128"

text \<open>The prefixes \<^verbatim>\<open>PrefixFrom\<close> and \<^verbatim>\<open>ParsePrefix\<close> can make.\<close>

fun prefix_ok :: "Prefix \<Rightarrow> bool" where
  "prefix_ok NoPrefix = False"
| "prefix_ok (Pfx a b) = (addr_is_valid a \<and> no_zone a \<and> b \<le> addr_bit_len a)"

fun without_zone :: "Addr \<Rightarrow> Addr" where
  "without_zone (V6 w _) = V6 w []"
| "without_zone a = a"

definition prefix_from :: "Addr \<Rightarrow> nat \<Rightarrow> Prefix" where
  "prefix_from a b =
     (if addr_is_valid a \<and> b \<le> addr_bit_len a then Pfx (without_zone a) b else NoPrefix)"

fun masked :: "Prefix \<Rightarrow> Prefix" where
  "masked (Pfx (V4 w) b) = Pfx (V4 (w AND NOT (mask (32 - b)))) b"
| "masked (Pfx (V6 w z) b) = Pfx (V6 (w AND NOT (mask (128 - b))) []) b"
| "masked _ = NoPrefix"

text \<open>\<^verbatim>\<open>Prefix.Contains\<close>: never an address of the other family, never one with a zone.\<close>

fun prefix_contains :: "Prefix \<Rightarrow> Addr \<Rightarrow> bool" where
  "prefix_contains (Pfx (V4 p) b) (V4 w) = (drop_bit (32 - b) (w XOR p) = 0)"
| "prefix_contains (Pfx (V6 p _) b) (V6 w z) = (z = [] \<and> (w XOR p) AND NOT (mask (128 - b)) = 0)"
| "prefix_contains _ _ = False"

section \<open>Splitting text\<close>

fun split_on :: "char \<Rightarrow> string \<Rightarrow> string list" where
  "split_on c [] = [[]]"
| "split_on c (x # xs) =
     (if x = c then [] # split_on c xs
      else (case split_on c xs of [] \<Rightarrow> [[x]] | f # fs \<Rightarrow> (x # f) # fs))"

fun join :: "char \<Rightarrow> string list \<Rightarrow> string" where
  "join c [] = []"
| "join c [f] = f"
| "join c (f # fs) = f @ c # join c fs"

text \<open>\<^verbatim>\<open>LastIndexByte\<close>: the text before and after the last occurrence.\<close>

fun split_last :: "char \<Rightarrow> string \<Rightarrow> (string \<times> string) option" where
  "split_last c [] = None"
| "split_last c (x # xs) =
     (case split_last c xs of
        Some (a, b) \<Rightarrow> Some (x # a, b)
      | None \<Rightarrow> if x = c then Some ([], xs) else None)"

fun cut_ellipsis :: "string \<Rightarrow> (string \<times> string) option" where
  "cut_ellipsis (a # b # s) =
     (if a = CHR '':'' \<and> b = CHR '':'' then Some ([], s)
      else map_option (\<lambda>(l, r). (a # l, r)) (cut_ellipsis (b # s)))"
| "cut_ellipsis _ = None"

section \<open>IPv4 text\<close>

definition octet_of :: "string \<Rightarrow> nat option" where
  "octet_of f = (if f \<noteq> [] \<and> list_all is_digit f \<and> (length f = 1 \<or> hd f \<noteq> CHR ''0'')
     \<and> dec_value f \<le> 255 then Some (dec_value f) else None)"

fun all_some :: "'a option list \<Rightarrow> 'a list option" where
  "all_some [] = Some []"
| "all_some (None # _) = None"
| "all_some (Some x # xs) = map_option (Cons x) (all_some xs)"

definition parse_ipv4_fields :: "string \<Rightarrow> nat list option" where
  "parse_ipv4_fields s = (case all_some (map octet_of (split_on CHR ''.'' s)) of
     Some os \<Rightarrow> (if length os = 4 then Some os else None) | None \<Rightarrow> None)"

definition parse_ipv4 :: "string \<Rightarrow> Addr option" where
  "parse_ipv4 s = map_option (\<lambda>os. V4 (word_of_nat (horner 256 os))) (parse_ipv4_fields s)"

definition ipv4_text :: "32 word \<Rightarrow> string" where
  "ipv4_text w = join CHR ''.'' (map itoa (digs 256 4 (unat w)))"

section \<open>IPv6 text\<close>

fun hexs :: "nat \<Rightarrow> string" where
  "hexs n = (if n < 16 then [digit_char n] else hexs (n div 16) @ [digit_char (n mod 16)])"

declare hexs.simps [simp del]

definition hex_group :: "string \<Rightarrow> nat option" where
  "hex_group f = (case all_some (map hex_val f) of
     Some ds \<Rightarrow> (if 1 \<le> length f \<and> length f \<le> 4 then Some (horner 16 ds) else None)
   | None \<Rightarrow> None)"

text \<open>The fields of one side of the ellipsis; only a last field may be an embedded IPv4.\<close>

fun hex_groups :: "bool \<Rightarrow> string list \<Rightarrow> nat list option" where
  "hex_groups v4ok [] = Some []"
| "hex_groups v4ok [f] =
     (if v4ok \<and> CHR ''.'' \<in> set f
      then map_option (\<lambda>os. digs 65536 2 (horner 256 os)) (parse_ipv4_fields f)
      else map_option (\<lambda>g. [g]) (hex_group f))"
| "hex_groups v4ok (f # fs) =
     (case (hex_group f, hex_groups v4ok fs) of
        (Some g, Some gs) \<Rightarrow> Some (g # gs) | _ \<Rightarrow> None)"

definition side_groups :: "bool \<Rightarrow> string \<Rightarrow> nat list option" where
  "side_groups v4ok s = (if s = [] then Some [] else hex_groups v4ok (split_on CHR '':'' s))"

definition parse_ipv6_body :: "string \<Rightarrow> nat list option" where
  "parse_ipv6_body s = (case cut_ellipsis s of
     None \<Rightarrow> (case hex_groups True (split_on CHR '':'' s) of
        Some gs \<Rightarrow> (if length gs = 8 then Some gs else None) | None \<Rightarrow> None)
   | Some (l, r) \<Rightarrow> (case (side_groups False l, side_groups True r) of
        (Some ls, Some rs) \<Rightarrow>
          (if length ls + length rs \<le> 7
           then Some (ls @ replicate (8 - length ls - length rs) 0 @ rs) else None)
      | _ \<Rightarrow> None))"

definition parse_ipv6 :: "string \<Rightarrow> Addr option" where
  "parse_ipv6 s = (let (body, zone, found) = cut s CHR ''%'' in
     if found \<and> zone = [] then None
     else map_option (\<lambda>gs. V6 (word_of_nat (horner 65536 gs)) zone) (parse_ipv6_body body))"

definition parse_addr :: "string \<Rightarrow> Addr option" where
  "parse_addr s = (case find (\<lambda>c. c \<in> set ''.:%'') s of
     None \<Rightarrow> None
   | Some c \<Rightarrow> (if c = CHR ''.'' then parse_ipv4 s
       else if c = CHR '':'' then parse_ipv6 s else None))"

definition groups6 :: "128 word \<Rightarrow> nat list" where
  "groups6 w = digs 65536 8 (unat w)"

definition zero_run :: "nat list \<Rightarrow> nat \<Rightarrow> nat" where
  "zero_run gs i = length (takeWhile (\<lambda>g. g = 0) (drop i gs))"

text \<open>The first longest run of at least two zero groups, as (start, end).\<close>

definition longest_zeros :: "nat list \<Rightarrow> (nat \<times> nat) option" where
  "longest_zeros gs = fold (\<lambda>i best.
       let l = zero_run gs i; old = (case best of None \<Rightarrow> 0 | Some (s, e) \<Rightarrow> e - s)
       in if 2 \<le> l \<and> old < l then Some (i, i + l) else best) [0..<8] None"

definition ipv6_body_text :: "nat list \<Rightarrow> string" where
  "ipv6_body_text gs = (case longest_zeros gs of
     None \<Rightarrow> join CHR '':'' (map hexs gs)
   | Some (s, e) \<Rightarrow> join CHR '':'' (map hexs (take s gs)) @ ''::'' @ join CHR '':'' (map hexs (drop e gs)))"

fun addr_text :: "Addr \<Rightarrow> string" where
  "addr_text NoAddr = ''invalid IP''"
| "addr_text (V4 w) = ipv4_text w"
| "addr_text (V6 w z) =
     (if addr_is4in6 (V6 w z) then ''::ffff:'' @ ipv4_text (ucast w)
      else ipv6_body_text (groups6 w)) @ (if z = [] then [] else CHR ''%'' # z)"

section \<open>Prefix and address-port text\<close>

definition parse_bits :: "string \<Rightarrow> nat option" where
  "parse_bits s = (if s \<noteq> [] \<and> list_all is_digit s \<and> (length s = 1 \<or> hd s \<noteq> CHR ''0'')
     then Some (dec_value s) else None)"

definition parse_prefix :: "string \<Rightarrow> Prefix option" where
  "parse_prefix s = (case split_last CHR ''/'' s of
     None \<Rightarrow> None
   | Some (ip, bits) \<Rightarrow> (case parse_addr ip of
       None \<Rightarrow> None
     | Some a \<Rightarrow> (if \<not> no_zone a then None
         else (case parse_bits bits of
            None \<Rightarrow> None
          | Some b \<Rightarrow> (if b \<le> addr_bit_len a then Some (prefix_from a b) else None)))))"

fun prefix_text :: "Prefix \<Rightarrow> string" where
  "prefix_text NoPrefix = ''invalid Prefix''"
| "prefix_text (Pfx a b) = addr_text a @ CHR ''/'' # itoa b"

definition parse_addr_port :: "string \<Rightarrow> AddrPort option" where
  "parse_addr_port s = (case split_last CHR '':'' s of
     None \<Rightarrow> None
   | Some (ip, port) \<Rightarrow>
       if ip = [] \<or> port = [] then None
       else (let v6 = (hd ip = CHR ''[''); inner = (if v6 then butlast (tl ip) else ip) in
         if v6 \<and> (length ip < 2 \<or> last ip \<noteq> CHR '']'') then None
         else (case (parse_uint 16 port, parse_addr inner) of
            (Some p, Some a) \<Rightarrow>
              (if v6 \<and> addr_is4 a \<or> \<not> v6 \<and> addr_is6 a then None else Some (a, word_of_nat p))
          | _ \<Rightarrow> None)))"

fun addr_port_text :: "AddrPort \<Rightarrow> string" where
  "addr_port_text (NoAddr, p) = ''invalid AddrPort''"
| "addr_port_text (V4 w, p) = addr_text (V4 w) @ CHR '':'' # itoa (unat p)"
| "addr_port_text (V6 w z, p) = ''['' @ addr_text (V6 w z) @ '']:'' @ itoa (unat p)"

section \<open>Lemmas: splitting and joining\<close>

lemma split_on_sep [simp]: "c \<notin> set f \<Longrightarrow> split_on c (f @ c # s) = f # split_on c s"
  by (induction f) auto

lemma split_on_free [simp]: "c \<notin> set f \<Longrightarrow> split_on c f = [f]"
  by (induction f) auto

lemma split_on_join:
  "fs \<noteq> [] \<Longrightarrow> \<forall>f \<in> set fs. c \<notin> set f \<Longrightarrow> split_on c (join c fs) = fs"
  by (induction c fs rule: join.induct) auto

lemma set_join: "set (join c fs) \<subseteq> insert c (\<Union>f \<in> set fs. set f)"
  by (induction c fs rule: join.induct) auto

lemma join_sep: "2 \<le> length fs \<Longrightarrow> c \<in> set (join c fs)"
  by (induction c fs rule: join.induct) auto

lemma split_last_free [simp]: "c \<notin> set s \<Longrightarrow> split_last c s = None"
  by (induction s) auto

lemma split_last_sep [simp]: "c \<notin> set b \<Longrightarrow> split_last c (a @ c # b) = Some (a, b)"
  by (induction a) auto

lemma all_some_map:
  "\<forall>x \<in> set xs. f x = Some (g x) \<Longrightarrow> all_some (map f xs) = Some (map g xs)"
  by (induction xs) auto

lemma cut_free [simp]: "c \<notin> set s \<Longrightarrow> cut s c = (s, [], False)"
  by (simp add: cut_def)

section \<open>Lemmas: characters of printed numbers\<close>

definition is_hex_digit :: "char \<Rightarrow> bool" where
  "is_hex_digit c \<longleftrightarrow> c \<in> set ''0123456789abcdef''"

lemma hex_digit_char: "d < 16 \<Longrightarrow> is_hex_digit (digit_char d)"
  using nat_lt_16_cases [of d] by (auto simp: is_hex_digit_def digit_char_def)

lemma hex_digit_not_special:
  "is_hex_digit c \<Longrightarrow> c \<noteq> CHR '':'' \<and> c \<noteq> CHR ''.'' \<and> c \<noteq> CHR ''%'' \<and> c \<noteq> CHR ''/'' \<and> c \<noteq> CHR ''[''"
  by (auto simp: is_hex_digit_def)

lemma itoa_hex: "c \<in> set (itoa n) \<Longrightarrow> is_hex_digit c"
proof (induction n rule: itoa.induct)
  case (1 n)
  then show ?case
    by (cases "n < 10") (auto simp: itoa.simps [of n] intro: hex_digit_char)
qed

lemma itoa_0: "itoa 0 = ''0''"
  by (simp add: itoa.simps digit_char_def)

lemma itoa_hd: "0 < n \<Longrightarrow> hd (itoa n) \<noteq> CHR ''0''"
proof (induction n rule: itoa.induct)
  case (1 n)
  show ?case
  proof (cases "n < 10")
    case True
    with 1 nat_lt_10_cases [OF True] show ?thesis
      by (auto simp: itoa.simps [of n] digit_char_def)
  next
    case False
    with 1 have "hd (itoa (n div 10)) \<noteq> CHR ''0''" by simp
    with False show ?thesis by (simp add: itoa.simps [of n] itoa_nonempty)
  qed
qed

lemma itoa_no_leading_zero: "length (itoa n) = 1 \<or> hd (itoa n) \<noteq> CHR ''0''"
  by (cases "n = 0") (auto simp: itoa_0 itoa_hd)

section \<open>Lemmas: IPv4 text\<close>

lemma octet_of_itoa [codec_simps]: "n \<le> 255 \<Longrightarrow> octet_of (itoa n) = Some n"
  using itoa_no_leading_zero [of n]
  by (simp add: octet_of_def itoa_nonempty itoa_digits dec_value_itoa)

lemma itoa_sep_free: "\<not> is_hex_digit c \<Longrightarrow> c \<notin> set (itoa n)"
  by (auto dest: itoa_hex)

lemma ipv4_text_fields:
  "split_on CHR ''.'' (ipv4_text w) = map itoa (digs 256 4 (unat w))"
  unfolding ipv4_text_def
proof (rule split_on_join)
  have "length (digs 256 4 (unat w)) = 4" by simp
  then show "map itoa (digs 256 4 (unat w)) \<noteq> []" by (metis length_0_conv length_map zero_neq_numeral)
  show "\<forall>f \<in> set (map itoa (digs 256 4 (unat w))). CHR ''.'' \<notin> set f"
    by (auto dest!: itoa_hex simp: is_hex_digit_def)
qed

lemma parse_ipv4_fields_text [codec_simps]:
  "parse_ipv4_fields (ipv4_text w) = Some (digs 256 4 (unat w))"
proof -
  have "\<forall>n \<in> set (digs 256 4 (unat w)). n \<le> 255"
    using set_digs_less [of 256] by fastforce
  then have "all_some (map (octet_of \<circ> itoa) (digs 256 4 (unat w))) = Some (digs 256 4 (unat w))"
    by (subst all_some_map [where g = "\<lambda>x. x"]) (auto simp: octet_of_itoa)
  then show ?thesis
    by (simp add: parse_ipv4_fields_def ipv4_text_fields)
qed

lemma unat_lt_2_32: "unat (w :: 32 word) < 4294967296"
  by (rule order_less_le_trans [OF unsigned_less]) simp

lemma horner_octets: "horner 256 (digs 256 4 (unat (w :: 32 word))) = unat w"
  using unat_lt_2_32 [of w] by (simp add: horner_digs)

lemma parse_ipv4_text [codec_simps]: "parse_ipv4 (ipv4_text w) = Some (V4 w)"
  by (simp add: parse_ipv4_def codec_simps horner_octets)

lemma set_ipv4_text: "c \<in> set (ipv4_text w) \<Longrightarrow> is_hex_digit c \<or> c = CHR ''.''"
  using set_join [of "CHR ''.''" "map itoa (digs 256 4 (unat w))"]
  by (auto simp: ipv4_text_def dest: itoa_hex)

lemma ipv4_text_dot: "CHR ''.'' \<in> set (ipv4_text w)"
  by (simp add: ipv4_text_def join_sep)

lemma find_special:
  assumes "\<forall>c \<in> set s. is_hex_digit c \<or> c = d" and "d \<in> set s" and "d \<in> set ''.:%''"
  shows "find (\<lambda>c. c \<in> set ''.:%'') s = Some d"
  using assms by (induction s) (auto dest: hex_digit_not_special)

lemma parse_addr_v4 [codec_simps]: "parse_addr (ipv4_text w) = Some (V4 w)"
proof -
  have "find (\<lambda>c. c \<in> set ''.:%'') (ipv4_text w) = Some CHR ''.''"
    by (rule find_special) (auto dest: set_ipv4_text simp: ipv4_text_dot)
  then show ?thesis by (simp add: parse_addr_def parse_ipv4_text)
qed

section \<open>Lemmas: IPv6 text\<close>

lemma hexs_hex: "c \<in> set (hexs n) \<Longrightarrow> is_hex_digit c"
proof (induction n rule: hexs.induct)
  case (1 n)
  then show ?case
    by (cases "n < 16") (auto simp: hexs.simps [of n] intro: hex_digit_char)
qed

lemma hexs_sep_free: "CHR '':'' \<notin> set (hexs n)" "CHR ''.'' \<notin> set (hexs n)"
  by (auto dest: hexs_hex hex_digit_not_special)

lemma hexs_nonempty: "hexs n \<noteq> []"
  by (subst hexs.simps) simp

lemma hexs_length: "n < 16 ^ Suc k \<Longrightarrow> length (hexs n) \<le> Suc k"
proof (induction k arbitrary: n)
  case 0
  then show ?case by (simp add: hexs.simps [of n])
next
  case (Suc k)
  then have "n div 16 < 16 ^ Suc k" by (simp add: less_mult_imp_div_less)
  from Suc.IH [OF this] show ?case by (simp add: hexs.simps [of n])
qed

lemma hexs_value:
  "\<exists>ds. all_some (map hex_val (hexs n)) = Some ds \<and> horner 16 ds = n"
proof (induction n rule: hexs.induct)
  case (1 n)
  show ?case
  proof (cases "n < 16")
    case True
    then show ?thesis
      by (simp add: hexs.simps [of n] hex_val_digit_char horner_def)
  next
    case False
    with 1 obtain ds where ds: "all_some (map hex_val (hexs (n div 16))) = Some ds"
      "horner 16 ds = n div 16" by auto
    have "all_some (xs @ [Some y]) = map_option (\<lambda>zs. zs @ [y]) (all_some xs)" for xs :: "nat option list" and y
      by (induction xs rule: all_some.induct) (auto simp: option.map_comp comp_def)
    with ds have "all_some (map hex_val (hexs n)) = Some (ds @ [n mod 16])"
      using False by (simp add: hexs.simps [of n] hex_val_digit_char)
    with ds show ?thesis by (intro exI [of _ "ds @ [n mod 16]"]) simp
  qed
qed

lemma hex_group_hexs [codec_simps]:
  assumes "n < 65536"
  shows "hex_group (hexs n) = Some n"
proof -
  obtain ds where "all_some (map hex_val (hexs n)) = Some ds" "horner 16 ds = n"
    using hexs_value by blast
  moreover have "length (hexs n) \<le> 4" "1 \<le> length (hexs n)"
    using assms hexs_length [of n 3] hexs_nonempty [of n] by (auto simp: Suc_le_eq)
  ultimately show ?thesis by (simp add: hex_group_def)
qed

lemma hex_groups_hexs [codec_simps]:
  "\<forall>g \<in> set gs. g < 65536 \<Longrightarrow> hex_groups v (map hexs gs) = Some gs"
  by (induction gs rule: induct_list012) (auto simp: hex_group_hexs hexs_sep_free)

lemma side_groups_text [codec_simps]:
  assumes "\<forall>g \<in> set gs. g < 65536"
  shows "side_groups v (join CHR '':'' (map hexs gs)) = Some gs"
proof (cases gs)
  case Nil
  then show ?thesis by (simp add: side_groups_def)
next
  case (Cons g hs)
  then have "join CHR '':'' (map hexs gs) \<noteq> []"
    by (cases hs) (auto simp: hexs_nonempty)
  moreover from Cons have "split_on CHR '':'' (join CHR '':'' (map hexs gs)) = map hexs gs"
    by (intro split_on_join) (auto simp: hexs_sep_free)
  ultimately show ?thesis
    using assms by (simp add: side_groups_def hex_groups_hexs)
qed

lemma cut_ellipsis_free:
  "CHR '':'' \<notin> set f \<Longrightarrow> cut_ellipsis (f @ s) = map_option (\<lambda>(l, r). (f @ l, r)) (cut_ellipsis s)"
proof (induction f)
  case Nil
  then show ?case by (simp add: case_prod_unfold option.map_ident)
next
  case (Cons a f)
  then show ?case
    by (cases "f @ s") (auto simp: option.map_comp comp_def case_prod_unfold)
qed

lemma cut_ellipsis_join:
  "\<forall>f \<in> set fs. f \<noteq> [] \<and> CHR '':'' \<notin> set f \<Longrightarrow> cut_ellipsis (join CHR '':'' fs) = None"
proof (induction "CHR '':''" fs rule: join.induct)
  case 1
  then show ?case by simp
next
  case (2 f)
  then show ?case using cut_ellipsis_free [of f "[]"] by simp
next
  case (3 f g fs)
  then obtain x xs where x: "join CHR '':'' (g # fs) = x # xs" "x \<noteq> CHR '':''"
    by (cases g; cases fs) auto
  with 3 have "cut_ellipsis (CHR '':'' # join CHR '':'' (g # fs)) = None" by simp
  with 3 show ?case using cut_ellipsis_free [of f] by simp
qed

lemma cut_ellipsis_found:
  "cut_ellipsis t = None \<Longrightarrow> t = [] \<or> last t \<noteq> CHR '':'' \<Longrightarrow>
   cut_ellipsis (t @ ''::'' @ r) = Some (t, r)"
  by (induction t rule: cut_ellipsis.induct) (auto split: if_splits)

lemma join_hexs_nonempty: "gs \<noteq> [] \<Longrightarrow> join CHR '':'' (map hexs gs) \<noteq> []"
  by (induction gs rule: induct_list012) (auto simp: hexs_nonempty)

lemma last_hexs: "last (hexs n) \<noteq> CHR '':''"
  using hexs_sep_free [of n] hexs_nonempty [of n] by (metis last_in_set)

lemma last_hexs_join:
  "gs \<noteq> [] \<Longrightarrow> last (join CHR '':'' (map hexs gs)) \<noteq> CHR '':''"
proof (induction gs rule: induct_list012)
  case (3 g h gs)
  then show ?case using join_hexs_nonempty [of "h # gs"] by simp
qed (auto simp: last_hexs)

lemma cut_ellipsis_hexs:
  "cut_ellipsis (join CHR '':'' (map hexs gs)) = None"
  by (rule cut_ellipsis_join) (auto simp: hexs_nonempty hexs_sep_free)

lemma cut_ellipsis_hexs_found:
  "cut_ellipsis (join CHR '':'' (map hexs gs) @ ''::'' @ r) = Some (join CHR '':'' (map hexs gs), r)"
  by (rule cut_ellipsis_found) (cases "gs = []"; simp add: cut_ellipsis_hexs last_hexs_join)+

lemma zero_run_le: "i + zero_run gs i \<le> max i (length gs)"
proof -
  have "zero_run gs i \<le> length gs - i"
    unfolding zero_run_def using length_takeWhile_le [of _ "drop i gs"] by simp
  then show ?thesis by simp
qed

lemma zero_run_zeros: "take (zero_run gs i) (drop i gs) = replicate (zero_run gs i) 0"
proof -
  have "take (zero_run gs i) (drop i gs) = takeWhile (\<lambda>g. g = 0) (drop i gs)"
    unfolding zero_run_def by (metis takeWhile_eq_take)
  moreover have "x \<in> set (takeWhile (\<lambda>g. g = 0) (drop i gs)) \<Longrightarrow> x = 0" for x
    by (auto dest: set_takeWhileD)
  ultimately show ?thesis
    by (metis replicate_eqI zero_run_def)
qed

lemma longest_zeros_Some:
  assumes "longest_zeros gs = Some (s, e)"
  shows "s < 8 \<and> e = s + zero_run gs s \<and> 2 \<le> zero_run gs s"
proof -
  let ?P = "\<lambda>best. \<forall>s e. best = Some (s, e) \<longrightarrow> s < 8 \<and> e = s + zero_run gs s \<and> 2 \<le> zero_run gs s"
  have "?P (longest_zeros gs)"
    unfolding longest_zeros_def
    by (rule fold_invariant [where Q = "\<lambda>i. i < 8"]) (auto simp: Let_def split: if_splits)
  with assms show ?thesis by blast
qed

lemma longest_zeros_split:
  assumes "longest_zeros gs = Some (s, e)" and "length gs = 8"
  shows "s + 2 \<le> e" and "e \<le> 8" and "gs = take s gs @ replicate (e - s) 0 @ drop e gs"
proof -
  from longest_zeros_Some [OF assms(1)]
  have s: "s < 8" and e: "e = s + zero_run gs s" and two: "2 \<le> zero_run gs s" by auto
  show "s + 2 \<le> e" using e two by simp
  show "e \<le> 8" using zero_run_le [of s gs] s e assms(2) by simp
  have "drop s gs = take (zero_run gs s) (drop s gs) @ drop (zero_run gs s) (drop s gs)"
    by (metis append_take_drop_id)
  then have "drop s gs = replicate (e - s) 0 @ drop e gs"
    by (simp add: zero_run_zeros e add.commute)
  then show "gs = take s gs @ replicate (e - s) 0 @ drop e gs"
    by (metis append_take_drop_id)
qed

lemma parse_ipv6_body_text [codec_simps]:
  assumes len: "length gs = 8" and small: "\<forall>g \<in> set gs. g < 65536"
  shows "parse_ipv6_body (ipv6_body_text gs) = Some gs"
proof (cases "longest_zeros gs")
  case None
  have "split_on CHR '':'' (join CHR '':'' (map hexs gs)) = map hexs gs"
    using len by (intro split_on_join) (auto simp: hexs_sep_free)
  with None len small show ?thesis
    by (simp add: ipv6_body_text_def parse_ipv6_body_def cut_ellipsis_hexs hex_groups_hexs)
next
  case (Some se)
  then obtain s e where se: "longest_zeros gs = Some (s, e)" by (cases se) auto
  note sp = longest_zeros_split [OF se len]
  have "\<forall>g \<in> set (take s gs). g < 65536" and "\<forall>g \<in> set (drop e gs). g < 65536"
    using small by (auto dest: in_set_takeD in_set_dropD)
  then have sides: "side_groups False (join CHR '':'' (map hexs (take s gs))) = Some (take s gs)"
    "side_groups True (join CHR '':'' (map hexs (drop e gs))) = Some (drop e gs)"
    by (simp_all only: side_groups_text)
  have "8 - length (take s gs) - length (drop e gs) = e - s"
    using sp(1,2) len by simp
  moreover have "length (take s gs) + length (drop e gs) \<le> 7"
    using sp(1,2) len by simp
  ultimately show ?thesis
    using sp(3) sides
    by (simp only: ipv6_body_text_def se option.case prod.case parse_ipv6_body_def
        cut_ellipsis_hexs_found if_True)
qed

lemma groups6_small: "\<forall>g \<in> set (groups6 w). g < 65536"
  by (auto simp: groups6_def dest: set_digs_less [rotated])

lemma unat_lt_2_128: "unat (w :: 128 word) < 65536 ^ 8"
  by (rule order_less_le_trans [OF unsigned_less]) simp

lemma horner_groups6 [codec_simps]: "horner 65536 (groups6 w) = unat w"
  using unat_lt_2_128 [of w] by (simp add: groups6_def)

lemma set_ipv6_body_text: "c \<in> set (ipv6_body_text gs) \<Longrightarrow> is_hex_digit c \<or> c = CHR '':''"
  using set_join [of "CHR '':''" "map hexs gs"]
    set_join [of "CHR '':''" "map hexs (take (fst (the (longest_zeros gs))) gs)"]
    set_join [of "CHR '':''" "map hexs (drop (snd (the (longest_zeros gs))) gs)"]
  by (auto simp: ipv6_body_text_def split: option.splits dest: hexs_hex)

lemma ipv6_body_text_colon: "length gs = 8 \<Longrightarrow> CHR '':'' \<in> set (ipv6_body_text gs)"
  by (auto simp: ipv6_body_text_def join_sep split: option.splits)

lemma special_not_hex: "\<not> is_hex_digit CHR ''%''" "\<not> is_hex_digit CHR '':''"
  "\<not> is_hex_digit CHR ''.''" "\<not> is_hex_digit CHR ''/''" "\<not> is_hex_digit CHR ''[''"
  by (auto simp: is_hex_digit_def)

lemma parse_addr_v6_plain:
  assumes "\<not> addr_is4in6 (V6 w [])"
  shows "parse_addr (addr_text (V6 w [])) = Some (V6 w [])"
proof -
  let ?t = "ipv6_body_text (groups6 w)"
  have len: "length (groups6 w) = 8" by (simp add: groups6_def)
  have "CHR ''%'' \<notin> set ?t"
    by (auto dest: set_ipv6_body_text simp: special_not_hex)
  moreover have "find (\<lambda>c. c \<in> set ''.:%'') ?t = Some CHR '':''"
    by (rule find_special) (auto dest: set_ipv6_body_text simp: ipv6_body_text_colon len)
  ultimately show ?thesis
    using assms
    by (simp add: parse_addr_def parse_ipv6_def parse_ipv6_body_text len groups6_small horner_groups6)
qed

lemma digs_65536_2: "n < 4294967296 \<Longrightarrow> digs 65536 2 n = [n div 65536, n mod 65536]"
  by (simp add: numeral_2_eq_2)

lemma ipv4_text_free: "CHR '':'' \<notin> set (ipv4_text u)" "CHR ''%'' \<notin> set (ipv4_text u)"
    "CHR ''['' \<notin> set (ipv4_text u)"
  by (auto dest: set_ipv4_text simp: special_not_hex)

lemma side_groups_mapped:
  "side_groups True (''ffff:'' @ ipv4_text u) = Some [65535, unat u div 65536, unat u mod 65536]"
proof -
  have "split_on CHR '':'' (''ffff:'' @ ipv4_text u) = [''ffff'', ipv4_text u]"
    by (simp add: ipv4_text_free)
  moreover have "hex_group ''ffff'' = Some 65535"
    by (simp add: hex_group_def hex_val_def horner_def)
  moreover have "hex_groups True [ipv4_text u] = Some [unat u div 65536, unat u mod 65536]"
    using digs_65536_2 [OF unat_lt_2_32 [of u]]
    by (simp add: ipv4_text_dot parse_ipv4_fields_text horner_octets)
  moreover have "hex_groups True [''ffff'', ipv4_text u]
      = (case (hex_group ''ffff'', hex_groups True [ipv4_text u]) of
           (Some g, Some gs) \<Rightarrow> Some (g # gs) | _ \<Rightarrow> None)"
    by (rule hex_groups.simps(3))
  ultimately show ?thesis
    unfolding side_groups_def by (simp del: hex_groups.simps)
qed

lemma parse_ipv6_body_mapped:
  "parse_ipv6_body (''::ffff:'' @ ipv4_text u)
     = Some [0, 0, 0, 0, 0, 65535, unat u div 65536, unat u mod 65536]"
proof -
  have "cut_ellipsis (''::ffff:'' @ ipv4_text u) = Some ([], ''ffff:'' @ ipv4_text u)"
    by simp
  moreover have "replicate 5 0 = [0, 0, 0, 0, 0 :: nat]"
    by (simp add: numeral_eq_Suc)
  ultimately show ?thesis
    unfolding parse_ipv6_body_def side_groups_def [of False]
    by (simp only: side_groups_mapped option.case prod.case if_True) simp
qed

lemma horner_mapped:
  "horner 65536 [0, 0, 0, 0, 0, 65535, n div 65536, n mod 65536] = 65535 * 4294967296 + n"
  by (simp add: horner_def)

lemma parse_addr_v4in6:
  assumes "addr_is4in6 (V6 w [])"
  shows "parse_addr (addr_text (V6 w [])) = Some (V6 w [])"
proof -
  define u where "u = (ucast w :: 32 word)"
  have "unat u = unat w mod 4294967296"
    by (simp add: u_def unsigned_ucast_eq take_bit_eq_mod)
  then have "65535 * 4294967296 + unat u = unat w"
    using assms div_mult_mod_eq [of "unat w" 4294967296] by simp
  then have w: "word_of_nat (65535 * 4294967296 + unat u) = w" by simp
  have "CHR ''%'' \<notin> set (''::ffff:'' @ ipv4_text u)"
    by (auto dest: set_ipv4_text simp: special_not_hex)
  then have "cut (''::ffff:'' @ ipv4_text u) CHR ''%'' = (''::ffff:'' @ ipv4_text u, [], False)"
    by (rule cut_free)
  then have "parse_ipv6 (''::ffff:'' @ ipv4_text u) = Some (V6 w [])"
    unfolding parse_ipv6_def parse_ipv6_body_mapped
    by (simp only: Let_def prod.case parse_ipv6_body_mapped option.map horner_mapped w) simp
  moreover have "find (\<lambda>c. c \<in> set ''.:%'') (''::ffff:'' @ ipv4_text u) = Some CHR '':''"
    by simp
  moreover have "addr_text (V6 w []) = ''::ffff:'' @ ipv4_text u"
    using assms by (simp add: u_def)
  ultimately show ?thesis
    unfolding parse_addr_def by (simp only: option.case) simp
qed

theorem parse_addr_text [codec_simps]:
  "addr_is_valid a \<Longrightarrow> no_zone a \<Longrightarrow> parse_addr (addr_text a) = Some a"
proof (cases a)
  case (V6 w z)
  assume "no_zone a"
  with V6 show ?thesis
    using parse_addr_v6_plain parse_addr_v4in6 by (cases "addr_is4in6 (V6 w [])") (auto simp: no_zone_def)
qed (auto simp: parse_addr_v4)

interpretation addr_codec: text_codec addr_text parse_addr "\<lambda>a. addr_is_valid a \<and> no_zone a"
  by unfold_locales (auto simp: parse_addr_text)

lemma parse_bits_itoa [codec_simps]: "parse_bits (itoa b) = Some b"
  using itoa_no_leading_zero [of b]
  by (simp add: parse_bits_def itoa_nonempty itoa_digits dec_value_itoa)

lemma without_zone_id [simp]: "no_zone a \<Longrightarrow> without_zone a = a"
  by (cases a) (auto simp: no_zone_def)

theorem parse_prefix_text [codec_simps]: "prefix_ok p \<Longrightarrow> parse_prefix (prefix_text p) = Some p"
proof (cases p)
  case (Pfx a b)
  assume "prefix_ok p"
  with Pfx have "CHR ''/'' \<notin> set (itoa b)"
    by (auto dest: itoa_hex simp: special_not_hex)
  with Pfx \<open>prefix_ok p\<close> show ?thesis
    by (simp add: parse_prefix_def parse_addr_text parse_bits_itoa prefix_from_def)
qed simp

interpretation prefix_codec: text_codec prefix_text parse_prefix prefix_ok
  by unfold_locales (rule parse_prefix_text)

lemma parse_addr_valid: "parse_addr s = Some a \<Longrightarrow> addr_is_valid a"
  by (auto simp: parse_addr_def parse_ipv4_def parse_ipv6_def split: option.splits if_splits prod.splits)

lemma parse_prefix_ok: "parse_prefix s = Some p \<Longrightarrow> prefix_ok p"
  by (auto simp: parse_prefix_def prefix_from_def dest: parse_addr_valid split: option.splits if_splits)

section \<open>Lemmas: address-port text\<close>

lemma port_text_free: "CHR '':'' \<notin> set (itoa n)"
  by (auto dest: itoa_hex simp: special_not_hex)

lemma parse_port_text [simp]: "parse_uint 16 (itoa (unat (p :: 16 word))) = Some (unat p)"
  by (rule parse_uint_itoa) (rule order_less_le_trans [OF unsigned_less], simp)

lemma ipv4_text_hd: "ipv4_text u \<noteq> [] \<and> hd (ipv4_text u) \<noteq> CHR ''[''"
  using ipv4_text_dot [of u] ipv4_text_free(3) [of u] by (metis list.set_sel(1) empty_iff list.set(1))

theorem parse_addr_port_text [codec_simps]:
  assumes "addr_is_valid a" and "no_zone a"
  shows "parse_addr_port (addr_port_text (a, p)) = Some (a, p)"
proof (cases a)
  case (V4 u)
  have "split_last CHR '':'' (ipv4_text u @ CHR '':'' # itoa (unat p)) = Some (ipv4_text u, itoa (unat p))"
    by (rule split_last_sep) (rule port_text_free)
  with V4 ipv4_text_hd [of u] show ?thesis
    by (simp add: parse_addr_port_def itoa_nonempty parse_addr_v4)
next
  case (V6 w z)
  with assms have z: "z = []" by (simp add: no_zone_def)
  let ?t = "addr_text (V6 w [])"
  have "split_last CHR '':'' ((''['' @ ?t @ '']'') @ CHR '':'' # itoa (unat p))
      = Some (''['' @ ?t @ '']'', itoa (unat p))"
    by (rule split_last_sep) (rule port_text_free)
  moreover have "parse_addr ?t = Some (V6 w [])"
    by (rule parse_addr_text) (auto simp: no_zone_def)
  ultimately show ?thesis
    using V6 z by (simp add: parse_addr_port_def itoa_nonempty del: addr_text.simps)
qed (use assms in simp)

interpretation addr_port_codec:
  text_codec addr_port_text parse_addr_port "\<lambda>(a, p). addr_is_valid a \<and> no_zone a"
  by unfold_locales (auto simp: parse_addr_port_text)

section \<open>Lemmas: masks and containment\<close>

lemma word_xor_eq_0 [simp]: "(x XOR y = 0) \<longleftrightarrow> x = y" for x y :: "'a::len word"
  by (metis word_bw_same(3) word_bw_assocs(3) xor.comm_neutral xor.commute)

lemma and_not_mask_0:
  "x AND NOT (mask k) = 0 \<longleftrightarrow> drop_bit k x = 0" for x :: "'a::len word"
proof -
  have "x AND NOT (mask k) = 0 \<longleftrightarrow> (\<forall>n. k \<le> n \<longrightarrow> \<not> bit x n)"
    by (auto simp: bit_eq_iff bit_simps not_less dest: bit_imp_le_length)
  also have "\<dots> \<longleftrightarrow> (\<forall>n. \<not> bit x (k + n))"
    by (metis le_add1 le_Suc_ex)
  also have "\<dots> \<longleftrightarrow> drop_bit k x = 0"
    by (auto simp: bit_eq_iff bit_simps) (metis add.commute add_lessD1 bit_imp_le_length)
  finally show ?thesis .
qed

lemma drop_bit_and_not_mask [simp]:
  "drop_bit k x AND drop_bit k (NOT (mask k)) = drop_bit k x" for x :: "'a::len word"
  by (rule bit_word_eqI) (auto simp: bit_simps dest: bit_imp_le_length)

lemma contains_v4 [simp]:
  "prefix_contains (Pfx (V4 p) b) (V4 w) \<longleftrightarrow> drop_bit (32 - b) w = drop_bit (32 - b) p"
  by simp

lemma contains_v6 [simp]:
  "prefix_contains (Pfx (V6 p z') b) (V6 w z) \<longleftrightarrow> z = [] \<and> drop_bit (128 - b) w = drop_bit (128 - b) p"
  by (simp add: and_not_mask_0)

declare prefix_contains.simps(1,2) [simp del]

lemma contains_v4_arith:
  "prefix_contains (Pfx (V4 p) b) (V4 w) \<longleftrightarrow> unat w div 2 ^ (32 - b) = unat p div 2 ^ (32 - b)"
proof -
  have "drop_bit (32 - b) w = drop_bit (32 - b) p \<longleftrightarrow> unat (drop_bit (32 - b) w) = unat (drop_bit (32 - b) p)"
    by (rule word_unat_eq_iff)
  then show ?thesis by (simp add: unat_drop_bit_eq drop_bit_nat_def)
qed

theorem masked_idem: "masked (masked p) = masked p"
  by (cases p rule: masked.cases) (auto simp: word_bw_assocs)

theorem contains_masked: "prefix_ok p \<Longrightarrow> prefix_contains (masked p) a \<longleftrightarrow> prefix_contains p a"
  by (cases p rule: masked.cases; cases a) auto

theorem prefix_ok_masked: "prefix_ok p \<Longrightarrow> prefix_ok (masked p)"
  by (cases p rule: masked.cases) (auto simp: no_zone_def)

lemma contains_base: "prefix_ok p \<Longrightarrow> prefix_contains p (prefix_addr p)"
  by (cases p rule: masked.cases) (auto simp: no_zone_def)

lemma contains_host:
  "no_zone a \<Longrightarrow> addr_is_valid a \<Longrightarrow> prefix_contains (Pfx a (addr_bit_len a)) x \<longleftrightarrow> x = a"
  by (cases a; cases x) (auto simp: no_zone_def)

lemma prefix_text_host:
  "no_zone a \<Longrightarrow> addr_is_valid a \<Longrightarrow>
   parse_prefix (addr_text a @ CHR ''/'' # itoa (addr_bit_len a)) = Some (Pfx a (addr_bit_len a))"
  using parse_prefix_text [of "Pfx a (addr_bit_len a)"] by simp

end
