(* ===== verification/Ipam.thy ===== *)
theory Ipam
  imports Netip
begin

text \<open>
  Package \<^verbatim>\<open>internal/ipam\<close>: the overlay address allocator. The mutex is implicit (every method
  holds it for its whole body); the \<^verbatim>\<open>used\<close> map, whose values are all \<^verbatim>\<open>true\<close>, is a set. The scan of
  \<^verbatim>\<open>AllocateV4\<close> is a \<open>partial_function\<close>: \<open>None\<close> would be a scan that never ends, and the lemmas
  show that it always ends on an allocator that \<^verbatim>\<open>New\<close> made.

  The interface \<open>address_pool\<close> states what the coordinator relies on; the allocator interprets
  it. The properties: the scan returns an unused assignable address exactly when there is one,
  the computed broadcast address is the last of the prefix, and the derived IPv6 address is the
  base plus the node ID (and distinct for distinct IDs) for prefixes of at most 64 bits.
\<close>

record Allocator =
  al_v4 :: Prefix
  al_v6 :: Prefix
  al_used :: "Addr set"
  al_next :: Addr

definition DefaultIPv4Prefix :: Prefix where
  "DefaultIPv4Prefix = Pfx (V4 0x64600000) 11"

definition DefaultIPv6Prefix :: Prefix where
  "DefaultIPv6Prefix = Pfx (V6 0xfdab3f19000000000000000000000000 []) 48"

definition ipam_New :: "Prefix \<Rightarrow> Prefix \<Rightarrow> Allocator res" where
  "ipam_New p4 p6 =
     (let v4 = (if prefix_is_valid p4 then p4 else DefaultIPv4Prefix);
          v6 = (if prefix_is_valid p6 then p6 else DefaultIPv6Prefix) in
      if \<not> addr_is4 (prefix_addr v4) then Inl (ErrMsg ''ipam: %v is not an IPv4 prefix'')
      else if \<not> addr_is6 (prefix_addr v6) \<or> addr_is4in6 (prefix_addr v6)
        then Inl (ErrMsg ''ipam: %v is not an IPv6 prefix'')
      else if prefix_bits v4 > 30
        then Inl (ErrMsg ''ipam: IPv4 prefix %v too small (need /30 or larger)'')
      else Inr \<lparr>al_v4 = masked v4, al_v6 = masked v6, al_used = {},
                al_next = addr_next (prefix_addr (masked v4))\<rparr>)"

definition MarkUsed :: "Allocator \<Rightarrow> Addr list \<Rightarrow> Allocator" where
  "MarkUsed a addrs = a\<lparr>al_used := al_used a \<union> set (map addr_unmap addrs)\<rparr>"

definition advance :: "Allocator \<Rightarrow> Addr \<Rightarrow> Addr" where
  "advance a c = (let n = addr_next c in
     if \<not> prefix_contains (al_v4 a) n then addr_next (prefix_addr (al_v4 a)) else n)"

text \<open>\<^verbatim>\<open>As4\<close> panics on anything but an IPv4 address; \<^verbatim>\<open>lastAddr\<close> is only called on the allocator's
  IPv4 prefix, and the model's value elsewhere is the zero address.\<close>

definition set_host_bit :: "nat \<Rightarrow> byte list \<Rightarrow> byte list" where
  "set_host_bit i b = b[3 - i div 8 := b ! (3 - i div 8) OR push_bit (i mod 8) 1]"

fun lastAddr :: "Prefix \<Rightarrow> Addr" where
  "lastAddr (Pfx (V4 w) bits) =
     (let b = be_bytes 4 (unat w); hostBits = 32 - bits in
      addr_from4 (fold set_host_bit [0..<hostBits] b))"
| "lastAddr _ = NoAddr"

definition isReservedV4 :: "Allocator \<Rightarrow> Addr \<Rightarrow> bool" where
  "isReservedV4 a c = (if c = prefix_addr (al_v4 a) then True
     else (let last = lastAddr (al_v4 a) in c = last))"

partial_function (option) allocate_loop :: "Allocator \<Rightarrow> Addr \<Rightarrow> (Allocator \<times> Addr res) option" where
  "allocate_loop a start =
     (let c = al_next a; a1 = a\<lparr>al_next := advance a c\<rparr> in
      if c \<notin> al_used a1 \<and> \<not> isReservedV4 a1 c
      then Some (a1\<lparr>al_used := insert c (al_used a1)\<rparr>, Inr c)
      else if al_next a1 = start then Some (a1, Inl (ErrMsg ''ipam: IPv4 prefix %v exhausted''))
      else allocate_loop a1 start)"

definition AllocateV4 :: "Allocator \<Rightarrow> (Allocator \<times> Addr res) option" where
  "AllocateV4 a = allocate_loop a (al_next a)"

text \<open>\<^verbatim>\<open>Addr.As16\<close> and the minimal big-endian bytes of \<^verbatim>\<open>big.Int.Bytes\<close>.\<close>

fun addr_as16 :: "Addr \<Rightarrow> byte list" where
  "addr_as16 (V6 w _) = as16 w"
| "addr_as16 (V4 w) = replicate 10 0 @ [255, 255] @ be_bytes 4 (unat w)"
| "addr_as16 NoAddr = replicate 16 0"

definition big_bytes :: "nat \<Rightarrow> byte list" where
  "big_bytes n = dropWhile (\<lambda>b. b = 0) (be_bytes 8 n)"

definition AllocateV6For :: "Allocator \<Rightarrow> 64 word \<Rightarrow> Addr res" where
  "AllocateV6For a nodeID =
     (if nodeID = 0 then Inl (ErrMsg ''ipam: node ID must be nonzero'')
      else (let base = addr_as16 (prefix_addr (al_v6 a)); ident = big_bytes (unat nodeID);
                addr = addr_from16 (take (16 - length ident) base @ ident) in
        if \<not> prefix_contains (al_v6 a) addr
        then Inl (ErrMsg ''ipam: node ID %d overflows prefix %v'') else Inr addr))"

definition Release :: "Allocator \<Rightarrow> Addr \<Rightarrow> Allocator" where
  "Release a addr = a\<lparr>al_used := al_used a - {addr_unmap addr}\<rparr>"

section \<open>What the allocator keeps\<close>

text \<open>The IPv4 prefix is a masked prefix of at most 30 bits and the scan position lies in it,
  past the network address.\<close>

definition ipam_inv :: "Allocator \<Rightarrow> bool" where
  "ipam_inv a \<longleftrightarrow> (\<exists>w b n. al_v4 a = Pfx (V4 w) b \<and> b \<le> 30 \<and> unat w mod 2 ^ (32 - b) = 0 \<and>
     al_next a = V4 n \<and> unat w < unat n \<and> unat n < unat w + 2 ^ (32 - b)) \<and>
     masked (al_v6 a) = al_v6 a \<and> addr_is6 (prefix_addr (al_v6 a)) \<and> prefix_ok (al_v6 a)"

text \<open>The addresses a node can be given: inside the prefix, neither network nor broadcast.\<close>

definition assignable :: "Allocator \<Rightarrow> Addr set" where
  "assignable a = {c. prefix_contains (al_v4 a) c \<and> \<not> isReservedV4 a c}"

section \<open>Interface: an address pool\<close>

locale address_pool =
  fixes alloc :: "'p \<Rightarrow> ('p \<times> 'a res) option" and free :: "'p \<Rightarrow> 'a \<Rightarrow> 'p"
    and used :: "'p \<Rightarrow> 'a set" and pool :: "'p \<Rightarrow> 'a set" and inv :: "'p \<Rightarrow> bool"
  assumes alloc_returns: "inv p \<Longrightarrow> \<exists>p' r. alloc p = Some (p', r)"
    and alloc_ok: "inv p \<Longrightarrow> alloc p = Some (p', Inr x) \<Longrightarrow>
        x \<in> pool p \<and> x \<notin> used p \<and> used p' = insert x (used p) \<and> pool p' = pool p \<and> inv p'"
    and alloc_fails: "inv p \<Longrightarrow> alloc p = Some (p', Inl e) \<Longrightarrow>
        pool p \<subseteq> used p \<and> used p' = used p \<and> pool p' = pool p \<and> inv p'"
    and free_law: "inv p \<Longrightarrow> x \<in> pool p \<Longrightarrow>
        used (free p x) = used p - {x} \<and> pool (free p x) = pool p \<and> inv (free p x)"
begin

text \<open>The addresses handed out by a run of allocations, failures skipped.\<close>

fun alloc_run :: "nat \<Rightarrow> 'p \<Rightarrow> ('p \<times> 'a list) option" where
  "alloc_run 0 p = Some (p, [])"
| "alloc_run (Suc n) p = (case alloc p of
     None \<Rightarrow> None
   | Some (p', r) \<Rightarrow> (case alloc_run n p' of
       None \<Rightarrow> None
     | Some (p'', xs) \<Rightarrow> Some (p'', (case r of Inl _ \<Rightarrow> xs | Inr x \<Rightarrow> x # xs))))"

lemma alloc_cases:
  assumes "inv p"
  obtains p' x where "alloc p = Some (p', Inr x)" "x \<in> pool p" "x \<notin> used p"
      "used p' = insert x (used p)" "pool p' = pool p" "inv p'"
  | p' e where "alloc p = Some (p', Inl e)" "pool p \<subseteq> used p" "used p' = used p"
      "pool p' = pool p" "inv p'"
  using alloc_returns [OF assms] alloc_ok [OF assms] alloc_fails [OF assms]
  by (metis sum.exhaust)

lemma alloc_run_distinct:
  "inv p \<Longrightarrow> \<exists>p' xs. alloc_run n p = Some (p', xs) \<and> distinct xs \<and> set xs \<subseteq> pool p - used p"
proof (induction n arbitrary: p)
  case (Suc n)
  from \<open>inv p\<close> show ?case
  proof (cases rule: alloc_cases)
    case (1 p' x)
    with Suc.IH [OF \<open>inv p'\<close>] show ?thesis by fastforce
  next
    case (2 p' e)
    with Suc.IH [OF \<open>inv p'\<close>] show ?thesis by fastforce
  qed
qed simp

lemma alloc_succeeds_iff:
  assumes "inv p"
  shows "(\<exists>p' x. alloc p = Some (p', Inr x)) \<longleftrightarrow> \<not> pool p \<subseteq> used p"
  using assms by (cases rule: alloc_cases) auto

lemma freed_can_be_allocated:
  assumes "inv p" and "x \<in> pool p"
  shows "\<exists>p' y. alloc (free p x) = Some (p', Inr y)"
  using free_law [OF assms] assms alloc_succeeds_iff [of "free p x"] by auto

end

section \<open>Lemmas: the prefix as an interval\<close>

lemma block_div_iff:
  fixes p x k :: nat
  assumes "p mod k = 0" and "0 < k"
  shows "x div k = p div k \<longleftrightarrow> p \<le> x \<and> x < p + k"
proof -
  from assms(1) obtain q where p: "p = k * q" by auto
  have "x div k = q \<longleftrightarrow> k * q \<le> x \<and> x < k * q + k"
    using assms(2) by (auto simp: div_nat_eqI) (metis add.commute dividend_less_times_div)
  with p assms(2) show ?thesis by simp
qed

lemma contains_block:
  "unat w mod 2 ^ (32 - b) = 0 \<Longrightarrow>
   prefix_contains (Pfx (V4 w) b) (V4 x) \<longleftrightarrow> unat w \<le> unat x \<and> unat x < unat w + 2 ^ (32 - b)"
  by (simp add: contains_v4_arith block_div_iff del: contains_v4)

lemma block_end_le:
  fixes p :: nat
  assumes "p mod 2 ^ h = 0" and "p < 2 ^ n" and "h \<le> n"
  shows "p + 2 ^ h \<le> 2 ^ n"
proof -
  from assms(1) obtain q where p: "p = 2 ^ h * q" by auto
  have n: "(2 :: nat) ^ n = 2 ^ h * 2 ^ (n - h)" using assms(3) by (simp flip: power_add)
  with assms(2) p have "q < 2 ^ (n - h)" by simp
  then have "2 ^ h * Suc q \<le> 2 ^ h * 2 ^ (n - h)" by (intro mult_le_mono2) simp
  with p n show ?thesis by simp
qed

lemma masked_mod_0: "unat (w AND NOT (mask h) :: 'a::len word) mod 2 ^ h = 0"
proof -
  have "take_bit h (w AND NOT (mask h)) = 0"
    by (rule bit_word_eqI) (auto simp: bit_simps)
  then have "take_bit h (unat (w AND NOT (mask h))) = 0"
    by (simp only: unsigned_take_bit_eq [symmetric] unsigned_0)
  then show ?thesis by (simp only: take_bit_eq_mod)
qed

section \<open>Lemmas: the broadcast address\<close>

lemma word_of_bytes4:
  "(word_of_nat (be_value [b0, b1, b2, b3]) :: 32 word) =
   push_bit 24 (ucast b0) OR push_bit 16 (ucast b1) OR push_bit 8 (ucast b2) OR ucast b3"
proof -
  have "(word_of_nat (be_value [b0, b1, b2, b3]) :: 32 word) =
      push_bit 24 (ucast b0) + (push_bit 16 (ucast b1) + (push_bit 8 (ucast b2) + ucast b3))"
    by (simp add: be_value_def horner_def push_bit_eq_mult algebra_simps)
  also have "\<dots> = push_bit 24 (ucast b0) OR (push_bit 16 (ucast b1) OR (push_bit 8 (ucast b2) OR ucast b3))"
    by (subst disjunctive_add, simp add: bit_simps, force dest: bit_imp_le_length)+ simp
  finally show ?thesis .
qed

lemma set_host_bit_word:
  assumes "length b = 4" and "i < 32"
  shows "(word_of_nat (be_value (set_host_bit i b)) :: 32 word) = word_of_nat (be_value b) OR push_bit i 1"
proof -
  from assms(1) obtain b0 b1 b2 b3 where b: "b = [b0, b1, b2, b3]"
    by (auto simp: numeral_eq_Suc length_Suc_conv)
  define r where "r = i mod 8"
  have r: "r < 8" by (simp add: r_def)
  have i: "i mod 8 = r" "i = 8 * (i div 8) + r" by (simp_all add: r_def)
  have s: "push_bit r (1 :: 32 word) = ucast (push_bit r (1 :: 8 word))"
    using r by (intro bit_word_eqI) (auto simp: bit_simps)
  note ors = or.assoc or.commute or.left_commute
  consider "i div 8 = 0" | "i div 8 = 1" | "i div 8 = 2" | "i div 8 = 3"
    using assms(2) by linarith
  then show ?thesis
  proof cases
    case 1
    then have "set_host_bit i b = [b0, b1, b2, b3 OR push_bit r 1]" by (simp add: set_host_bit_def b i(1))
    moreover have "push_bit i (1 :: 32 word) = push_bit 0 (push_bit r 1)" using 1 i(2) by (simp add: push_bit_push_bit del: push_bit_of_1)
    ultimately show ?thesis by (simp only: b word_of_bytes4 unsigned_or_eq push_bit_or s push_bit_0_id id_apply) (simp only: ors)
  next
    case 2
    then have "set_host_bit i b = [b0, b1, b2 OR push_bit r 1, b3]" by (simp add: set_host_bit_def b i(1))
    moreover have "push_bit i (1 :: 32 word) = push_bit 8 (push_bit r 1)" using 2 i(2) by (simp add: push_bit_push_bit del: push_bit_of_1)
    ultimately show ?thesis by (simp only: b word_of_bytes4 unsigned_or_eq push_bit_or s push_bit_0_id id_apply) (simp only: ors)
  next
    case 3
    then have "set_host_bit i b = [b0, b1 OR push_bit r 1, b2, b3]" by (simp add: set_host_bit_def b i(1))
    moreover have "push_bit i (1 :: 32 word) = push_bit 16 (push_bit r 1)" using 3 i(2) by (simp add: push_bit_push_bit del: push_bit_of_1)
    ultimately show ?thesis by (simp only: b word_of_bytes4 unsigned_or_eq push_bit_or s push_bit_0_id id_apply) (simp only: ors)
  next
    case 4
    then have "set_host_bit i b = [b0 OR push_bit r 1, b1, b2, b3]" by (simp add: set_host_bit_def b i(1))
    moreover have "push_bit i (1 :: 32 word) = push_bit 24 (push_bit r 1)" using 4 i(2) by (simp add: push_bit_push_bit del: push_bit_of_1)
    ultimately show ?thesis by (simp only: b word_of_bytes4 unsigned_or_eq push_bit_or s push_bit_0_id id_apply) (simp only: ors)
  qed
qed

lemma lastAddr_mask:
  assumes "b \<le> 32"
  shows "lastAddr (Pfx (V4 w) b) = V4 (w OR mask (32 - b))"
proof -
  have "h \<le> 32 \<Longrightarrow> length (fold set_host_bit [0..<h] (be_bytes 4 (unat w))) = 4 \<and>
      (word_of_nat (be_value (fold set_host_bit [0..<h] (be_bytes 4 (unat w)))) :: 32 word) = w OR mask h" for h
  proof (induction h)
    case 0
    then show ?case using unat_lt_2_32 [of w] by (simp add: be_value_be_bytes)
  next
    case (Suc h)
    then show ?case by (simp add: set_host_bit_word mask_Suc_exp or.assoc or.commute [of "2 ^ h"]) (simp add: set_host_bit_def)
  qed
  from this [of "32 - b"] show ?thesis by (simp add: addr_from4_def)
qed


declare lastAddr.simps [simp del]

lemma lastAddr_block:
  assumes "b \<le> 32" and "unat w mod 2 ^ (32 - b) = 0"
  shows "lastAddr (Pfx (V4 w) b) = V4 (word_of_nat (unat w + 2 ^ (32 - b) - 1))"
proof -
  have "take_bit (32 - b) w = 0"
    using assms(2) by (metis take_bit_eq_mod unsigned_take_bit_eq unsigned_eq_0_iff)
  then have "w AND mask (32 - b) = 0" by (simp add: take_bit_eq_mask)
  then have "w OR mask (32 - b) = w + mask (32 - b)"
    by (simp add: disjunctive_add_eq_or)
  also have "\<dots> = word_of_nat (unat w + (2 ^ (32 - b) - 1))"
    by (subst of_nat_add, subst of_nat_diff) (simp_all add: mask_eq_exp_minus_1)
  finally show ?thesis using assms(1) by (simp add: lastAddr_mask)
qed

section \<open>Lemmas: the scan\<close>

lemma addr_next_nat:
  assumes "Suc n < 2 ^ 32"
  shows "addr_next (V4 (word_of_nat n)) = V4 (word_of_nat (Suc n))"
    and "unat (word_of_nat (Suc n) :: 32 word) = Suc n"
proof -
  show u: "unat (word_of_nat (Suc n) :: 32 word) = Suc n"
    using assms by (simp add: unat_of_nat del: of_nat_Suc)
  then have "(word_of_nat (Suc n) :: 32 word) \<noteq> 0" by (metis nat.distinct(1) unsigned_0)
  then show "addr_next (V4 (word_of_nat n)) = V4 (word_of_nat (Suc n))" by (simp add: add.commute)
qed

lemma addr_next_end: "Suc n = 2 ^ 32 \<Longrightarrow> addr_next (V4 (word_of_nat n)) = NoAddr"
proof -
  assume "Suc n = 2 ^ 32"
  then have "(word_of_nat (Suc n) :: 32 word) = 0" by (simp only: of_nat_power) simp
  then show ?thesis by (simp add: add.commute)
qed

lemma advance_block:
  assumes "al_v4 a = Pfx (V4 w) b" "b \<le> 30" "unat w mod 2 ^ (32 - b) = 0"
    "unat w < n" "n < unat w + 2 ^ (32 - b)"
  shows "advance a (V4 (word_of_nat n)) =
    V4 (word_of_nat (if Suc n < unat w + 2 ^ (32 - b) then Suc n else Suc (unat w)))"
proof -
  have le: "unat w + 2 ^ (32 - b) \<le> 2 ^ 32"
    using assms(2,3) unat_lt_2_32 [of w] by (intro block_end_le) auto
  have "(4 :: nat) = 2 ^ 2" by simp
  also have "\<dots> \<le> 2 ^ (32 - b)" using assms(2) by (intro power_increasing) auto
  finally have four: "4 \<le> (2 :: nat) ^ (32 - b)" .
  have base: "addr_next (V4 w) = V4 (word_of_nat (Suc (unat w)))"
    using addr_next_nat(1) [of "unat w"] le four by simp
  show ?thesis
  proof (cases "Suc n = 2 ^ 32")
    case True
    with le have "\<not> Suc n < unat w + 2 ^ (32 - b)" by simp
    then show ?thesis using assms(1) True addr_next_end [of n] base by (simp add: advance_def)
  next
    case False
    with assms(5) le have "Suc n < 2 ^ 32" by simp
    note n = addr_next_nat [OF this]
    show ?thesis unfolding advance_def Let_def n(1) assms(1)
      using assms(3,4) base by (simp add: contains_block n(2) del: contains_v4 of_nat_Suc addr_next.simps)
  qed
qed


text \<open>The \<open>k\<close>-th candidate of a scan that starts at \<open>n0\<close> in the cycle \<open>lo, \<dots>, lo + N - 1\<close>.\<close>

definition cand :: "nat \<Rightarrow> nat \<Rightarrow> nat \<Rightarrow> nat \<Rightarrow> Addr" where
  "cand lo N n0 k = V4 (word_of_nat (lo + (n0 - lo + k) mod N))"

lemma mod_Suc_less:
  "0 < N \<Longrightarrow> Suc m mod N = (if Suc (m mod N) < N then Suc (m mod N) else 0)" for N m :: nat
  by (simp add: mod_Suc Suc_lessI)

lemma cycle_returns:
  assumes "d < N" and "0 < k" and "k \<le> N"
  shows "(d + k) mod N = d \<longleftrightarrow> k = (N :: nat)"
proof (cases "d + k < N")
  case False
  then have "(d + k) mod N = d + k - N" using assms by (simp add: mod_if)
  with False show ?thesis by linarith
qed (use assms in simp)

lemma cand_start_iff:
  assumes "lo \<le> n0" "n0 < lo + N" "0 < k" "k \<le> N" "lo + N \<le> 2 ^ 32"
  shows "cand lo N n0 k = cand lo N n0 0 \<longleftrightarrow> k = N"
proof -
  have bits32: "LENGTH(32) = 32" by simp
  have "lo + x mod N < 2 ^ 32" for x using assms mod_less_divisor [of N x] by linarith
  then have "cand lo N n0 k = cand lo N n0 0 \<longleftrightarrow> (n0 - lo + k) mod N = (n0 - lo + 0) mod N"
    by (simp only: cand_def Addr.inject word_of_nat_eq_iff bits32 take_bit_nat_eq_self add_left_cancel)
  also have "\<dots> \<longleftrightarrow> k = N" using cycle_returns [of "n0 - lo" N k] assms by simp
  finally show ?thesis .
qed

lemma isReservedV4_update [simp]:
  "isReservedV4 (a\<lparr>al_next := n\<rparr>) c = isReservedV4 a c"
  "isReservedV4 (a\<lparr>al_used := u\<rparr>) c = isReservedV4 a c"
  by (simp_all add: isReservedV4_def)

lemma allocate_loop_step:
  "al_next a = c \<Longrightarrow> advance a c = c' \<Longrightarrow> allocate_loop a s =
     (if c \<notin> al_used a \<and> \<not> isReservedV4 a c
      then Some (a\<lparr>al_next := c', al_used := insert c (al_used a)\<rparr>, Inr c)
      else if c' = s then Some (a\<lparr>al_next := c'\<rparr>, Inl (ErrMsg ''ipam: IPv4 prefix %v exhausted''))
      else allocate_loop (a\<lparr>al_next := c'\<rparr>) s)"
  by (subst allocate_loop.simps) (simp add: Let_def)

lemma advance_cand:
  assumes "al_v4 a = Pfx (V4 w) b" "b \<le> 30" "unat w mod 2 ^ (32 - b) = 0"
    and "lo = Suc (unat w)" and "lo + N = unat w + 2 ^ (32 - b)" and "0 < N"
  shows "advance a (cand lo N n0 k) = cand lo N n0 (Suc k)"
proof -
  define x where "x = (n0 - lo + k) mod N"
  have "x < N" using assms(6) by (simp add: x_def)
  have s: "(n0 - lo + Suc k) mod N = (if Suc x < N then Suc x else 0)"
    using mod_Suc_less [OF assms(6), of "n0 - lo + k"] by (simp add: x_def)
  have "advance a (V4 (word_of_nat (lo + x))) =
      V4 (word_of_nat (if Suc (lo + x) < unat w + 2 ^ (32 - b) then Suc (lo + x) else Suc (unat w)))"
    using assms(4,5) \<open>x < N\<close> by (intro advance_block [OF assms(1-3)]) linarith+
  moreover have "Suc (lo + x) < unat w + 2 ^ (32 - b) \<longleftrightarrow> Suc x < N" using assms(5) by linarith
  ultimately show ?thesis unfolding cand_def s x_def [symmetric]
    using assms(4) by (simp del: of_nat_Suc of_nat_add)
qed

lemma allocate_loop_scan:
  assumes pfx: "al_v4 a = Pfx (V4 w) b" "b \<le> 30" "unat w mod 2 ^ (32 - b) = 0"
    and lo: "lo = Suc (unat w)" and N: "N = 2 ^ (32 - b) - 1"
    and n0: "lo \<le> n0" "n0 < lo + N"
    and pos: "al_next a = cand lo N n0 k" "k < N"
  shows "\<exists>a' r. allocate_loop a (cand lo N n0 0) = Some (a', r) \<and> al_v4 a' = al_v4 a \<and> al_v6 a' = al_v6 a \<and>
     (\<exists>j. al_next a' = cand lo N n0 j) \<and>
     (case r of
        Inr c \<Rightarrow> (\<exists>j. c = cand lo N n0 j) \<and> c \<notin> al_used a \<and> \<not> isReservedV4 a c \<and> al_used a' = insert c (al_used a)
      | Inl e \<Rightarrow> al_used a' = al_used a \<and>
          (\<forall>j. k \<le> j \<longrightarrow> j < N \<longrightarrow> cand lo N n0 j \<in> al_used a \<or> isReservedV4 a (cand lo N n0 j)))"
  using pfx(1) pos
proof (induction "N - k" arbitrary: a k)
  case 0
  then show ?case by simp
next
  case (Suc m)
  let ?c = "cand lo N n0"
  have total: "lo + N = unat w + 2 ^ (32 - b)" using lo N by simp
  have fits: "lo + N \<le> 2 ^ 32"
    unfolding total using unat_lt_2_32 [of w] by (intro block_end_le [OF pfx(3)]) simp_all
  have adv: "advance a (?c k) = ?c (Suc k)"
    using Suc.prems(3) by (intro advance_cand [OF Suc.prems(1) pfx(2,3) lo total]) simp
  have end_iff: "?c (Suc k) = ?c 0 \<longleftrightarrow> Suc k = N"
    using cand_start_iff [OF n0 _ _ fits, of "Suc k"] Suc.prems(3) by simp
  let ?a1 = "a\<lparr>al_next := ?c (Suc k)\<rparr>"
  note step = allocate_loop_step [OF Suc.prems(2) adv, of "?c 0"]
  show ?case
  proof (cases "?c k \<notin> al_used a \<and> \<not> isReservedV4 a (?c k)")
    case True
    then show ?thesis unfolding step by auto
  next
    case bad: False
    show ?thesis
    proof (cases "Suc k = N")
      case True
      then have only: "j = k" if "k \<le> j" "j < N" for j using that by linarith
      show ?thesis unfolding step using bad end_iff True by (auto dest!: only)
    next
      case False
      with Suc.hyps(2) Suc.prems(3) have more: "m = N - Suc k" "Suc k < N" by simp_all
      have "k \<le> j \<Longrightarrow> j = k \<or> Suc k \<le> j" for j by linarith
      moreover have "allocate_loop a (?c 0) = allocate_loop ?a1 (?c 0)"
        unfolding step using bad end_iff False by auto
      ultimately show ?thesis
        using Suc.hyps(1) [OF more(1), of ?a1] Suc.prems(1) more(2) bad
        by (fastforce split: sum.splits)
    qed
  qed
qed


lemma cand_covers:
  assumes "lo \<le> n0" and "n0 < lo + N" and "lo \<le> unat x" and "unat x < lo + N"
  shows "\<exists>j < N. V4 x = cand lo N n0 j"
proof -
  let ?j = "(unat x + N - n0) mod N"
  have "(n0 - lo + ?j) mod N = (n0 - lo + (unat x + N - n0)) mod N" by (simp add: mod_add_right_eq)
  also have "n0 - lo + (unat x + N - n0) = (unat x - lo) + N" using assms by linarith
  also have "\<dots> mod N = unat x - lo"
    using assms(3,4) by (simp only: mod_add_self2) simp
  finally have "cand lo N n0 ?j = V4 x" using assms(3) by (simp add: cand_def)
  moreover have "?j < N" using assms by simp
  ultimately show ?thesis by metis
qed

lemma cand_0: "lo \<le> unat n \<Longrightarrow> unat n < lo + N \<Longrightarrow> cand lo N (unat n) 0 = V4 n"
  by (simp add: cand_def)

lemma cand_in_block:
  assumes "lo + N \<le> 2 ^ 32" and "0 < N"
  shows "\<exists>x. cand lo N n0 j = V4 x \<and> lo \<le> unat x \<and> unat x < lo + N"
proof -
  let ?x = "lo + (n0 - lo + j) mod N"
  have "?x < lo + N" using assms(2) by simp
  then have "unat (word_of_nat ?x :: 32 word) = ?x" using assms(1) by (simp add: unat_of_nat del: of_nat_add)
  with \<open>?x < lo + N\<close> show ?thesis by (auto simp: cand_def simp del: of_nat_add)
qed

lemma ipam_invI:
  "al_v4 a = Pfx (V4 w) b \<Longrightarrow> b \<le> 30 \<Longrightarrow> unat w mod 2 ^ (32 - b) = 0 \<Longrightarrow> al_next a = V4 n \<Longrightarrow>
   unat w < unat n \<Longrightarrow> unat n < unat w + 2 ^ (32 - b) \<Longrightarrow> masked (al_v6 a) = al_v6 a \<Longrightarrow>
   addr_is6 (prefix_addr (al_v6 a)) \<Longrightarrow> prefix_ok (al_v6 a) \<Longrightarrow> ipam_inv a"
  unfolding ipam_inv_def by (intro conjI exI) assumption+

lemma AllocateV4_spec:
  assumes "ipam_inv a"
  shows "\<exists>a' r. AllocateV4 a = Some (a', r) \<and> al_v4 a' = al_v4 a \<and> al_v6 a' = al_v6 a \<and> ipam_inv a' \<and>
     (case r of
        Inr c \<Rightarrow> c \<in> assignable a \<and> c \<notin> al_used a \<and> al_used a' = insert c (al_used a)
      | Inl e \<Rightarrow> al_used a' = al_used a \<and> assignable a \<subseteq> al_used a)"
proof -
  from assms obtain w b n where a: "al_v4 a = Pfx (V4 w) b" "b \<le> 30" "unat w mod 2 ^ (32 - b) = 0"
      "al_next a = V4 n" "unat w < unat n" "unat n < unat w + 2 ^ (32 - b)"
    and v6: "masked (al_v6 a) = al_v6 a" "addr_is6 (prefix_addr (al_v6 a))" "prefix_ok (al_v6 a)"
    unfolding ipam_inv_def by auto
  define lo N where lo: "lo = Suc (unat w)" and N: "N = (2 :: nat) ^ (32 - b) - 1"
  have total: "lo + N = unat w + 2 ^ (32 - b)" by (simp add: lo N)
  have n: "lo \<le> unat n" "unat n < lo + N" and "0 < N" using a(5,6) total lo by linarith+
  have fits: "lo + N \<le> 2 ^ 32"
    unfolding total using unat_lt_2_32 [of w] by (intro block_end_le [OF a(3)]) simp_all
  have inb: "prefix_contains (al_v4 a) (V4 x)" if "lo \<le> unat x" "unat x < lo + N" for x
    using that lo total a(1,3) by (simp add: contains_block del: contains_v4)
  have free: "lo \<le> unat x \<and> unat x < lo + N" if "V4 x \<in> assignable a" for x
  proof -
    have "x \<noteq> w" using that a(1) by (auto simp: assignable_def isReservedV4_def)
    then have "unat x \<noteq> unat w" by (simp add: word_unat_eq_iff)
    with that show ?thesis using a(1,3) total lo
      by (auto simp: assignable_def contains_block simp del: contains_v4)
  qed
  have start: "al_next a = cand lo N (unat n) 0" using a(4) cand_0 [OF n] by simp
  obtain a' r where run: "allocate_loop a (cand lo N (unat n) 0) = Some (a', r)"
      "al_v4 a' = al_v4 a" "al_v6 a' = al_v6 a" "\<exists>j. al_next a' = cand lo N (unat n) j"
      and r: "case r of
        Inr c \<Rightarrow> (\<exists>j. c = cand lo N (unat n) j) \<and> c \<notin> al_used a \<and> \<not> isReservedV4 a c \<and> al_used a' = insert c (al_used a)
      | Inl e \<Rightarrow> al_used a' = al_used a \<and> (\<forall>j. 0 \<le> j \<longrightarrow> j < N \<longrightarrow>
          cand lo N (unat n) j \<in> al_used a \<or> isReservedV4 a (cand lo N (unat n) j))"
    using allocate_loop_scan [OF a(1-3) lo N n start \<open>0 < N\<close>] by blast
  from run(4) cand_in_block [OF fits \<open>0 < N\<close>] obtain x where "al_next a' = V4 x" "lo \<le> unat x" "unat x < lo + N"
    by metis
  then have "al_next a' = V4 x \<and> unat w < unat x \<and> unat x < unat w + 2 ^ (32 - b)"
    using total lo by simp
  then have "ipam_inv a'" using a(1-3) v6 run(2,3) by (intro ipam_invI [of _ w b x]) auto
  moreover have "AllocateV4 a = Some (a', r)"
    using run(1) start by (simp add: AllocateV4_def)
  moreover have "case r of
        Inr c \<Rightarrow> c \<in> assignable a \<and> c \<notin> al_used a \<and> al_used a' = insert c (al_used a)
      | Inl e \<Rightarrow> al_used a' = al_used a \<and> assignable a \<subseteq> al_used a"
  proof (cases r)
    case (Inr c)
    with r obtain j where c: "c = cand lo N (unat n) j" "c \<notin> al_used a" "\<not> isReservedV4 a c"
      "al_used a' = insert c (al_used a)" by auto
    from cand_in_block [OF fits \<open>0 < N\<close>] obtain y where "cand lo N (unat n) j = V4 y" "lo \<le> unat y" "unat y < lo + N"
      by blast
    with c inb show ?thesis by (simp add: assignable_def Inr)
  next
    case (Inl e)
    have "c \<in> al_used a" if c: "c \<in> assignable a" for c
    proof -
      obtain x where "c = V4 x" using c a(1) by (cases c) (auto simp: assignable_def)
      with c free have "lo \<le> unat x" "unat x < lo + N" by auto
      from cand_covers [OF n this] obtain j where "j < N" "c = cand lo N (unat n) j" using \<open>c = V4 x\<close> by blast
      with r Inl have "c \<in> al_used a \<or> isReservedV4 a c" by simp
      with c show ?thesis by (simp add: assignable_def)
    qed
    with r Inl show ?thesis by auto
  qed
  ultimately show ?thesis using run(2,3) by blast
qed

lemma Release_keeps:
  "al_v4 (Release a x) = al_v4 a" "al_v6 (Release a x) = al_v6 a" "ipam_inv (Release a x) = ipam_inv a"
  "assignable (Release a x) = assignable a"
  by (simp_all add: Release_def ipam_inv_def assignable_def)

lemma MarkUsed_keeps:
  "al_v4 (MarkUsed a xs) = al_v4 a" "al_v6 (MarkUsed a xs) = al_v6 a" "ipam_inv (MarkUsed a xs) = ipam_inv a"
  "assignable (MarkUsed a xs) = assignable a"
  by (simp_all add: MarkUsed_def ipam_inv_def assignable_def)

lemma assignable_v4: "ipam_inv a \<Longrightarrow> x \<in> assignable a \<Longrightarrow> addr_is4 x"
  by (cases x) (auto simp: ipam_inv_def assignable_def)

lemma unmap_v4 [simp]: "addr_is4 x \<Longrightarrow> addr_unmap x = x"
  by (cases x) auto

lemma assignable_cong: "al_v4 a' = al_v4 a \<Longrightarrow> assignable a' = assignable a"
  by (simp add: assignable_def isReservedV4_def)

interpretation ipam: address_pool AllocateV4 Release al_used assignable ipam_inv
proof
  fix a a' x e
  assume inv: "ipam_inv a"
  show "\<exists>a' r. AllocateV4 a = Some (a', r)" using AllocateV4_spec [OF inv] by blast
  show "AllocateV4 a = Some (a', Inr x) \<Longrightarrow> x \<in> assignable a \<and> x \<notin> al_used a \<and>
      al_used a' = insert x (al_used a) \<and> assignable a' = assignable a \<and> ipam_inv a'"
    and "AllocateV4 a = Some (a', Inl e) \<Longrightarrow> assignable a \<subseteq> al_used a \<and>
      al_used a' = al_used a \<and> assignable a' = assignable a \<and> ipam_inv a'"
    using AllocateV4_spec [OF inv] by (auto dest: assignable_cong)
  show "x \<in> assignable a \<Longrightarrow> al_used (Release a x) = al_used a - {x} \<and>
      assignable (Release a x) = assignable a \<and> ipam_inv (Release a x)"
    using inv assignable_v4 [OF inv, of x] by (simp add: Release_keeps) (simp add: Release_def)
qed

lemma ipam_New_inv:
  assumes "ipam_New p4 p6 = Inr a" and "prefix_is_valid p4 \<longrightarrow> prefix_ok p4" and "prefix_is_valid p6 \<longrightarrow> prefix_ok p6"
  shows "ipam_inv a \<and> al_used a = {}"
proof -
  define v4 v6 where "v4 = (if prefix_is_valid p4 then p4 else DefaultIPv4Prefix)"
    and "v6 = (if prefix_is_valid p6 then p6 else DefaultIPv6Prefix)"
  have ok: "prefix_ok v4" "prefix_ok v6"
    using assms(2,3) by (auto simp: v4_def v6_def DefaultIPv4Prefix_def DefaultIPv6Prefix_def no_zone_def)
  from assms(1) have a: "a = \<lparr>al_v4 = masked v4, al_v6 = masked v6, al_used = {},
      al_next = addr_next (prefix_addr (masked v4))\<rparr>"
    and c: "addr_is4 (prefix_addr v4)" "addr_is6 (prefix_addr v6)" "prefix_bits v4 \<le> 30"
    by (auto simp: ipam_New_def Let_def v4_def v6_def split: if_splits)
  from c(1,3) obtain w b where v4: "v4 = Pfx (V4 w) b" "b \<le> 30"
    by (cases v4; cases "prefix_addr v4") auto
  from c(2) obtain u z b' where v6: "v6 = Pfx (V6 u z) b'"
    by (cases v6; cases "prefix_addr v6") auto
  let ?w = "w AND NOT (mask (32 - b))"
  have m: "unat ?w mod 2 ^ (32 - b) = 0" by (rule masked_mod_0)
  have "(4 :: nat) = 2 ^ 2" by simp
  also have "\<dots> \<le> 2 ^ (32 - b)" using v4(2) by (intro power_increasing) auto
  finally have four: "4 \<le> (2 :: nat) ^ (32 - b)" .
  have "unat ?w + 2 ^ (32 - b) \<le> 2 ^ 32"
    using unat_lt_2_32 [of ?w] by (intro block_end_le [OF m]) simp_all
  with four have "Suc (unat ?w) < 2 ^ 32" by linarith
  then have next_base: "addr_next (V4 ?w) = V4 (word_of_nat (Suc (unat ?w)))"
    "unat (word_of_nat (Suc (unat ?w)) :: 32 word) = Suc (unat ?w)"
    using addr_next_nat [of "unat ?w"] by simp_all
  have "ipam_inv a"
    using next_base four m v4 v6 a ok masked_idem [of v6] prefix_ok_masked [OF ok(2)]
    by (intro ipam_invI [of _ ?w b "word_of_nat (Suc (unat ?w))"]) (simp_all del: of_nat_Suc addr_next.simps)
  with a show ?thesis by simp
qed

section \<open>Lemmas: the derived IPv6 address\<close>

lemma be_bytes_zero: "n mod 256 ^ k = 0 \<Longrightarrow> be_bytes k n = replicate k 0"
proof (induction k arbitrary: n)
  case (Suc k)
  from Suc.prems have "256 * (n div 256 mod 256 ^ k) + n mod 256 = 0"
    by (simp only: power_Suc mod_mult2_eq)
  then have "n div 256 mod 256 ^ k = 0" "n mod 256 = 0" by simp_all
  with Suc.IH [of "n div 256"] show ?case
    by (simp add: be_bytes_def replicate_append_same)
qed (simp add: be_bytes_def)

lemma big_bytes_pad: "be_bytes 8 n = replicate (8 - length (big_bytes n)) 0 @ big_bytes n"
  and big_bytes_length: "length (big_bytes n) \<le> 8"
proof -
  let ?z = "takeWhile (\<lambda>b. b = 0) (be_bytes 8 n)"
  have split: "be_bytes 8 n = ?z @ big_bytes n" by (simp add: big_bytes_def)
  then have len: "8 = length ?z + length (big_bytes n)"
    by (metis length_append length_be_bytes)
  moreover have "?z = replicate (length ?z) 0"
    by (rule replicate_length_same [symmetric]) (auto dest: set_takeWhileD)
  ultimately show "be_bytes 8 n = replicate (8 - length (big_bytes n)) 0 @ big_bytes n"
    using split by (metis add_diff_cancel_right')
  show "length (big_bytes n) \<le> 8" using len by linarith
qed

lemma overlay_low_bytes:
  assumes "unat (w :: 128 word) mod 2 ^ 64 = 0"
  shows "take (16 - length (big_bytes n)) (as16 w) @ big_bytes n = be_bytes 8 (unat w div 2 ^ 64) @ be_bytes 8 n"
proof -
  have "as16 w = be_bytes (8 + 8) (unat w)" by (simp add: as16_def)
  also have "\<dots> = be_bytes 8 (unat w div 2 ^ 64) @ replicate 8 0"
    unfolding be_bytes_append using assms be_bytes_zero [of "unat w" 8] by simp
  finally show ?thesis
    using big_bytes_length [of n] by (simp add: big_bytes_pad [of n] del: replicate.simps) 
qed

lemma AllocateV6For_eq:
  assumes "al_v6 a = Pfx (V6 w []) b" and "b \<le> 64" and m: "unat w mod 2 ^ (128 - b) = 0" and "i \<noteq> 0"
  shows "AllocateV6For a i = Inr (V6 (w + ucast i) [])" and "unat (w + ucast i) = unat w + unat i"
proof -
  have i: "unat i < 2 ^ 64" using unsigned_less [of i] by simp
  have b: "(2 :: nat) ^ 64 \<le> 2 ^ (128 - b)" using assms(2) by (intro power_increasing) auto
  have d: "unat w mod 2 ^ 64 = 0"
  proof -
    have "(2 :: nat) ^ 64 dvd 2 ^ (128 - b)" using assms(2) by (intro le_imp_power_dvd) linarith
    with m show ?thesis by (meson dvd_imp_mod_0 dvd_trans mod_0_imp_dvd)
  qed
  show u: "unat (w + ucast i) = unat w + unat i"
  proof -
    have "unat w + 2 ^ 64 \<le> 2 ^ 128"
      using unsigned_less [of w] by (intro block_end_le [OF d]) simp_all
    with i have "unat w + unat i < 2 ^ 128" by linarith
    moreover have "unat (ucast i :: 128 word) = unat i"
      using i by (simp add: unsigned_ucast_eq take_bit_nat_eq_self_iff)
    ultimately show ?thesis by (simp add: unat_word_ariths)
  qed
  have "be_value (be_bytes 8 (unat w div 2 ^ 64) @ be_bytes 8 (unat i)) = unat w + unat i"
  proof -
    have "unat w div 2 ^ 64 < 2 ^ 64"
      using unsigned_less [of w] by (intro less_mult_imp_div_less) simp
    then have "be_value (be_bytes 8 (unat w div 2 ^ 64)) = unat w div 2 ^ 64"
      by (intro be_value_be_bytes) simp
    moreover have "be_value (be_bytes 8 (unat i)) = unat i"
      using i by (intro be_value_be_bytes) simp
    moreover have "unat w div 2 ^ 64 * 2 ^ 64 = unat w" using d by (intro dvd_div_mult_self) auto
    ultimately show ?thesis by (simp add: be_value_append)
  qed
  then have "addr_from16 (take (16 - length (big_bytes (unat i))) (as16 w) @ big_bytes (unat i)) = V6 (w + ucast i) []"
    unfolding overlay_low_bytes [OF d] addr_from16_def by simp
  moreover have "drop_bit (128 - b) (w + ucast i) = drop_bit (128 - b) w"
  proof -
    have "(unat w + unat i) div 2 ^ (128 - b) = unat w div 2 ^ (128 - b)"
      using m i b by (intro div_nat_eqI) auto
    then show ?thesis
      using u by (simp add: word_unat_eq_iff unat_drop_bit_eq drop_bit_nat_def)
  qed
  ultimately show "AllocateV6For a i = Inr (V6 (w + ucast i) [])"
    using assms(1,4) by (simp add: AllocateV6For_def)
qed

lemma assignable_block:
  assumes "ipam_inv a" and "al_v4 a = Pfx (V4 w) b"
  shows "V4 x \<in> assignable a \<longleftrightarrow> unat w < unat x \<and> unat x < unat w + 2 ^ (32 - b) - 1"
proof -
  from assms have b: "b \<le> 30" "unat w mod 2 ^ (32 - b) = 0" by (auto simp: ipam_inv_def)
  have le: "unat w + 2 ^ (32 - b) \<le> 2 ^ 32"
    using unat_lt_2_32 [of w] by (intro block_end_le [OF b(2)]) simp_all
  have pos: "1 \<le> (2 :: nat) ^ (32 - b)" by simp
  have "lastAddr (al_v4 a) = V4 (word_of_nat (unat w + 2 ^ (32 - b) - 1))"
    using b by (simp only: assms(2) lastAddr_block)
  moreover have "unat (word_of_nat (unat w + 2 ^ (32 - b) - 1) :: 32 word) = unat w + 2 ^ (32 - b) - 1"
    using le pos by (simp add: unat_of_nat)
  ultimately have "isReservedV4 a (V4 x) \<longleftrightarrow> unat x = unat w \<or> unat x = unat w + 2 ^ (32 - b) - 1"
    using assms(2) by (simp add: isReservedV4_def word_unat_eq_iff)
  moreover have "prefix_contains (al_v4 a) (V4 x) \<longleftrightarrow> unat w \<le> unat x \<and> unat x < unat w + 2 ^ (32 - b)"
    unfolding assms(2) by (rule contains_block [OF b(2)])
  ultimately show ?thesis using pos unfolding assignable_def mem_Collect_eq by linarith
qed

lemma default_v6:
  "masked DefaultIPv6Prefix = DefaultIPv6Prefix" "addr_is6 (prefix_addr DefaultIPv6Prefix)"
  "prefix_ok DefaultIPv6Prefix"
  by code_simp+

text \<open>A small allocator (a /30, one address used) and the default one.\<close>

definition tiny_allocator :: Allocator where
  "tiny_allocator = \<lparr>al_v4 = Pfx (V4 0x0a000000) 30, al_v6 = DefaultIPv6Prefix,
     al_used = {V4 0x0a000001}, al_next = V4 0x0a000001\<rparr>"

lemma tiny_allocator_inv: "ipam_inv tiny_allocator"
  by (rule ipam_invI [of _ "0x0a000000" 30 "0x0a000001"]) (simp_all add: tiny_allocator_def default_v6)

section \<open>Properties\<close>

text \<open>
  Claim C31. The IPv4 scan always ends. It returns an address strictly between the network and
  the broadcast address of the prefix that was not in use and is in use afterwards, and fails
  only when every such address is in use; either way the allocator stays well formed.
\<close>
theorem AllocateV4_correct:
  assumes "ipam_inv a" and "al_v4 a = Pfx (V4 w) b"
  shows "\<exists>a' r. AllocateV4 a = Some (a', r) \<and> ipam_inv a' \<and> al_v4 a' = al_v4 a \<and>
    (case r of
       Inr c \<Rightarrow> (\<exists>x. c = V4 x \<and> unat w < unat x \<and> unat x < unat w + 2 ^ (32 - b) - 1) \<and>
         c \<notin> al_used a \<and> al_used a' = insert c (al_used a)
     | Inl e \<Rightarrow> al_used a' = al_used a \<and>
         (\<forall>x. unat w < unat x \<and> unat x < unat w + 2 ^ (32 - b) - 1 \<longrightarrow> V4 x \<in> al_used a))"
proof -
  obtain a' r where r: "AllocateV4 a = Some (a', r)" "al_v4 a' = al_v4 a" "ipam_inv a'"
    "case r of
        Inr c \<Rightarrow> c \<in> assignable a \<and> c \<notin> al_used a \<and> al_used a' = insert c (al_used a)
      | Inl e \<Rightarrow> al_used a' = al_used a \<and> assignable a \<subseteq> al_used a"
    using AllocateV4_spec [OF assms(1)] by blast
  have "\<exists>x. c = V4 x" if "c \<in> assignable a" for c
    using assignable_v4 [OF assms(1) that] by (cases c) auto
  then have c: "(\<exists>x. c = V4 x \<and> unat w < unat x \<and> unat x < unat w + 2 ^ (32 - b) - 1)" if "c \<in> assignable a" for c
    using that assignable_block [OF assms] by blast
  have f: "V4 x \<in> al_used a" if "assignable a \<subseteq> al_used a" "unat w < unat x \<and> unat x < unat w + 2 ^ (32 - b) - 1" for x
    using that assignable_block [OF assms] by blast
  show ?thesis
  proof (cases r)
    case (Inl e)
    with r f show ?thesis by (intro exI [of _ a'] exI [of _ r]) simp
  next
    case (Inr d)
    with r c [of d] show ?thesis by (intro exI [of _ a'] exI [of _ r]) simp
  qed
qed

theorem AllocateV4_correct_witness:
  "\<exists>a' r. AllocateV4 tiny_allocator = Some (a', r) \<and> ipam_inv a'"
  using AllocateV4_correct [OF tiny_allocator_inv, of "0x0a000000" 30] by (auto simp: tiny_allocator_def)

text \<open>From a fresh allocator any number of allocations returns, and the addresses handed
  out are pairwise distinct assignable addresses of the prefix.
\<close>
lemma fresh_allocations_distinct:
  assumes "ipam_New p4 p6 = Inr a" and "p4 = NoPrefix \<or> prefix_ok p4" and "p6 = NoPrefix \<or> prefix_ok p6"
  shows "\<exists>a' xs. ipam.alloc_run n a = Some (a', xs) \<and> distinct xs \<and>
     (\<forall>x. x \<in> set xs \<longrightarrow> prefix_contains (al_v4 a) x \<and> x \<noteq> prefix_addr (al_v4 a) \<and> x \<noteq> lastAddr (al_v4 a))"
proof -
  have "ipam_inv a" using assms by (auto dest: ipam_New_inv)
  from ipam.alloc_run_distinct [OF this, of n] show ?thesis
    unfolding assignable_def isReservedV4_def by (elim exE conjE) (intro exI conjI, assumption+, auto split: if_splits)
qed

text \<open>
  Claim C32. For an IPv6 prefix of at most 64 bits the derived address of a nonzero node ID is
  the prefix address plus the ID: it lies in the prefix, needs no scan, never fails and is
  different for different IDs. ID zero is refused.
\<close>
theorem AllocateV6For_injective:
  assumes "ipam_inv a" and "al_v6 a = Pfx (V6 w []) b" and "b \<le> 64" and "i \<noteq> 0" and "j \<noteq> 0"
  shows "AllocateV6For a i = Inr (V6 (w + ucast i) []) \<and> unat (w + ucast i) = unat w + unat i \<and>
    prefix_contains (al_v6 a) (V6 (w + ucast i) []) \<and>
    (AllocateV6For a i = AllocateV6For a j \<longleftrightarrow> i = j) \<and>
    AllocateV6For a 0 = Inl (ErrMsg ''ipam: node ID must be nonzero'')"
proof -
  from assms(1,2) have "w AND NOT (mask (128 - b)) = w" by (simp add: ipam_inv_def)
  then have m: "unat w mod 2 ^ (128 - b) = 0" by (metis masked_mod_0)
  note ij = AllocateV6For_eq [OF assms(2,3) m assms(4)] AllocateV6For_eq [OF assms(2,3) m assms(5)]
  have "AllocateV6For a i = AllocateV6For a j \<longleftrightarrow> i = j"
  proof
    assume "AllocateV6For a i = AllocateV6For a j"
    then have "w + ucast i = w + (ucast j :: 128 word)" by (simp add: ij(1,3))
    then have "unat w + unat i = unat w + unat j" by (simp only: ij(2,4) [symmetric])
    then show "i = j" by (simp add: word_unat_eq_iff)
  qed simp
  moreover have "prefix_contains (al_v6 a) (V6 (w + ucast i) [])"
    using ij(1) assms(4) by (auto simp: AllocateV6For_def Let_def split: if_splits)
  ultimately show ?thesis using ij by (simp add: AllocateV6For_def)
qed

theorem AllocateV6For_injective_witness:
  "AllocateV6For tiny_allocator 7 = Inr (V6 0xfdab3f19000000000000000000000007 [])"
  using AllocateV6For_injective [OF tiny_allocator_inv, of "0xfdab3f19000000000000000000000000" 48 7 8]
  by (simp add: tiny_allocator_def DefaultIPv6Prefix_def)

text \<open>Past 64 bits the copied ID bytes can overwrite prefix bytes with equal ones: two IDs of a
  /112 prefix get one address.\<close>

lemma AllocateV6For_collision:
  assumes "al_v6 a = Pfx (V6 0xfd000000000000000000000001020000 []) 112"
  shows "AllocateV6For a 5 = Inr (V6 0xfd000000000000000000000001020005 [])"
    and "AllocateV6For a 0x01020005 = Inr (V6 0xfd000000000000000000000001020005 [])"
proof -
  have b: "as16 0xfd000000000000000000000001020000 = [0xfd, 0, 0, 0, 0, 0, 0, 0, 0, 0, 0, 0, 1, 2, 0, 0]"
    and v: "be_value [0xfd, 0, 0, 0, 0, 0, 0, 0, 0, 0, 0, 0, 1, 2, 0, 5] = 0xfd000000000000000000000001020005"
    and i: "big_bytes 5 = [5]" "big_bytes 0x01020005 = [1, 2, 0, 5]" by code_simp+
  show "AllocateV6For a 5 = Inr (V6 0xfd000000000000000000000001020005 [])"
    and "AllocateV6For a 0x01020005 = Inr (V6 0xfd000000000000000000000001020005 [])"
    by (simp_all add: AllocateV6For_def assms b i addr_from16_def v)
qed

end
