(* ===== verification/Key.thy ===== *)
theory Key
  imports Prelude
begin

text \<open>
  Package \<^verbatim>\<open>internal/key\<close>: machine keys (device identity) and node keys (WireGuard), private and
  public, with their binary, text and state-file forms. A \<^verbatim>\<open>[32]byte\<close> is a byte list of length 32
  (\<open>key_ok\<close>). Text produced by \<^verbatim>\<open>MarshalText\<close> is a \<^typ>\<open>string\<close>. The random source is an argument
  (\<open>None\<close> when \<^verbatim>\<open>rand.Read\<close> fails), and so is curve25519's base-point multiplication.

  The lemmas show that every text and binary form reads back, that a machine key is never read
  as a node key or the other way round, that the constant-time comparison is equality and that
  generated keys are clamped as RFC 7748 asks.
\<close>

datatype MachinePrivate = MachinePrivate (mpriv_k: "byte list")
datatype MachinePublic = MachinePublic (mpub_k: "byte list")
datatype NodePrivate = NodePrivate (npriv_k: "byte list")
datatype NodePublic = NodePublic (npub_k: "byte list")

definition machinePrefix :: string where
  "machinePrefix = ''mkey:''"

definition nodePrefix :: string where
  "nodePrefix = ''nodekey:''"

definition key_ok :: "byte list \<Rightarrow> bool" where
  "key_ok k \<longleftrightarrow> length k = 32"

section \<open>Generation\<close>

definition newClamped :: "byte list option \<Rightarrow> byte list res" where
  "newClamped rnd = (case rnd of
     None \<Rightarrow> Inl (ErrWrap ''generating key: %w'' ErrDriver)
   | Some k0 \<Rightarrow>
       (let k1 = k0[0 := k0 ! 0 AND 248];
            k2 = k1[31 := k1 ! 31 AND 127];
            k3 = k2[31 := k2 ! 31 OR 64]
        in Inr k3))"

definition NewMachine :: "byte list option \<Rightarrow> MachinePrivate res" where
  "NewMachine rnd = (case newClamped rnd of Inl e \<Rightarrow> Inl e | Inr k \<Rightarrow> Inr (MachinePrivate k))"

definition NewNode :: "byte list option \<Rightarrow> NodePrivate res" where
  "NewNode rnd = (case newClamped rnd of Inl e \<Rightarrow> Inl e | Inr k \<Rightarrow> Inr (NodePrivate k))"

definition MachinePrivate_Public :: "(byte list \<Rightarrow> byte list) \<Rightarrow> MachinePrivate \<Rightarrow> MachinePublic" where
  "MachinePrivate_Public base_mult p = MachinePublic (base_mult (mpriv_k p))"

definition NodePrivate_Public :: "(byte list \<Rightarrow> byte list) \<Rightarrow> NodePrivate \<Rightarrow> NodePublic" where
  "NodePrivate_Public base_mult p = NodePublic (base_mult (npriv_k p))"

definition NodePrivate_Raw :: "NodePrivate \<Rightarrow> byte list" where
  "NodePrivate_Raw p = npriv_k p"

section \<open>Comparison\<close>

definition MachinePublic_IsZero :: "MachinePublic \<Rightarrow> bool" where
  "MachinePublic_IsZero p \<longleftrightarrow> mpub_k p = zero_key"

definition NodePublic_IsZero :: "NodePublic \<Rightarrow> bool" where
  "NodePublic_IsZero p \<longleftrightarrow> npub_k p = zero_key"

text \<open>\<^verbatim>\<open>subtle.ConstantTimeCompare\<close>: the differing bits are or-ed together over the whole length.\<close>

definition ConstantTimeCompare :: "byte list \<Rightarrow> byte list \<Rightarrow> nat" where
  "ConstantTimeCompare x y = (if length x \<noteq> length y then 0
     else if fold (\<lambda>(a, b) v. v OR (a XOR b)) (zip x y) 0 = 0 then 1 else 0)"

definition MachinePublic_Equal :: "MachinePublic \<Rightarrow> MachinePublic \<Rightarrow> bool" where
  "MachinePublic_Equal p o' \<longleftrightarrow> ConstantTimeCompare (mpub_k p) (mpub_k o') = 1"

definition NodePublic_Equal :: "NodePublic \<Rightarrow> NodePublic \<Rightarrow> bool" where
  "NodePublic_Equal p o' \<longleftrightarrow> ConstantTimeCompare (npub_k p) (npub_k o') = 1"

section \<open>Binary form\<close>

definition MachinePublic_Bytes :: "MachinePublic \<Rightarrow> byte list" where
  "MachinePublic_Bytes p = mpub_k p"

definition NodePublic_Bytes :: "NodePublic \<Rightarrow> byte list" where
  "NodePublic_Bytes p = npub_k p"

definition MachinePublicFromBytes :: "byte list \<Rightarrow> MachinePublic res" where
  "MachinePublicFromBytes b =
     (if length b \<noteq> 32 then Inl (ErrMsg ''machine key: want 32 bytes, got %d'')
      else Inr (MachinePublic (go_copy zero_key b)))"

definition NodePublicFromBytes :: "byte list \<Rightarrow> NodePublic res" where
  "NodePublicFromBytes b =
     (if length b \<noteq> 32 then Inl (ErrMsg ''node key: want 32 bytes, got %d'')
      else Inr (NodePublic (go_copy zero_key b)))"

section \<open>Text form\<close>

definition MachinePublic_String :: "MachinePublic \<Rightarrow> string" where
  "MachinePublic_String p = machinePrefix @ hex_encode (mpub_k p)"

definition NodePublic_String :: "NodePublic \<Rightarrow> string" where
  "NodePublic_String p = nodePrefix @ hex_encode (npub_k p)"

definition MachinePublic_MarshalText :: "MachinePublic \<Rightarrow> string res" where
  "MachinePublic_MarshalText p = Inr (MachinePublic_String p)"

definition NodePublic_MarshalText :: "NodePublic \<Rightarrow> string res" where
  "NodePublic_MarshalText p = Inr (NodePublic_String p)"

text \<open>The receiver's array is an argument; on an error it stays as it was.\<close>

definition unmarshalPrefixed :: "string \<Rightarrow> string \<Rightarrow> byte list \<Rightarrow> byte list res" where
  "unmarshalPrefixed prefix s out =
     (if length s \<noteq> length prefix + 64 \<or> take (length prefix) s \<noteq> prefix
      then Inl (ErrMsg ''invalid key %q: want %q + 64 hex chars'')
      else (case hex_decode (drop (length prefix) s) of
         None \<Rightarrow> Inl (ErrMsg ''invalid key %q: %w'')
       | Some raw \<Rightarrow> Inr (go_copy out raw)))"

definition MachinePublic_UnmarshalText :: "MachinePublic \<Rightarrow> string \<Rightarrow> MachinePublic res" where
  "MachinePublic_UnmarshalText p b = (case unmarshalPrefixed machinePrefix b (mpub_k p) of
     Inl e \<Rightarrow> Inl e | Inr k \<Rightarrow> Inr (MachinePublic k))"

definition NodePublic_UnmarshalText :: "NodePublic \<Rightarrow> string \<Rightarrow> NodePublic res" where
  "NodePublic_UnmarshalText p b = (case unmarshalPrefixed nodePrefix b (npub_k p) of
     Inl e \<Rightarrow> Inl e | Inr k \<Rightarrow> Inr (NodePublic k))"

section \<open>State-file form of private keys\<close>

definition MachinePrivate_Hex :: "MachinePrivate \<Rightarrow> string" where
  "MachinePrivate_Hex p = hex_encode (mpriv_k p)"

definition NodePrivate_Hex :: "NodePrivate \<Rightarrow> string" where
  "NodePrivate_Hex p = hex_encode (npriv_k p)"

definition privFromHex :: "string \<Rightarrow> byte list \<Rightarrow> byte list res" where
  "privFromHex s out = (case hex_decode s of
     None \<Rightarrow> Inl (ErrMsg ''encoding/hex: invalid'')
   | Some raw \<Rightarrow> (if length raw \<noteq> 32 then Inl (ErrMsg ''want 32 bytes, got %d'')
       else Inr (go_copy out raw)))"

definition MachinePrivateFromHex :: "string \<Rightarrow> MachinePrivate res" where
  "MachinePrivateFromHex s = (case privFromHex s zero_key of
     Inl e \<Rightarrow> Inl (ErrWrap ''machine private key: %w'' e) | Inr k \<Rightarrow> Inr (MachinePrivate k))"

definition NodePrivateFromHex :: "string \<Rightarrow> NodePrivate res" where
  "NodePrivateFromHex s = (case privFromHex s zero_key of
     Inl e \<Rightarrow> Inl (ErrWrap ''node private key: %w'' e) | Inr k \<Rightarrow> Inr (NodePrivate k))"

section \<open>Lemmas\<close>

lemma unmarshalPrefixed_marshalled [codec_simps]:
  "length k = 32 \<Longrightarrow> length out = 32 \<Longrightarrow>
   unmarshalPrefixed prefix (prefix @ hex_encode k) out = Inr k"
  by (simp add: unmarshalPrefixed_def codec_simps)

lemma unmarshalPrefixed_length:
  assumes "unmarshalPrefixed prefix s out = Inr k" and "length out = 32"
  shows "length k = 32"
  using assms by (auto simp: unmarshalPrefixed_def split: if_splits option.splits)

lemma unmarshalPrefixed_content:
  assumes "unmarshalPrefixed prefix s out = Inr k" and "length out = 32"
  shows "hex_decode (drop (length prefix) s) = Some k"
  using assms by (auto simp: unmarshalPrefixed_def split: if_splits option.splits dest: hex_decode_length)

definition node_key_dec :: "string \<Rightarrow> byte list option" where
  "node_key_dec s = (case unmarshalPrefixed nodePrefix s zero_key of Inl _ \<Rightarrow> None | Inr k \<Rightarrow> Some k)"

definition machine_key_dec :: "string \<Rightarrow> byte list option" where
  "machine_key_dec s = (case unmarshalPrefixed machinePrefix s zero_key of Inl _ \<Rightarrow> None | Inr k \<Rightarrow> Some k)"

interpretation node_text: text_codec "\<lambda>k. nodePrefix @ hex_encode k" node_key_dec key_ok
  by unfold_locales (simp add: node_key_dec_def key_ok_def codec_simps)

interpretation machine_text: text_codec "\<lambda>k. machinePrefix @ hex_encode k" machine_key_dec key_ok
  by unfold_locales (simp add: machine_key_dec_def key_ok_def codec_simps)

lemma fold_or_zero:
  "fold (\<lambda>(a, b) v. v OR (a XOR b)) ps v = (0 :: byte) \<longleftrightarrow> v = 0 \<and> (\<forall>(a, b) \<in> set ps. a = b)"
proof (induction ps arbitrary: v)
  case (Cons p ps)
  have "x OR y = 0 \<longleftrightarrow> x = 0 \<and> y = 0" for x y :: byte
    by (metis or_eq_0_iff)
  moreover have "x XOR y = 0 \<longleftrightarrow> x = y" for x y :: byte
    by (metis word_bw_assocs(3) word_bw_same(3) xor.comm_neutral xor.commute)
  ultimately show ?case using Cons by (cases p) auto
qed simp

lemma constant_time_compare_eq: "ConstantTimeCompare x y = 1 \<longleftrightarrow> x = y"
proof (cases "length x = length y")
  case True
  then have "(\<forall>(a, b) \<in> set (zip x y). a = b) \<longleftrightarrow> x = y"
    by (induction x y rule: list_induct2) auto
  with True show ?thesis by (simp add: ConstantTimeCompare_def fold_or_zero)
qed (auto simp: ConstantTimeCompare_def)

lemma clamp_bits:
  "((b :: byte) AND 248) AND 7 = 0" "(b AND 127 OR 64) AND 128 = 0" "(b AND 127 OR 64) AND 64 = 64"
proof -
  show "(b AND 248) AND 7 = 0" by (simp add: and.assoc)
  show "(b AND 127 OR 64) AND 128 = 0" by (simp add: word_ao_dist and.assoc)
  show "(b AND 127 OR 64) AND 64 = 64" by (simp add: word_ao_dist and.assoc word_ao_absorbs)
qed

section \<open>Properties\<close>

text \<open>
  Claim C33. A public key of either kind is read back from its text form, whatever the receiver
  held before, and the text form of one kind is refused by the reader of the other kind.
\<close>

theorem key_text_roundtrip:
  assumes "key_ok (npub_k n)" and "key_ok (mpub_k m)" and "key_ok (npub_k n0)" and "key_ok (mpub_k m0)"
  shows "NodePublic_UnmarshalText n0 (NodePublic_String n) = Inr n \<and>
    MachinePublic_UnmarshalText m0 (MachinePublic_String m) = Inr m \<and>
    (\<exists>e. NodePublic_UnmarshalText n0 (MachinePublic_String m) = Inl e) \<and>
    (\<exists>e. MachinePublic_UnmarshalText m0 (NodePublic_String n) = Inl e)"
proof -
  have "NodePublic_UnmarshalText n0 (NodePublic_String n) = Inr n"
    "MachinePublic_UnmarshalText m0 (MachinePublic_String m) = Inr m"
    using assms by (simp_all add: NodePublic_UnmarshalText_def NodePublic_String_def
        MachinePublic_UnmarshalText_def MachinePublic_String_def key_ok_def codec_simps)
  moreover have "\<exists>e. NodePublic_UnmarshalText n0 (MachinePublic_String m) = Inl e"
    "\<exists>e. MachinePublic_UnmarshalText m0 (NodePublic_String n) = Inl e"
    using assms by (auto simp: NodePublic_UnmarshalText_def NodePublic_String_def key_ok_def
        MachinePublic_UnmarshalText_def MachinePublic_String_def unmarshalPrefixed_def
        nodePrefix_def machinePrefix_def)
  ultimately show ?thesis by blast
qed

theorem key_text_roundtrip_witness:
  "NodePublic_UnmarshalText (NodePublic zero_key) (NodePublic_String (NodePublic (replicate 32 171)))
     = Inr (NodePublic (replicate 32 171))"
  using key_text_roundtrip [of "NodePublic (replicate 32 171)" "MachinePublic zero_key"
      "NodePublic zero_key" "MachinePublic zero_key"]
  by (simp add: key_ok_def)

text \<open>A generated private key has 32 bytes and is clamped: the three low bits of the first
  byte and the high bit of the last are clear, bit 254 is set, and every other byte is the random
  one; in particular it is never the zero key.
\<close>

lemma newClamped_clamps:
  assumes "length r = 32"
  shows "\<exists>k. newClamped (Some r) = Inr k \<and> length k = 32 \<and> k ! 0 AND 7 = 0 \<and>
    k ! 31 AND 128 = 0 \<and> k ! 31 AND 64 = 64 \<and> (\<forall>i \<in> {1..30}. k ! i = r ! i) \<and> k \<noteq> zero_key"
proof -
  let ?k = "r[0 := r ! 0 AND 248, 31 := r ! 31 AND 127 OR 64]"
  have "newClamped (Some r) = Inr ?k"
    using assms by (simp add: newClamped_def Let_def)
  moreover have "?k ! 31 AND 64 = 64"
    using assms by (simp add: clamp_bits)
  moreover from this have "?k \<noteq> zero_key"
    by (auto simp: zero_key_def dest: arg_cong [where f = "\<lambda>k. k ! 31"])
  ultimately show ?thesis
    using assms by (intro exI [of _ ?k]) (auto simp: clamp_bits)
qed

text \<open>The binary form reads back and nothing but 32 bytes is accepted, a private key reads
  back from the state file, and the constant-time comparison of public keys is equality.
\<close>

lemma key_binary_and_state_forms:
  assumes "key_ok (npub_k n)" and "key_ok (npriv_k p)"
  shows "NodePublicFromBytes (NodePublic_Bytes n) = Inr n \<and>
    NodePrivateFromHex (NodePrivate_Hex p) = Inr p \<and>
    ((\<exists>q. NodePublicFromBytes b = Inr q) \<longleftrightarrow> length b = 32) \<and>
    (NodePublic_Equal n n' \<longleftrightarrow> n = n')"
proof -
  have "NodePublicFromBytes (NodePublic_Bytes n) = Inr n" "NodePrivateFromHex (NodePrivate_Hex p) = Inr p"
    using assms by (simp_all add: NodePublicFromBytes_def NodePublic_Bytes_def NodePrivateFromHex_def
        NodePrivate_Hex_def privFromHex_def key_ok_def codec_simps)
  moreover have "(\<exists>q. NodePublicFromBytes b = Inr q) \<longleftrightarrow> length b = 32"
    by (simp add: NodePublicFromBytes_def)
  moreover have "NodePublic_Equal n n' \<longleftrightarrow> n = n'"
    by (auto simp: NodePublic_Equal_def constant_time_compare_eq [unfolded One_nat_def] NodePublic.expand)
  ultimately show ?thesis by blast
qed

end
