(* ===== verification/Packet_Filter.thy ===== *)
theory Packet_Filter
  imports Netip
begin

text \<open>
  Package \<^verbatim>\<open>internal/filter\<close>: the packet filter of the receiving node, and the protobuf messages
  \<^verbatim>\<open>FilterRule\<close> and \<^verbatim>\<open>PortRange\<close> it is built from. A nil \<^verbatim>\<open>*Filter\<close> is \<open>None\<close>. Slice expressions of
  the packet parser go through \<open>slice\<close>, whose \<open>None\<close> is Go's out-of-range panic, and the parser
  returns its four named results; the lemmas show that no packet makes it panic.

  The properties: the filter decides by the first rule that applies, denies when none does and
  denies what it cannot parse; the parser reads the fields of IPv4 and IPv6 headers; and the
  dry run \<^verbatim>\<open>Check\<close> agrees with the packet path.
\<close>

section \<open>Messages\<close>

record pb_PortRange =
  pb_First :: "32 word"
  pb_Last :: "32 word"

record pb_FilterRule =
  pb_Allow :: bool
  pb_SrcCidrs :: "string list"
  pb_Protocol :: string
  pb_DstPorts :: "pb_PortRange list"

section \<open>Rules\<close>

definition protoICMP4 :: byte where "protoICMP4 = 1"
definition protoTCP :: byte where "protoTCP = 6"
definition protoUDP :: byte where "protoUDP = 17"
definition protoICMP6 :: byte where "protoICMP6 = 58"

lemmas proto_defs = protoICMP4_def protoTCP_def protoUDP_def protoICMP6_def

record PortRange =
  pr_First :: "16 word"
  pr_Last :: "16 word"

record Rule =
  rule_Allow :: bool
  rule_Srcs :: "Prefix list"
  rule_Proto :: string
  rule_Ports :: "PortRange list"

record Filter =
  flt_enabled :: bool
  flt_rules :: "Rule list"

definition filter_New :: "Rule list \<Rightarrow> bool \<Rightarrow> Filter option" where
  "filter_New rules enabled = Some \<lparr>flt_enabled = enabled, flt_rules = rules\<rparr>"

text \<open>\<^verbatim>\<open>FromProto\<close>: unparseable source prefixes are dropped, the 32-bit ports are cut to 16 bits.\<close>

definition rule_from_proto :: "pb_FilterRule \<Rightarrow> Rule" where
  "rule_from_proto pr = \<lparr>rule_Allow = pb_Allow pr,
     rule_Srcs = List.map_filter parse_prefix (pb_SrcCidrs pr),
     rule_Proto = pb_Protocol pr,
     rule_Ports = map (\<lambda>p. \<lparr>pr_First = ucast (pb_First p), pr_Last = ucast (pb_Last p)\<rparr>) (pb_DstPorts pr)\<rparr>"

definition FromProto :: "pb_FilterRule list \<Rightarrow> bool \<Rightarrow> Filter option" where
  "FromProto rules enabled = filter_New (map rule_from_proto rules) enabled"

definition matchesSrc :: "Rule \<Rightarrow> Addr \<Rightarrow> bool" where
  "matchesSrc r src = (if rule_Srcs r = [] then True
     else list_ex (\<lambda>p. prefix_contains p src) (rule_Srcs r))"

definition matchesProto :: "Rule \<Rightarrow> byte \<Rightarrow> bool" where
  "matchesProto r proto =
     (if rule_Proto r = '''' then True
      else if rule_Proto r = ''tcp'' then proto = protoTCP
      else if rule_Proto r = ''udp'' then proto = protoUDP
      else if rule_Proto r = ''icmp'' then proto = protoICMP4 \<or> proto = protoICMP6
      else False)"

definition matchesPort :: "Rule \<Rightarrow> byte \<Rightarrow> 16 word \<Rightarrow> bool" where
  "matchesPort r proto port =
     (if rule_Ports r = [] then True
      else if proto \<noteq> protoTCP \<and> proto \<noteq> protoUDP then False
      else list_ex (\<lambda>pr. pr_First pr \<le> port \<and> port \<le> pr_Last pr) (rule_Ports r))"

fun allows_rules :: "Rule list \<Rightarrow> Addr \<Rightarrow> byte \<Rightarrow> 16 word \<Rightarrow> bool" where
  "allows_rules [] src proto dstPort = False"
| "allows_rules (r # rs) src proto dstPort =
     (if \<not> matchesProto r proto \<or> \<not> matchesSrc r src \<or> \<not> matchesPort r proto dstPort
      then allows_rules rs src proto dstPort
      else rule_Allow r)"

definition filter_allows :: "Filter \<Rightarrow> Addr \<Rightarrow> byte \<Rightarrow> 16 word \<Rightarrow> bool" where
  "filter_allows f src proto dstPort = allows_rules (flt_rules f) src proto dstPort"

definition filter_Check :: "Filter option \<Rightarrow> Addr \<Rightarrow> string \<Rightarrow> 16 word \<Rightarrow> bool" where
  "filter_Check fo src protoName port = (case fo of
     None \<Rightarrow> True
   | Some f \<Rightarrow>
       if \<not> flt_enabled f then True
       else if protoName = ''tcp'' then filter_allows f src protoTCP port
       else if protoName = ''udp'' then filter_allows f src protoUDP port
       else if protoName = ''icmp''
         then filter_allows f src (if addr_is6 src then protoICMP6 else protoICMP4) port
       else False)"

section \<open>Packets\<close>

definition slice :: "'a list \<Rightarrow> nat \<Rightarrow> nat \<Rightarrow> 'a list option" where
  "slice xs i j = (if i \<le> j \<and> j \<le> length xs then Some (take (j - i) (drop i xs)) else None)"

text \<open>\<^verbatim>\<open>binary.BigEndian.Uint16\<close> of a two-byte slice, and the address of a slice (the zero address
  when its length is not that of an address).\<close>

definition be_uint16 :: "byte list \<Rightarrow> 16 word" where
  "be_uint16 bs = word_of_nat (be_value bs)"

definition slice_addr :: "byte list \<Rightarrow> Addr" where
  "slice_addr bs = (case addr_from_slice bs of None \<Rightarrow> NoAddr | Some a \<Rightarrow> a)"

type_synonym parsed = "Addr \<times> byte \<times> 16 word \<times> bool"

definition parse4 :: "byte list \<Rightarrow> parsed option" where
  "parse4 pkt =
     (if length pkt < 20 then Some (NoAddr, 0, 0, False)
      else (let ihl = unat (pkt ! 0 AND 0x0f) * 4 in
        if ihl < 20 \<or> length pkt < ihl then Some (NoAddr, 0, 0, False)
        else (let proto = pkt ! 9 in
          case slice pkt 12 16 of None \<Rightarrow> None | Some sb \<Rightarrow>
          (let src = slice_addr sb in
           if (proto = protoTCP \<or> proto = protoUDP) \<and> length pkt < ihl + 4
           then Some (src, proto, 0, False)
           else (case (if proto = protoTCP \<or> proto = protoUDP
                       then map_option be_uint16 (slice pkt (ihl + 2) (ihl + 4)) else Some 0) of
               None \<Rightarrow> None
             | Some dstPort \<Rightarrow> (case slice pkt 6 8 of None \<Rightarrow> None | Some fb \<Rightarrow>
                 (let frag = be_uint16 fb AND 0x1fff in
                  Some (src, proto, (if frag \<noteq> 0 then 0 else dstPort), True))))))))"

definition parse6 :: "byte list \<Rightarrow> parsed option" where
  "parse6 pkt =
     (if length pkt < 40 then Some (NoAddr, 0, 0, False)
      else (let proto = pkt ! 6 in
        case slice pkt 8 24 of None \<Rightarrow> None | Some sb \<Rightarrow>
        (let src = slice_addr sb in
         if (proto = protoTCP \<or> proto = protoUDP) \<and> length pkt < 44
         then Some (src, proto, 0, False)
         else (case (if proto = protoTCP \<or> proto = protoUDP
                     then map_option be_uint16 (slice pkt 42 44) else Some 0) of
             None \<Rightarrow> None
           | Some dstPort \<Rightarrow> Some (src, proto, dstPort, True)))))"

definition parse_packet :: "byte list \<Rightarrow> parsed option" where
  "parse_packet pkt =
     (if length pkt < 1 then Some (NoAddr, 0, 0, False)
      else (let version = drop_bit 4 (pkt ! 0) in
        if version = 4 then parse4 pkt
        else if version = 6 then parse6 pkt
        else Some (NoAddr, 0, 0, False)))"

definition AllowsPacket :: "Filter option \<Rightarrow> byte list \<Rightarrow> bool option" where
  "AllowsPacket fo pkt = (case fo of
     None \<Rightarrow> Some True
   | Some f \<Rightarrow>
       if \<not> flt_enabled f then Some True
       else (case parse_packet pkt of
           None \<Rightarrow> None
         | Some (src, proto, dstPort, ok) \<Rightarrow>
             if \<not> ok then Some False else Some (filter_allows f src proto dstPort)))"

section \<open>Lemmas\<close>

text \<open>What it means that a rule applies, without the code's early returns.\<close>

definition rule_applies :: "Rule \<Rightarrow> Addr \<times> byte \<times> 16 word \<Rightarrow> bool" where
  "rule_applies r = (\<lambda>(src, proto, port).
     (rule_Srcs r = [] \<or> (\<exists>p \<in> set (rule_Srcs r). prefix_contains p src)) \<and>
     (rule_Proto r = [] \<or> rule_Proto r = ''tcp'' \<and> proto = protoTCP \<or> rule_Proto r = ''udp'' \<and> proto = protoUDP \<or>
      rule_Proto r = ''icmp'' \<and> proto \<in> {protoICMP4, protoICMP6}) \<and>
     (rule_Ports r = [] \<or> proto \<in> {protoTCP, protoUDP} \<and>
       (\<exists>pr \<in> set (rule_Ports r). port \<in> {pr_First pr..pr_Last pr})))"

lemma rule_applies_matches:
  "rule_applies r (src, proto, port) \<longleftrightarrow>
     matchesProto r proto \<and> matchesSrc r src \<and> matchesPort r proto port"
  unfolding rule_applies_def matchesProto_def matchesSrc_def matchesPort_def
  by (auto simp: list_ex_iff)

lemma allows_rules_first_match:
  "allows_rules rs src proto port = first_match rule_applies rule_Allow rs (src, proto, port)"
  by (induction rs) (auto simp: rule_applies_matches)

lemma first_match_index:
  "first_match app verdict rs p \<longleftrightarrow>
     (\<exists>i < length rs. app (rs ! i) p \<and> verdict (rs ! i) \<and> (\<forall>j < i. \<not> app (rs ! j) p))"
proof (induction rs)
  case (Cons r rs)
  show ?case
    unfolding first_match.simps Cons.IH
    by (simp add: Ex_less_Suc2 All_less_Suc2 conj_ac)
qed simp

lemma parse4_returns: "\<exists>r. parse4 pkt = Some r"
  by (auto simp: parse4_def slice_def Let_def)

lemma parse6_returns: "\<exists>r. parse6 pkt = Some r"
  by (auto simp: parse6_def slice_def Let_def)

lemma parse_packet_returns: "\<exists>r. parse_packet pkt = Some r"
  using parse4_returns [of pkt] parse6_returns [of pkt] by (auto simp: parse_packet_def Let_def)

text \<open>Packets as the wire has them: an IPv4 header of \<open>ihl\<close> words with its options, and the fixed
  IPv6 header.\<close>

definition ipv4_packet :: "byte \<Rightarrow> byte \<Rightarrow> 16 word \<Rightarrow> 16 word \<Rightarrow> 16 word \<Rightarrow> byte \<Rightarrow> byte \<Rightarrow> 16 word \<Rightarrow>
    32 word \<Rightarrow> 32 word \<Rightarrow> byte list \<Rightarrow> byte list \<Rightarrow> byte list" where
  "ipv4_packet ihl tos len ident frag ttl proto csum src dst options payload =
     [0x40 OR ihl, tos] @ be_bytes 2 (unat len) @ be_bytes 2 (unat ident) @ be_bytes 2 (unat frag) @
     [ttl, proto] @ be_bytes 2 (unat csum) @ be_bytes 4 (unat src) @ be_bytes 4 (unat dst) @ options @ payload"

definition ipv6_packet :: "28 word \<Rightarrow> 16 word \<Rightarrow> byte \<Rightarrow> byte \<Rightarrow> 128 word \<Rightarrow> 128 word \<Rightarrow> byte list \<Rightarrow> byte list" where
  "ipv6_packet flow len proto hops src dst payload =
     be_bytes 4 (6 * 2 ^ 28 + unat flow) @ be_bytes 2 (unat len) @ [proto, hops] @
     be_bytes 16 (unat src) @ be_bytes 16 (unat dst) @ payload"

definition has_ports :: "byte \<Rightarrow> bool" where
  "has_ports proto \<longleftrightarrow> proto = protoTCP \<or> proto = protoUDP"

lemma be_bytes_2: "be_bytes 2 n = [word_of_nat (n div 256 mod 256), word_of_nat (n mod 256)]"
  by (simp add: be_bytes_def numeral_2_eq_2)

lemma be_uint16_bytes [simp]: "be_uint16 (be_bytes 2 (unat (x :: 16 word))) = x"
proof -
  have "unat x < 256 ^ 2" by (rule order_less_le_trans [OF unsigned_less]) simp
  then show ?thesis by (simp add: be_uint16_def be_value_be_bytes)
qed

lemma slice_addr_4 [simp]: "slice_addr (be_bytes 4 (unat (x :: 32 word))) = V4 x"
  using unat_lt_2_32 [of x] by (simp add: slice_addr_def addr_from_slice_def addr_from4_def be_value_be_bytes)

lemma slice_addr_16 [simp]: "slice_addr (be_bytes 16 (unat (x :: 128 word))) = V6 x []"
proof -
  have "unat x < 256 ^ 16" by (rule order_less_le_trans [OF unsigned_less]) simp
  then show ?thesis by (simp add: slice_addr_def addr_from_slice_def addr_from16_def be_value_be_bytes)
qed

lemma slice_append:
  "length xs = i \<Longrightarrow> i + length ys = j \<Longrightarrow> slice (xs @ ys @ zs) i j = Some ys"
  by (auto simp: slice_def)

lemma version_byte:
  assumes "ihl < 16"
  shows "drop_bit 4 (0x40 OR ihl) = (4 :: byte)" and "(0x40 OR ihl) AND 0x0f = (ihl :: byte)"
proof -
  have u: "unat ihl < 16" using assms by (simp add: word_less_nat_alt)
  have k: "(0x0f :: byte) = mask 4" "(0x40 :: byte) AND mask 4 = 0" "drop_bit 4 (0x40 :: byte) = 4" by code_simp+
  have "unat (take_bit 4 ihl) = unat ihl" using u by (simp add: unsigned_take_bit_eq take_bit_nat_eq_self)
  then have m: "ihl AND mask 4 = ihl" by (simp add: word_unat_eq_iff take_bit_eq_mask)
  show "(0x40 OR ihl) AND 0x0f = ihl"
    unfolding k(1) using m k(2) by (simp add: bit.conj_disj_distrib2)
  have "unat (drop_bit 4 ihl) = 0" using u by (simp add: unat_drop_bit_eq drop_bit_nat_def)
  then show "drop_bit 4 (0x40 OR ihl) = 4" using k(3) by (simp add: drop_bit_or unsigned_eq_0_iff)
qed

lemma parse_ipv4_packet:
  assumes ihl: "5 \<le> ihl" "ihl < 16" and opts: "length options = 4 * unat ihl - 20"
  shows "parse_packet (ipv4_packet ihl tos len ident frag ttl proto csum src dst options payload) =
    Some (if has_ports proto \<and> length payload < 4 then (V4 src, proto, 0, False)
      else (V4 src, proto,
        (if frag AND 0x1fff \<noteq> 0 \<or> \<not> has_ports proto then 0 else be_uint16 (take 2 (drop 2 payload))), True))"
proof -
  define pkt where "pkt = ipv4_packet ihl tos len ident frag ttl proto csum src dst options payload"
  have u: "5 \<le> unat ihl" using ihl(1) by (simp add: word_le_nat_alt)
  have hd: "pkt ! 0 = 0x40 OR ihl" "pkt ! 9 = proto" by (simp_all add: pkt_def ipv4_packet_def be_bytes_2)
  have len: "length pkt = 4 * unat ihl + length payload" using u opts by (simp add: pkt_def ipv4_packet_def)
  have s: "slice pkt 12 16 = Some (be_bytes 4 (unat src))"
    using slice_append [of "[0x40 OR ihl, tos] @ be_bytes 2 (unat len) @ be_bytes 2 (unat ident) @ be_bytes 2 (unat frag) @
      [ttl, proto] @ be_bytes 2 (unat csum)" 12 "be_bytes 4 (unat src)" 16]
    by (simp add: pkt_def ipv4_packet_def)
  have f: "slice pkt 6 8 = Some (be_bytes 2 (unat frag))"
    using slice_append [of "[0x40 OR ihl, tos] @ be_bytes 2 (unat len) @ be_bytes 2 (unat ident)" 6
        "be_bytes 2 (unat frag)" 8]
    by (simp add: pkt_def ipv4_packet_def)
  have p: "slice pkt (unat ihl * 4 + 2) (unat ihl * 4 + 4) = Some (take 2 (drop 2 payload))" if "4 \<le> length payload"
  proof -
    obtain h where h: "pkt = h @ payload" "length h = unat ihl * 4"
      using u opts by (simp add: pkt_def ipv4_packet_def flip: append_assoc)
    show ?thesis using that by (simp add: slice_def h)
  qed
  have "\<not> length pkt < 1" using len u by linarith
  then have "parse_packet pkt = parse4 pkt"
    by (simp only: parse_packet_def Let_def hd version_byte [OF ihl(2)] if_False if_True simp_thms)
  moreover have "\<not> length pkt < 20" "\<not> unat ihl * 4 < 20" "\<not> length pkt < unat ihl * 4"
    "length pkt < unat ihl * 4 + 4 \<longleftrightarrow> length payload < 4"
    using len u by linarith+
  then have "parse4 pkt = Some (if has_ports proto \<and> length payload < 4 then (V4 src, proto, 0, False)
      else (V4 src, proto,
        (if frag AND 0x1fff \<noteq> 0 \<or> \<not> has_ports proto then 0 else be_uint16 (take 2 (drop 2 payload))), True))"
    unfolding parse4_def Let_def hd version_byte [OF ihl(2)] s f has_ports_def [symmetric]
    using p by (cases "has_ports proto"; cases "length payload < 4") simp_all
  ultimately show ?thesis unfolding pkt_def by simp
qed

lemma parse_ipv6_packet:
  "parse_packet (ipv6_packet flow len proto hops src dst payload) =
    Some (if has_ports proto \<and> length payload < 4 then (V6 src [], proto, 0, False)
      else (V6 src [], proto, (if has_ports proto then be_uint16 (take 2 (drop 2 payload)) else 0), True))"
proof -
  define pkt where "pkt = ipv6_packet flow len proto hops src dst payload"
  have u: "unat flow < 2 ^ 28" by (rule order_less_le_trans [OF unsigned_less]) simp
  have b4: "be_bytes 4 n = [word_of_nat (n div 256 div 256 div 256 mod 256), word_of_nat (n div 256 div 256 mod 256),
      word_of_nat (n div 256 mod 256), word_of_nat (n mod 256)]" for n
  proof -
    have four: "(4 :: nat) = Suc (Suc (Suc (Suc 0)))" by simp
    show ?thesis by (simp only: be_bytes_def four digs.simps append.simps list.map)
  qed
  have h: "pkt ! 0 = word_of_nat ((6 * 2 ^ 28 + unat flow) div 2 ^ 24 mod 256)"
  proof -
    have d: "n div 256 div 256 div 256 = n div 2 ^ 24" for n :: nat by (simp add: div_mult2_eq [symmetric])
    show ?thesis by (simp only: pkt_def ipv6_packet_def b4 d append_Cons nth_Cons_0)
  qed
  have v: "drop_bit 4 (pkt ! 0) = 6"
  proof -
    have "(6 * 2 ^ 28 + unat flow) div 2 ^ 24 mod 256 = 96 + unat flow div 2 ^ 24" "unat flow div 2 ^ 24 < 16"
      using u by simp_all
    moreover have "unat (pkt ! 0) = (6 * 2 ^ 28 + unat flow) div 2 ^ 24 mod 256"
      unfolding h unat_of_nat by (rule mod_less) (rule order_less_le_trans [OF mod_less_divisor], simp_all)
    ultimately have "unat (pkt ! 0) = 96 + unat flow div 2 ^ 24" "unat flow div 2 ^ 24 < 16" by simp_all
    then have "unat (pkt ! 0) div 16 = 6" by simp
    then show ?thesis by (simp add: word_unat_eq_iff unat_drop_bit_eq drop_bit_nat_def)
  qed
  have hd: "pkt ! 6 = proto" by (simp add: pkt_def ipv6_packet_def b4 be_bytes_2)
  have len: "length pkt = 40 + length payload" by (simp add: pkt_def ipv6_packet_def)
  have s: "slice pkt 8 24 = Some (be_bytes 16 (unat src))"
    using slice_append [of "be_bytes 4 (6 * 2 ^ 28 + unat flow) @ be_bytes 2 (unat len) @ [proto, hops]" 8
        "be_bytes 16 (unat src)" 24]
    by (simp add: pkt_def ipv6_packet_def)
  have p: "slice pkt 42 44 = Some (take 2 (drop 2 payload))" if "4 \<le> length payload"
    using that by (simp add: slice_def pkt_def ipv6_packet_def)
  have v4: "(6 :: byte) \<noteq> 4" by simp
  have "\<not> length pkt < 1" using len by linarith
  then have "parse_packet pkt = parse6 pkt"
    by (simp only: parse_packet_def Let_def v v4 if_False if_True simp_thms)
  moreover have "\<not> length pkt < 40" "length pkt < 44 \<longleftrightarrow> length payload < 4" using len by linarith+
  then have "parse6 pkt = Some (if has_ports proto \<and> length payload < 4 then (V6 src [], proto, 0, False)
      else (V6 src [], proto, (if has_ports proto then be_uint16 (take 2 (drop 2 payload)) else 0), True))"
    unfolding parse6_def Let_def hd s has_ports_def [symmetric]
    using p by (cases "has_ports proto"; cases "length payload < 4") simp_all
  ultimately show ?thesis unfolding pkt_def by simp
qed


section \<open>Properties\<close>

text \<open>
  Claim C34. No packet makes the filter panic. A disabled or absent filter passes everything; an
  enabled one passes a packet exactly when it parses and some rule applies to its source,
  protocol and destination port, allows, and no earlier rule applies. So the first matching rule
  decides, no match denies, and what does not parse is denied.
\<close>
theorem AllowsPacket_first_match:
  "(\<exists>v. AllowsPacket fo pkt = Some v) \<and>
   AllowsPacket None pkt = Some True \<and>
   AllowsPacket (Some (f\<lparr>flt_enabled := False\<rparr>)) pkt = Some True \<and>
   (AllowsPacket (Some (f\<lparr>flt_enabled := True\<rparr>)) pkt = Some True \<longleftrightarrow>
     (\<exists>src proto port i. parse_packet pkt = Some (src, proto, port, True) \<and> i < length (flt_rules f) \<and>
        rule_applies (flt_rules f ! i) (src, proto, port) \<and> rule_Allow (flt_rules f ! i) \<and>
        {j. j < i \<and> rule_applies (flt_rules f ! j) (src, proto, port)} = {}))"
proof -
  obtain src proto port ok where p: "parse_packet pkt = Some (src, proto, port, ok)"
    using parse_packet_returns [of pkt] by (metis prod_cases4)
  then have "\<exists>v. AllowsPacket fo pkt = Some v"
    by (auto simp: AllowsPacket_def split: option.splits)
  with p show ?thesis
    by (auto simp: AllowsPacket_def filter_allows_def allows_rules_first_match first_match_index)
qed

text \<open>The parser reads the IPv4 fields where the header has them, for every header length
  and options: the source address and protocol, and for TCP and UDP the destination port of the
  first fragment. A later fragment has port 0, and a TCP or UDP packet too short for its ports
  does not parse.
\<close>
lemma parse_ipv4_header:
  assumes "5 \<le> ihl" and "ihl < 16" and "length options = 4 * unat ihl - 20"
  shows "parse_packet (ipv4_packet ihl tos len ident frag ttl proto csum src dst options payload) =
    Some (if has_ports proto \<and> length payload < 4 then (V4 src, proto, 0, False)
      else (V4 src, proto,
        (if frag AND 0x1fff \<noteq> 0 \<or> \<not> has_ports proto then 0 else be_uint16 (take 2 (drop 2 payload))), True))"
  by (rule parse_ipv4_packet [OF assms])

text \<open>The same for the fixed IPv6 header, whatever the flow label: every packet with TCP or
  UDP as next header yields its destination port, any other next header port 0.
\<close>
lemma parse_ipv6_header:
  "parse_packet (ipv6_packet flow len proto hops src dst payload) =
    Some (if has_ports proto \<and> length payload < 4 then (V6 src [], proto, 0, False)
      else (V6 src [], proto, (if has_ports proto then be_uint16 (take 2 (drop 2 payload)) else 0), True))"
  by (rule parse_ipv6_packet)

text \<open>
  Claim C35. The dry run agrees with the packet path: for a packet that parses to the given
  source, protocol and port, \<^verbatim>\<open>Check\<close> with the protocol's name decides as \<^verbatim>\<open>AllowsPacket\<close> does.
\<close>
theorem Check_agrees_with_packet:
  assumes "parse_packet pkt = Some (src, proto, port, True)"
    and "(name, proto) \<in> {(''tcp'', protoTCP), (''udp'', protoUDP),
           (''icmp'', if addr_is6 src then protoICMP6 else protoICMP4)}"
  shows "AllowsPacket fo pkt = Some (filter_Check fo src name port)"
  using assms by (auto simp: AllowsPacket_def filter_Check_def split: option.splits)

theorem Check_agrees_with_packet_witness:
  "AllowsPacket (Some \<lparr>flt_enabled = True, flt_rules = [\<lparr>rule_Allow = True, rule_Srcs = [Pfx (V4 0x0a000001) 32],
       rule_Proto = ''tcp'', rule_Ports = [\<lparr>pr_First = 440, pr_Last = 450\<rparr>]\<rparr>]\<rparr>)
     (ipv4_packet 5 0 40 1 0 64 6 0 0x0a000001 0x0a000002 [] [0, 80, 1, 187]) = Some True"
  using Check_agrees_with_packet [of "ipv4_packet 5 0 40 1 0 64 6 0 0x0a000001 0x0a000002 [] [0, 80, 1, 187]"
      "V4 0x0a000001" 6 443 "''tcp''" "Some \<lparr>flt_enabled = True, flt_rules = [\<lparr>rule_Allow = True, rule_Srcs = [Pfx (V4 0x0a000001) 32],
       rule_Proto = ''tcp'', rule_Ports = [\<lparr>pr_First = 440, pr_Last = 450\<rparr>]\<rparr>]\<rparr>"]
    parse_ipv4_packet [of 5 "[]" 0 40 1 0 64 6 0 "0x0a000001" "0x0a000002" "[0, 80, 1, 187]"]
  by (simp add: has_ports_def proto_defs be_uint16_def be_value_def horner_def filter_Check_def
      filter_allows_def matchesProto_def matchesSrc_def matchesPort_def)

end
