(* ===== verification/Database.thy ===== *)
theory Database
  imports Netip
begin

text \<open>
  The SQLite database of the control plane: the tables of the schemas in \<^verbatim>\<open>internal/store\<close>, and what
  the SQL statements of the package do to them.

  A table is the list of its rows in insertion order with its AUTOINCREMENT counter. Addresses and
  prefixes are stored as text, as in the schema; a JSON column holds the list it encodes. \<open>faults\<close>
  says which statements the driver fails: a failing statement changes nothing, and two executions
  of the same statement with the same arguments inside one call fail or succeed together. Time is
  \<open>now\<close>, in nanoseconds since 1970, one instant per call; a zero \<^verbatim>\<open>time.Time\<close> is \<open>None\<close>.

  The locale \<open>autoincrement\<close> is the interface of an insertion: the new row gets an ID that no row
  has or ever had, can be read back, and no other row changes.
\<close>

section \<open>Tables\<close>

record 'r table =
  tbl_rows :: "'r list"
  tbl_seq :: int

definition tbl_insert :: "(int \<Rightarrow> 'r) \<Rightarrow> 'r table \<Rightarrow> 'r table" where
  "tbl_insert mk t = \<lparr>tbl_rows = tbl_rows t @ [mk (tbl_seq t + 1)], tbl_seq = tbl_seq t + 1\<rparr>"

definition tbl_update :: "('r \<Rightarrow> bool) \<Rightarrow> ('r \<Rightarrow> 'r) \<Rightarrow> 'r table \<Rightarrow> 'r table" where
  "tbl_update p f t = t\<lparr>tbl_rows := map (\<lambda>r. if p r then f r else r) (tbl_rows t)\<rparr>"

definition tbl_delete :: "('r \<Rightarrow> bool) \<Rightarrow> 'r table \<Rightarrow> 'r table" where
  "tbl_delete p t = t\<lparr>tbl_rows := filter (\<lambda>r. \<not> p r) (tbl_rows t)\<rparr>"

definition tbl_find :: "('r \<Rightarrow> bool) \<Rightarrow> 'r table \<Rightarrow> 'r option" where
  "tbl_find p t = find p (tbl_rows t)"

definition tbl_exists :: "('r \<Rightarrow> bool) \<Rightarrow> 'r table \<Rightarrow> bool" where
  "tbl_exists p t = list_ex p (tbl_rows t)"

text \<open>No ID is left past the largest 64-bit integer; the insertion then fails.\<close>

definition tbl_full :: "'r table \<Rightarrow> bool" where
  "tbl_full t \<longleftrightarrow> 2 ^ 63 - 1 \<le> tbl_seq t"

text \<open>IDs are positive, grow in insertion order and never exceed the counter.\<close>

definition tbl_ok :: "('r \<Rightarrow> int) \<Rightarrow> 'r table \<Rightarrow> bool" where
  "tbl_ok rid t \<longleftrightarrow> sorted_wrt (<) (map rid (tbl_rows t)) \<and> 0 \<le> tbl_seq t \<and> tbl_seq t < 2 ^ 63 \<and>
     (\<forall>r \<in> set (tbl_rows t). 0 < rid r \<and> rid r \<le> tbl_seq t)"

lemma tbl_exists_iff [simp]: "tbl_exists p t \<longleftrightarrow> (\<exists>r \<in> set (tbl_rows t). p r)"
  by (simp add: tbl_exists_def list_ex_iff)

lemma tbl_ok_distinct: "tbl_ok rid t \<Longrightarrow> distinct (map rid (tbl_rows t))"
  by (simp add: tbl_ok_def strict_sorted_iff)

lemma tbl_ok_sort [simp]: "tbl_ok rid t \<Longrightarrow> sort_key rid (filter p (tbl_rows t)) = filter p (tbl_rows t)"
proof -
  assume "tbl_ok rid t"
  then have "sorted (map rid (tbl_rows t))" by (simp add: tbl_ok_def strict_sorted_imp_sorted)
  then show ?thesis by (simp add: sort_key_id_if_sorted sorted_filter)
qed

lemma tbl_ok_update:
  assumes "tbl_ok rid t" and "\<And>r. rid (f r) = rid r"
  shows "tbl_ok rid (tbl_update p f t)"
proof -
  have "rid \<circ> (\<lambda>r. if p r then f r else r) = rid" using assms(2) by (auto simp: fun_eq_iff)
  with assms show ?thesis by (auto simp: tbl_ok_def tbl_update_def)
qed

lemma tbl_ok_delete: "tbl_ok rid t \<Longrightarrow> tbl_ok rid (tbl_delete p t)"
  by (auto simp: tbl_ok_def tbl_delete_def sorted_wrt_map sorted_wrt_filter)

lemma tbl_find_Some: "tbl_find p t = Some r \<Longrightarrow> r \<in> set (tbl_rows t) \<and> p r"
  by (auto simp: tbl_find_def find_Some_iff)

lemma tbl_find_None: "tbl_find p t = None \<longleftrightarrow> (\<forall>r \<in> set (tbl_rows t). \<not> p r)"
  by (auto simp: tbl_find_def find_None_iff)

lemma tbl_find_id:
  assumes "tbl_ok rid t" and "r \<in> set (tbl_rows t)"
  shows "tbl_find (\<lambda>r'. rid r' = rid r) t = Some r"
proof (cases "tbl_find (\<lambda>r'. rid r' = rid r) t")
  case None
  with assms(2) show ?thesis by (auto simp: tbl_find_None)
next
  case (Some r')
  then have "r' \<in> set (tbl_rows t)" "rid r' = rid r" by (auto dest: tbl_find_Some)
  with assms tbl_ok_distinct [OF assms(1)] Some show ?thesis by (auto simp: distinct_map inj_on_def)
qed

lemma tbl_rows_simps [simp]:
  "tbl_rows (tbl_update p f t) = map (\<lambda>r. if p r then f r else r) (tbl_rows t)"
  "tbl_rows (tbl_delete p t) = filter (\<lambda>r. \<not> p r) (tbl_rows t)"
  "tbl_rows (tbl_insert mk t) = tbl_rows t @ [mk (tbl_seq t + 1)]"
  "tbl_seq (tbl_update p f t) = tbl_seq t" "tbl_seq (tbl_delete p t) = tbl_seq t"
  "tbl_seq (tbl_insert mk t) = tbl_seq t + 1"
  by (simp_all add: tbl_update_def tbl_delete_def tbl_insert_def)

section \<open>Interface: inserting into an AUTOINCREMENT table\<close>

locale autoincrement =
  fixes rid :: "'r \<Rightarrow> int" and mk :: "'a \<Rightarrow> int \<Rightarrow> 'r"
  assumes rid_mk [simp]: "rid (mk x i) = i"
begin

lemma insert_fresh: "tbl_ok rid t \<Longrightarrow> r \<in> set (tbl_rows t) \<Longrightarrow> rid r < tbl_seq t + 1"
  by (auto simp: tbl_ok_def)

lemma insert_ok: "tbl_ok rid t \<Longrightarrow> \<not> tbl_full t \<Longrightarrow> tbl_ok rid (tbl_insert (mk x) t)"
  by (auto simp: tbl_ok_def tbl_insert_def tbl_full_def sorted_wrt_append)

lemma find_inserted:
  assumes "tbl_ok rid t" and "\<not> tbl_full t"
  shows "tbl_find (\<lambda>r. rid r = tbl_seq t + 1) (tbl_insert (mk x) t) = Some (mk x (tbl_seq t + 1))"
  using tbl_find_id [OF insert_ok [OF assms, of x], of "mk x (tbl_seq t + 1)"] by simp

lemma find_other:
  assumes "i \<noteq> tbl_seq t + 1"
  shows "tbl_find (\<lambda>r. rid r = i) (tbl_insert (mk x) t) = tbl_find (\<lambda>r. rid r = i) t"
proof -
  have "find (\<lambda>r. rid r = i) (rs @ [mk x (tbl_seq t + 1)]) = find (\<lambda>r. rid r = i) rs" for rs
    using assms by (induction rs) auto
  then show ?thesis by (simp add: tbl_find_def)
qed

text \<open>An ID is never given twice, whatever is deleted in between.\<close>

lemma id_not_reused:
  assumes "tbl_ok rid t" and "\<not> tbl_full t"
  shows "\<forall>r \<in> set (tbl_rows (tbl_insert (mk y) (tbl_delete p (tbl_insert (mk x) t)))).
    rid r = tbl_seq t + 1 \<longrightarrow> r = mk x (tbl_seq t + 1)"
  using assms(1) by (auto dest: insert_fresh)

end

section \<open>The schema\<close>

record NetworkRow =
  nwr_id :: int
  nwr_name :: string
  nwr_v4_prefix :: string
  nwr_v6_prefix :: string
  nwr_created_at :: int

record NodeRow =
  nr_id :: int
  nr_network_id :: int
  nr_hostname :: string
  nr_machine_key :: string
  nr_node_key :: string
  nr_ipv4 :: string
  nr_ipv6 :: string
  nr_os :: string
  nr_endpoints :: "string list"
  nr_created_at :: int
  nr_last_seen :: int
  nr_owner_user_id :: int

record SetupKeyRow =
  skr_id :: int
  skr_network_id :: int
  skr_key :: string
  skr_reusable :: int
  skr_revoked :: int
  skr_expires_at :: int
  skr_used_count :: int
  skr_created_at :: int
  skr_owner_user_id :: int

record AclRow =
  ar_id :: int
  ar_network_id :: int
  ar_position :: int
  ar_action :: string
  ar_src_ids :: "int list"
  ar_dst_ids :: "int list"
  ar_protocol :: string
  ar_ports :: "string list"
  ar_created_at :: int

record RouteRow =
  rr_node_id :: int
  rr_route :: string
  rr_approved :: int

record UserRow =
  ur_id :: int
  ur_username :: string
  ur_password_hash :: string
  ur_role :: string
  ur_disabled :: int
  ur_created_at :: int

record AuditRow =
  aur_id :: int
  aur_ts :: int
  aur_username :: string
  aur_action :: string
  aur_target :: string
  aur_details :: string

record Store =
  st_settings :: "string \<rightharpoonup> string"
  st_networks :: "NetworkRow table"
  st_nodes :: "NodeRow table"
  st_setup_keys :: "SetupKeyRow table"
  st_acl_rules :: "AclRow table"
  st_node_routes :: "RouteRow list"
  st_users :: "UserRow table"
  st_audit_log :: "AuditRow table"

definition empty_table :: "'r table" where
  "empty_table = \<lparr>tbl_rows = [], tbl_seq = 0\<rparr>"

text \<open>The database after \<^verbatim>\<open>Open\<close> has applied the schema to a new file.\<close>

definition empty_store :: Store where
  "empty_store = \<lparr>st_settings = Map.empty, st_networks = empty_table, st_nodes = empty_table,
     st_setup_keys = empty_table, st_acl_rules = empty_table, st_node_routes = [],
     st_users = empty_table, st_audit_log = empty_table\<rparr>"

section \<open>Statements and their failures\<close>

text \<open>One constructor per SQL statement of the package, with the arguments that identify it.\<close>

datatype stmt =
    QSetting string | XSetSetting string
  | XEnsureNetwork string | QNetworkByName string | QNetworkByID int
  | XCreateNode string | QNodeByMachineKey string | QNodeByID int | QNodesInNetwork int
  | XDeleteNode int | XUpdateNodeEndpoints int | XUpdateNodeIPv6 int | XUpdateNodeOnRegister int
  | XTouchNode int | QHostnameTaken int string
  | XNewSetupKey string | QSetupKeys int | XRevokeSetupKey int | QSetupKeyByKey string
  | XUseSetupKey int | QSetupKeyByID int
  | QACL int | XAclBegin | XAclDelete int | XAclInsert int int | XAclCommit
  | XRoutesBegin | XRouteInsert int string | QRoutesOf int | XRouteDelete int string | XRoutesCommit
  | QNodeRoutes int | XSetRouteApproved int string
  | XCreateUser string | QUserByName string | QUserByID int | QUsers | QUserLogin string
  | XSetUserDisabled int | XSetUserRole int | XSetUserPassword int | XDeleteUser int | QAdminCount
  | XAudit string string | QAuditLog

type_synonym faults = "stmt \<Rightarrow> bool"

text \<open>A driver that fails nothing.\<close>

definition no_faults :: faults where
  "no_faults = (\<lambda>_. False)"

section \<open>Helpers of the package\<close>

definition boolInt :: "bool \<Rightarrow> int" where
  "boolInt b = (if b then 1 else 0)"

text \<open>\<^verbatim>\<open>Time.Unix()\<close> and \<^verbatim>\<open>time.Unix(sec, 0)\<close>.\<close>

definition unix :: "int \<Rightarrow> int" where
  "unix t = t div 1000000000"

definition time_unix :: "int \<Rightarrow> int" where
  "time_unix sec = sec * 1000000000"

text \<open>The loop over the rows of a query: the first row that cannot be read ends it.\<close>

fun scan_rows :: "('r \<Rightarrow> 'a res) \<Rightarrow> 'r list \<Rightarrow> 'a list res" where
  "scan_rows f [] = Inr []"
| "scan_rows f (r # rs) = (case f r of
     Inl e \<Rightarrow> Inl e
   | Inr x \<Rightarrow> (case scan_rows f rs of Inl e \<Rightarrow> Inl e | Inr xs \<Rightarrow> Inr (x # xs)))"

lemma boolInt_nonzero [simp]: "(boolInt b \<noteq> 0) = b" "(boolInt b = 0) = (\<not> b)"
  by (simp_all add: boolInt_def)


lemma scan_rows_total: "scan_rows (\<lambda>r. Inr (g r)) rs = Inr (map g rs)"
  by (induction rs) auto

lemma scan_rows_mem:
  "scan_rows f rs = Inr xs \<Longrightarrow> x \<in> set xs \<Longrightarrow> \<exists>r \<in> set rs. f r = Inr x"
  by (induction rs arbitrary: xs) (auto split: sum.splits)

lemma scan_rows_mem': "scan_rows f rs = Inr xs \<Longrightarrow> r \<in> set rs \<Longrightarrow> \<exists>x \<in> set xs. f r = Inr x"
  by (induction rs arbitrary: xs) (auto split: sum.splits)

lemma scan_rows_keys:
  "scan_rows f rs = Inr xs \<Longrightarrow> (\<And>r x. f r = Inr x \<Longrightarrow> k x = h r) \<Longrightarrow> map k xs = map h rs"
  by (induction rs arbitrary: xs) (auto split: sum.splits)

end
