(* ===== verification/Store_Base.thy ===== *)
theory Store_Base
  imports Database
begin

text \<open>
  \<^verbatim>\<open>internal/store/store.go\<close>: settings, networks, nodes and setup keys. Reads take the database and
  return a result; writes return the new database with the result. Rows are read back through
  \<open>hydrateNode\<close> and \<open>parsePrefixes\<close>, which parse the text columns, so a row with bad text is an
  error of the read.

  The lemmas show the database invariant \<open>store_ok\<close> (unique IDs and keys, no dangling reference)
  and that every write keeps it, that what was written reads back, and when a setup key is
  accepted.
\<close>

record Network =
  nw_ID :: int
  nw_Name :: string
  nw_V4Prefix :: Prefix
  nw_V6Prefix :: Prefix

record Node =
  n_ID :: int
  n_NetworkID :: int
  n_Hostname :: string
  n_MachineKey :: string
  n_NodeKey :: string
  n_IPv4 :: Addr
  n_IPv6 :: Addr
  n_OS :: string
  n_Endpoints :: "string list"
  n_CreatedAt :: "int option"
  n_LastSeen :: "int option"
  n_OwnerUserID :: int

record SetupKey =
  sk_ID :: int
  sk_NetworkID :: int
  sk_Key :: string
  sk_Reusable :: bool
  sk_Revoked :: bool
  sk_ExpiresAt :: "int option"
  sk_UsedCount :: int
  sk_CreatedAt :: int
  sk_OwnerUserID :: int

section \<open>Settings\<close>

definition Setting :: "faults \<Rightarrow> Store \<Rightarrow> string \<Rightarrow> string res" where
  "Setting flt s key = (if flt (QSetting key) then Inl ErrDriver
     else case st_settings s key of None \<Rightarrow> Inl ErrNotFound | Some v \<Rightarrow> Inr v)"

definition SetSetting :: "faults \<Rightarrow> Store \<Rightarrow> string \<Rightarrow> string \<Rightarrow> Store \<times> unit res" where
  "SetSetting flt s key value = (if flt (XSetSetting key) then (s, Inl ErrDriver)
     else (s\<lparr>st_settings := (st_settings s)(key \<mapsto> value)\<rparr>, Inr ()))"

section \<open>Networks\<close>

definition parsePrefixes :: "NetworkRow \<Rightarrow> Network res" where
  "parsePrefixes r = (case parse_prefix (nwr_v4_prefix r) of
     None \<Rightarrow> Inl (ErrWrap ''network %s: bad v4 prefix: %w'' (ErrMsg ''netip.ParsePrefix''))
   | Some v4 \<Rightarrow> (case parse_prefix (nwr_v6_prefix r) of
       None \<Rightarrow> Inl (ErrWrap ''network %s: bad v6 prefix: %w'' (ErrMsg ''netip.ParsePrefix''))
     | Some v6 \<Rightarrow> Inr \<lparr>nw_ID = nwr_id r, nw_Name = nwr_name r, nw_V4Prefix = v4, nw_V6Prefix = v6\<rparr>))"

definition NetworkByName :: "faults \<Rightarrow> Store \<Rightarrow> string \<Rightarrow> Network res" where
  "NetworkByName flt s name = (if flt (QNetworkByName name) then Inl ErrDriver
     else case tbl_find (\<lambda>r. nwr_name r = name) (st_networks s) of
       None \<Rightarrow> Inl ErrNotFound | Some r \<Rightarrow> parsePrefixes r)"

definition NetworkByID :: "faults \<Rightarrow> Store \<Rightarrow> int \<Rightarrow> Network res" where
  "NetworkByID flt s i = (if flt (QNetworkByID i) then Inl ErrDriver
     else case tbl_find (\<lambda>r. nwr_id r = i) (st_networks s) of
       None \<Rightarrow> Inl ErrNotFound | Some r \<Rightarrow> parsePrefixes r)"

definition network_row :: "string \<times> Prefix \<times> Prefix \<times> int \<Rightarrow> int \<Rightarrow> NetworkRow" where
  "network_row = (\<lambda>(name, v4, v6, now) i. \<lparr>nwr_id = i, nwr_name = name, nwr_v4_prefix = prefix_text v4,
     nwr_v6_prefix = prefix_text v6, nwr_created_at = unix now\<rparr>)"

text \<open>\<^verbatim>\<open>INSERT OR IGNORE\<close>: a name that exists is left as it is.\<close>

definition EnsureNetwork :: "faults \<Rightarrow> int \<Rightarrow> Store \<Rightarrow> string \<Rightarrow> Prefix \<Rightarrow> Prefix \<Rightarrow> Store \<times> Network res" where
  "EnsureNetwork flt now s name v4 v6 =
     (if flt (XEnsureNetwork name) then (s, Inl ErrDriver)
      else if tbl_exists (\<lambda>r. nwr_name r = name) (st_networks s) then (s, NetworkByName flt s name)
      else if tbl_full (st_networks s) then (s, Inl ErrDriver)
      else (let s' = s\<lparr>st_networks := tbl_insert (network_row (name, v4, v6, now)) (st_networks s)\<rparr>
            in (s', NetworkByName flt s' name)))"

section \<open>Nodes\<close>

definition node_row :: "Node \<times> int \<Rightarrow> int \<Rightarrow> NodeRow" where
  "node_row = (\<lambda>(n, now) i. \<lparr>nr_id = i, nr_network_id = n_NetworkID n, nr_hostname = n_Hostname n,
     nr_machine_key = n_MachineKey n, nr_node_key = n_NodeKey n, nr_ipv4 = addr_text (n_IPv4 n),
     nr_ipv6 = addr_text (n_IPv6 n), nr_os = n_OS n, nr_endpoints = n_Endpoints n,
     nr_created_at = unix now, nr_last_seen = 0, nr_owner_user_id = n_OwnerUserID n\<rparr>)"

definition CreateNode :: "faults \<Rightarrow> int \<Rightarrow> Store \<Rightarrow> Node \<Rightarrow> Store \<times> Node res" where
  "CreateNode flt now s n =
     (if flt (XCreateNode (n_MachineKey n)) then (s, Inl ErrDriver)
      else if tbl_exists (\<lambda>r. nr_machine_key r = n_MachineKey n) (st_nodes s) then (s, Inl ErrUnique)
      else if \<not> tbl_exists (\<lambda>r. nwr_id r = n_NetworkID n) (st_networks s) then (s, Inl ErrDriver)
      else if tbl_full (st_nodes s) then (s, Inl ErrDriver)
      else (s\<lparr>st_nodes := tbl_insert (node_row (n, now)) (st_nodes s)\<rparr>,
            Inr (n\<lparr>n_ID := tbl_seq (st_nodes s) + 1, n_CreatedAt := Some now\<rparr>)))"

definition hydrateNode :: "NodeRow \<Rightarrow> Node res" where
  "hydrateNode r = (case parse_addr (nr_ipv4 r) of
     None \<Rightarrow> Inl (ErrWrap ''node %d: bad ipv4: %w'' (ErrMsg ''netip.ParseAddr''))
   | Some v4 \<Rightarrow> (case parse_addr (nr_ipv6 r) of
       None \<Rightarrow> Inl (ErrWrap ''node %d: bad ipv6: %w'' (ErrMsg ''netip.ParseAddr''))
     | Some v6 \<Rightarrow> Inr \<lparr>n_ID = nr_id r, n_NetworkID = nr_network_id r, n_Hostname = nr_hostname r,
         n_MachineKey = nr_machine_key r, n_NodeKey = nr_node_key r, n_IPv4 = v4, n_IPv6 = v6,
         n_OS = nr_os r, n_Endpoints = nr_endpoints r, n_CreatedAt = Some (time_unix (nr_created_at r)),
         n_LastSeen = (if nr_last_seen r > 0 then Some (time_unix (nr_last_seen r)) else None),
         n_OwnerUserID = nr_owner_user_id r\<rparr>))"

definition scanNode :: "bool \<Rightarrow> (NodeRow \<Rightarrow> bool) \<Rightarrow> Store \<Rightarrow> Node res" where
  "scanNode fails p s = (if fails then Inl ErrDriver
     else case tbl_find p (st_nodes s) of None \<Rightarrow> Inl ErrNotFound | Some r \<Rightarrow> hydrateNode r)"

definition NodeByMachineKey :: "faults \<Rightarrow> Store \<Rightarrow> string \<Rightarrow> Node res" where
  "NodeByMachineKey flt s mkey = scanNode (flt (QNodeByMachineKey mkey)) (\<lambda>r. nr_machine_key r = mkey) s"

definition NodeByID :: "faults \<Rightarrow> Store \<Rightarrow> int \<Rightarrow> Node res" where
  "NodeByID flt s i = scanNode (flt (QNodeByID i)) (\<lambda>r. nr_id r = i) s"

definition NodesInNetwork :: "faults \<Rightarrow> Store \<Rightarrow> int \<Rightarrow> Node list res" where
  "NodesInNetwork flt s networkID = (if flt (QNodesInNetwork networkID) then Inl ErrDriver
     else scan_rows hydrateNode (sort_key nr_id (filter (\<lambda>r. nr_network_id r = networkID) (tbl_rows (st_nodes s)))))"

text \<open>Deleting a node deletes its routes (\<^verbatim>\<open>ON DELETE CASCADE\<close>).\<close>

definition store_DeleteNode :: "faults \<Rightarrow> Store \<Rightarrow> int \<Rightarrow> Store \<times> unit res" where
  "store_DeleteNode flt s i =
     (if flt (XDeleteNode i) then (s, Inl ErrDriver)
      else if \<not> tbl_exists (\<lambda>r. nr_id r = i) (st_nodes s) then (s, Inl ErrNotFound)
      else (s\<lparr>st_nodes := tbl_delete (\<lambda>r. nr_id r = i) (st_nodes s),
              st_node_routes := filter (\<lambda>r. rr_node_id r \<noteq> i) (st_node_routes s)\<rparr>, Inr ()))"

text \<open>\<^verbatim>\<open>UPDATE nodes SET \<dots> WHERE id = ?\<close>; an ID without a row is no error.\<close>

definition update_node :: "bool \<Rightarrow> Store \<Rightarrow> int \<Rightarrow> (NodeRow \<Rightarrow> NodeRow) \<Rightarrow> Store \<times> unit res" where
  "update_node fails s i f = (if fails then (s, Inl ErrDriver)
     else (s\<lparr>st_nodes := tbl_update (\<lambda>r. nr_id r = i) f (st_nodes s)\<rparr>, Inr ()))"

definition UpdateNodeEndpoints :: "faults \<Rightarrow> Store \<Rightarrow> int \<Rightarrow> string list \<Rightarrow> Store \<times> unit res" where
  "UpdateNodeEndpoints flt s i endpoints =
     update_node (flt (XUpdateNodeEndpoints i)) s i (nr_endpoints_update (\<lambda>_. endpoints))"

definition UpdateNodeIPv6 :: "faults \<Rightarrow> Store \<Rightarrow> int \<Rightarrow> Addr \<Rightarrow> Store \<times> unit res" where
  "UpdateNodeIPv6 flt s i addr =
     update_node (flt (XUpdateNodeIPv6 i)) s i (nr_ipv6_update (\<lambda>_. addr_text addr))"

definition UpdateNodeOnRegister :: "faults \<Rightarrow> Store \<Rightarrow> int \<Rightarrow> string \<Rightarrow> string \<Rightarrow> string \<Rightarrow> Store \<times> unit res" where
  "UpdateNodeOnRegister flt s i nodeKey hostname osName =
     update_node (flt (XUpdateNodeOnRegister i)) s i
       (\<lambda>r. r\<lparr>nr_node_key := nodeKey, nr_hostname := hostname, nr_os := osName\<rparr>)"

definition TouchNode :: "faults \<Rightarrow> int \<Rightarrow> Store \<Rightarrow> int \<Rightarrow> Store \<times> unit res" where
  "TouchNode flt now s i = update_node (flt (XTouchNode i)) s i (nr_last_seen_update (\<lambda>_. unix now))"

text \<open>\<^verbatim>\<open>HostnameTaken\<close> returns its count and the driver's error; on an error the count is 0.\<close>

definition HostnameTaken :: "faults \<Rightarrow> Store \<Rightarrow> int \<Rightarrow> string \<Rightarrow> bool \<times> goerr option" where
  "HostnameTaken flt s networkID hostname =
     (if flt (QHostnameTaken networkID hostname) then (False, Some ErrDriver)
      else (length (filter (\<lambda>r. nr_network_id r = networkID \<and> nr_hostname r = hostname)
              (tbl_rows (st_nodes s))) > 0, None))"

section \<open>Setup keys\<close>

definition setup_key_row :: "SetupKey \<Rightarrow> int \<Rightarrow> SetupKeyRow" where
  "setup_key_row k i = \<lparr>skr_id = i, skr_network_id = sk_NetworkID k, skr_key = sk_Key k,
     skr_reusable = boolInt (sk_Reusable k), skr_revoked = 0,
     skr_expires_at = (case sk_ExpiresAt k of None \<Rightarrow> 0 | Some t \<Rightarrow> unix t),
     skr_used_count = 0, skr_created_at = unix (sk_CreatedAt k), skr_owner_user_id = sk_OwnerUserID k\<rparr>"

text \<open>\<open>raw\<close> is what \<^verbatim>\<open>rand.Read\<close> filled the 24-byte buffer with, \<open>None\<close> its error.\<close>

definition NewSetupKey :: "faults \<Rightarrow> byte list option \<Rightarrow> int \<Rightarrow> Store \<Rightarrow> int \<Rightarrow> bool \<Rightarrow> int option \<Rightarrow> int \<Rightarrow> Store \<times> SetupKey res" where
  "NewSetupKey flt raw now s networkID reusable expiresAt ownerUserID = (case raw of
     None \<Rightarrow> (s, Inl ErrDriver)
   | Some bs \<Rightarrow>
      (let k = \<lparr>sk_ID = 0, sk_NetworkID = networkID, sk_Key = ''sk-'' @ hex_encode bs, sk_Reusable = reusable,
                sk_Revoked = False, sk_ExpiresAt = expiresAt, sk_UsedCount = 0, sk_CreatedAt = now,
                sk_OwnerUserID = ownerUserID\<rparr> in
       if flt (XNewSetupKey (sk_Key k)) then (s, Inl ErrDriver)
       else if tbl_exists (\<lambda>r. skr_key r = sk_Key k) (st_setup_keys s) then (s, Inl ErrUnique)
       else if \<not> tbl_exists (\<lambda>r. nwr_id r = networkID) (st_networks s) then (s, Inl ErrDriver)
       else if tbl_full (st_setup_keys s) then (s, Inl ErrDriver)
       else (s\<lparr>st_setup_keys := tbl_insert (setup_key_row k) (st_setup_keys s)\<rparr>,
             Inr (k\<lparr>sk_ID := tbl_seq (st_setup_keys s) + 1\<rparr>))))"

definition scanSetupKey :: "SetupKeyRow \<Rightarrow> SetupKey" where
  "scanSetupKey r = \<lparr>sk_ID = skr_id r, sk_NetworkID = skr_network_id r, sk_Key = skr_key r,
     sk_Reusable = (skr_reusable r \<noteq> 0), sk_Revoked = (skr_revoked r \<noteq> 0),
     sk_ExpiresAt = (if skr_expires_at r > 0 then Some (time_unix (skr_expires_at r)) else None),
     sk_UsedCount = skr_used_count r, sk_CreatedAt = time_unix (skr_created_at r),
     sk_OwnerUserID = skr_owner_user_id r\<rparr>"

definition SetupKeys :: "faults \<Rightarrow> Store \<Rightarrow> int \<Rightarrow> SetupKey list res" where
  "SetupKeys flt s networkID = (if flt (QSetupKeys networkID) then Inl ErrDriver
     else scan_rows (\<lambda>r. Inr (scanSetupKey r))
       (rev (sort_key skr_id (filter (\<lambda>r. skr_network_id r = networkID) (tbl_rows (st_setup_keys s))))))"

definition RevokeSetupKey :: "faults \<Rightarrow> Store \<Rightarrow> int \<Rightarrow> Store \<times> unit res" where
  "RevokeSetupKey flt s i =
     (if flt (XRevokeSetupKey i) then (s, Inl ErrDriver)
      else if \<not> tbl_exists (\<lambda>r. skr_id r = i) (st_setup_keys s) then (s, Inl ErrNotFound)
      else (s\<lparr>st_setup_keys := tbl_update (\<lambda>r. skr_id r = i) (skr_revoked_update (\<lambda>_. 1)) (st_setup_keys s)\<rparr>, Inr ()))"

text \<open>\<^verbatim>\<open>time.Now().After(k.ExpiresAt)\<close> for a key that expires.\<close>

definition key_expired :: "int \<Rightarrow> SetupKey \<Rightarrow> bool" where
  "key_expired now k = (case sk_ExpiresAt k of None \<Rightarrow> False | Some t \<Rightarrow> t < now)"

definition UseSetupKey :: "faults \<Rightarrow> int \<Rightarrow> Store \<Rightarrow> string \<Rightarrow> Store \<times> (Network \<times> int) res" where
  "UseSetupKey flt now s keyStr0 =
     (let keyStr = trim_space keyStr0 in
      if flt (QSetupKeyByKey keyStr) then (s, Inl ErrDriver)
      else (case tbl_find (\<lambda>r. skr_key r = keyStr) (st_setup_keys s) of
         None \<Rightarrow> (s, Inl (ErrMsg ''unknown setup key''))
       | Some r \<Rightarrow>
          (let k = scanSetupKey r in
           if sk_Revoked k then (s, Inl (ErrMsg ''setup key has been revoked''))
           else if key_expired now k then (s, Inl (ErrMsg ''setup key has expired''))
           else if \<not> sk_Reusable k \<and> sk_UsedCount k > 0
             then (s, Inl (ErrMsg ''setup key was single-use and is spent''))
           else if flt (XUseSetupKey (sk_ID k)) then (s, Inl ErrDriver)
           else (let s' = s\<lparr>st_setup_keys := tbl_update (\<lambda>r. skr_id r = sk_ID k)
                              (\<lambda>r. r\<lparr>skr_used_count := skr_used_count r + 1\<rparr>) (st_setup_keys s)\<rparr> in
             (case NetworkByID flt s' (sk_NetworkID k) of
                Inl e \<Rightarrow> (s', Inl e)
              | Inr nw \<Rightarrow> (s', Inr (nw, sk_OwnerUserID k)))))))"

definition SetupKeyByID :: "faults \<Rightarrow> Store \<Rightarrow> int \<Rightarrow> SetupKey res" where
  "SetupKeyByID flt s i = (if flt (QSetupKeyByID i) then Inl ErrDriver
     else case tbl_find (\<lambda>r. skr_id r = i) (st_setup_keys s) of
       None \<Rightarrow> Inl ErrNotFound | Some r \<Rightarrow> Inr (scanSetupKey r))"

section \<open>The database invariant\<close>

interpretation network_tbl: autoincrement nwr_id network_row
  by unfold_locales (simp add: network_row_def split: prod.splits)

interpretation node_tbl: autoincrement nr_id node_row
  by unfold_locales (simp add: node_row_def split: prod.splits)

interpretation setup_key_tbl: autoincrement skr_id setup_key_row
  by unfold_locales (simp add: setup_key_row_def)

text \<open>Primary keys, UNIQUE columns and foreign keys of the schema, and text columns that parse.\<close>

definition nodes_ok :: "Store \<Rightarrow> bool" where
  "nodes_ok s \<longleftrightarrow> tbl_ok nr_id (st_nodes s) \<and> distinct (map nr_machine_key (tbl_rows (st_nodes s))) \<and>
     (\<forall>r \<in> set (tbl_rows (st_nodes s)). nr_network_id r \<in> nwr_id ` set (tbl_rows (st_networks s)) \<and>
        (\<exists>n. hydrateNode r = Inr n))"

definition networks_ok :: "Store \<Rightarrow> bool" where
  "networks_ok s \<longleftrightarrow> tbl_ok nwr_id (st_networks s) \<and> distinct (map nwr_name (tbl_rows (st_networks s))) \<and>
     (\<forall>r \<in> set (tbl_rows (st_networks s)). \<exists>n. parsePrefixes r = Inr n)"

definition setup_keys_ok :: "Store \<Rightarrow> bool" where
  "setup_keys_ok s \<longleftrightarrow> tbl_ok skr_id (st_setup_keys s) \<and> distinct (map skr_key (tbl_rows (st_setup_keys s))) \<and>
     (\<forall>r \<in> set (tbl_rows (st_setup_keys s)). skr_network_id r \<in> nwr_id ` set (tbl_rows (st_networks s)) \<and>
        0 \<le> skr_used_count r)"

definition routes_ok :: "Store \<Rightarrow> bool" where
  "routes_ok s \<longleftrightarrow> distinct (map (\<lambda>r. (rr_node_id r, rr_route r)) (st_node_routes s)) \<and>
     (\<forall>r \<in> set (st_node_routes s). rr_node_id r \<in> nr_id ` set (tbl_rows (st_nodes s)))"

definition acl_ok :: "Store \<Rightarrow> bool" where
  "acl_ok s \<longleftrightarrow> tbl_ok ar_id (st_acl_rules s) \<and>
     (\<forall>r \<in> set (tbl_rows (st_acl_rules s)). ar_network_id r \<in> nwr_id ` set (tbl_rows (st_networks s)))"

definition users_ok :: "Store \<Rightarrow> bool" where
  "users_ok s \<longleftrightarrow> tbl_ok ur_id (st_users s) \<and> distinct (map ur_username (tbl_rows (st_users s)))"

definition audit_ok :: "Store \<Rightarrow> bool" where
  "audit_ok s \<longleftrightarrow> tbl_ok aur_id (st_audit_log s)"

definition store_ok :: "Store \<Rightarrow> bool" where
  "store_ok s \<longleftrightarrow> nodes_ok s \<and> networks_ok s \<and> setup_keys_ok s \<and> routes_ok s \<and> acl_ok s \<and> users_ok s \<and> audit_ok s"

lemmas store_ok_defs = store_ok_def nodes_ok_def networks_ok_def setup_keys_ok_def routes_ok_def
  acl_ok_def users_ok_def audit_ok_def

named_theorems store_inv \<open>writes keep the database invariant\<close>

lemma empty_store_ok: "store_ok empty_store"
  by (simp add: store_ok_defs empty_store_def empty_table_def tbl_ok_def)

lemma map_update_key:
  "(\<And>r. k (f r) = k r) \<Longrightarrow> map k (tbl_rows (tbl_update p f t)) = map k (tbl_rows t)"
  by simp

lemma distinct_map_filter_rows: "distinct (map k rs) \<Longrightarrow> distinct (map k (filter p rs))"
  by (simp add: distinct_map inj_on_def)

lemma hydrateNode_row:
  assumes "addr_is_valid (n_IPv4 n)" "no_zone (n_IPv4 n)" "addr_is_valid (n_IPv6 n)" "no_zone (n_IPv6 n)"
  shows "hydrateNode (node_row (n, now) i) =
    Inr (n\<lparr>n_ID := i, n_CreatedAt := Some (time_unix (unix now)), n_LastSeen := None\<rparr>)"
  using assms by (simp add: hydrateNode_def node_row_def parse_addr_text)

lemma parsePrefixes_row:
  "prefix_ok v4 \<Longrightarrow> prefix_ok v6 \<Longrightarrow> parsePrefixes (network_row (name, v4, v6, now) i) =
     Inr \<lparr>nw_ID = i, nw_Name = name, nw_V4Prefix = v4, nw_V6Prefix = v6\<rparr>"
  by (simp add: parsePrefixes_def network_row_def parse_prefix_text)

lemma hydrateNode_fields:
  "hydrateNode r = Inr n \<Longrightarrow> n_ID n = nr_id r \<and> n_NetworkID n = nr_network_id r \<and> n_Hostname n = nr_hostname r \<and>
     n_MachineKey n = nr_machine_key r \<and> n_NodeKey n = nr_node_key r \<and> n_OS n = nr_os r \<and>
     n_Endpoints n = nr_endpoints r \<and> n_OwnerUserID n = nr_owner_user_id r \<and>
     parse_addr (nr_ipv4 r) = Some (n_IPv4 n) \<and> parse_addr (nr_ipv6 r) = Some (n_IPv6 n)"
  by (auto simp: hydrateNode_def split: option.splits)

lemma hydrateNode_iff: "(\<exists>n. hydrateNode r = Inr n) \<longleftrightarrow> parse_addr (nr_ipv4 r) \<noteq> None \<and> parse_addr (nr_ipv6 r) \<noteq> None"
  by (auto simp: hydrateNode_def split: option.splits)

lemma SetSetting_ok [store_inv]: "store_ok s \<Longrightarrow> store_ok (fst (SetSetting flt s k v))"
  by (simp add: SetSetting_def store_ok_defs)

lemma tbl_ok_find_id: "tbl_ok rid t \<Longrightarrow> r \<in> set (tbl_rows t) \<Longrightarrow> rid r = i \<Longrightarrow> tbl_find (\<lambda>r. rid r = i) t = Some r"
  using tbl_find_id by fastforce

lemma EnsureNetwork_ok [store_inv]:
  assumes "store_ok s" and "prefix_ok v4" and "prefix_ok v6"
  shows "store_ok (fst (EnsureNetwork flt now s name v4 v6))"
proof -
  let ?t = "tbl_insert (network_row (name, v4, v6, now)) (st_networks s)"
  have *: "store_ok (s\<lparr>st_networks := ?t\<rparr>)"
    if "\<not> tbl_full (st_networks s)" "\<not> tbl_exists (\<lambda>r. nwr_name r = name) (st_networks s)"
  proof -
    have "tbl_ok nwr_id ?t" using assms(1) that(1) network_tbl.insert_ok by (auto simp: store_ok_defs)
    moreover have "nwr_name (network_row (name, v4, v6, now) i) = name" for i by (simp add: network_row_def)
    ultimately have "networks_ok (s\<lparr>st_networks := ?t\<rparr>)"
      using assms that parsePrefixes_row [OF assms(2,3)] by (auto simp: networks_ok_def store_ok_def)
    then show ?thesis using assms(1) unfolding store_ok_def
      by (auto simp: nodes_ok_def setup_keys_ok_def routes_ok_def acl_ok_def users_ok_def audit_ok_def)
  qed
  show ?thesis using assms(1) * by (auto simp: EnsureNetwork_def Let_def)
qed

lemma CreateNode_ok [store_inv]:
  assumes "store_ok s" and "addr_is_valid (n_IPv4 n)" "no_zone (n_IPv4 n)" "addr_is_valid (n_IPv6 n)" "no_zone (n_IPv6 n)"
  shows "store_ok (fst (CreateNode flt now s n))"
proof -
  let ?t = "tbl_insert (node_row (n, now)) (st_nodes s)"
  have *: "store_ok (s\<lparr>st_nodes := ?t\<rparr>)"
    if "\<not> tbl_full (st_nodes s)" "\<not> tbl_exists (\<lambda>r. nr_machine_key r = n_MachineKey n) (st_nodes s)"
      "tbl_exists (\<lambda>r. nwr_id r = n_NetworkID n) (st_networks s)"
  proof -
    have "tbl_ok nr_id ?t" using assms(1) that(1) node_tbl.insert_ok by (auto simp: store_ok_defs)
    moreover have "nr_machine_key (node_row (n, now) i) = n_MachineKey n"
      "nr_network_id (node_row (n, now) i) = n_NetworkID n" for i by (simp_all add: node_row_def)
    ultimately have "nodes_ok (s\<lparr>st_nodes := ?t\<rparr>)"
      using assms that hydrateNode_row [OF assms(2-5)]
      by (auto simp: nodes_ok_def store_ok_def intro: rev_image_eqI)
    then show ?thesis using assms(1) unfolding store_ok_def
      by (auto simp: networks_ok_def setup_keys_ok_def routes_ok_def acl_ok_def users_ok_def audit_ok_def)
  qed
  show ?thesis using assms(1) * by (auto simp: CreateNode_def)
qed

lemma store_DeleteNode_ok [store_inv]: "store_ok s \<Longrightarrow> store_ok (fst (store_DeleteNode flt s i))"
  unfolding store_DeleteNode_def
  by (auto simp: store_ok_defs tbl_ok_delete distinct_map_filter_rows)

lemma update_node_ok:
  assumes "store_ok s"
    and "\<And>r. nr_id (f r) = nr_id r \<and> nr_machine_key (f r) = nr_machine_key r \<and> nr_network_id (f r) = nr_network_id r"
    and "\<And>r. (\<exists>n. hydrateNode r = Inr n) \<Longrightarrow> (\<exists>n. hydrateNode (f r) = Inr n)"
  shows "store_ok (fst (update_node fails s i f))"
proof -
  let ?t = "tbl_update (\<lambda>r. nr_id r = i) f (st_nodes s)"
  have k: "map nr_machine_key (tbl_rows ?t) = map nr_machine_key (tbl_rows (st_nodes s))"
    "map nr_id (tbl_rows ?t) = map nr_id (tbl_rows (st_nodes s))"
    using assms(2) by (auto intro!: map_update_key)
  have "tbl_ok nr_id ?t" using assms(1,2) by (auto simp: store_ok_defs intro: tbl_ok_update)
  moreover have "nr_id ` set (tbl_rows ?t) = nr_id ` set (tbl_rows (st_nodes s))"
    using k(2) by (metis list.set_map)
  moreover have "\<forall>r \<in> set (tbl_rows ?t). nr_network_id r \<in> nwr_id ` set (tbl_rows (st_networks s)) \<and> (\<exists>n. hydrateNode r = Inr n)"
    using assms by (auto simp: store_ok_defs)
  ultimately have "store_ok (s\<lparr>st_nodes := ?t\<rparr>)"
    using assms(1) k(1) unfolding store_ok_defs by (simp del: tbl_rows_simps)
  with assms(1) show ?thesis by (simp add: update_node_def)
qed

lemma UpdateNodeEndpoints_ok [store_inv]: "store_ok s \<Longrightarrow> store_ok (fst (UpdateNodeEndpoints flt s i eps))"
  unfolding UpdateNodeEndpoints_def by (rule update_node_ok) (auto simp: hydrateNode_iff)

lemma UpdateNodeIPv6_ok [store_inv]:
  "store_ok s \<Longrightarrow> addr_is_valid a \<Longrightarrow> no_zone a \<Longrightarrow> store_ok (fst (UpdateNodeIPv6 flt s i a))"
  unfolding UpdateNodeIPv6_def by (rule update_node_ok) (auto simp: hydrateNode_iff parse_addr_text)

lemma UpdateNodeOnRegister_ok [store_inv]: "store_ok s \<Longrightarrow> store_ok (fst (UpdateNodeOnRegister flt s i k h os))"
  unfolding UpdateNodeOnRegister_def by (rule update_node_ok) (auto simp: hydrateNode_iff)

lemma TouchNode_ok [store_inv]: "store_ok s \<Longrightarrow> store_ok (fst (TouchNode flt now s i))"
  unfolding TouchNode_def by (rule update_node_ok) (auto simp: hydrateNode_iff)

lemma setup_keys_write_ok:
  assumes "store_ok s" and "setup_keys_ok (s\<lparr>st_setup_keys := t\<rparr>)"
  shows "store_ok (s\<lparr>st_setup_keys := t\<rparr>)"
  using assms by (auto simp: store_ok_def nodes_ok_def networks_ok_def routes_ok_def acl_ok_def users_ok_def audit_ok_def)

lemma setup_keys_update_ok:
  assumes "store_ok s"
    and "\<And>r. skr_id (f r) = skr_id r \<and> skr_key (f r) = skr_key r \<and> skr_network_id (f r) = skr_network_id r"
    and "\<And>r. 0 \<le> skr_used_count r \<Longrightarrow> 0 \<le> skr_used_count (f r)"
  shows "store_ok (s\<lparr>st_setup_keys := tbl_update p f (st_setup_keys s)\<rparr>)"
proof (rule setup_keys_write_ok [OF assms(1)])
  let ?t = "tbl_update p f (st_setup_keys s)"
  have "map skr_key (tbl_rows ?t) = map skr_key (tbl_rows (st_setup_keys s))"
    using assms(2) by (intro map_update_key) simp
  moreover have "tbl_ok skr_id ?t" using assms(1,2) by (auto simp: store_ok_def setup_keys_ok_def intro: tbl_ok_update)
  moreover have "\<forall>r \<in> set (tbl_rows ?t). skr_network_id r \<in> nwr_id ` set (tbl_rows (st_networks s)) \<and> 0 \<le> skr_used_count r"
    using assms by (auto simp: store_ok_def setup_keys_ok_def)
  ultimately show "setup_keys_ok (s\<lparr>st_setup_keys := ?t\<rparr>)"
    using assms(1) unfolding store_ok_def setup_keys_ok_def by (simp del: tbl_rows_simps)
qed

lemma NewSetupKey_ok [store_inv]: "store_ok s \<Longrightarrow> store_ok (fst (NewSetupKey flt raw now s nid reusable exp owner))"
proof -
  assume s: "store_ok s"
  have *: "store_ok (s\<lparr>st_setup_keys := tbl_insert (setup_key_row k) (st_setup_keys s)\<rparr>)"
    if "\<not> tbl_full (st_setup_keys s)" "\<forall>r \<in> set (tbl_rows (st_setup_keys s)). skr_key r \<noteq> sk_Key k"
      "r \<in> set (tbl_rows (st_networks s))" "nwr_id r = sk_NetworkID k" for k r
  proof (rule setup_keys_write_ok [OF s])
    have "tbl_ok skr_id (tbl_insert (setup_key_row k) (st_setup_keys s))"
      using s that(1) setup_key_tbl.insert_ok by (auto simp: store_ok_def setup_keys_ok_def)
    moreover have "skr_key (setup_key_row k i) = sk_Key k" "skr_network_id (setup_key_row k i) = sk_NetworkID k"
      "skr_used_count (setup_key_row k i) = 0" for i by (simp_all add: setup_key_row_def)
    ultimately show "setup_keys_ok (s\<lparr>st_setup_keys := tbl_insert (setup_key_row k) (st_setup_keys s)\<rparr>)"
      using s that by (auto simp: store_ok_def setup_keys_ok_def intro: rev_image_eqI)
  qed
  from s show ?thesis
    by (auto simp: NewSetupKey_def Let_def split: option.splits intro!: *)
qed

lemma RevokeSetupKey_ok [store_inv]: "store_ok s \<Longrightarrow> store_ok (fst (RevokeSetupKey flt s i))"
  by (auto simp: RevokeSetupKey_def intro!: setup_keys_update_ok)

lemma UseSetupKey_state:
  "fst (UseSetupKey flt now s k) = s \<or>
   fst (UseSetupKey flt now s k) = s\<lparr>st_setup_keys := tbl_update (\<lambda>r. skr_id r = skr_id (the (tbl_find (\<lambda>r. skr_key r = trim_space k) (st_setup_keys s))))
      (\<lambda>r. r\<lparr>skr_used_count := skr_used_count r + 1\<rparr>) (st_setup_keys s)\<rparr>"
  by (auto simp: UseSetupKey_def Let_def scanSetupKey_def split: option.splits sum.splits)

lemma UseSetupKey_ok [store_inv]: "store_ok s \<Longrightarrow> store_ok (fst (UseSetupKey flt now s k))"
  using UseSetupKey_state [of flt now s k] by (auto intro!: setup_keys_update_ok)

lemma UseSetupKey_frame:
  "st_nodes (fst (UseSetupKey flt now s k)) = st_nodes s" "st_networks (fst (UseSetupKey flt now s k)) = st_networks s"
  "st_node_routes (fst (UseSetupKey flt now s k)) = st_node_routes s"
  using UseSetupKey_state [of flt now s k] by auto

section \<open>Lemmas: reading back\<close>

lemma NodesInNetwork_set:
  assumes "NodesInNetwork flt s nid = Inr ns"
  shows "set ns = {n. \<exists>r \<in> set (tbl_rows (st_nodes s)). nr_network_id r = nid \<and> hydrateNode r = Inr n}"
  using assms by (fastforce simp: NodesInNetwork_def split: if_splits dest: scan_rows_mem scan_rows_mem')

lemma NodesInNetwork_ids:
  assumes "store_ok s" and "NodesInNetwork flt s nid = Inr ns"
  shows "map n_ID ns = map nr_id (filter (\<lambda>r. nr_network_id r = nid) (tbl_rows (st_nodes s)))"
    and "distinct (map n_ID ns)"
proof -
  have ok: "tbl_ok nr_id (st_nodes s)" using assms(1) by (simp add: store_ok_def nodes_ok_def)
  have "scan_rows hydrateNode (filter (\<lambda>r. nr_network_id r = nid) (tbl_rows (st_nodes s))) = Inr ns"
    using assms(2) ok by (simp add: NodesInNetwork_def split: if_splits)
  then show *: "map n_ID ns = map nr_id (filter (\<lambda>r. nr_network_id r = nid) (tbl_rows (st_nodes s)))"
    by (rule scan_rows_keys) (simp add: hydrateNode_fields)
  show "distinct (map n_ID ns)"
    unfolding * using tbl_ok_distinct [OF ok] by (rule distinct_map_filter_rows)
qed

lemma scan_rows_ok: "\<forall>r \<in> set rs. \<exists>x. f r = Inr x \<Longrightarrow> \<exists>xs. scan_rows f rs = Inr xs"
  by (induction rs) auto

lemma NodesInNetwork_returns:
  assumes "store_ok s" and "\<not> flt (QNodesInNetwork nid)"
  shows "\<exists>ns. NodesInNetwork flt s nid = Inr ns"
proof -
  have "\<forall>r \<in> set (sort_key nr_id (filter (\<lambda>r. nr_network_id r = nid) (tbl_rows (st_nodes s)))). \<exists>x. hydrateNode r = Inr x"
    using assms(1) by (simp add: store_ok_def nodes_ok_def)
  from scan_rows_ok [OF this] assms(2) show ?thesis by (simp add: NodesInNetwork_def)
qed

lemma NodeByID_found:
  assumes "store_ok s" and "r \<in> set (tbl_rows (st_nodes s))" and "\<not> flt (QNodeByID (nr_id r))"
  shows "\<exists>n. NodeByID flt s (nr_id r) = Inr n \<and> hydrateNode r = Inr n"
proof -
  have "tbl_ok nr_id (st_nodes s)" using assms(1) by (simp add: store_ok_def nodes_ok_def)
  from tbl_find_id [OF this assms(2)] assms show ?thesis
    by (simp add: NodeByID_def scanNode_def store_ok_def nodes_ok_def)
qed

lemma NodeByID_Inr:
  "NodeByID flt s i = Inr n \<Longrightarrow> \<exists>r \<in> set (tbl_rows (st_nodes s)). nr_id r = i \<and> hydrateNode r = Inr n"
  by (auto simp: NodeByID_def scanNode_def split: if_splits option.splits dest: tbl_find_Some)

lemma NodeByMachineKey_Inr:
  "NodeByMachineKey flt s k = Inr n \<Longrightarrow> \<exists>r \<in> set (tbl_rows (st_nodes s)). nr_machine_key r = k \<and> hydrateNode r = Inr n"
  by (auto simp: NodeByMachineKey_def scanNode_def split: if_splits option.splits dest: tbl_find_Some)

lemma parsePrefixes_fields:
  "parsePrefixes r = Inr nw \<Longrightarrow> nw_ID nw = nwr_id r \<and> nw_Name nw = nwr_name r \<and>
     parse_prefix (nwr_v4_prefix r) = Some (nw_V4Prefix nw) \<and> parse_prefix (nwr_v6_prefix r) = Some (nw_V6Prefix nw)"
  by (auto simp: parsePrefixes_def split: option.splits)

lemma NetworkByID_Inr:
  "NetworkByID flt s i = Inr nw \<Longrightarrow> \<exists>r \<in> set (tbl_rows (st_networks s)). nwr_id r = i \<and> parsePrefixes r = Inr nw"
  by (auto simp: NetworkByID_def split: if_splits option.splits dest: tbl_find_Some)

lemma NetworkByID_prefix_ok: "NetworkByID flt s i = Inr nw \<Longrightarrow> nw_ID nw = i \<and> prefix_ok (nw_V4Prefix nw) \<and> prefix_ok (nw_V6Prefix nw)"
  by (auto dest!: NetworkByID_Inr parsePrefixes_fields dest: parse_prefix_ok)

lemma NetworkByID_found:
  assumes "store_ok s" and "r \<in> set (tbl_rows (st_networks s))" and "\<not> flt (QNetworkByID (nwr_id r))"
  shows "\<exists>nw. NetworkByID flt s (nwr_id r) = Inr nw \<and> parsePrefixes r = Inr nw"
proof -
  have "tbl_ok nwr_id (st_networks s)" using assms(1) by (simp add: store_ok_def networks_ok_def)
  from tbl_find_id [OF this assms(2)] assms show ?thesis
    by (simp add: NetworkByID_def store_ok_def networks_ok_def)
qed


lemma find_unique_key:
  assumes "distinct (map k (tbl_rows t))" and "r \<in> set (tbl_rows t)"
  shows "tbl_find (\<lambda>r'. k r' = k r) t = Some r"
proof (cases "tbl_find (\<lambda>r'. k r' = k r) t")
  case None
  with assms(2) show ?thesis by (auto simp: tbl_find_None)
next
  case (Some r')
  with tbl_find_Some [OF Some] assms show ?thesis by (auto simp: distinct_map inj_on_def)
qed

section \<open>Properties\<close>

text \<open>
  Claim C36. A setup key is accepted exactly while it is neither revoked nor past its expiry and
  is reusable or unused (driver failures aside). Acceptance counts one use of that key, changes
  nothing else, and returns the key's network and owner; a refusal changes nothing.
\<close>
theorem UseSetupKey_accepts:
  assumes "store_ok s" and "r \<in> set (tbl_rows (st_setup_keys s))" and "skr_key r = trim_space key"
    and "flt (QSetupKeyByKey (trim_space key)) = False" and "flt (XUseSetupKey (skr_id r)) = False"
    and "flt (QNetworkByID (skr_network_id r)) = False"
  shows "if skr_revoked r = 0 \<and> (skr_expires_at r \<le> 0 \<or> now \<le> skr_expires_at r * 1000000000) \<and>
            (skr_reusable r \<noteq> 0 \<or> skr_used_count r = 0)
         then \<exists>nw. UseSetupKey flt now s key =
                (s\<lparr>st_setup_keys := tbl_update (\<lambda>q. skr_id q = skr_id r) (\<lambda>q. q\<lparr>skr_used_count := skr_used_count q + 1\<rparr>)
                   (st_setup_keys s)\<rparr>, Inr (nw, skr_owner_user_id r)) \<and> nw_ID nw = skr_network_id r
         else \<exists>e. UseSetupKey flt now s key = (s, Inl e)"
proof -
  have ok: "setup_keys_ok s" using assms(1) by (simp add: store_ok_def)
  then have u: "0 \<le> skr_used_count r" using assms(2) by (simp add: setup_keys_ok_def)
  have f: "tbl_find (\<lambda>q. skr_key q = trim_space key) (st_setup_keys s) = Some r"
    using find_unique_key [of skr_key "st_setup_keys s" r] ok assms(2,3) by (simp add: setup_keys_ok_def)
  obtain q where q: "q \<in> set (tbl_rows (st_networks s))" "nwr_id q = skr_network_id r"
    using ok assms(2) by (force simp: setup_keys_ok_def)
  let ?s = "s\<lparr>st_setup_keys := tbl_update (\<lambda>q. skr_id q = skr_id r) (\<lambda>q. q\<lparr>skr_used_count := skr_used_count q + 1\<rparr>) (st_setup_keys s)\<rparr>"
  have "NetworkByID flt ?s (skr_network_id r) = NetworkByID flt s (skr_network_id r)" by (simp add: NetworkByID_def)
  with NetworkByID_found [OF assms(1) q(1), of flt] q(2) assms(6) obtain nw where
    nw: "NetworkByID flt ?s (skr_network_id r) = Inr nw" "nw_ID nw = skr_network_id r"
    by (auto dest: parsePrefixes_fields)
  show ?thesis
    using f u nw assms(4-6) by (auto simp: UseSetupKey_def scanSetupKey_def key_expired_def time_unix_def Let_def)
qed

text \<open>A single-use key admits one device: after a successful use every later use of that
  key is refused and changes nothing, at any time and whatever statements the driver fails.
\<close>
lemma single_use_key_spent:
  assumes "store_ok s" and "UseSetupKey flt now s key = (s1, Inr x)"
    and "r \<in> set (tbl_rows (st_setup_keys s))" and "skr_key r = trim_space key" and "skr_reusable r = 0"
  shows "\<exists>e. UseSetupKey flt' now' s1 key = (s1, Inl e)"
proof -
  have ok: "setup_keys_ok s" using assms(1) by (simp add: store_ok_def)
  have f: "tbl_find (\<lambda>q. skr_key q = trim_space key) (st_setup_keys s) = Some r"
    using find_unique_key [of skr_key "st_setup_keys s" r] ok assms(3,4) by (simp add: setup_keys_ok_def)
  let ?r = "r\<lparr>skr_used_count := skr_used_count r + 1\<rparr>"
  have s1: "s1 = s\<lparr>st_setup_keys := tbl_update (\<lambda>q. skr_id q = skr_id r) (\<lambda>q. q\<lparr>skr_used_count := skr_used_count q + 1\<rparr>) (st_setup_keys s)\<rparr>"
    using assms(2) f by (auto simp: UseSetupKey_def scanSetupKey_def Let_def split: if_splits sum.splits)
  have "store_ok s1" using UseSetupKey_ok [OF assms(1), of flt now key] assms(2) by simp
  then have "distinct (map skr_key (tbl_rows (st_setup_keys s1)))" by (simp add: store_ok_def setup_keys_ok_def)
  moreover have "?r \<in> set (tbl_rows (st_setup_keys s1))"
    unfolding s1 using assms(3) by (auto intro!: rev_image_eqI [of r])
  ultimately have "tbl_find (\<lambda>q. skr_key q = trim_space key) (st_setup_keys s1) = Some ?r"
    using find_unique_key [of skr_key "st_setup_keys s1" ?r] assms(4) by simp
  moreover have "0 < skr_used_count ?r" using ok assms(3) by (simp add: setup_keys_ok_def)
  ultimately show ?thesis using assms(5) by (auto simp: UseSetupKey_def scanSetupKey_def Let_def)
qed

text \<open>A database with one network, one single-use key of it and one node.\<close>

definition sample_machine :: string where
  "sample_machine = ''mkey:'' @ concat (replicate 32 ''01'')"

definition sample_store :: Store where
  "sample_store = empty_store\<lparr>
     st_networks := \<lparr>tbl_rows = [network_row (''default'', Pfx (V4 0x64600000) 11, Pfx (V6 0xfdab3f19000000000000000000000000 []) 48, 0) 1], tbl_seq = 1\<rparr>,
     st_nodes := \<lparr>tbl_rows = [\<lparr>nr_id = 1, nr_network_id = 1, nr_hostname = ''laptop'', nr_machine_key = sample_machine,
        nr_node_key = ''nodekey:01'', nr_ipv4 = addr_text (V4 0x64600001), nr_ipv6 = addr_text (V6 0xfdab3f19000000000000000000000001 []),
        nr_os = ''linux'', nr_endpoints = [], nr_created_at = 5, nr_last_seen = 0, nr_owner_user_id = 1\<rparr>], tbl_seq = 1\<rparr>,
     st_setup_keys := \<lparr>tbl_rows = [\<lparr>skr_id = 1, skr_network_id = 1, skr_key = ''sk-1'', skr_reusable = 0, skr_revoked = 0,
        skr_expires_at = 100, skr_used_count = 0, skr_created_at = 5, skr_owner_user_id = 3\<rparr>], tbl_seq = 1\<rparr>\<rparr>"

lemma sample_store_ok: "store_ok sample_store"
proof -
  have p: "prefix_ok (Pfx (V4 0x64600000) 11)" "prefix_ok (Pfx (V6 0xfdab3f19000000000000000000000000 []) 48)"
    by (simp_all add: no_zone_def)
  have "\<exists>nw. parsePrefixes (network_row (''default'', Pfx (V4 0x64600000) 11, Pfx (V6 0xfdab3f19000000000000000000000000 []) 48, 0) 1) = Inr nw"
    using parsePrefixes_row [OF p] by blast
  then show ?thesis
    by (simp add: sample_store_def store_ok_defs empty_store_def empty_table_def tbl_ok_def network_tbl.rid_mk
        hydrateNode_iff parse_addr_text no_zone_def del: addr_text.simps)
qed

theorem UseSetupKey_accepts_witness:
  "\<exists>nw s'. UseSetupKey no_faults 7 sample_store '' sk-1'' = (s', Inr (nw, 3)) \<and> nw_ID nw = 1"
  using UseSetupKey_accepts [OF sample_store_ok, of "\<lparr>skr_id = 1, skr_network_id = 1, skr_key = ''sk-1'', skr_reusable = 0,
     skr_revoked = 0, skr_expires_at = 100, skr_used_count = 0, skr_created_at = 5, skr_owner_user_id = 3\<rparr>" "'' sk-1''" no_faults 7]
  by (auto simp: sample_store_def empty_store_def no_faults_def trim_space_def trim_func_def is_space_def)

end
