(* ===== verification/Store_Acl.thy ===== *)
theory Store_Acl
  imports Store_Base
begin

text \<open>
  \<^verbatim>\<open>internal/store/acl.go\<close> and \<^verbatim>\<open>internal/store/audit.go\<close>: the ordered access rules of a network and the
  audit log. Replacing the rules runs in a transaction. A nil slice and an empty one are both the
  empty list (\<^verbatim>\<open>orEmpty\<close>). The property: a saved rule list is read back in order, and only the
  network's own rules change.
\<close>

record ACLRule =
  acl_ID :: int
  acl_Action :: string
  acl_SrcIDs :: "int list"
  acl_DstIDs :: "int list"
  acl_Protocol :: string
  acl_Ports :: "string list"

definition scan_acl :: "AclRow \<Rightarrow> ACLRule" where
  "scan_acl r = \<lparr>acl_ID = ar_id r, acl_Action = ar_action r, acl_SrcIDs = ar_src_ids r, acl_DstIDs = ar_dst_ids r,
     acl_Protocol = ar_protocol r, acl_Ports = ar_ports r\<rparr>"

definition ACL :: "faults \<Rightarrow> Store \<Rightarrow> int \<Rightarrow> ACLRule list res" where
  "ACL flt s networkID = (if flt (QACL networkID) then Inl ErrDriver
     else scan_rows (\<lambda>r. Inr (scan_acl r))
       (sort_key ar_position (filter (\<lambda>r. ar_network_id r = networkID) (tbl_rows (st_acl_rules s)))))"

text \<open>The validation loop that precedes the transaction.\<close>

fun check_rules :: "ACLRule list \<Rightarrow> goerr option" where
  "check_rules [] = None"
| "check_rules (r # rs) =
     (if acl_Action r \<noteq> ''allow'' \<and> acl_Action r \<noteq> ''deny''
      then Some (ErrMsg ''rule action must be allow or deny, got %q'')
      else if acl_Protocol r \<notin> set ['''', ''tcp'', ''udp'', ''icmp''] then Some (ErrMsg ''unknown protocol %q'')
      else check_rules rs)"

definition acl_row :: "int \<times> int \<times> int \<times> ACLRule \<Rightarrow> int \<Rightarrow> AclRow" where
  "acl_row = (\<lambda>(networkID, pos, now, r) i. \<lparr>ar_id = i, ar_network_id = networkID, ar_position = pos, ar_action = acl_Action r,
     ar_src_ids = acl_SrcIDs r, ar_dst_ids = acl_DstIDs r, ar_protocol = acl_Protocol r, ar_ports = acl_Ports r,
     ar_created_at = unix now\<rparr>)"

fun insert_rules :: "faults \<Rightarrow> int \<Rightarrow> Store \<Rightarrow> int \<Rightarrow> int \<Rightarrow> ACLRule list \<Rightarrow> AclRow table \<Rightarrow> AclRow table res" where
  "insert_rules flt now s networkID i [] t = Inr t"
| "insert_rules flt now s networkID i (r # rs) t =
     (if flt (XAclInsert networkID i) then Inl ErrDriver
      else if \<not> tbl_exists (\<lambda>q. nwr_id q = networkID) (st_networks s) then Inl ErrDriver
      else if tbl_full t then Inl ErrDriver
      else insert_rules flt now s networkID (i + 1) rs (tbl_insert (acl_row (networkID, i, now, r)) t))"

definition SetACL :: "faults \<Rightarrow> int \<Rightarrow> Store \<Rightarrow> int \<Rightarrow> ACLRule list \<Rightarrow> Store \<times> unit res" where
  "SetACL flt now s networkID rules = (case check_rules rules of
     Some e \<Rightarrow> (s, Inl e)
   | None \<Rightarrow>
      if flt XAclBegin then (s, Inl ErrDriver)
      else if flt (XAclDelete networkID) then (s, Inl ErrDriver)
      else (case insert_rules flt now s networkID 0 rules
                 (tbl_delete (\<lambda>r. ar_network_id r = networkID) (st_acl_rules s)) of
          Inl e \<Rightarrow> (s, Inl e)
        | Inr t \<Rightarrow> if flt XAclCommit then (s, Inl ErrDriver) else (s\<lparr>st_acl_rules := t\<rparr>, Inr ())))"

section \<open>The audit log\<close>

record AuditEntry =
  ae_ID :: int
  ae_TS :: int
  ae_Username :: string
  ae_Action :: string
  ae_Target :: string
  ae_Details :: string

definition audit_row :: "int \<times> string \<times> string \<times> string \<times> string \<Rightarrow> int \<Rightarrow> AuditRow" where
  "audit_row = (\<lambda>(now, username, action, target, details) i. \<lparr>aur_id = i, aur_ts = unix now, aur_username = username,
     aur_action = action, aur_target = target, aur_details = details\<rparr>)"

definition Audit :: "faults \<Rightarrow> int \<Rightarrow> Store \<Rightarrow> string \<Rightarrow> string \<Rightarrow> string \<Rightarrow> string \<Rightarrow> Store \<times> unit res" where
  "Audit flt now s username action target details =
     (if flt (XAudit action target) \<or> tbl_full (st_audit_log s) then (s, Inl ErrDriver)
      else (s\<lparr>st_audit_log := tbl_insert (audit_row (now, username, action, target, details)) (st_audit_log s)\<rparr>, Inr ()))"

definition scan_audit :: "AuditRow \<Rightarrow> AuditEntry" where
  "scan_audit r = \<lparr>ae_ID = aur_id r, ae_TS = aur_ts r, ae_Username = aur_username r, ae_Action = aur_action r,
     ae_Target = aur_target r, ae_Details = aur_details r\<rparr>"

definition AuditLog :: "faults \<Rightarrow> Store \<Rightarrow> int \<Rightarrow> AuditEntry list res" where
  "AuditLog flt s limit =
     (let limit' = (if limit \<le> 0 \<or> limit > 1000 then 200 else limit) in
      if flt QAuditLog then Inl ErrDriver
      else scan_rows (\<lambda>r. Inr (scan_audit r)) (take (nat limit') (rev (sort_key aur_id (tbl_rows (st_audit_log s))))))"

section \<open>Lemmas\<close>

interpretation acl_tbl: autoincrement ar_id acl_row
  by unfold_locales (simp add: acl_row_def split: prod.splits)

interpretation audit_tbl: autoincrement aur_id audit_row
  by unfold_locales (simp add: audit_row_def split: prod.splits)

lemma insert_rules_rows:
  "insert_rules flt now s nid i rules t = Inr t' \<Longrightarrow> \<exists>new. tbl_rows t' = tbl_rows t @ new \<and>
     map (\<lambda>r. (scan_acl r)\<lparr>acl_ID := 0\<rparr>) new = map (\<lambda>r. r\<lparr>acl_ID := 0\<rparr>) rules \<and>
     map ar_position new = map (\<lambda>k. i + int k) [0..<length rules] \<and> (\<forall>r \<in> set new. ar_network_id r = nid) \<and>
     (tbl_ok ar_id t \<longrightarrow> tbl_ok ar_id t') \<and> (new \<noteq> [] \<longrightarrow> nid \<in> nwr_id ` set (tbl_rows (st_networks s)))"
proof (induction rules arbitrary: i t)
  case (Cons r rs)
  let ?q = "acl_row (nid, i, now, r)"
  from Cons.prems have ins: "insert_rules flt now s nid (i + 1) rs (tbl_insert ?q t) = Inr t'"
    and "\<not> tbl_full t" and nid: "nid \<in> nwr_id ` set (tbl_rows (st_networks s))" by (auto split: if_splits)
  from Cons.IH [OF ins] obtain new where new: "tbl_rows t' = tbl_rows (tbl_insert ?q t) @ new"
    "map (\<lambda>r. (scan_acl r)\<lparr>acl_ID := 0\<rparr>) new = map (\<lambda>r. r\<lparr>acl_ID := 0\<rparr>) rs"
    "map ar_position new = map (\<lambda>k. i + 1 + int k) [0..<length rs]" "\<forall>r \<in> set new. ar_network_id r = nid"
    "tbl_ok ar_id (tbl_insert ?q t) \<longrightarrow> tbl_ok ar_id t'" by blast
  have "map (\<lambda>k. i + int k) [0..<length (r # rs)] = i # map (\<lambda>k. i + 1 + int k) [0..<length rs]"
    by (simp add: upt_conv_Cons map_Suc_upt [symmetric] comp_def del: upt_Suc)
  with new nid \<open>\<not> tbl_full t\<close> acl_tbl.insert_ok show ?case
    by (intro exI [of _ "?q (tbl_seq t + 1) # new"]) (auto simp: scan_acl_def acl_row_def)
qed simp

lemma SetACL_error: "SetACL flt now s nid rules = (s', Inl e) \<Longrightarrow> s' = s"
  by (auto simp: SetACL_def split: option.splits if_splits sum.splits)

lemma SetACL_rows:
  assumes "SetACL flt now s nid rules = (s', Inr ())"
  shows "check_rules rules = None \<and> (\<exists>t. s' = s\<lparr>st_acl_rules := t\<rparr> \<and>
    insert_rules flt now s nid 0 rules (tbl_delete (\<lambda>r. ar_network_id r = nid) (st_acl_rules s)) = Inr t)"
  using assms by (auto simp: SetACL_def split: option.splits if_splits sum.splits)

lemma SetACL_ok [store_inv]:
  assumes "store_ok s"
  shows "store_ok (fst (SetACL flt now s nid rules))"
proof (cases "SetACL flt now s nid rules")
  case (Pair s' r)
  show ?thesis
  proof (cases r)
    case (Inl e)
    with Pair assms show ?thesis by (auto dest: SetACL_error)
  next
    case (Inr u)
    with Pair SetACL_rows obtain t where s': "s' = s\<lparr>st_acl_rules := t\<rparr>"
      and t: "insert_rules flt now s nid 0 rules (tbl_delete (\<lambda>r. ar_network_id r = nid) (st_acl_rules s)) = Inr t"
      by (metis (full_types) old.unit.exhaust)
    have "acl_ok s" using assms by (simp add: store_ok_def)
    with insert_rules_rows [OF t] s' have "acl_ok s'" by (auto simp: acl_ok_def tbl_ok_delete)
    with s' assms show ?thesis unfolding Pair fst_conv
      by (auto simp: store_ok_def nodes_ok_def networks_ok_def setup_keys_ok_def routes_ok_def users_ok_def audit_ok_def)
  qed
qed

lemma Audit_ok [store_inv]: "store_ok s \<Longrightarrow> store_ok (fst (Audit flt now s u a t d))"
  using audit_tbl.insert_ok
  by (auto simp: Audit_def store_ok_def nodes_ok_def networks_ok_def setup_keys_ok_def routes_ok_def acl_ok_def
      users_ok_def audit_ok_def)

lemma Audit_frame [simp]:
  "st_nodes (fst (Audit flt now s u a t d)) = st_nodes s" "st_networks (fst (Audit flt now s u a t d)) = st_networks s"
  "st_node_routes (fst (Audit flt now s u a t d)) = st_node_routes s" "st_users (fst (Audit flt now s u a t d)) = st_users s"
  "st_acl_rules (fst (Audit flt now s u a t d)) = st_acl_rules s" "st_setup_keys (fst (Audit flt now s u a t d)) = st_setup_keys s"
  "st_settings (fst (Audit flt now s u a t d)) = st_settings s"
  by (simp_all add: Audit_def)

lemma check_rules_None:
  "check_rules rs = None \<longleftrightarrow> (\<forall>r \<in> set rs. acl_Action r \<in> {''allow'', ''deny''} \<and>
     acl_Protocol r \<in> {'''', ''tcp'', ''udp'', ''icmp''})"
  by (induction rs) auto

section \<open>Properties\<close>

text \<open>
  Claim C38. A rule list that \<^verbatim>\<open>SetACL\<close> accepts is read back by \<^verbatim>\<open>ACL\<close> in the same order with the same
  contents (row IDs aside), other networks' rules are as before, and a refused or failed save
  changes nothing. Only allow/deny rules of known protocols are accepted.
\<close>
theorem SetACL_roundtrip:
  assumes "SetACL flt now s nid rules = (s', r)" and "flt' (QACL nid) = False"
  shows "case r of
      Inl e \<Rightarrow> s' = s
    | Inr _ \<Rightarrow> (\<exists>rs. ACL flt' s' nid = Inr rs \<and> map (\<lambda>r. r\<lparr>acl_ID := 0\<rparr>) rs = map (\<lambda>r. r\<lparr>acl_ID := 0\<rparr>) rules) \<and>
        {q \<in> set (tbl_rows (st_acl_rules s')). ar_network_id q \<noteq> nid} = {q \<in> set (tbl_rows (st_acl_rules s)). ar_network_id q \<noteq> nid} \<and>
        s' = s\<lparr>st_acl_rules := st_acl_rules s'\<rparr> \<and>
        set (map acl_Action rules) \<subseteq> {''allow'', ''deny''} \<and> set (map acl_Protocol rules) \<subseteq> {'''', ''tcp'', ''udp'', ''icmp''}"
proof (cases r)
  case (Inl e)
  with assms show ?thesis by (auto dest: SetACL_error)
next
  case (Inr u)
  with assms have "SetACL flt now s nid rules = (s', Inr ())" by simp
  from SetACL_rows [OF this] obtain t where chk: "check_rules rules = None" and s': "s' = s\<lparr>st_acl_rules := t\<rparr>"
    and t: "insert_rules flt now s nid 0 rules (tbl_delete (\<lambda>r. ar_network_id r = nid) (st_acl_rules s)) = Inr t"
    by blast
  from insert_rules_rows [OF t] obtain new where
    new: "tbl_rows t = filter (\<lambda>r. ar_network_id r \<noteq> nid) (tbl_rows (st_acl_rules s)) @ new"
      "map (\<lambda>r. (scan_acl r)\<lparr>acl_ID := 0\<rparr>) new = map (\<lambda>r. r\<lparr>acl_ID := 0\<rparr>) rules"
      "map ar_position new = map (\<lambda>k. 0 + int k) [0..<length rules]" "\<forall>r \<in> set new. ar_network_id r = nid"
    unfolding tbl_rows_simps by blast
  have "filter (\<lambda>r. ar_network_id r = nid) (tbl_rows t) = new"
    using new(1,4) by (simp add: filter_empty_conv)
  moreover have "sorted (map ar_position new)" unfolding new(3) by (simp add: sorted_iff_nth_mono)
  ultimately have "ACL flt' s' nid = Inr (map scan_acl new)"
    using s' assms(2) by (simp add: ACL_def scan_rows_total sort_key_id_if_sorted)
  moreover have "{q \<in> set (tbl_rows (st_acl_rules s')). ar_network_id q \<noteq> nid} = {q \<in> set (tbl_rows (st_acl_rules s)). ar_network_id q \<noteq> nid}"
    using s' new(1,4) by auto
  ultimately show ?thesis using Inr s' chk new(2) by (auto simp: check_rules_None comp_def)
qed

theorem SetACL_roundtrip_witness:
  "\<exists>s' u rs. SetACL no_faults 9 sample_store 1 [\<lparr>acl_ID = 0, acl_Action = ''allow'', acl_SrcIDs = [1], acl_DstIDs = [],
      acl_Protocol = ''tcp'', acl_Ports = [''22'']\<rparr>, \<lparr>acl_ID = 0, acl_Action = ''deny'', acl_SrcIDs = [], acl_DstIDs = [],
      acl_Protocol = '''', acl_Ports = []\<rparr>] = (s', Inr u) \<and> ACL no_faults s' 1 = Inr rs \<and> map acl_Action rs = [''allow'', ''deny'']"
proof -
  let ?rules = "[\<lparr>acl_ID = 0, acl_Action = ''allow'', acl_SrcIDs = [1], acl_DstIDs = [],
      acl_Protocol = ''tcp'', acl_Ports = [''22'']\<rparr>, \<lparr>acl_ID = 0, acl_Action = ''deny'', acl_SrcIDs = [], acl_DstIDs = [],
      acl_Protocol = '''', acl_Ports = []\<rparr>]"
  obtain s' u where *: "SetACL no_faults 9 sample_store 1 ?rules = (s', Inr u)"
    by (simp add: SetACL_def no_faults_def sample_store_def empty_store_def empty_table_def network_tbl.rid_mk tbl_full_def)
  from SetACL_roundtrip [OF *, of no_faults] obtain rs where "ACL no_faults s' 1 = Inr rs"
    "map (\<lambda>r. r\<lparr>acl_ID := 0\<rparr>) rs = map (\<lambda>r. r\<lparr>acl_ID := 0\<rparr>) ?rules" by (auto simp: no_faults_def)
  moreover from arg_cong [OF this(2), of "map acl_Action"] have "map acl_Action rs = [''allow'', ''deny'']"
    by (simp add: comp_def)
  ultimately show ?thesis using * by (intro exI conjI)
qed

end
