(* ===== verification/Acl_Compile.thy ===== *)
theory Acl_Compile
  imports Packet_Filter Store_Acl
begin

text \<open>
  \<^verbatim>\<open>internal/coord/aclcompile.go\<close>: a network's access rules, which name devices by ID, compiled into
  the address-based filter of one receiving node. \<open>acl_decision\<close> is the specification: the ordered
  rules decided on device IDs, with the addresses a packet can come from resolved to devices. The
  main property is that the compiled filter, as the receiving node builds it from the messages,
  decides every packet as the specification does.
\<close>

definition idListMatches :: "int list \<Rightarrow> int \<Rightarrow> bool" where
  "idListMatches ids i = (if ids = [] then True else list_ex (\<lambda>v. v = i) ids)"

definition ParsePortSpec :: "string \<Rightarrow> pb_PortRange res" where
  "ParsePortSpec spec0 =
     (let spec = trim_space spec0; (first, last, ok) = cut spec CHR ''-'' in
      case parse_uint 16 (trim_space first) of
        None \<Rightarrow> Inl (ErrMsg ''bad port %q'')
      | Some f \<Rightarrow>
          if f = 0 then Inl (ErrMsg ''bad port %q'')
          else if ok then
            (case parse_uint 16 (trim_space last) of
               None \<Rightarrow> Inl (ErrMsg ''bad port range %q'')
             | Some l \<Rightarrow> if l < f then Inl (ErrMsg ''bad port range %q'')
                 else Inr \<lparr>pb_First = word_of_nat f, pb_Last = word_of_nat l\<rparr>)
          else Inr \<lparr>pb_First = word_of_nat f, pb_Last = word_of_nat f\<rparr>)"

fun port_ranges :: "string list \<Rightarrow> pb_PortRange list" where
  "port_ranges [] = []"
| "port_ranges (spec # specs) = (case ParsePortSpec spec of
     Inl _ \<Rightarrow> port_ranges specs
   | Inr pr \<Rightarrow> pr # port_ranges specs)"

text \<open>The map \<^verbatim>\<open>byID\<close> and the loop that turns source IDs into host prefixes; deleted devices are
  skipped.\<close>

definition node_map :: "Node list \<Rightarrow> int \<rightharpoonup> Node" where
  "node_map nodes = map_of (map (\<lambda>n. (n_ID n, n)) (rev nodes))"

fun src_cidrs :: "(int \<rightharpoonup> Node) \<Rightarrow> int list \<Rightarrow> string list" where
  "src_cidrs byID [] = []"
| "src_cidrs byID (i # ids) = (case byID i of
     None \<Rightarrow> src_cidrs byID ids
   | Some src \<Rightarrow> (addr_text (n_IPv4 src) @ ''/32'') # (addr_text (n_IPv6 src) @ ''/128'') # src_cidrs byID ids)"

text \<open>One turn of the loop over the rules; \<open>None\<close> is its \<^verbatim>\<open>continue\<close>.\<close>

definition compile_rule :: "(int \<rightharpoonup> Node) \<Rightarrow> int \<Rightarrow> ACLRule \<Rightarrow> pb_FilterRule option" where
  "compile_rule byID dstID r =
     (if \<not> idListMatches (acl_DstIDs r) dstID then None
      else (let cidrs = (if length (acl_SrcIDs r) > 0 then src_cidrs byID (acl_SrcIDs r) else []) in
        if length (acl_SrcIDs r) > 0 \<and> length cidrs = 0 then None
        else Some \<lparr>pb_Allow = (acl_Action r = ''allow''), pb_SrcCidrs = cidrs, pb_Protocol = acl_Protocol r,
                   pb_DstPorts = port_ranges (acl_Ports r)\<rparr>))"

definition CompileFilterForNode :: "faults \<Rightarrow> Store \<Rightarrow> Node \<Rightarrow> (pb_FilterRule list \<times> bool) res" where
  "CompileFilterForNode flt s dst = (case ACL flt s (n_NetworkID dst) of
     Inl e \<Rightarrow> Inl e
   | Inr rules \<Rightarrow>
      if length rules = 0 then Inr ([], False)
      else (case NodesInNetwork flt s (n_NetworkID dst) of
          Inl e \<Rightarrow> Inl e
        | Inr nodes \<Rightarrow> Inr (List.map_filter (compile_rule (node_map nodes) (n_ID dst)) rules, True)))"

section \<open>Specification\<close>

text \<open>The devices an address belongs to.\<close>

definition owners :: "Node list \<Rightarrow> Addr \<Rightarrow> int set" where
  "owners nodes src = {n_ID n | n. n \<in> set nodes \<and> (n_IPv4 n = src \<or> n_IPv6 n = src)}"

definition proto_matches :: "string \<Rightarrow> byte \<Rightarrow> bool" where
  "proto_matches name proto \<longleftrightarrow> name = [] \<or> name = ''tcp'' \<and> proto = 6 \<or> name = ''udp'' \<and> proto = 17 \<or>
     name = ''icmp'' \<and> (proto = 1 \<or> proto = 58)"

text \<open>The ports a specification like 22 or 8000-9000 denotes.\<close>

definition spec_ports :: "string \<Rightarrow> nat set" where
  "spec_ports spec = (case ParsePortSpec spec of Inl _ \<Rightarrow> {} | Inr pr \<Rightarrow> {unat (pb_First pr)..unat (pb_Last pr)})"

definition acl_applies :: "Node list \<Rightarrow> int \<Rightarrow> ACLRule \<Rightarrow> Addr \<times> byte \<times> 16 word \<Rightarrow> bool" where
  "acl_applies nodes dstID r = (\<lambda>(src, proto, port).
     (acl_DstIDs r = [] \<or> dstID \<in> set (acl_DstIDs r)) \<and>
     (acl_SrcIDs r = [] \<or> owners nodes src \<inter> set (acl_SrcIDs r) \<noteq> {}) \<and>
     proto_matches (acl_Protocol r) proto \<and>
     (acl_Ports r = [] \<or> (proto = 6 \<or> proto = 17) \<and> (\<exists>spec \<in> set (acl_Ports r). unat port \<in> spec_ports spec)))"

definition acl_decision :: "Node list \<Rightarrow> int \<Rightarrow> ACLRule list \<Rightarrow> Addr \<times> byte \<times> 16 word \<Rightarrow> bool" where
  "acl_decision nodes dstID rules p \<longleftrightarrow>
     rules = [] \<or> first_match (acl_applies nodes dstID) (\<lambda>r. acl_Action r = ''allow'') rules p"

text \<open>What the compilation relies on: port specifications as validated when rules are saved, and
  nodes with an IPv4 and an IPv6 address and distinct IDs.\<close>

definition ports_valid :: "ACLRule \<Rightarrow> bool" where
  "ports_valid r \<longleftrightarrow> list_all (\<lambda>spec. \<exists>pr. ParsePortSpec spec = Inr pr) (acl_Ports r)"

definition node_addrs_ok :: "Node list \<Rightarrow> bool" where
  "node_addrs_ok nodes \<longleftrightarrow> distinct (map n_ID nodes) \<and>
     list_all (\<lambda>n. addr_is4 (n_IPv4 n) \<and> addr_is6 (n_IPv6 n) \<and> no_zone (n_IPv6 n)) nodes"

section \<open>Lemmas\<close>

lemma ParsePortSpec_bounds:
  assumes "ParsePortSpec spec = Inr pr"
  shows "1 \<le> unat (pb_First pr) \<and> unat (pb_First pr) \<le> unat (pb_Last pr) \<and> unat (pb_Last pr) \<le> 65535"
proof -
  have u: "unat (word_of_nat n :: 32 word) = n" if "n < 65536" for n
    using that by (simp add: unat_of_nat)
  show ?thesis
    using assms by (auto simp: ParsePortSpec_def parse_uint_def Let_def u split: prod.splits option.splits if_splits)
qed

lemma port_ranges_set: "set (port_ranges specs) = {pr. \<exists>spec \<in> set specs. ParsePortSpec spec = Inr pr}"
  by (induction specs) (auto split: sum.splits)

lemma port_ranges_empty: "list_all (\<lambda>spec. \<exists>pr. ParsePortSpec spec = Inr pr) specs \<Longrightarrow> port_ranges specs = [] \<longleftrightarrow> specs = []"
  by (induction specs) auto

lemma node_map_Some: "distinct (map n_ID nodes) \<Longrightarrow> node_map nodes i = Some n \<longleftrightarrow> n \<in> set nodes \<and> n_ID n = i"
  unfolding node_map_def
  by (subst map_of_eq_Some_iff) (auto simp: comp_def rev_map [symmetric])

lemma src_cidrs_parse:
  assumes "node_addrs_ok nodes"
  shows "set (List.map_filter parse_prefix (src_cidrs (node_map nodes) ids)) =
    {Pfx a (addr_bit_len a) | a. \<exists>n \<in> set nodes. n_ID n \<in> set ids \<and> (a = n_IPv4 n \<or> a = n_IPv6 n)}"
proof -
  have d: "distinct (map n_ID nodes)" using assms by (simp add: node_addrs_ok_def)
  have t: "itoa 32 = ''32''" "itoa 128 = ''128''" by code_simp+
  have p: "parse_prefix (addr_text (n_IPv4 n) @ ''/32'') = Some (Pfx (n_IPv4 n) (addr_bit_len (n_IPv4 n)))"
    "parse_prefix (addr_text (n_IPv6 n) @ ''/128'') = Some (Pfx (n_IPv6 n) (addr_bit_len (n_IPv6 n)))"
    if "n \<in> set nodes" for n
  proof -
    from that assms have a: "addr_is4 (n_IPv4 n)" "addr_is6 (n_IPv6 n)" "no_zone (n_IPv6 n)"
      by (auto simp: node_addrs_ok_def list_all_iff)
    then show "parse_prefix (addr_text (n_IPv4 n) @ ''/32'') = Some (Pfx (n_IPv4 n) (addr_bit_len (n_IPv4 n)))"
      using prefix_text_host [of "n_IPv4 n"] by (cases "n_IPv4 n") (simp_all add: no_zone_def t)
    from a show "parse_prefix (addr_text (n_IPv6 n) @ ''/128'') = Some (Pfx (n_IPv6 n) (addr_bit_len (n_IPv6 n)))"
      using prefix_text_host [of "n_IPv6 n"] by (cases "n_IPv6 n") (simp_all add: t del: addr_text.simps)
  qed
  show ?thesis
  proof (induction ids)
    case (Cons i ids)
    show ?case
    proof (cases "node_map nodes i")
      case None
      then have "\<not> (\<exists>n \<in> set nodes. n_ID n = i)" using node_map_Some [OF d] by (metis option.distinct(1))
      with None Cons.IH show ?thesis by auto
    next
      case (Some n)
      with node_map_Some [OF d] have n: "n \<in> set nodes" "n_ID n = i" by auto
      have u: "m = n" if "m \<in> set nodes" "n_ID m = i" for m
        using that Some node_map_Some [OF d, of i m] by simp
      from Some p [OF n(1)] Cons.IH show ?thesis
        by (auto simp: List.map_filter_simps n dest: u) (use n in blast)+
    qed
  qed (simp add: List.map_filter_simps)
qed

lemma matchesSrc_compiled:
  assumes "node_addrs_ok nodes" and "ids \<noteq> []"
  shows "(\<exists>p \<in> set (List.map_filter parse_prefix (src_cidrs (node_map nodes) ids)). prefix_contains p src) \<longleftrightarrow>
    owners nodes src \<inter> set ids \<noteq> {}"
proof -
  have a: "addr_is_valid a \<and> no_zone a" if "n \<in> set nodes" "a = n_IPv4 n \<or> a = n_IPv6 n" for n a
  proof -
    from that(1) assms(1) have "addr_is4 (n_IPv4 n)" "addr_is6 (n_IPv6 n)" "no_zone (n_IPv6 n)"
      by (auto simp: node_addrs_ok_def list_all_iff)
    with that(2) show ?thesis by (cases "n_IPv4 n"; cases "n_IPv6 n") (auto simp: no_zone_def)
  qed
  then have c: "prefix_contains (Pfx a (addr_bit_len a)) src \<longleftrightarrow> src = a"
    if "n \<in> set nodes" "a = n_IPv4 n \<or> a = n_IPv6 n" for n a
    using that by (intro contains_host) blast+
  have "(\<exists>p \<in> set (List.map_filter parse_prefix (src_cidrs (node_map nodes) ids)). prefix_contains p src) \<longleftrightarrow>
      (\<exists>n \<in> set nodes. n_ID n \<in> set ids \<and> (n_IPv4 n = src \<or> n_IPv6 n = src))"
    unfolding src_cidrs_parse [OF assms(1)]
  proof
    assume "\<exists>p \<in> {Pfx a (addr_bit_len a) | a. \<exists>n \<in> set nodes. n_ID n \<in> set ids \<and> (a = n_IPv4 n \<or> a = n_IPv6 n)}. prefix_contains p src"
    then obtain a n where "n \<in> set nodes" "n_ID n \<in> set ids" "a = n_IPv4 n \<or> a = n_IPv6 n"
      "prefix_contains (Pfx a (addr_bit_len a)) src" by blast
    with c show "\<exists>n \<in> set nodes. n_ID n \<in> set ids \<and> (n_IPv4 n = src \<or> n_IPv6 n = src)" by metis
  next
    assume "\<exists>n \<in> set nodes. n_ID n \<in> set ids \<and> (n_IPv4 n = src \<or> n_IPv6 n = src)"
    then obtain n where n: "n \<in> set nodes" "n_ID n \<in> set ids" "src = n_IPv4 n \<or> src = n_IPv6 n" by metis
    with c have "prefix_contains (Pfx src (addr_bit_len src)) src" by blast
    with n show "\<exists>p \<in> {Pfx a (addr_bit_len a) | a. \<exists>n \<in> set nodes. n_ID n \<in> set ids \<and> (a = n_IPv4 n \<or> a = n_IPv6 n)}. prefix_contains p src"
      by blast
  qed
  then show ?thesis by (auto simp: owners_def)
qed

lemma src_cidrs_empty: "node_addrs_ok nodes \<Longrightarrow> src_cidrs (node_map nodes) ids = [] \<Longrightarrow> owners nodes src \<inter> set ids = {}"
proof -
  assume ok: "node_addrs_ok nodes" and e: "src_cidrs (node_map nodes) ids = []"
  then have "{Pfx a (addr_bit_len a) | a. \<exists>n \<in> set nodes. n_ID n \<in> set ids \<and> (a = n_IPv4 n \<or> a = n_IPv6 n)} = {}"
    using src_cidrs_parse [OF ok, of ids] by (simp add: List.map_filter_simps)
  then show ?thesis by (auto simp: owners_def)
qed

lemma map_filter_empty_prefixes:
  assumes "node_addrs_ok nodes" and "src_cidrs (node_map nodes) ids \<noteq> []"
  shows "List.map_filter parse_prefix (src_cidrs (node_map nodes) ids) \<noteq> []"
proof -
  have "\<exists>i n. i \<in> set ids \<and> node_map nodes i = Some n"
    using assms(2) by (induction ids) (auto split: option.splits)
  then obtain n where "n \<in> set nodes" "n_ID n \<in> set ids"
    using node_map_Some assms(1) by (auto simp: node_addrs_ok_def)
  then have "Pfx (n_IPv4 n) (addr_bit_len (n_IPv4 n)) \<in> set (List.map_filter parse_prefix (src_cidrs (node_map nodes) ids))"
    unfolding src_cidrs_parse [OF assms(1)] by blast
  then show ?thesis by auto
qed

lemma port_in_range:
  fixes port :: "16 word"
  assumes "ParsePortSpec spec = Inr pr"
  shows "ucast (pb_First pr) \<le> port \<and> port \<le> ucast (pb_Last pr) \<longleftrightarrow> unat port \<in> {unat (pb_First pr)..unat (pb_Last pr)}"
proof -
  have "unat (ucast w :: 16 word) = unat w" if "unat w \<le> 65535" for w :: "32 word"
    using that by (simp add: unsigned_ucast_eq take_bit_nat_eq_self)
  with ParsePortSpec_bounds [OF assms] show ?thesis by (simp add: word_le_nat_alt)
qed

lemma rule_from_proto_ports:
  assumes "ports_valid r"
  shows "(rule_Ports (rule_from_proto \<lparr>pb_Allow = al, pb_SrcCidrs = cs, pb_Protocol = pn, pb_DstPorts = port_ranges (acl_Ports r)\<rparr>) = []
      \<longleftrightarrow> acl_Ports r = []) \<and>
    ((\<exists>pr \<in> set (rule_Ports (rule_from_proto \<lparr>pb_Allow = al, pb_SrcCidrs = cs, pb_Protocol = pn, pb_DstPorts = port_ranges (acl_Ports r)\<rparr>)).
        port \<in> {pr_First pr..pr_Last pr}) \<longleftrightarrow> (\<exists>spec \<in> set (acl_Ports r). unat port \<in> spec_ports spec))"
proof (intro conjI)
  show "rule_Ports (rule_from_proto \<lparr>pb_Allow = al, pb_SrcCidrs = cs, pb_Protocol = pn, pb_DstPorts = port_ranges (acl_Ports r)\<rparr>) = []
      \<longleftrightarrow> acl_Ports r = []"
    using assms port_ranges_empty by (simp add: rule_from_proto_def ports_valid_def)
  have *: "unat port \<in> spec_ports spec \<longleftrightarrow> (\<exists>pr. ParsePortSpec spec = Inr pr \<and> ucast (pb_First pr) \<le> port \<and> port \<le> ucast (pb_Last pr))"
    for spec using port_in_range [of spec _ port] by (auto simp: spec_ports_def split: sum.splits)
  show "(\<exists>pr \<in> set (rule_Ports (rule_from_proto \<lparr>pb_Allow = al, pb_SrcCidrs = cs, pb_Protocol = pn, pb_DstPorts = port_ranges (acl_Ports r)\<rparr>)).
        port \<in> {pr_First pr..pr_Last pr}) \<longleftrightarrow> (\<exists>spec \<in> set (acl_Ports r). unat port \<in> spec_ports spec)"
    unfolding * by (auto simp: rule_from_proto_def port_ranges_set)
qed

lemma proto_matches_rule:
  "(rule_Proto r = [] \<or> rule_Proto r = ''tcp'' \<and> proto = protoTCP \<or> rule_Proto r = ''udp'' \<and> proto = protoUDP \<or>
      rule_Proto r = ''icmp'' \<and> proto \<in> {protoICMP4, protoICMP6}) = proto_matches (rule_Proto r) proto"
  by (auto simp: proto_matches_def proto_defs)

lemma compiled_rule_applies:
  assumes "node_addrs_ok nodes" and "ports_valid r" and "compile_rule (node_map nodes) dstID r = Some f"
  shows "rule_applies (rule_from_proto f) p = acl_applies nodes dstID r p"
proof (cases p)
  case (fields src proto port)
  let ?cs = "if length (acl_SrcIDs r) > 0 then src_cidrs (node_map nodes) (acl_SrcIDs r) else []"
  from assms(3) have dst: "acl_DstIDs r = [] \<or> dstID \<in> set (acl_DstIDs r)"
    and cs: "acl_SrcIDs r \<noteq> [] \<longrightarrow> src_cidrs (node_map nodes) (acl_SrcIDs r) \<noteq> []"
    and f: "f = \<lparr>pb_Allow = (acl_Action r = ''allow''), pb_SrcCidrs = ?cs, pb_Protocol = acl_Protocol r, pb_DstPorts = port_ranges (acl_Ports r)\<rparr>"
    by (auto simp: compile_rule_def idListMatches_def list_ex_iff Let_def split: if_splits)
  have "rule_Srcs (rule_from_proto f) = [] \<longleftrightarrow> acl_SrcIDs r = []"
    using cs map_filter_empty_prefixes [OF assms(1)] by (simp add: f rule_from_proto_def List.map_filter_simps)
  moreover have "acl_SrcIDs r \<noteq> [] \<Longrightarrow> (\<exists>q \<in> set (rule_Srcs (rule_from_proto f)). prefix_contains q src) \<longleftrightarrow> owners nodes src \<inter> set (acl_SrcIDs r) \<noteq> {}"
    using matchesSrc_compiled [OF assms(1)] by (simp add: f rule_from_proto_def)
  moreover have "rule_Proto (rule_from_proto f) = acl_Protocol r" by (simp add: f rule_from_proto_def)
  moreover note rule_from_proto_ports [OF assms(2), of "acl_Action r = ''allow''" ?cs "acl_Protocol r" port, folded f]
  ultimately show ?thesis
    unfolding fields rule_applies_def acl_applies_def prod.case proto_matches_rule
    using dst by (auto simp: proto_defs)
qed

text \<open>The compilation satisfies the contract of a rule translation.\<close>

interpretation compile: rule_translation
  "acl_applies nodes dstID" "\<lambda>r. acl_Action r = ''allow''" rule_applies rule_Allow
  "\<lambda>r. map_option rule_from_proto (compile_rule (node_map nodes) dstID r)"
  "\<lambda>r. node_addrs_ok nodes \<and> ports_valid r" "\<lambda>_. True"
  for nodes dstID
proof
  fix r p f
  assume ok: "node_addrs_ok nodes \<and> ports_valid r"
  show "map_option rule_from_proto (compile_rule (node_map nodes) dstID r) = Some f \<Longrightarrow>
      rule_applies f p = acl_applies nodes dstID r p \<and> rule_Allow f = (acl_Action r = ''allow'')"
    using compiled_rule_applies [of nodes r dstID _ p] ok
    by (auto simp: compile_rule_def rule_from_proto_def Let_def split: if_splits)
  show "map_option rule_from_proto (compile_rule (node_map nodes) dstID r) = None \<Longrightarrow> \<not> acl_applies nodes dstID r p"
    using ok src_cidrs_empty [of nodes "acl_SrcIDs r" "fst p"]
    by (auto simp: compile_rule_def acl_applies_def idListMatches_def list_ex_iff Let_def split: if_splits prod.splits)
qed

lemma itoa_no_space: "c \<in> set (itoa n) \<Longrightarrow> \<not> is_space c \<and> c \<noteq> CHR ''-''"
  using itoa_hex [of c n] by (auto simp: is_hex_digit_def is_space_def)

lemma ParsePortSpec_range:
  assumes "1 \<le> f" and "f \<le> l" and "l \<le> 65535"
  shows "ParsePortSpec (itoa f @ CHR ''-'' # itoa l) = Inr \<lparr>pb_First = word_of_nat f, pb_Last = word_of_nat l\<rparr>"
    and "ParsePortSpec (itoa f) = Inr \<lparr>pb_First = word_of_nat f, pb_Last = word_of_nat f\<rparr>"
proof -
  have t: "trim_space (itoa f @ CHR ''-'' # itoa l) = itoa f @ CHR ''-'' # itoa l" "trim_space (itoa n) = itoa n" for n
    by (rule trim_space_id; auto simp: is_space_def dest: itoa_no_space)+
  have n: "x \<noteq> CHR ''-''" if "x \<in> set (itoa f)" for x using itoa_no_space [OF that] by simp
  then have c: "cut (itoa f @ CHR ''-'' # itoa l) CHR ''-'' = (itoa f, itoa l, True)" "cut (itoa f) CHR ''-'' = (itoa f, [], False)"
    by (auto simp: cut_def takeWhile_append2 dropWhile_append2)
  have u: "parse_uint 16 (itoa f) = Some f" "parse_uint 16 (itoa l) = Some l"
    using assms parse_uint_itoa by auto
  show "ParsePortSpec (itoa f @ CHR ''-'' # itoa l) = Inr \<lparr>pb_First = word_of_nat f, pb_Last = word_of_nat l\<rparr>"
    and "ParsePortSpec (itoa f) = Inr \<lparr>pb_First = word_of_nat f, pb_Last = word_of_nat f\<rparr>"
    using assms by (simp_all add: ParsePortSpec_def t c u)
qed

text \<open>The compiled filter is the access rules: for a receiving node, the filter it builds from the
  messages decides every packet that parses as the ordered rules decide it on device IDs, the source
  address standing for the devices that own it. Rules of deleted sources and rules for other
  receivers are dropped without changing any decision, and no rules means allow.\<close>

lemma compiled_filter_decides:
  assumes "CompileFilterForNode flt s dst = Inr (frs, enabled)"
    and "ACL flt s (n_NetworkID dst) = Inr rules" and "NodesInNetwork flt s (n_NetworkID dst) = Inr nodes"
    and "node_addrs_ok nodes" and "list_all ports_valid rules"
    and "parse_packet pkt = Some (src, proto, port, True)"
  shows "AllowsPacket (FromProto frs enabled) pkt = Some (acl_decision nodes (n_ID dst) rules (src, proto, port))"
proof (cases "rules = []")
  case True
  with assms show ?thesis
    by (simp add: CompileFilterForNode_def AllowsPacket_def FromProto_def filter_New_def acl_decision_def)
next
  case False
  with assms have e: "enabled" and f: "frs = List.map_filter (compile_rule (node_map nodes) (n_ID dst)) rules"
    by (auto simp: CompileFilterForNode_def)
  have "map rule_from_proto frs = List.map_filter (\<lambda>r. map_option rule_from_proto (compile_rule (node_map nodes) (n_ID dst) r)) rules"
    unfolding f by (induction rules) (auto simp: List.map_filter_simps split: option.splits)
  then have "allows_rules (map rule_from_proto frs) src proto port =
      first_match (acl_applies nodes (n_ID dst)) (\<lambda>r. acl_Action r = ''allow'') rules (src, proto, port)"
    using compile.first_match_translated [where rs = rules and nodes = nodes and dstID = "n_ID dst" and p = "(src, proto, port)"] assms(4,5)
    by (simp add: allows_rules_first_match list_all_iff)
  with False e assms(6) show ?thesis
    by (simp add: AllowsPacket_def FromProto_def filter_New_def filter_allows_def acl_decision_def)
qed

section \<open>Properties\<close>

text \<open>
  Claim C40. Port specifications: an accepted one denotes a range of ports from 1 to 65535, a
  single port n or a range f-l with f at most l parses to just that range, and the compiled 16-bit
  range contains a port exactly when the specification does.
\<close>
theorem ParsePortSpec_correct:
  assumes "1 \<le> f" and "f \<le> l" and "l \<le> 65535"
  shows "spec_ports (itoa f @ CHR ''-'' # itoa l) = {f..l} \<and> spec_ports (itoa f) = {f} \<and>
    spec_ports spec \<subseteq> {1..65535} \<and>
    (case ParsePortSpec spec of
       Inl _ \<Rightarrow> spec_ports spec = {}
     | Inr pr \<Rightarrow> spec_ports spec \<noteq> {} \<and>
         {p. ucast (pb_First pr) \<le> p \<and> p \<le> ucast (pb_Last pr)} = {p :: 16 word. unat p \<in> spec_ports spec})"
proof -
  have u: "unat (word_of_nat n :: 32 word) = n" if "n \<le> 65535" for n using that by (simp add: unat_of_nat)
  have "spec_ports (itoa f @ CHR ''-'' # itoa l) = {f..l}" "spec_ports (itoa f) = {f}"
    using assms by (simp_all add: spec_ports_def ParsePortSpec_range u)
  moreover have "spec_ports spec \<subseteq> {1..65535}"
    using ParsePortSpec_bounds [of spec] by (fastforce simp: spec_ports_def split: sum.splits)
  moreover have "case ParsePortSpec spec of
       Inl _ \<Rightarrow> spec_ports spec = {}
     | Inr pr \<Rightarrow> spec_ports spec \<noteq> {} \<and>
         {p. ucast (pb_First pr) \<le> p \<and> p \<le> ucast (pb_Last pr)} = {p :: 16 word. unat p \<in> spec_ports spec}"
    using ParsePortSpec_bounds [of spec] port_in_range [of spec] by (simp add: spec_ports_def split: sum.splits)
  ultimately show ?thesis by blast
qed

theorem ParsePortSpec_correct_witness: "spec_ports ''8000-9000'' = {8000..9000}"
proof -
  have "itoa 8000 = ''8000''" "itoa 9000 = ''9000''" by code_simp+
  then show ?thesis using ParsePortSpec_correct [of 8000 9000 "''22''"] by simp
qed

end
