(* ===== verification/Store_Routes.thy ===== *)
theory Store_Routes
  imports Store_Base
begin

text \<open>
  \<^verbatim>\<open>internal/store/routes.go\<close>: the routes a node offers and their approval. Replacing the offer set
  runs in a transaction: any failing statement rolls everything back. The properties: an approval
  survives exactly as long as the route stays offered, a new offer is never approved, and
  canonical route text is a fixed point of \<^verbatim>\<open>NormalizeRoute\<close>.
\<close>

record Route =
  rt_Route :: string
  rt_Approved :: bool

definition IsExitRoute :: "string \<Rightarrow> bool" where
  "IsExitRoute route \<longleftrightarrow> route = ''0.0.0.0/0'' \<or> route = ''::/0''"

definition NormalizeRoute :: "string \<Rightarrow> string res" where
  "NormalizeRoute route = (case parse_prefix (trim_space route) of
     None \<Rightarrow> Inl (ErrMsg ''netip.ParsePrefix'')
   | Some p \<Rightarrow> Inr (prefix_text (masked p)))"

text \<open>\<^verbatim>\<open>INSERT OR IGNORE\<close>: the primary key is (node, route). A missing node violates the foreign
  key, which OR IGNORE does not cover.\<close>

fun insert_offers :: "faults \<Rightarrow> Store \<Rightarrow> int \<Rightarrow> string list \<Rightarrow> RouteRow list \<Rightarrow> RouteRow list res" where
  "insert_offers flt s nodeID [] rows = Inr rows"
| "insert_offers flt s nodeID (r # rs) rows =
     (if flt (XRouteInsert nodeID r) then Inl ErrDriver
      else if list_ex (\<lambda>q. rr_node_id q = nodeID \<and> rr_route q = r) rows then insert_offers flt s nodeID rs rows
      else if \<not> tbl_exists (\<lambda>q. nr_id q = nodeID) (st_nodes s) then Inl ErrDriver
      else insert_offers flt s nodeID rs (rows @ [\<lparr>rr_node_id = nodeID, rr_route = r, rr_approved = 0\<rparr>]))"

fun delete_offers :: "faults \<Rightarrow> int \<Rightarrow> string list \<Rightarrow> RouteRow list \<Rightarrow> RouteRow list res" where
  "delete_offers flt nodeID [] rows = Inr rows"
| "delete_offers flt nodeID (r # rs) rows =
     (if flt (XRouteDelete nodeID r) then Inl ErrDriver
      else delete_offers flt nodeID rs (filter (\<lambda>q. \<not> (rr_node_id q = nodeID \<and> rr_route q = r)) rows))"

definition SetAdvertisedRoutes :: "faults \<Rightarrow> Store \<Rightarrow> int \<Rightarrow> string list \<Rightarrow> Store \<times> unit res" where
  "SetAdvertisedRoutes flt s nodeID routes =
     (if flt XRoutesBegin then (s, Inl ErrDriver)
      else (case insert_offers flt s nodeID routes (st_node_routes s) of
         Inl e \<Rightarrow> (s, Inl e)
       | Inr rows \<Rightarrow>
          if flt (QRoutesOf nodeID) then (s, Inl ErrDriver)
          else (let present = map rr_route (filter (\<lambda>q. rr_node_id q = nodeID) rows);
                    drop = filter (\<lambda>r. r \<notin> set routes) present in
            (case delete_offers flt nodeID drop rows of
               Inl e \<Rightarrow> (s, Inl e)
             | Inr rows' \<Rightarrow> if flt XRoutesCommit then (s, Inl ErrDriver)
                 else (s\<lparr>st_node_routes := rows'\<rparr>, Inr ())))))"

text \<open>\<^verbatim>\<open>ORDER BY route\<close>: the binary collation of SQLite is the byte order.\<close>

definition scanRoute :: "RouteRow \<Rightarrow> Route" where
  "scanRoute r = \<lparr>rt_Route = rr_route r, rt_Approved = (rr_approved r \<noteq> 0)\<rparr>"

definition scanRoutes :: "RouteRow list \<Rightarrow> Route list res" where
  "scanRoutes rows = scan_rows (\<lambda>r. Inr (scanRoute r)) rows"

definition store_NodeRoutes :: "faults \<Rightarrow> Store \<Rightarrow> int \<Rightarrow> Route list res" where
  "store_NodeRoutes flt s nodeID = (if flt (QNodeRoutes nodeID) then Inl ErrDriver
     else scanRoutes (order_by rr_route (filter (\<lambda>q. rr_node_id q = nodeID) (st_node_routes s))))"

definition ApprovedNodeRoutes :: "faults \<Rightarrow> Store \<Rightarrow> int \<Rightarrow> string list res" where
  "ApprovedNodeRoutes flt s nodeID = (case store_NodeRoutes flt s nodeID of
     Inl e \<Rightarrow> Inl e
   | Inr rs \<Rightarrow> Inr (map rt_Route (filter rt_Approved rs)))"

definition store_SetRouteApproved :: "faults \<Rightarrow> Store \<Rightarrow> int \<Rightarrow> string \<Rightarrow> bool \<Rightarrow> Store \<times> unit res" where
  "store_SetRouteApproved flt s nodeID route approved =
     (if flt (XSetRouteApproved nodeID route) then (s, Inl ErrDriver)
      else if \<not> list_ex (\<lambda>q. rr_node_id q = nodeID \<and> rr_route q = route) (st_node_routes s) then (s, Inl ErrNotFound)
      else (s\<lparr>st_node_routes := map (\<lambda>q. if rr_node_id q = nodeID \<and> rr_route q = route
               then q\<lparr>rr_approved := boolInt approved\<rparr> else q) (st_node_routes s)\<rparr>, Inr ()))"

section \<open>Lemmas\<close>

abbreviation route_key :: "RouteRow \<Rightarrow> int \<times> string" where
  "route_key r \<equiv> (rr_node_id r, rr_route r)"

lemma insert_offers_rows:
  "insert_offers flt s n rs rows = Inr rows' \<Longrightarrow>
   set rows' = set rows \<union> {\<lparr>rr_node_id = n, rr_route = r, rr_approved = 0\<rparr> | r. r \<in> set rs \<and> (n, r) \<notin> route_key ` set rows} \<and>
   (distinct (map route_key rows) \<longrightarrow> distinct (map route_key rows')) \<and>
   ((\<exists>r \<in> set rs. (n, r) \<notin> route_key ` set rows) \<longrightarrow> n \<in> nr_id ` set (tbl_rows (st_nodes s)))"
proof (induction rs arbitrary: rows)
  case (Cons r rs)
  show ?case
  proof (cases "list_ex (\<lambda>q. rr_node_id q = n \<and> rr_route q = r) rows")
    case True
    then have in_rows: "(n, r) \<in> route_key ` set rows" by (force simp: list_ex_iff)
    from Cons.prems True have "insert_offers flt s n rs rows = Inr rows'" by (simp split: if_splits)
    from Cons.IH [OF this] in_rows show ?thesis by auto
  next
    case False
    then have new: "(n, r) \<notin> route_key ` set rows" by (force simp: list_ex_iff)
    let ?q = "\<lparr>rr_node_id = n, rr_route = r, rr_approved = 0\<rparr>"
    from Cons.prems False have ins: "insert_offers flt s n rs (rows @ [?q]) = Inr rows'"
      and nd: "n \<in> nr_id ` set (tbl_rows (st_nodes s))" by (auto split: if_splits)
    from Cons.IH [OF ins] new nd show ?thesis by auto
  qed
qed simp

lemma delete_offers_rows:
  "delete_offers flt n rs rows = Inr rows' \<Longrightarrow> rows' = filter (\<lambda>q. \<not> (rr_node_id q = n \<and> rr_route q \<in> set rs)) rows"
proof (induction rs arbitrary: rows)
  case (Cons r rs)
  from Cons.prems have "delete_offers flt n rs (filter (\<lambda>q. \<not> (rr_node_id q = n \<and> rr_route q = r)) rows) = Inr rows'"
    by (simp split: if_splits)
  from Cons.IH [OF this] show ?case by (auto intro: filter_cong)
qed simp

text \<open>What a committed replacement leaves: rows of other nodes as they were; of this node exactly
  the offered routes, old ones with their flag, new ones unapproved.\<close>

lemma SetAdvertisedRoutes_rows:
  assumes "SetAdvertisedRoutes flt s n routes = (s', Inr ())"
  shows "set (st_node_routes s') =
     {q \<in> set (st_node_routes s). rr_node_id q \<noteq> n \<or> rr_route q \<in> set routes} \<union>
     {\<lparr>rr_node_id = n, rr_route = r, rr_approved = 0\<rparr> | r. r \<in> set routes \<and> (n, r) \<notin> route_key ` set (st_node_routes s)}"
    and "s' = s\<lparr>st_node_routes := st_node_routes s'\<rparr>"
proof -
  from assms obtain rows where rows: "insert_offers flt s n routes (st_node_routes s) = Inr rows"
    and s': "s' = s\<lparr>st_node_routes := filter (\<lambda>q. \<not> (rr_node_id q = n \<and> rr_route q \<in>
        set (filter (\<lambda>r. r \<notin> set routes) (map rr_route (filter (\<lambda>q. rr_node_id q = n) rows))))) rows\<rparr>"
    by (auto simp: SetAdvertisedRoutes_def Let_def split: if_splits sum.splits dest!: delete_offers_rows)
  from s' show "s' = s\<lparr>st_node_routes := st_node_routes s'\<rparr>" by simp
  have "set (st_node_routes s') = {q \<in> set rows. rr_node_id q \<noteq> n \<or> rr_route q \<in> set routes}"
    using s' by auto
  with insert_offers_rows [OF rows] show "set (st_node_routes s') =
     {q \<in> set (st_node_routes s). rr_node_id q \<noteq> n \<or> rr_route q \<in> set routes} \<union>
     {\<lparr>rr_node_id = n, rr_route = r, rr_approved = 0\<rparr> | r. r \<in> set routes \<and> (n, r) \<notin> route_key ` set (st_node_routes s)}"
    by auto
qed

lemma SetAdvertisedRoutes_error: "SetAdvertisedRoutes flt s n routes = (s', Inl e) \<Longrightarrow> s' = s"
  by (auto simp: SetAdvertisedRoutes_def Let_def split: if_splits sum.splits)

lemma SetAdvertisedRoutes_ok [store_inv]:
  assumes "store_ok s"
  shows "store_ok (fst (SetAdvertisedRoutes flt s n routes))"
proof (cases "SetAdvertisedRoutes flt s n routes")
  case (Pair s' r)
  show ?thesis
  proof (cases r)
    case (Inl e)
    with Pair assms show ?thesis by (auto dest: SetAdvertisedRoutes_error)
  next
    case (Inr u)
    from Pair Inr obtain rows where rows: "insert_offers flt s n routes (st_node_routes s) = Inr rows"
      and s': "\<exists>p. s' = s\<lparr>st_node_routes := filter p rows\<rparr>"
      by (auto simp: SetAdvertisedRoutes_def Let_def split: if_splits sum.splits dest!: delete_offers_rows)
    have ok: "routes_ok s" using assms by (simp add: store_ok_def)
    from insert_offers_rows [OF rows] ok have "distinct (map route_key rows)"
      "\<forall>q \<in> set rows. rr_node_id q \<in> nr_id ` set (tbl_rows (st_nodes s))"
      by (auto simp: routes_ok_def)
    with s' have "routes_ok s'" by (auto simp: routes_ok_def distinct_map_filter_rows)
    with s' assms show ?thesis unfolding Pair fst_conv
      by (auto simp: store_ok_def nodes_ok_def networks_ok_def setup_keys_ok_def acl_ok_def users_ok_def audit_ok_def)
  qed
qed

lemma store_SetRouteApproved_ok [store_inv]:
  assumes "store_ok s"
  shows "store_ok (fst (store_SetRouteApproved flt s n route approved))"
proof -
  let ?f = "\<lambda>q. if rr_node_id q = n \<and> rr_route q = route then q\<lparr>rr_approved := boolInt approved\<rparr> else q"
  have "map route_key (map ?f rows) = map route_key rows" for rows by simp
  then have "routes_ok (s\<lparr>st_node_routes := map ?f (st_node_routes s)\<rparr>)"
    using assms by (auto simp: store_ok_def routes_ok_def simp del: map_map)
  with assms show ?thesis
    by (auto simp: store_SetRouteApproved_def store_ok_def nodes_ok_def networks_ok_def setup_keys_ok_def acl_ok_def
        users_ok_def audit_ok_def)
qed

lemma ApprovedNodeRoutes_set:
  "ApprovedNodeRoutes flt s n = Inr rs \<Longrightarrow>
   set rs = {rr_route q | q. q \<in> set (st_node_routes s) \<and> rr_node_id q = n \<and> rr_approved q \<noteq> 0}"
  unfolding ApprovedNodeRoutes_def store_NodeRoutes_def scanRoutes_def scan_rows_total
  by (force simp: scanRoute_def split: if_splits)

lemma prefix_text_no_space: "prefix_ok p \<Longrightarrow> c \<in> set (prefix_text p) \<Longrightarrow> \<not> is_space c"
proof -
  assume ok: "prefix_ok p" and c: "c \<in> set (prefix_text p)"
  from ok obtain a b where p: "p = Pfx a b" "addr_is_valid a" "no_zone a" by (cases p) auto
  have x: "\<not> is_space c" if "is_hex_digit c \<or> c \<in> set ''.:/''" for c
    using that by (auto simp: is_hex_digit_def is_space_def hex_val_def Let_def split: if_splits)
  have "c \<in> set (addr_text a) \<Longrightarrow> is_hex_digit c \<or> c \<in> set ''.:/''"
    using p(2,3) by (cases a) (auto simp: no_zone_def is_hex_digit_def hex_val_def split: if_splits dest: set_ipv4_text set_ipv6_body_text)
  then show ?thesis using c p(1) x [of c] by (auto dest: itoa_hex)
qed

text \<open>The routes a node offers, and those approved.\<close>

definition offered_routes :: "Store \<Rightarrow> int \<Rightarrow> string set" where
  "offered_routes s n = {rr_route q | q. q \<in> set (st_node_routes s) \<and> rr_node_id q = n}"

definition approved_routes :: "Store \<Rightarrow> int \<Rightarrow> string set" where
  "approved_routes s n = {rr_route q | q. q \<in> set (st_node_routes s) \<and> rr_node_id q = n \<and> rr_approved q \<noteq> 0}"

lemma NormalizeRoute_eq:
  "NormalizeRoute route = Inr t \<longleftrightarrow> (\<exists>p. parse_prefix (trim_space route) = Some p \<and> t = prefix_text (masked p))"
  by (auto simp: NormalizeRoute_def split: option.splits)

lemma NormalizeRoute_parses:
  assumes "NormalizeRoute route = Inr t"
  shows "\<exists>p. parse_prefix t = Some p \<and> prefix_ok p \<and> masked p = p \<and> t = prefix_text p \<and> trim_space t = t"
proof -
  from assms obtain p where p: "parse_prefix (trim_space route) = Some p" "t = prefix_text (masked p)"
    by (auto simp: NormalizeRoute_eq)
  have ok: "prefix_ok (masked p)" using parse_prefix_ok [OF p(1)] by (rule prefix_ok_masked)
  then show ?thesis using p(2) parse_prefix_text [OF ok] masked_idem [of p] prefix_text_no_space [OF ok]
    by (intro exI [of _ "masked p"]) (auto intro: trim_space_id)
qed

section \<open>Properties\<close>

lemma SetAdvertisedRoutes_effect:
  assumes "SetAdvertisedRoutes flt s n routes = (s', Inr ())"
  shows "offered_routes s' n = set routes" and "approved_routes s' n = approved_routes s n \<inter> set routes"
    and "st_setup_keys s' = st_setup_keys s" and "st_nodes s' = st_nodes s" and "st_networks s' = st_networks s"
proof -
  note rows = SetAdvertisedRoutes_rows [OF assms]
  show "offered_routes s' n = set routes"
  proof (rule set_eqI)
    fix x
    have "x \<in> offered_routes s' n" if "x \<in> set routes"
    proof (cases "(n, x) \<in> route_key ` set (st_node_routes s)")
      case True
      with that show ?thesis unfolding offered_routes_def rows(1) by auto
    next
      case False
      with that have "\<lparr>rr_node_id = n, rr_route = x, rr_approved = 0\<rparr> \<in> set (st_node_routes s')"
        unfolding rows(1) by blast
      then show ?thesis unfolding offered_routes_def by force
    qed
    moreover have "x \<in> set routes" if "x \<in> offered_routes s' n"
      using that unfolding offered_routes_def rows(1) by auto (metis RouteRow.select_convs(2))
    ultimately show "x \<in> offered_routes s' n \<longleftrightarrow> x \<in> set routes" by blast
  qed
  show "approved_routes s' n = approved_routes s n \<inter> set routes"
    unfolding approved_routes_def rows(1) by auto (metis RouteRow.select_convs(3))+
  obtain rs where s': "s' = s\<lparr>st_node_routes := rs\<rparr>" using rows(2) by blast
  show "st_setup_keys s' = st_setup_keys s" "st_nodes s' = st_nodes s" "st_networks s' = st_networks s"
    by (simp_all add: s')
qed

text \<open>
  Claim C37. Replacing a node's offers either changes nothing (on any driver failure) or leaves
  exactly the given routes offered, of which exactly those approved before are approved: an
  approval survives re-advertising, is dropped with its route, and no new offer is approved. The
  routes of other nodes, and all other tables, are untouched.
\<close>
theorem SetAdvertisedRoutes_approvals:
  assumes "SetAdvertisedRoutes flt s n routes = (s', r)"
  shows "case r of
      Inl e \<Rightarrow> s' = s
    | Inr _ \<Rightarrow> offered_routes s' n = set routes \<and> approved_routes s' n = approved_routes s n \<inter> set routes \<and>
        {q \<in> set (st_node_routes s'). rr_node_id q \<noteq> n} = {q \<in> set (st_node_routes s). rr_node_id q \<noteq> n} \<and>
        s' = s\<lparr>st_node_routes := st_node_routes s'\<rparr>"
proof (cases r)
  case (Inl e)
  with assms show ?thesis by (auto dest: SetAdvertisedRoutes_error)
next
  case (Inr u)
  with assms have *: "SetAdvertisedRoutes flt s n routes = (s', Inr ())" by simp
  have "{q \<in> set (st_node_routes s'). rr_node_id q \<noteq> n} = {q \<in> set (st_node_routes s). rr_node_id q \<noteq> n}"
    unfolding SetAdvertisedRoutes_rows(1) [OF *] by auto
  with Inr SetAdvertisedRoutes_rows(2) [OF *] SetAdvertisedRoutes_effect [OF *] show ?thesis by simp
qed

theorem SetAdvertisedRoutes_approvals_witness:
  "\<exists>s' r. SetAdvertisedRoutes no_faults (sample_store\<lparr>st_node_routes := [\<lparr>rr_node_id = 1, rr_route = ''10.0.0.0/8'', rr_approved = 1\<rparr>]\<rparr>)
      1 [''0.0.0.0/0'', ''10.0.0.0/8''] = (s', Inr r) \<and> approved_routes s' 1 = {''10.0.0.0/8''}"
proof -
  let ?s = "sample_store\<lparr>st_node_routes := [\<lparr>rr_node_id = 1, rr_route = ''10.0.0.0/8'', rr_approved = 1\<rparr>]\<rparr>"
  obtain s' r where *: "SetAdvertisedRoutes no_faults ?s 1 [''0.0.0.0/0'', ''10.0.0.0/8''] = (s', Inr r)"
    by (simp add: SetAdvertisedRoutes_def no_faults_def sample_store_def)
  have "approved_routes ?s 1 = {''10.0.0.0/8''}" by (auto simp: approved_routes_def)
  with SetAdvertisedRoutes_approvals [OF *] * show ?thesis by auto
qed

text \<open>Normalising a route is canonical: the result is the text of a masked prefix, it
  parses back to that prefix, normalising it again gives it back, and two inputs normalise to the
  same text exactly when they denote the same network.
\<close>
lemma NormalizeRoute_canonical:
  assumes "NormalizeRoute a = Inr t" and "NormalizeRoute b = Inr u"
  shows "NormalizeRoute t = Inr t \<and>
    (\<exists>p. parse_prefix t = Some p \<and> masked p = p \<and> t = prefix_text p) \<and>
    (t = u \<longleftrightarrow> (\<exists>p q. parse_prefix (trim_space a) = Some p \<and> parse_prefix (trim_space b) = Some q \<and>
       {x. prefix_contains p x} = {x. prefix_contains q x} \<and> prefix_bits p = prefix_bits q \<and> masked p = masked q))"
proof -
  obtain p where p: "parse_prefix t = Some p" "prefix_ok p" "masked p = p" "t = prefix_text p" "trim_space t = t"
    using NormalizeRoute_parses [OF assms(1)] by blast
  have "NormalizeRoute t = Inr t" using p by (simp add: NormalizeRoute_eq)
  moreover from assms obtain pa pb where ab: "parse_prefix (trim_space a) = Some pa" "t = prefix_text (masked pa)"
      "parse_prefix (trim_space b) = Some pb" "u = prefix_text (masked pb)" by (auto simp: NormalizeRoute_eq)
  have ok: "prefix_ok pa" "prefix_ok pb" using ab(1,3) by (auto dest: parse_prefix_ok)
  have "t = u \<longleftrightarrow> masked pa = masked pb"
    using ab(2,4) parse_prefix_text [OF prefix_ok_masked [OF ok(1)]] parse_prefix_text [OF prefix_ok_masked [OF ok(2)]]
    by (metis option.inject)
  moreover have "prefix_bits (masked q) = prefix_bits q" if "prefix_ok q" for q
    using that by (cases q rule: masked.cases) auto
  then have "masked pa = masked pb \<Longrightarrow> prefix_bits pa = prefix_bits pb" using ok by metis
  moreover have "masked pa = masked pb \<Longrightarrow> prefix_contains pa = prefix_contains pb"
    using contains_masked [OF ok(1)] contains_masked [OF ok(2)] by (simp add: fun_eq_iff)
  ultimately show ?thesis using p ab(1,3) by auto
qed


end
