(* ===== verification/Store_Users.thy ===== *)
theory Store_Users
  imports Store_Base
begin

text \<open>
  \<^verbatim>\<open>internal/store/users.go\<close>: accounts. bcrypt is a parameter: \<open>gen\<close> hashes a password (with the salt
  it draws, so it is one function per call; \<open>Inl\<close> for its error on over-long passwords) and \<open>cmp\<close>
  compares a hash with a password. What the code relies on is \<open>bcrypt_ok\<close>: a generated hash
  matches its password. The lemmas show that every write keeps the database invariant, and the
  properties when a login succeeds and what \<^verbatim>\<open>EnsureAdminUser\<close> guarantees.
\<close>

definition RoleAdmin :: string where "RoleAdmin = ''admin''"
definition RoleMember :: string where "RoleMember = ''member''"

record User =
  u_ID :: int
  u_Username :: string
  u_Role :: string
  u_Disabled :: bool
  u_CreatedAt :: int

type_synonym bcrypt_gen = "string \<Rightarrow> string res"
type_synonym bcrypt_cmp = "string \<Rightarrow> string \<Rightarrow> bool"

definition bcrypt_ok :: "bcrypt_gen \<Rightarrow> bcrypt_cmp \<Rightarrow> bool" where
  "bcrypt_ok gen cmp \<longleftrightarrow> (\<forall>pw h. gen pw = Inr h \<longrightarrow> cmp h pw)"

text \<open>The expression \<^verbatim>\<open>^[a-z0-9][a-z0-9._-]{0,31}$\<close>.\<close>

definition usernameRe :: "string \<Rightarrow> bool" where
  "usernameRe u = (case u of
     [] \<Rightarrow> False
   | c # cs \<Rightarrow> (is_lower c \<or> is_digit c) \<and> length cs \<le> 31 \<and>
       list_all (\<lambda>d. is_lower d \<or> is_digit d \<or> d \<in> set ''._-'') cs)"

definition NormalizeUsername :: "string \<Rightarrow> string res" where
  "NormalizeUsername u0 = (let u = to_lower (trim_space u0) in
     if \<not> usernameRe u
     then Inl (ErrMsg ''usernames are 1-32 chars: a-z 0-9 . _ - (must start alphanumeric)'')
     else Inr u)"

definition user_row :: "string \<times> string \<times> string \<times> int \<Rightarrow> int \<Rightarrow> UserRow" where
  "user_row = (\<lambda>(username, hash, role, now) i. \<lparr>ur_id = i, ur_username = username, ur_password_hash = hash,
     ur_role = role, ur_disabled = 0, ur_created_at = unix now\<rparr>)"

text \<open>The INSERT of \<^verbatim>\<open>CreateUser\<close> and \<^verbatim>\<open>createUserWithHash\<close>, with the driver's error.\<close>

definition insert_user :: "faults \<Rightarrow> int \<Rightarrow> Store \<Rightarrow> string \<Rightarrow> string \<Rightarrow> string \<Rightarrow> Store \<times> User res" where
  "insert_user flt now s username hash role =
     (if flt (XCreateUser username) then (s, Inl ErrDriver)
      else if tbl_exists (\<lambda>r. ur_username r = username) (st_users s) then (s, Inl ErrUnique)
      else if tbl_full (st_users s) then (s, Inl ErrDriver)
      else (s\<lparr>st_users := tbl_insert (user_row (username, hash, role, now)) (st_users s)\<rparr>,
            Inr \<lparr>u_ID = tbl_seq (st_users s) + 1, u_Username = username, u_Role = role, u_Disabled = False,
                 u_CreatedAt = unix now\<rparr>))"

definition CreateUser :: "bcrypt_gen \<Rightarrow> faults \<Rightarrow> int \<Rightarrow> Store \<Rightarrow> string \<Rightarrow> string \<Rightarrow> string \<Rightarrow> Store \<times> User res" where
  "CreateUser gen flt now s username0 password role = (case NormalizeUsername username0 of
     Inl e \<Rightarrow> (s, Inl e)
   | Inr username \<Rightarrow>
      if role \<noteq> RoleAdmin \<and> role \<noteq> RoleMember then (s, Inl (ErrMsg ''bad role %q''))
      else if length password < 8 then (s, Inl (ErrMsg ''password must be at least 8 characters''))
      else (case gen password of
          Inl e \<Rightarrow> (s, Inl e)
        | Inr hash \<Rightarrow> (case insert_user flt now s username hash role of
             (s', Inl e) \<Rightarrow> (s', Inl (if e = ErrUnique then ErrMsg ''username %q is taken'' else e))
           | (s', Inr u) \<Rightarrow> (s', Inr u))))"

definition createUserWithHash :: "faults \<Rightarrow> int \<Rightarrow> Store \<Rightarrow> string \<Rightarrow> string \<Rightarrow> string \<Rightarrow> Store \<times> User res" where
  "createUserWithHash flt now s username hash role = insert_user flt now s username hash role"

definition scanUser :: "UserRow \<Rightarrow> User" where
  "scanUser r = \<lparr>u_ID = ur_id r, u_Username = ur_username r, u_Role = ur_role r, u_Disabled = (ur_disabled r \<noteq> 0),
     u_CreatedAt = ur_created_at r\<rparr>"

definition UserByName :: "faults \<Rightarrow> Store \<Rightarrow> string \<Rightarrow> User res" where
  "UserByName flt s username = (if flt (QUserByName username) then Inl ErrDriver
     else case tbl_find (\<lambda>r. ur_username r = username) (st_users s) of
       None \<Rightarrow> Inl ErrNotFound | Some r \<Rightarrow> Inr (scanUser r))"

definition UserByID :: "faults \<Rightarrow> Store \<Rightarrow> int \<Rightarrow> User res" where
  "UserByID flt s i = (if flt (QUserByID i) then Inl ErrDriver
     else case tbl_find (\<lambda>r. ur_id r = i) (st_users s) of
       None \<Rightarrow> Inl ErrNotFound | Some r \<Rightarrow> Inr (scanUser r))"

definition Users :: "faults \<Rightarrow> Store \<Rightarrow> User list res" where
  "Users flt s = (if flt QUsers then Inl ErrDriver
     else scan_rows (\<lambda>r. Inr (scanUser r)) (sort_key ur_id (tbl_rows (st_users s))))"

text \<open>\<^verbatim>\<open>UPDATE users SET \<dots> WHERE id = ?\<close> with the check of the affected rows.\<close>

definition update_user :: "bool \<Rightarrow> Store \<Rightarrow> int \<Rightarrow> (UserRow \<Rightarrow> UserRow) \<Rightarrow> Store \<times> unit res" where
  "update_user fails s i f = (if fails then (s, Inl ErrDriver)
     else if \<not> tbl_exists (\<lambda>r. ur_id r = i) (st_users s) then (s, Inl ErrNotFound)
     else (s\<lparr>st_users := tbl_update (\<lambda>r. ur_id r = i) f (st_users s)\<rparr>, Inr ()))"

definition SetUserDisabled :: "faults \<Rightarrow> Store \<Rightarrow> int \<Rightarrow> bool \<Rightarrow> Store \<times> unit res" where
  "SetUserDisabled flt s i disabled =
     update_user (flt (XSetUserDisabled i)) s i (ur_disabled_update (\<lambda>_. boolInt disabled))"

definition SetUserRole :: "faults \<Rightarrow> Store \<Rightarrow> int \<Rightarrow> string \<Rightarrow> Store \<times> unit res" where
  "SetUserRole flt s i role =
     (if role \<noteq> RoleAdmin \<and> role \<noteq> RoleMember then (s, Inl (ErrMsg ''bad role %q''))
      else update_user (flt (XSetUserRole i)) s i (ur_role_update (\<lambda>_. role)))"

definition SetUserPassword :: "bcrypt_gen \<Rightarrow> faults \<Rightarrow> Store \<Rightarrow> int \<Rightarrow> string \<Rightarrow> Store \<times> unit res" where
  "SetUserPassword gen flt s i password =
     (if length password < 8 then (s, Inl (ErrMsg ''password must be at least 8 characters''))
      else (case gen password of
          Inl e \<Rightarrow> (s, Inl e)
        | Inr hash \<Rightarrow> update_user (flt (XSetUserPassword i)) s i (ur_password_hash_update (\<lambda>_. hash))))"

definition DeleteUser :: "faults \<Rightarrow> Store \<Rightarrow> int \<Rightarrow> Store \<times> unit res" where
  "DeleteUser flt s i =
     (if flt (XDeleteUser i) then (s, Inl ErrDriver)
      else if \<not> tbl_exists (\<lambda>r. ur_id r = i) (st_users s) then (s, Inl ErrNotFound)
      else (s\<lparr>st_users := tbl_delete (\<lambda>r. ur_id r = i) (st_users s)\<rparr>, Inr ()))"

text \<open>\<^verbatim>\<open>SELECT COUNT(*) FROM users WHERE role = 'admin' AND disabled = 0\<close>.\<close>

definition enabled_admin :: "UserRow \<Rightarrow> bool" where
  "enabled_admin r \<longleftrightarrow> ur_role r = ''admin'' \<and> ur_disabled r = 0"

definition AdminCount :: "faults \<Rightarrow> Store \<Rightarrow> nat res" where
  "AdminCount flt s = (if flt QAdminCount then Inl ErrDriver
     else Inr (length (filter enabled_admin (tbl_rows (st_users s)))))"

text \<open>\<^verbatim>\<open>EnsureAdminUser\<close> returns \<^verbatim>\<open>needGenerated\<close>; the error results carry \<^verbatim>\<open>false\<close>.\<close>

definition EnsureAdminUser :: "bcrypt_gen \<Rightarrow> faults \<Rightarrow> int \<Rightarrow> Store \<Rightarrow> string \<Rightarrow> string \<Rightarrow> Store \<times> bool res" where
  "EnsureAdminUser gen flt now s explicitPassword legacyHash =
     (if explicitPassword \<noteq> '''' then
        (case UserByName flt s ''admin'' of
           Inl e \<Rightarrow> if e = ErrNotFound
             then (case CreateUser gen flt now s ''admin'' explicitPassword RoleAdmin of
                 (s', Inl e') \<Rightarrow> (s', Inl e') | (s', Inr _) \<Rightarrow> (s', Inr False))
             else (s, Inl e)
         | Inr u \<Rightarrow> (case SetUserPassword gen flt s (u_ID u) explicitPassword of
             (s', Inl e) \<Rightarrow> (s', Inl e) | (s', Inr _) \<Rightarrow> (s', Inr False)))
      else (case AdminCount flt s of
          Inl e \<Rightarrow> (s, Inl e)
        | Inr n \<Rightarrow>
           if n > 0 then (s, Inr False)
           else if legacyHash \<noteq> '''' then
             (case createUserWithHash flt now s ''admin'' legacyHash RoleAdmin of
                (s', Inl e) \<Rightarrow> (s', Inl e) | (s', Inr _) \<Rightarrow> (s', Inr False))
           else (s, Inr True)))"

definition CheckPassword :: "bcrypt_cmp \<Rightarrow> faults \<Rightarrow> Store \<Rightarrow> string \<Rightarrow> string \<Rightarrow> User res" where
  "CheckPassword cmp flt s username0 password = (case NormalizeUsername username0 of
     Inl e \<Rightarrow> Inl e
   | Inr username \<Rightarrow>
      if flt (QUserLogin username) then Inl ErrDriver
      else (case tbl_find (\<lambda>r. ur_username r = username) (st_users s) of
          None \<Rightarrow> Inl ErrNotFound
        | Some r \<Rightarrow>
           if ur_disabled r \<noteq> 0 then Inl (ErrMsg ''account is disabled'')
           else if \<not> cmp (ur_password_hash r) password then Inl (ErrMsg ''wrong password'')
           else Inr (scanUser r)))"

section \<open>Lemmas\<close>

interpretation user_tbl: autoincrement ur_id user_row
  by unfold_locales (simp add: user_row_def split: prod.splits)

lemma users_write_ok:
  assumes "store_ok s" and "users_ok (s\<lparr>st_users := t\<rparr>)"
  shows "store_ok (s\<lparr>st_users := t\<rparr>)"
  using assms by (auto simp: store_ok_def nodes_ok_def networks_ok_def setup_keys_ok_def routes_ok_def acl_ok_def audit_ok_def)

lemma insert_user_ok [store_inv]: "store_ok s \<Longrightarrow> store_ok (fst (insert_user flt now s u h role))"
proof -
  assume s: "store_ok s"
  have "users_ok (s\<lparr>st_users := tbl_insert (user_row (u, h, role, now)) (st_users s)\<rparr>)"
    if "\<not> tbl_full (st_users s)" "\<forall>r \<in> set (tbl_rows (st_users s)). ur_username r \<noteq> u"
    using s that user_tbl.insert_ok [of "st_users s" "(u, h, role, now)"]
    by (auto simp: store_ok_def users_ok_def user_row_def)
  with s show ?thesis by (auto simp: insert_user_def intro!: users_write_ok)
qed

lemma CreateUser_state:
  "fst (CreateUser gen flt now s u pw role) = s \<or>
   (\<exists>n h. NormalizeUsername u = Inr n \<and> gen pw = Inr h \<and> fst (CreateUser gen flt now s u pw role) = fst (insert_user flt now s n h role))"
  unfolding CreateUser_def by (simp split: sum.splits prod.splits)

lemma CreateUser_ok [store_inv]: "store_ok s \<Longrightarrow> store_ok (fst (CreateUser gen flt now s u pw role))"
  using CreateUser_state [of gen flt now s u pw role] insert_user_ok by metis

lemma createUserWithHash_ok [store_inv]: "store_ok s \<Longrightarrow> store_ok (fst (createUserWithHash flt now s u h role))"
  unfolding createUserWithHash_def by (rule insert_user_ok)

lemma update_user_ok:
  assumes "store_ok s" and "\<And>r. ur_id (f r) = ur_id r \<and> ur_username (f r) = ur_username r"
  shows "store_ok (fst (update_user fails s i f))"
proof -
  let ?t = "tbl_update (\<lambda>r. ur_id r = i) f (st_users s)"
  have "map ur_username (tbl_rows ?t) = map ur_username (tbl_rows (st_users s))"
    using assms(2) by (intro map_update_key) simp
  moreover have "tbl_ok ur_id ?t" using assms by (auto simp: store_ok_def users_ok_def intro: tbl_ok_update)
  ultimately have "users_ok (s\<lparr>st_users := ?t\<rparr>)"
    using assms(1) by (simp add: store_ok_def users_ok_def del: tbl_rows_simps)
  with assms(1) show ?thesis by (auto simp: update_user_def intro!: users_write_ok)
qed

lemma SetUserDisabled_ok [store_inv]: "store_ok s \<Longrightarrow> store_ok (fst (SetUserDisabled flt s i d))"
  unfolding SetUserDisabled_def by (rule update_user_ok) simp_all

lemma SetUserRole_ok [store_inv]: "store_ok s \<Longrightarrow> store_ok (fst (SetUserRole flt s i role))"
  unfolding SetUserRole_def by (auto intro!: update_user_ok)

lemma SetUserPassword_ok [store_inv]: "store_ok s \<Longrightarrow> store_ok (fst (SetUserPassword gen flt s i pw))"
  unfolding SetUserPassword_def by (auto split: sum.splits intro!: update_user_ok)

lemma DeleteUser_ok [store_inv]: "store_ok s \<Longrightarrow> store_ok (fst (DeleteUser flt s i))"
proof -
  assume s: "store_ok s"
  then have "users_ok (s\<lparr>st_users := tbl_delete (\<lambda>r. ur_id r = i) (st_users s)\<rparr>)"
    by (simp add: store_ok_def users_ok_def tbl_ok_delete distinct_map_filter_rows)
  with s show ?thesis by (simp add: DeleteUser_def users_write_ok)
qed

lemma EnsureAdminUser_state:
  "fst (EnsureAdminUser gen flt now s pw lh) = s \<or>
   fst (EnsureAdminUser gen flt now s pw lh) = fst (CreateUser gen flt now s ''admin'' pw RoleAdmin) \<or>
   fst (EnsureAdminUser gen flt now s pw lh) = fst (createUserWithHash flt now s ''admin'' lh RoleAdmin) \<or>
   (\<exists>i. fst (EnsureAdminUser gen flt now s pw lh) = fst (SetUserPassword gen flt s i pw))"
proof (cases "pw = []")
  case True
  then show ?thesis
    by (simp add: EnsureAdminUser_def split: sum.split prod.split)
next
  case False
  show ?thesis
  proof (cases "UserByName flt s ''admin''")
    case (Inl e)
    with False show ?thesis
      by (simp add: EnsureAdminUser_def split: sum.split prod.split)
  next
    case (Inr u)
    with False have "fst (EnsureAdminUser gen flt now s pw lh) = fst (SetUserPassword gen flt s (u_ID u) pw)"
      by (simp add: EnsureAdminUser_def split: sum.split prod.split)
    then show ?thesis by blast
  qed
qed

lemma EnsureAdminUser_ok [store_inv]:
  assumes "store_ok s"
  shows "store_ok (fst (EnsureAdminUser gen flt now s pw lh))"
  using EnsureAdminUser_state [of gen flt now s pw lh]
  by (elim disjE exE) (simp_all add: assms CreateUser_ok createUserWithHash_ok SetUserPassword_ok)

lemma find_insert_user:
  assumes "users_ok s" and "\<forall>r \<in> set (tbl_rows (st_users s)). ur_username r \<noteq> u"
  shows "tbl_find (\<lambda>r. ur_username r = u) (tbl_insert (user_row (u, h, role, now)) (st_users s)) =
    Some (user_row (u, h, role, now) (tbl_seq (st_users s) + 1))"
proof -
  have "find (\<lambda>r. ur_username r = u) (rows @ [q]) = Some q"
    if "\<forall>r \<in> set rows. ur_username r \<noteq> u" "ur_username q = u" for rows and q :: UserRow
    using that by (induction rows) auto
  then show ?thesis using assms(2) by (simp add: tbl_find_def) (simp add: user_row_def)
qed

lemma usernameRe_admin: "NormalizeUsername ''admin'' = Inr ''admin''"
  by code_simp

section \<open>Properties\<close>

text \<open>
  Claim C39. An account that \<^verbatim>\<open>CreateUser\<close> made can log in with its password, under any spelling of
  the name that normalises alike, and is the account returned; its name is well formed and was
  free, its role is one of the two. A refused creation changes nothing. Once disabled the account
  cannot log in.
\<close>
theorem CreateUser_login:
  assumes "store_ok s" and "bcrypt_ok gen cmp" and "CreateUser gen flt now s name pw role = (s', r)"
    and "NormalizeUsername name' = NormalizeUsername name" and "flt' = no_faults"
  shows "case r of
      Inl e \<Rightarrow> s' = s
    | Inr u \<Rightarrow> CheckPassword cmp flt' s' name' pw = Inr u \<and> usernameRe (u_Username u) \<and> 8 \<le> length pw \<and>
        u_Role u = role \<and> role \<in> {RoleAdmin, RoleMember} \<and> u_Username u \<notin> ur_username ` set (tbl_rows (st_users s)) \<and>
        (\<exists>e. CheckPassword cmp flt' (fst (SetUserDisabled flt' s' (u_ID u) True)) name' pw = Inl e)"
proof (cases r)
  case (Inl e)
  with assms(3) show ?thesis
    by (auto simp: CreateUser_def insert_user_def split: sum.splits prod.splits if_splits)
next
  case (Inr u)
  with assms(3) obtain n h where n: "NormalizeUsername name = Inr n" and h: "gen pw = Inr h"
    and chk: "role = RoleAdmin \<or> role = RoleMember" "8 \<le> length pw" "\<forall>q \<in> set (tbl_rows (st_users s)). ur_username q \<noteq> n"
      "\<not> tbl_full (st_users s)"
    and s': "s' = s\<lparr>st_users := tbl_insert (user_row (n, h, role, now)) (st_users s)\<rparr>"
    and u: "u = scanUser (user_row (n, h, role, now) (tbl_seq (st_users s) + 1))"
    by (auto simp: CreateUser_def insert_user_def scanUser_def user_row_def not_less split: sum.splits prod.splits if_splits)
  have ok: "users_ok s" using assms(1) by (simp add: store_ok_def)
  note found = find_insert_user [OF ok chk(3), of h role now]
  have "cmp h pw" using assms(2) h by (simp add: bcrypt_ok_def)
  then have "CheckPassword cmp flt' s' name' pw = Inr u"
    unfolding CheckPassword_def assms(4,5) n s' using found u by (simp add: user_row_def no_faults_def)
  moreover have "usernameRe n" using n by (auto simp: NormalizeUsername_def Let_def split: if_splits)
  moreover have "\<exists>e. CheckPassword cmp flt' (fst (SetUserDisabled flt' s' (u_ID u) True)) name' pw = Inl e"
  proof -
    let ?q = "user_row (n, h, role, now) (tbl_seq (st_users s) + 1)"
    let ?s = "fst (SetUserDisabled flt' s' (u_ID u) True)"
    have "store_ok ?s"
      using CreateUser_ok [OF assms(1), of gen flt now name pw role] assms(3) by (auto intro!: SetUserDisabled_ok)
    then have "distinct (map ur_username (tbl_rows (st_users ?s)))" by (simp add: store_ok_def users_ok_def)
    moreover have "?q\<lparr>ur_disabled := 1\<rparr> \<in> set (tbl_rows (st_users ?s))"
      unfolding s' u assms(5)
      by (simp add: SetUserDisabled_def update_user_def no_faults_def boolInt_def scanUser_def user_tbl.rid_mk)
    ultimately have "tbl_find (\<lambda>r. ur_username r = n) (st_users ?s) = Some (?q\<lparr>ur_disabled := 1\<rparr>)"
      using find_unique_key [of ur_username "st_users ?s" "?q\<lparr>ur_disabled := 1\<rparr>"] by (simp add: user_row_def)
    then show ?thesis unfolding CheckPassword_def assms(4,5) n by (simp add: no_faults_def)
  qed
  ultimately show ?thesis using Inr chk u by (auto simp: scanUser_def user_row_def)
qed

theorem CreateUser_login_witness:
  "\<exists>s' u. CreateUser (\<lambda>pw. Inr pw) no_faults 9 empty_store '' Bob '' ''secret-pw'' ''member'' = (s', Inr u) \<and>
     CheckPassword (\<lambda>h pw. h = pw) no_faults s' ''bob'' ''secret-pw'' = Inr u"
proof -
  have n: "NormalizeUsername '' Bob '' = Inr ''bob''" "NormalizeUsername ''bob'' = Inr ''bob''" by code_simp+
  obtain s' u where *: "CreateUser (\<lambda>pw. Inr pw) no_faults 9 empty_store '' Bob '' ''secret-pw'' ''member'' = (s', Inr u)"
    by (simp add: CreateUser_def insert_user_def n RoleAdmin_def RoleMember_def no_faults_def empty_store_def empty_table_def
        tbl_full_def)
  have "bcrypt_ok (\<lambda>pw. Inr pw) (\<lambda>h pw. h = pw)" by (simp add: bcrypt_ok_def)
  from CreateUser_login [OF empty_store_ok this *, of "''bob''" no_faults] n * show ?thesis by auto
qed

text \<open>Without an explicit password, \<^verbatim>\<open>EnsureAdminUser\<close> that reports success leaves an enabled
  admin account, and asks for a generated password exactly when there is none and no legacy hash.
  With an explicit password, success means that the account named admin has that password and, when
  the account did not exist, is an enabled admin.
\<close>
lemma EnsureAdminUser_result:
  assumes "store_ok s" and "bcrypt_ok gen cmp" and "EnsureAdminUser gen flt now s explicit legacy = (s', Inr need)"
  shows "if explicit = ''''
    then (if need then s' = s \<and> legacy = '''' \<and> filter enabled_admin (tbl_rows (st_users s)) = []
          else \<exists>r \<in> set (tbl_rows (st_users s')). enabled_admin r)
    else \<not> need \<and> (\<exists>r \<in> set (tbl_rows (st_users s')). ur_username r = ''admin'' \<and> cmp (ur_password_hash r) explicit \<and>
       (''admin'' \<in> ur_username ` set (tbl_rows (st_users s)) \<or> enabled_admin r))"
proof (cases "explicit = ''''")
  case True
  with assms(3) show ?thesis
    by (auto simp: EnsureAdminUser_def AdminCount_def createUserWithHash_def insert_user_def user_row_def
        enabled_admin_def RoleAdmin_def filter_empty_conv split: if_splits sum.splits prod.splits)
next
  case False
  show ?thesis
  proof (cases "UserByName flt s ''admin''")
    case (Inl e)
    with assms(3) False have "e = ErrNotFound" and need: "\<not> need"
      and c: "\<exists>u. CreateUser gen flt now s ''admin'' explicit RoleAdmin = (s', Inr u)"
      by (auto simp: EnsureAdminUser_def split: if_splits sum.splits prod.splits)
    from c obtain h where h: "gen explicit = Inr h" "user_row (''admin'', h, RoleAdmin, now) (tbl_seq (st_users s) + 1) \<in> set (tbl_rows (st_users s'))"
      by (auto simp: CreateUser_def usernameRe_admin insert_user_def split: if_splits sum.splits prod.splits)
    moreover have "cmp h explicit" using assms(2) h(1) by (simp add: bcrypt_ok_def)
    ultimately show ?thesis using False need
      by (intro if_not_P [THEN iffD2] conjI bexI [of _ "user_row (''admin'', h, RoleAdmin, now) (tbl_seq (st_users s) + 1)"])
        (auto simp: user_row_def enabled_admin_def RoleAdmin_def)
  next
    case (Inr u)
    then obtain q where q: "q \<in> set (tbl_rows (st_users s))" "ur_username q = ''admin''" "u = scanUser q"
      by (auto simp: UserByName_def split: if_splits option.splits dest: tbl_find_Some)
    with Inr assms(3) False have need: "\<not> need" and c: "SetUserPassword gen flt s (ur_id q) explicit = (s', Inr ())"
      by (auto simp: EnsureAdminUser_def scanUser_def split: if_splits sum.splits prod.splits)
    from c obtain h where h: "gen explicit = Inr h" "q\<lparr>ur_password_hash := h\<rparr> \<in> set (tbl_rows (st_users s'))"
      using q(1) by (auto simp: SetUserPassword_def update_user_def split: if_splits sum.splits)
    moreover have "cmp h explicit" using assms(2) h(1) by (simp add: bcrypt_ok_def)
    ultimately show ?thesis using False need q by (auto intro!: bexI [of _ "q\<lparr>ur_password_hash := h\<rparr>"] intro: rev_image_eqI)
  qed
qed

text \<open>The explicit password is no recovery path for a disabled account: it is reset, but the
  account stays disabled and no enabled admin exists.\<close>

lemma EnsureAdminUser_leaves_disabled:
  "\<exists>s s'. store_ok s \<and> EnsureAdminUser (\<lambda>pw. Inr pw) no_faults 9 s ''secret-pw'' '''' = (s', Inr False) \<and>
     filter enabled_admin (tbl_rows (st_users s')) = []"
proof -
  let ?s = "empty_store\<lparr>st_users := \<lparr>tbl_rows = [(user_row (''admin'', ''h'', ''admin'', 0) 1)\<lparr>ur_disabled := 1\<rparr>], tbl_seq = 1\<rparr>\<rparr>"
  have "store_ok ?s"
    by (rule users_write_ok [OF empty_store_ok]) (simp add: users_ok_def tbl_ok_def user_row_def)
  moreover obtain s' where "EnsureAdminUser (\<lambda>pw. Inr pw) no_faults 9 ?s ''secret-pw'' '''' = (s', Inr False)"
      "filter enabled_admin (tbl_rows (st_users s')) = []"
    by (simp add: EnsureAdminUser_def UserByName_def SetUserPassword_def update_user_def no_faults_def tbl_find_def
        user_row_def scanUser_def enabled_admin_def)
  ultimately show ?thesis by blast
qed

end
