(* ===== verification/Gochan.thy ===== *)
theory Gochan
  imports Prelude "HOL-Library.Sublist"
begin

text \<open>
  Go channels as the sources use them: buffered channels that are created, written without
  blocking (\<^verbatim>\<open>select\<close> with \<^verbatim>\<open>default\<close>) or with a plain send, read, and closed. A heap maps references
  to channels. Sending on a closed channel and closing twice panic in Go; the heap records that in
  \<open>chh_panic\<close>, and a plain send that finds the buffer full in \<open>chh_stuck\<close> (the sender would wait
  with its lock held). The components' invariants show that neither ever happens.

  \<open>bounded_channel\<close> is the interface of a channel seen by its two ends. \<open>registry_ok\<close> is the invariant
  shared by the coordinator's two subscriber maps: what is registered is open and registered once.
\<close>

record 'a chan =
  ch_buf :: "'a list"
  ch_cap :: nat
  ch_closed :: bool

record 'a chan_heap =
  chh_chans :: "nat \<rightharpoonup> 'a chan"
  chh_next :: nat
  chh_panic :: bool
  chh_stuck :: bool

definition empty_heap :: "'a chan_heap" where
  "empty_heap = \<lparr>chh_chans = Map.empty, chh_next = 0, chh_panic = False, chh_stuck = False\<rparr>"

section \<open>One channel\<close>

definition try_send :: "'a \<Rightarrow> 'a chan \<Rightarrow> 'a chan \<times> bool" where
  "try_send v c = (if length (ch_buf c) < ch_cap c then (c\<lparr>ch_buf := ch_buf c @ [v]\<rparr>, True) else (c, False))"

definition chan_recv :: "'a chan \<Rightarrow> ('a \<times> 'a chan) option" where
  "chan_recv c = (case ch_buf c of [] \<Rightarrow> None | v # vs \<Rightarrow> Some (v, c\<lparr>ch_buf := vs\<rparr>))"

section \<open>The heap\<close>

definition make_chan :: "nat \<Rightarrow> 'a chan_heap \<Rightarrow> 'a chan_heap \<times> nat" where
  "make_chan cap h = (h\<lparr>chh_chans := (chh_chans h)(chh_next h \<mapsto> \<lparr>ch_buf = [], ch_cap = cap, ch_closed = False\<rparr>),
     chh_next := chh_next h + 1\<rparr>, chh_next h)"

definition close_chan :: "nat \<Rightarrow> 'a chan_heap \<Rightarrow> 'a chan_heap" where
  "close_chan r h = (case chh_chans h r of
     None \<Rightarrow> h\<lparr>chh_panic := True\<rparr>
   | Some c \<Rightarrow> if ch_closed c then h\<lparr>chh_panic := True\<rparr>
       else h\<lparr>chh_chans := (chh_chans h)(r \<mapsto> c\<lparr>ch_closed := True\<rparr>)\<rparr>)"

text \<open>\<^verbatim>\<open>select { case ch <- v: \<dots> default: }\<close>; the result tells whether the value was sent.\<close>

definition select_send :: "nat \<Rightarrow> 'a \<Rightarrow> 'a chan_heap \<Rightarrow> 'a chan_heap \<times> bool" where
  "select_send r v h = (case chh_chans h r of
     None \<Rightarrow> (h\<lparr>chh_panic := True\<rparr>, False)
   | Some c \<Rightarrow> if ch_closed c then (h\<lparr>chh_panic := True\<rparr>, False)
       else (let (c', sent) = try_send v c in (h\<lparr>chh_chans := (chh_chans h)(r \<mapsto> c')\<rparr>, sent)))"

text \<open>A plain \<^verbatim>\<open>ch <- v\<close>.\<close>

definition plain_send :: "nat \<Rightarrow> 'a \<Rightarrow> 'a chan_heap \<Rightarrow> 'a chan_heap" where
  "plain_send r v h = (let (h', sent) = select_send r v h in
     if sent \<or> chh_panic h' then h' else h'\<lparr>chh_stuck := True\<rparr>)"

text \<open>The reader's end: a value, the news that the channel is closed and drained, or waiting.\<close>

datatype 'a received = Value 'a | Closed | Waiting

definition recv_chan :: "nat \<Rightarrow> 'a chan_heap \<Rightarrow> 'a chan_heap \<times> 'a received" where
  "recv_chan r h = (case chh_chans h r of
     None \<Rightarrow> (h, Waiting)
   | Some c \<Rightarrow> (case chan_recv c of
       Some (v, c') \<Rightarrow> (h\<lparr>chh_chans := (chh_chans h)(r \<mapsto> c')\<rparr>, Value v)
     | None \<Rightarrow> (h, if ch_closed c then Closed else Waiting)))"

section \<open>Interface: a bounded channel\<close>

locale bounded_channel =
  fixes contents :: "'c \<Rightarrow> 'a list" and cap :: "'c \<Rightarrow> nat"
    and send :: "'a \<Rightarrow> 'c \<Rightarrow> 'c \<times> bool" and recv :: "'c \<Rightarrow> ('a \<times> 'c) option"
  assumes send_law: "send v c = (c', sent) \<Longrightarrow>
      sent = (length (contents c) < cap c) \<and> contents c' = (if sent then contents c @ [v] else contents c) \<and> cap c' = cap c"
    and recv_some: "recv c = Some (v, c') \<Longrightarrow> contents c = v # contents c' \<and> cap c' = cap c"
    and recv_none: "recv c = None \<Longrightarrow> contents c = []"
begin

text \<open>A run: each event is a send of a value (\<open>Some\<close>) or a receive (\<open>None\<close>); the result is the
  channel with the values received.\<close>

fun run :: "'a option list \<Rightarrow> 'c \<Rightarrow> 'c \<times> 'a list" where
  "run [] c = (c, [])"
| "run (Some v # es) c = run es (fst (send v c))"
| "run (None # es) c = (case recv c of
     None \<Rightarrow> run es c
   | Some (v, c') \<Rightarrow> (let (c'', vs) = run es c' in (c'', v # vs)))"

definition sends :: "'a option list \<Rightarrow> 'a list" where
  "sends es = List.map_filter id es"

lemma sends_simps [simp]: "sends [] = []" "sends (Some v # es) = v # sends es" "sends (None # es) = sends es"
  by (simp_all add: sends_def List.map_filter_simps)

text \<open>What is received, and then what is still buffered, is a subsequence of what was sent: values
  may be dropped when the buffer is full, never reordered, duplicated or invented.\<close>

lemma run_subsequence:
  "run es c = (c', vs) \<Longrightarrow> subseq (vs @ contents c') (contents c @ sends es)"
proof (induction es arbitrary: c c' vs)
  case (Cons e es)
  show ?case
  proof (cases e)
    case (Some v)
    obtain c1 sent where c1: "send v c = (c1, sent)" by fastforce
    from Cons.prems Some c1 have "run es c1 = (c', vs)" by simp
    from Cons.IH [OF this] have "subseq (vs @ contents c') (contents c1 @ sends es)" .
    moreover have "subseq (contents c1 @ sends es) (contents c @ sends (e # es))"
      using send_law [OF c1] Some by (auto intro: list_emb_append_mono)
    ultimately show ?thesis by (rule subseq_order.trans)
  next
    case None
    show ?thesis
    proof (cases "recv c")
      case (Some r)
      obtain v c1 where r: "r = (v, c1)" by fastforce
      with Cons.prems None Some obtain ws where "run es c1 = (c', ws)" "vs = v # ws" by (auto split: prod.splits)
      with Cons.IH [OF this(1)] recv_some [of c v c1] Some r None show ?thesis by simp
    next
      case N: None
      with Cons.prems None have "run es c = (c', vs)" by simp
      from Cons.IH [OF this] None show ?thesis by simp
    qed
  qed
qed simp

lemma run_bounded:
  "run es c = (c', vs) \<Longrightarrow> length (contents c) \<le> cap c \<Longrightarrow> length (contents c') \<le> cap c' \<and> cap c' = cap c"
proof (induction es arbitrary: c c' vs)
  case (Cons e es)
  show ?case
  proof (cases e)
    case (Some v)
    obtain c1 sent where c1: "send v c = (c1, sent)" by fastforce
    with Cons.prems Some have "run es c1 = (c', vs)" by simp
    from Cons.IH [OF this] send_law [OF c1] Cons.prems(2) show ?thesis by auto
  next
    case None
    show ?thesis
    proof (cases "recv c")
      case (Some r)
      obtain v c1 where r: "r = (v, c1)" by fastforce
      with Cons.prems None Some obtain ws where "run es c1 = (c', ws)" by (auto split: prod.splits)
      with Cons.IH [OF this] recv_some [of c v c1] Some r Cons.prems(2) show ?thesis by simp
    next
      case N: None
      with Cons.prems(1) None have "run es c = (c', vs)" by simp
      from Cons.IH [OF this Cons.prems(2)] show ?thesis .
    qed
  qed
qed simp

end

interpretation gochan: bounded_channel ch_buf ch_cap try_send chan_recv
  by unfold_locales (auto simp: try_send_def chan_recv_def split: if_splits list.splits)

section \<open>Registered channels\<close>

text \<open>No panic and no stuck sender so far; every registered channel is open with its buffer within
  capacity, and no channel is registered under two keys.\<close>

definition heap_ok :: "'a chan_heap \<Rightarrow> bool" where
  "heap_ok h \<longleftrightarrow> \<not> chh_panic h \<and> \<not> chh_stuck h \<and>
     (\<forall>r c. chh_chans h r = Some c \<longrightarrow> r < chh_next h \<and> length (ch_buf c) \<le> ch_cap c)"

definition open_chan :: "'a chan_heap \<Rightarrow> nat \<Rightarrow> bool" where
  "open_chan h r \<longleftrightarrow> (\<exists>c. chh_chans h r = Some c \<and> \<not> ch_closed c)"

definition registry_ok :: "(int \<rightharpoonup> nat) \<Rightarrow> 'a chan_heap \<Rightarrow> bool" where
  "registry_ok subs h \<longleftrightarrow> heap_ok h \<and> (\<forall>i r. subs i = Some r \<longrightarrow> open_chan h r) \<and>
     (\<forall>i j r. subs i = Some r \<longrightarrow> subs j = Some r \<longrightarrow> i = j)"

lemma empty_heap_ok [simp]: "registry_ok Map.empty empty_heap"
  by (simp add: registry_ok_def heap_ok_def empty_heap_def)

lemma registry_open:
  "registry_ok subs h \<Longrightarrow> subs i = Some r \<Longrightarrow> \<exists>c. chh_chans h r = Some c \<and> \<not> ch_closed c \<and> r < chh_next h"
  unfolding registry_ok_def open_chan_def heap_ok_def by blast

lemma registry_unregister: "registry_ok subs h \<Longrightarrow> registry_ok (subs(i := None)) h"
  by (auto simp: registry_ok_def)

lemma registry_close:
  assumes "registry_ok subs h" and "subs i = Some r"
  shows "registry_ok (subs(i := None)) (close_chan r h)"
proof -
  from registry_open [OF assms] obtain c where c: "chh_chans h r = Some c" "\<not> ch_closed c" by blast
  with assms show ?thesis
    by (fastforce simp: registry_ok_def heap_ok_def open_chan_def close_chan_def)
qed

lemma registry_make:
  assumes "registry_ok subs h" and "subs i = None" and "make_chan cap h = (h', r)"
  shows "registry_ok (subs(i \<mapsto> r)) h'" and "chh_chans h' r = Some \<lparr>ch_buf = [], ch_cap = cap, ch_closed = False\<rparr>"
proof -
  have f: "chh_chans h (chh_next h) = None"
    using assms(1) by (metis heap_ok_def less_irrefl not_None_eq registry_ok_def)
  then have "subs j \<noteq> Some (chh_next h)" for j
    using registry_open [OF assms(1), of j "chh_next h"] by auto
  with assms f show "registry_ok (subs(i \<mapsto> r)) h'"
    by (auto simp: registry_ok_def heap_ok_def open_chan_def make_chan_def less_Suc_eq split: if_splits)
  from assms(3) show "chh_chans h' r = Some \<lparr>ch_buf = [], ch_cap = cap, ch_closed = False\<rparr>"
    by (auto simp: make_chan_def)
qed

lemma select_send_open:
  assumes "heap_ok h" and "open_chan h r" and "select_send r v h = (h', sent)"
  shows "heap_ok h' \<and> (\<forall>q. open_chan h' q = open_chan h q) \<and> chh_next h' = chh_next h"
  using assms by (auto simp: select_send_def open_chan_def heap_ok_def try_send_def split: if_splits prod.splits)

lemma registry_select_send:
  assumes "registry_ok subs h" and "subs i = Some r" and "select_send r v h = (h', sent)"
  shows "registry_ok subs h'"
  using assms select_send_open [of h r v h' sent] by (auto simp: registry_ok_def)

lemma plain_send_fresh:
  assumes "registry_ok subs h" and "subs i = Some r" and "chh_chans h r = Some c" and "length (ch_buf c) < ch_cap c"
  shows "registry_ok subs (plain_send r v h)"
proof -
  obtain h' sent where s: "select_send r v h = (h', sent)" by fastforce
  have "\<not> ch_closed c" using registry_open [OF assms(1,2)] assms(3) by simp
  with s assms(3,4) have sent by (auto simp: select_send_def try_send_def)
  with s registry_select_send [OF assms(1,2) s] show ?thesis by (simp add: plain_send_def)
qed

lemma registry_recv:
  assumes "registry_ok subs h" and "recv_chan r h = (h', x)"
  shows "registry_ok subs h'"
proof (cases "h' = h")
  case False
  with assms(2) obtain c v vs where c: "chh_chans h r = Some c" "ch_buf c = v # vs"
    and h': "h' = h\<lparr>chh_chans := (chh_chans h)(r \<mapsto> c\<lparr>ch_buf := vs\<rparr>)\<rparr>"
    by (auto simp: recv_chan_def chan_recv_def split: option.splits list.splits)
  have "r < chh_next h \<and> length (ch_buf c) \<le> ch_cap c"
    using assms(1) c(1) unfolding registry_ok_def heap_ok_def by blast
  then have "r < chh_next h" "length vs < ch_cap c" using c(2) by simp_all
  with assms(1) h' have "heap_ok h'" by (auto simp: registry_ok_def heap_ok_def)
  moreover have "open_chan h' q = open_chan h q" for q using c(1) h' by (auto simp: open_chan_def)
  ultimately show ?thesis using assms(1) by (simp add: registry_ok_def)
qed (use assms in simp)

end
