(* ===== verification/Coord.thy ===== *)
theory Coord
  imports Ipam Key Acl_Compile Store_Routes Store_Users Gochan "HOL-Library.AList"
begin

text \<open>
  \<^verbatim>\<open>internal/coord\<close>: the coordination engine (\<^verbatim>\<open>coord.go\<close>), the signalling relay (\<^verbatim>\<open>signal.go\<close>) and the gRPC
  shim (\<^verbatim>\<open>service.go\<close>). The coordinator's mutex is held for the whole of each method, so a method is
  one step on the state. The state has the database, one allocator per network, the two subscriber
  maps with the heaps of their channels, the online flags and the netmap counters. \<open>Register\<close> is
  \<open>None\<close> when the address scan would not end. Log lines are not modelled.
\<close>

section \<open>Messages\<close>

record pb_Node =
  pbn_NodeId :: "64 word"
  pbn_Hostname :: string
  pbn_NetworkId :: string
  pbn_OverlayIps :: "string list"
  pbn_ApprovedRoutes :: "string list"

record pb_Peer =
  pbp_NodeId :: "64 word"
  pbp_Hostname :: string
  pbp_NodeKey :: "byte list"
  pbp_OverlayIps :: "string list"
  pbp_Endpoints :: "string list"
  pbp_Online :: bool
  pbp_AllowedRoutes :: "string list"

record NetMap =
  nm_Seq :: "64 word"
  nm_Self :: pb_Node
  nm_Peers :: "pb_Peer list"
  nm_StunServers :: "string list"
  nm_Relays :: "string list"
  nm_Dns :: "string option"
  nm_Filter :: "pb_FilterRule list"
  nm_FilterEnabled :: bool

datatype SignalKind = SK_UNSPECIFIED | SK_HELLO | SK_OFFER | SK_ANSWER | SK_CANDIDATE

record SignalEnvelope =
  se_MachineKey :: "byte list"
  se_ToNodeId :: "64 word"
  se_FromNodeId :: "64 word"
  se_Kind :: SignalKind
  se_Payload :: string
  se_Session :: "64 word"

section \<open>State\<close>

record Coordinator =
  c_st :: Store
  c_StunServers :: "string list"
  c_Relays :: "string list"
  c_DNSBase :: string
  c_netmapPushes :: int
  c_ipams :: "int \<rightharpoonup> Allocator"
  c_subs :: "int \<rightharpoonup> nat"
  c_sigSubs :: "int \<rightharpoonup> nat"
  c_online :: "(int \<times> bool) list"
  c_seq :: "int \<Rightarrow> 64 word"
  c_nmch :: "NetMap chan_heap"
  c_sigch :: "SignalEnvelope chan_heap"

definition coord_New :: "Store \<Rightarrow> Coordinator res" where
  "coord_New st = Inr \<lparr>c_st = st, c_StunServers = [], c_Relays = [], c_DNSBase = [], c_netmapPushes = 0,
     c_ipams = Map.empty, c_subs = Map.empty, c_sigSubs = Map.empty, c_online = [], c_seq = (\<lambda>_. 0),
     c_nmch = empty_heap, c_sigch = empty_heap\<rparr>"

definition is_online :: "Coordinator \<Rightarrow> int \<Rightarrow> bool" where
  "is_online c i = (case map_of (c_online c) i of None \<Rightarrow> False | Some b \<Rightarrow> b)"

section \<open>Helpers\<close>

definition allocatorFor :: "faults \<Rightarrow> Coordinator \<Rightarrow> Network \<Rightarrow> Coordinator \<times> Allocator res" where
  "allocatorFor flt c nw = (case c_ipams c (nw_ID nw) of
     Some a \<Rightarrow> (c, Inr a)
   | None \<Rightarrow> (case ipam_New (nw_V4Prefix nw) (nw_V6Prefix nw) of
       Inl e \<Rightarrow> (c, Inl e)
     | Inr a \<Rightarrow> (case NodesInNetwork flt (c_st c) (nw_ID nw) of
         Inl e \<Rightarrow> (c, Inl e)
       | Inr nodes \<Rightarrow>
          (let a' = fold (\<lambda>n a. MarkUsed a [n_IPv4 n]) nodes a in
           (c\<lparr>c_ipams := (c_ipams c)(nw_ID nw \<mapsto> a')\<rparr>, Inr a')))))"

definition int_text :: "int \<Rightarrow> string" where
  "int_text i = (if i < 0 then CHR ''-'' # itoa (nat (- i)) else itoa (nat i))"

definition ownerName :: "faults \<Rightarrow> Store \<Rightarrow> int \<Rightarrow> string" where
  "ownerName flt st userID =
     (if userID = 0 then ''admin''
      else (case UserByID flt st userID of
          Inr u \<Rightarrow> u_Username u
        | Inl _ \<Rightarrow> ''user#'' @ int_text userID))"

text \<open>The run of characters outside \<^verbatim>\<open>[a-z0-9-]\<close> becomes one dash.\<close>

definition host_char :: "char \<Rightarrow> bool" where
  "host_char c \<longleftrightarrow> is_lower c \<or> is_digit c \<or> c = CHR ''-''"

fun hostnameRe_replace :: "bool \<Rightarrow> string \<Rightarrow> string" where
  "hostnameRe_replace in_run [] = []"
| "hostnameRe_replace in_run (c # cs) =
     (if host_char c then c # hostnameRe_replace False cs
      else if in_run then hostnameRe_replace True cs
      else CHR ''-'' # hostnameRe_replace True cs)"

definition sanitizeHostname :: "string \<Rightarrow> string" where
  "sanitizeHostname h0 =
     (let h1 = to_lower (trim_space h0); h2 = hostnameRe_replace False h1;
          h3 = trim_func (\<lambda>c. c = CHR ''-'') h2 in
      if length h3 > 63 then take 63 h3 else h3)"

definition taken_names :: "faults \<Rightarrow> Store \<Rightarrow> int \<Rightarrow> string set" where
  "taken_names flt s networkID = {h. HostnameTaken flt s networkID h = (True, None)}"

lemma taken_names_mem: "(True, None) = HostnameTaken flt s nid h \<Longrightarrow> h \<in> taken_names flt s nid"
  by (simp add: taken_names_def)

lemma finite_taken_names: "finite (taken_names flt s nid)"
proof -
  have "taken_names flt s nid \<subseteq> nr_hostname ` set (tbl_rows (st_nodes s))"
    by (auto simp: taken_names_def HostnameTaken_def filter_empty_conv split: if_splits)
  then show ?thesis by (rule finite_subset) simp
qed

definition suffixed :: "string \<Rightarrow> nat \<Rightarrow> string" where
  "suffixed base i = base @ CHR ''-'' # itoa i"

lemma suffixed_inj: "inj (suffixed base)"
  by (auto simp: inj_def suffixed_def itoa_inj)

function dedupe_loop :: "faults \<Rightarrow> Store \<Rightarrow> int \<Rightarrow> string \<Rightarrow> nat \<Rightarrow> string \<Rightarrow> string" where
  "dedupe_loop flt s networkID base i name =
     (case HostnameTaken flt s networkID name of
        (taken, err) \<Rightarrow> if err \<noteq> None \<or> \<not> taken then name
          else dedupe_loop flt s networkID base (i + 1) (suffixed base i))"
  by auto

text \<open>Each turn past a taken name leaves fewer taken names ahead.\<close>

termination dedupe_loop
  by (relation "measure (\<lambda>(flt, s, nid, base, i, name). taken_ahead (suffixed base) (taken_names flt s nid) i name)")
    (auto intro!: taken_ahead_decreases [OF finite_taken_names suffixed_inj] taken_names_mem)

declare dedupe_loop.simps [simp del]

definition dedupeHostname :: "faults \<Rightarrow> Store \<Rightarrow> int \<Rightarrow> string \<Rightarrow> string" where
  "dedupeHostname flt s networkID base = dedupe_loop flt s networkID base 2 base"

fun normalize_loop :: "string set \<Rightarrow> string list \<Rightarrow> string list res" where
  "normalize_loop seen [] = Inr []"
| "normalize_loop seen (r # rs) = (case NormalizeRoute r of
     Inl e \<Rightarrow> Inl (ErrWrap ''bad advertised route %q: %w'' e)
   | Inr norm \<Rightarrow>
      if norm \<notin> seen
      then (case normalize_loop (insert norm seen) rs of Inl e \<Rightarrow> Inl e | Inr out \<Rightarrow> Inr (norm # out))
      else normalize_loop seen rs)"

definition normalizeRoutes :: "string list \<Rightarrow> string list res" where
  "normalizeRoutes rs = normalize_loop {} rs"

definition overlayCIDRs :: "Node \<Rightarrow> string list" where
  "overlayCIDRs n = [addr_text (n_IPv4 n) @ ''/32'', addr_text (n_IPv6 n) @ ''/128'']"

definition parseNodeKey :: "string \<Rightarrow> byte list res" where
  "parseNodeKey s = (case NodePublic_UnmarshalText (NodePublic zero_key) s of
     Inl e \<Rightarrow> Inl e | Inr k \<Rightarrow> Inr (NodePublic_Bytes k))"

definition approvedRoutesLocked :: "faults \<Rightarrow> Coordinator \<Rightarrow> int \<Rightarrow> string list" where
  "approvedRoutesLocked flt c nodeID = (case ApprovedNodeRoutes flt (c_st c) nodeID of Inl _ \<Rightarrow> [] | Inr rs \<Rightarrow> rs)"

section \<open>Netmaps\<close>

fun netmap_peers :: "faults \<Rightarrow> Coordinator \<Rightarrow> int \<Rightarrow> Node list \<Rightarrow> pb_Peer list" where
  "netmap_peers flt c self [] = []"
| "netmap_peers flt c self (p # ps) =
     (if n_ID p = self then netmap_peers flt c self ps
      else (case parseNodeKey (n_NodeKey p) of
          Inl _ \<Rightarrow> netmap_peers flt c self ps
        | Inr nkey \<Rightarrow> \<lparr>pbp_NodeId = u64_of_int64 (n_ID p), pbp_Hostname = n_Hostname p, pbp_NodeKey = nkey,
            pbp_OverlayIps = overlayCIDRs p, pbp_Endpoints = n_Endpoints p, pbp_Online = is_online c (n_ID p),
            pbp_AllowedRoutes = approvedRoutesLocked flt c (n_ID p)\<rparr> # netmap_peers flt c self ps))"

definition buildNetMapLocked :: "faults \<Rightarrow> Coordinator \<Rightarrow> Node \<Rightarrow> NetMap res" where
  "buildNetMapLocked flt c n = (case NetworkByID flt (c_st c) (n_NetworkID n) of
     Inl e \<Rightarrow> Inl e
   | Inr nw \<Rightarrow> (case NodesInNetwork flt (c_st c) (n_NetworkID n) of
       Inl e \<Rightarrow> Inl e
     | Inr nodes \<Rightarrow> (case CompileFilterForNode flt (c_st c) n of
         Inl e \<Rightarrow> Inl e
       | Inr (filterRules, filterEnabled) \<Rightarrow>
          Inr \<lparr>nm_Seq = c_seq c (n_NetworkID n),
               nm_Self = \<lparr>pbn_NodeId = u64_of_int64 (n_ID n), pbn_Hostname = n_Hostname n, pbn_NetworkId = nw_Name nw,
                 pbn_OverlayIps = overlayCIDRs n, pbn_ApprovedRoutes = approvedRoutesLocked flt c (n_ID n)\<rparr>,
               nm_Peers = netmap_peers flt c (n_ID n) nodes,
               nm_StunServers = c_StunServers c, nm_Relays = c_Relays c,
               nm_Dns = (if c_DNSBase c \<noteq> [] then Some (nw_Name nw @ ''.'' @ c_DNSBase c) else None),
               nm_Filter = filterRules, nm_FilterEnabled = filterEnabled\<rparr>)))"

text \<open>One turn of the loop that pushes to subscribers.\<close>

definition push_netmap :: "faults \<Rightarrow> Node \<Rightarrow> Coordinator \<Rightarrow> Coordinator" where
  "push_netmap flt n c = (case c_subs c (n_ID n) of
     None \<Rightarrow> c
   | Some ch \<Rightarrow> (case buildNetMapLocked flt c n of
       Inl _ \<Rightarrow> c
     | Inr nm \<Rightarrow> (let (h, sent) = select_send ch nm (c_nmch c) in
         c\<lparr>c_nmch := h, c_netmapPushes := c_netmapPushes c + (if sent then 1 else 0)\<rparr>)))"

definition notifyNetworkLocked :: "faults \<Rightarrow> Coordinator \<Rightarrow> int \<Rightarrow> Coordinator" where
  "notifyNetworkLocked flt c networkID =
     (let c1 = c\<lparr>c_seq := (c_seq c)(networkID := c_seq c networkID + 1)\<rparr> in
      (case NodesInNetwork flt (c_st c1) networkID of
         Inl _ \<Rightarrow> c1
       | Inr nodes \<Rightarrow> fold (push_netmap flt) nodes c1))"

section \<open>Registration\<close>

definition register_again :: "faults \<Rightarrow> int \<Rightarrow> Coordinator \<Rightarrow> Node \<Rightarrow> NodePublic \<Rightarrow> string \<Rightarrow> string \<Rightarrow> string list \<Rightarrow>
    Coordinator \<times> (Node \<times> Network) res" where
  "register_again flt now c n nkey hostname osName routes =
     (let st = c_st c;
          newName = (if hostname \<noteq> [] \<and> hostname \<noteq> n_Hostname n \<and> \<not> fst (HostnameTaken flt st (n_NetworkID n) hostname)
                     then hostname else n_Hostname n);
          s1 = (if n_NodeKey n \<noteq> NodePublic_String nkey
                then fst (Audit flt now st (ownerName flt st (n_OwnerUserID n)) ''device.key-rotated'' (n_Hostname n) [])
                else st) in
      case UpdateNodeOnRegister flt s1 (n_ID n) (NodePublic_String nkey) newName osName of
        (s2, Inl e) \<Rightarrow> (c\<lparr>c_st := s2\<rparr>, Inl e)
      | (s2, Inr _) \<Rightarrow> (case SetAdvertisedRoutes flt s2 (n_ID n) routes of
          (s3, Inl e) \<Rightarrow> (c\<lparr>c_st := s3\<rparr>, Inl e)
        | (s3, Inr _) \<Rightarrow> (case NetworkByID flt s3 (n_NetworkID n) of
            Inl e \<Rightarrow> (c\<lparr>c_st := s3\<rparr>, Inl e)
          | Inr nw \<Rightarrow> (notifyNetworkLocked flt (c\<lparr>c_st := s3\<rparr>) (n_NetworkID n),
              Inr (n\<lparr>n_NodeKey := NodePublic_String nkey, n_Hostname := newName, n_OS := osName\<rparr>, nw)))))"

text \<open>The node is inserted with its IPv4 address as IPv6 placeholder, then gets the derived address.\<close>

definition register_create :: "faults \<Rightarrow> int \<Rightarrow> Coordinator \<Rightarrow> Network \<Rightarrow> int \<Rightarrow> Allocator \<Rightarrow> Addr \<Rightarrow> MachinePublic \<Rightarrow>
    NodePublic \<Rightarrow> string \<Rightarrow> string \<Rightarrow> string list \<Rightarrow> Coordinator \<times> (Node \<times> Network) res" where
  "register_create flt now c nw ownerID alloc v4 mkey nkey hostname0 osName routes =
     (let hostname1 = (if hostname0 = [] then ''node'' else hostname0);
          hostname = dedupeHostname flt (c_st c) (nw_ID nw) hostname1 in
      case CreateNode flt now (c_st c)
             \<lparr>n_ID = 0, n_NetworkID = nw_ID nw, n_Hostname = hostname, n_MachineKey = MachinePublic_String mkey,
              n_NodeKey = NodePublic_String nkey, n_IPv4 = v4, n_IPv6 = v4, n_OS = osName, n_Endpoints = [],
              n_CreatedAt = None, n_LastSeen = None, n_OwnerUserID = ownerID\<rparr> of
        (s1, Inl e) \<Rightarrow> (c\<lparr>c_st := s1, c_ipams := (c_ipams c)(nw_ID nw \<mapsto> Release alloc v4)\<rparr>, Inl e)
      | (s1, Inr n) \<Rightarrow> (case AllocateV6For alloc (u64_of_int64 (n_ID n)) of
          Inl e \<Rightarrow> (c\<lparr>c_st := s1\<rparr>, Inl e)
        | Inr v6 \<Rightarrow> (case UpdateNodeIPv6 flt s1 (n_ID n) v6 of
            (s2, Inl e) \<Rightarrow> (c\<lparr>c_st := s2\<rparr>, Inl e)
          | (s2, Inr _) \<Rightarrow>
             (case (if length routes > 0 then SetAdvertisedRoutes flt s2 (n_ID n) routes else (s2, Inr ())) of
                (s3, Inl e) \<Rightarrow> (c\<lparr>c_st := s3\<rparr>, Inl e)
              | (s3, Inr _) \<Rightarrow>
                 (let s4 = fst (Audit flt now s3 (ownerName flt s3 ownerID) ''device.register'' (n_Hostname n)
                              (''os='' @ osName @ '' ip='' @ addr_text (n_IPv4 n))) in
                  (notifyNetworkLocked flt (c\<lparr>c_st := s4\<rparr>) (nw_ID nw), Inr (n\<lparr>n_IPv6 := v6\<rparr>, nw)))))))"

definition register_new :: "faults \<Rightarrow> int \<Rightarrow> Coordinator \<Rightarrow> MachinePublic \<Rightarrow> NodePublic \<Rightarrow> string \<Rightarrow> string \<Rightarrow> string \<Rightarrow>
    string list \<Rightarrow> (Coordinator \<times> (Node \<times> Network) res) option" where
  "register_new flt now c mkey nkey setupKey hostname osName routes =
     (if setupKey = [] then Some (c, Inl (ErrMsg ''unknown device: a setup key is required to join''))
      else (case UseSetupKey flt now (c_st c) setupKey of
          (s1, Inl e) \<Rightarrow> Some (c\<lparr>c_st := s1\<rparr>, Inl e)
        | (s1, Inr (nw, ownerID)) \<Rightarrow> (case allocatorFor flt (c\<lparr>c_st := s1\<rparr>) nw of
            (c1, Inl e) \<Rightarrow> Some (c1, Inl e)
          | (c1, Inr alloc) \<Rightarrow> (case AllocateV4 alloc of
              None \<Rightarrow> None
            | Some (alloc', r) \<Rightarrow>
               (let c2 = c1\<lparr>c_ipams := (c_ipams c1)(nw_ID nw \<mapsto> alloc')\<rparr> in
                case r of
                  Inl e \<Rightarrow> Some (c2, Inl e)
                | Inr v4 \<Rightarrow> Some (register_create flt now c2 nw ownerID alloc' v4 mkey nkey hostname osName routes))))))"

definition Register :: "faults \<Rightarrow> int \<Rightarrow> Coordinator \<Rightarrow> MachinePublic \<Rightarrow> NodePublic \<Rightarrow> string \<Rightarrow> string \<Rightarrow> string \<Rightarrow>
    string list \<Rightarrow> (Coordinator \<times> (Node \<times> Network) res) option" where
  "Register flt now c mkey nkey setupKey hostname0 osName advertisedRoutes =
     (let hostname = sanitizeHostname hostname0 in
      case normalizeRoutes advertisedRoutes of
        Inl e \<Rightarrow> Some (c, Inl e)
      | Inr routes \<Rightarrow> (case NodeByMachineKey flt (c_st c) (MachinePublic_String mkey) of
          Inr n \<Rightarrow> Some (register_again flt now c n nkey hostname osName routes)
        | Inl e \<Rightarrow> if e \<noteq> ErrNotFound then Some (c, Inl e)
            else register_new flt now c mkey nkey setupKey hostname osName routes))"

section \<open>The other methods\<close>

definition coord_UpdateEndpoints :: "faults \<Rightarrow> Coordinator \<Rightarrow> MachinePublic \<Rightarrow> string list \<Rightarrow> Coordinator \<times> unit res" where
  "coord_UpdateEndpoints flt c mkey endpoints = (case NodeByMachineKey flt (c_st c) (MachinePublic_String mkey) of
     Inl e \<Rightarrow> (c, Inl e)
   | Inr n \<Rightarrow>
      if list_ex (\<lambda>e. parse_addr_port e = None) endpoints
      then (c, Inl (ErrWrap ''bad endpoint %q: %w'' (ErrMsg ''netip.ParseAddrPort'')))
      else (case UpdateNodeEndpoints flt (c_st c) (n_ID n) endpoints of
          (s', Inl e) \<Rightarrow> (c\<lparr>c_st := s'\<rparr>, Inl e)
        | (s', Inr _) \<Rightarrow> (notifyNetworkLocked flt (c\<lparr>c_st := s'\<rparr>) (n_NetworkID n), Inr ())))"

text \<open>\<^verbatim>\<open>Subscribe\<close> returns the node and the reference of its channel; the closure it also returns is
  \<open>Unsubscribe\<close>.\<close>

definition Subscribe :: "faults \<Rightarrow> int \<Rightarrow> Coordinator \<Rightarrow> MachinePublic \<Rightarrow> Coordinator \<times> (Node \<times> nat) res" where
  "Subscribe flt now c mkey = (case NodeByMachineKey flt (c_st c) (MachinePublic_String mkey) of
     Inl e \<Rightarrow> (c, Inl e)
   | Inr n \<Rightarrow>
      (let h1 = (case c_subs c (n_ID n) of None \<Rightarrow> c_nmch c | Some old \<Rightarrow> close_chan old (c_nmch c));
           (h2, ch) = make_chan 8 h1;
           c1 = c\<lparr>c_nmch := h2, c_subs := (c_subs c)(n_ID n \<mapsto> ch), c_online := AList.update (n_ID n) True (c_online c)\<rparr>;
           c2 = c1\<lparr>c_st := fst (TouchNode flt now (c_st c1) (n_ID n))\<rparr>;
           c3 = (case buildNetMapLocked flt c2 n of
                   Inl _ \<Rightarrow> c2 | Inr nm \<Rightarrow> c2\<lparr>c_nmch := plain_send ch nm (c_nmch c2)\<rparr>) in
       (notifyNetworkLocked flt c3 (n_NetworkID n), Inr (n, ch))))"

definition Unsubscribe :: "faults \<Rightarrow> int \<Rightarrow> Coordinator \<Rightarrow> Node \<Rightarrow> nat \<Rightarrow> Coordinator" where
  "Unsubscribe flt now c n ch =
     (if c_subs c (n_ID n) = Some ch
      then (let c1 = c\<lparr>c_subs := (c_subs c)(n_ID n := None), c_online := AList.update (n_ID n) False (c_online c)\<rparr>;
                c2 = c1\<lparr>c_st := fst (TouchNode flt now (c_st c1) (n_ID n))\<rparr> in
            notifyNetworkLocked flt c2 (n_NetworkID n))
      else c)"

text \<open>\<^verbatim>\<open>DeleteNode\<close>: the subscriptions of the node are closed, then its address is released.\<close>

definition drop_node :: "Coordinator \<Rightarrow> int \<Rightarrow> Coordinator" where
  "drop_node c i =
     (let c1 = (case c_subs c i of None \<Rightarrow> c
                | Some ch \<Rightarrow> c\<lparr>c_nmch := close_chan ch (c_nmch c), c_subs := (c_subs c)(i := None)\<rparr>);
          c2 = (case c_sigSubs c1 i of None \<Rightarrow> c1
                | Some ch \<Rightarrow> c1\<lparr>c_sigch := close_chan ch (c_sigch c1), c_sigSubs := (c_sigSubs c1)(i := None)\<rparr>) in
      c2\<lparr>c_online := AList.delete i (c_online c2)\<rparr>)"

definition release_address :: "faults \<Rightarrow> Coordinator \<Rightarrow> Node \<Rightarrow> Coordinator" where
  "release_address flt c n = (case NetworkByID flt (c_st c) (n_NetworkID n) of
     Inl _ \<Rightarrow> c
   | Inr nw \<Rightarrow> (case allocatorFor flt c nw of
       (c', Inl _) \<Rightarrow> c'
     | (c', Inr alloc) \<Rightarrow> c'\<lparr>c_ipams := (c_ipams c')(nw_ID nw \<mapsto> Release alloc (n_IPv4 n))\<rparr>))"

definition coord_DeleteNode :: "faults \<Rightarrow> Coordinator \<Rightarrow> int \<Rightarrow> Coordinator \<times> unit res" where
  "coord_DeleteNode flt c i = (case NodeByID flt (c_st c) i of
     Inl e \<Rightarrow> (c, Inl e)
   | Inr n \<Rightarrow> (case store_DeleteNode flt (c_st c) i of
       (s1, Inl e) \<Rightarrow> (c\<lparr>c_st := s1\<rparr>, Inl e)
     | (s1, Inr _) \<Rightarrow>
        (notifyNetworkLocked flt (release_address flt (drop_node (c\<lparr>c_st := s1\<rparr>) i) n) (n_NetworkID n), Inr ())))"

definition Online :: "Coordinator \<Rightarrow> int \<Rightarrow> bool" where
  "Online c nodeID = is_online c nodeID"

definition OnlineCount :: "Coordinator \<Rightarrow> nat" where
  "OnlineCount c = length (filter snd (c_online c))"

definition NetmapPushes :: "Coordinator \<Rightarrow> int" where
  "NetmapPushes c = c_netmapPushes c"

definition coord_NodeRoutes :: "faults \<Rightarrow> Coordinator \<Rightarrow> int \<Rightarrow> Route list res" where
  "coord_NodeRoutes flt c nodeID = store_NodeRoutes flt (c_st c) nodeID"

definition coord_SetRouteApproved :: "faults \<Rightarrow> Coordinator \<Rightarrow> int \<Rightarrow> string \<Rightarrow> bool \<Rightarrow> Coordinator \<times> unit res" where
  "coord_SetRouteApproved flt c nodeID route approved = (case NodeByID flt (c_st c) nodeID of
     Inl e \<Rightarrow> (c, Inl e)
   | Inr n \<Rightarrow> (case NormalizeRoute route of
       Inl e \<Rightarrow> (c, Inl e)
     | Inr norm \<Rightarrow> (case store_SetRouteApproved flt (c_st c) nodeID norm approved of
         (s', Inl e) \<Rightarrow> (c\<lparr>c_st := s'\<rparr>, Inl e)
       | (s', Inr _) \<Rightarrow> (notifyNetworkLocked flt (c\<lparr>c_st := s'\<rparr>) (n_NetworkID n), Inr ()))))"

definition ACLChanged :: "faults \<Rightarrow> Coordinator \<Rightarrow> int \<Rightarrow> Coordinator" where
  "ACLChanged flt c networkID = notifyNetworkLocked flt c networkID"

definition NodeForCheck :: "faults \<Rightarrow> Coordinator \<Rightarrow> int \<Rightarrow> Node res" where
  "NodeForCheck flt c i = NodeByID flt (c_st c) i"

section \<open>Signalling\<close>

definition signalSubscribe :: "faults \<Rightarrow> Coordinator \<Rightarrow> MachinePublic \<Rightarrow> Coordinator \<times> (Node \<times> nat) res" where
  "signalSubscribe flt c mkey = (case NodeByMachineKey flt (c_st c) (MachinePublic_String mkey) of
     Inl e \<Rightarrow> (c, Inl e)
   | Inr n \<Rightarrow>
      (let h1 = (case c_sigSubs c (n_ID n) of None \<Rightarrow> c_sigch c | Some old \<Rightarrow> close_chan old (c_sigch c));
           (h2, ch) = make_chan 32 h1 in
       (c\<lparr>c_sigch := h2, c_sigSubs := (c_sigSubs c)(n_ID n \<mapsto> ch)\<rparr>, Inr (n, ch))))"

definition signalUnsubscribe :: "Coordinator \<Rightarrow> Node \<Rightarrow> nat \<Rightarrow> Coordinator" where
  "signalUnsubscribe c n ch =
     (if c_sigSubs c (n_ID n) = Some ch then c\<lparr>c_sigSubs := (c_sigSubs c)(n_ID n := None)\<rparr> else c)"

definition routeSignal :: "faults \<Rightarrow> Coordinator \<Rightarrow> Node \<Rightarrow> SignalEnvelope \<Rightarrow> Coordinator" where
  "routeSignal flt c from env = (case NodeByID flt (c_st c) (int64_of_u64 (se_ToNodeId env)) of
     Inl _ \<Rightarrow> c
   | Inr dst \<Rightarrow>
      if n_NetworkID dst \<noteq> n_NetworkID from then c
      else (case c_sigSubs c (n_ID dst) of
          None \<Rightarrow> c
        | Some ch \<Rightarrow>
           (let out = \<lparr>se_MachineKey = [], se_ToNodeId = se_ToNodeId env, se_FromNodeId = u64_of_int64 (n_ID from),
                       se_Kind = se_Kind env, se_Payload = se_Payload env, se_Session = se_Session env\<rparr> in
            c\<lparr>c_sigch := fst (select_send ch out (c_sigch c))\<rparr>)))"

section \<open>The gRPC service\<close>

datatype grpc_code = InvalidArgument | PermissionDenied | NotFound | Internal | Aborted

text \<open>\<^verbatim>\<open>status.Error(code, \<dots>)\<close>; only the code is kept.\<close>

record RegisterNodeRequest =
  rq_MachineKey :: "byte list"
  rq_NodeKey :: "byte list"
  rq_SetupKey :: string
  rq_Hostname :: string
  rq_Os :: string
  rq_AdvertisedRoutes :: "string list"

record RegisterNodeResponse =
  rs_NodeId :: "64 word"
  rs_NetworkId :: string
  rs_OverlayIpv4 :: string
  rs_OverlayIpv6 :: string
  rs_Hostname :: string

definition RegisterNode :: "faults \<Rightarrow> int \<Rightarrow> Coordinator \<Rightarrow> RegisterNodeRequest \<Rightarrow>
    (Coordinator \<times> (grpc_code + RegisterNodeResponse)) option" where
  "RegisterNode flt now c req = (case MachinePublicFromBytes (rq_MachineKey req) of
     Inl _ \<Rightarrow> Some (c, Inl InvalidArgument)
   | Inr mkey \<Rightarrow> (case NodePublicFromBytes (rq_NodeKey req) of
       Inl _ \<Rightarrow> Some (c, Inl InvalidArgument)
     | Inr nkey \<Rightarrow>
        if MachinePublic_IsZero mkey \<or> NodePublic_IsZero nkey then Some (c, Inl InvalidArgument)
        else map_option (\<lambda>(c', r). (c', case r of
               Inl _ \<Rightarrow> Inl PermissionDenied
             | Inr (n, nw) \<Rightarrow> Inr \<lparr>rs_NodeId = u64_of_int64 (n_ID n), rs_NetworkId = nw_Name nw,
                 rs_OverlayIpv4 = addr_text (n_IPv4 n) @ ''/32'', rs_OverlayIpv6 = addr_text (n_IPv6 n) @ ''/128'',
                 rs_Hostname = n_Hostname n\<rparr>))
             (Register flt now c mkey nkey (rq_SetupKey req) (rq_Hostname req) (rq_Os req) (rq_AdvertisedRoutes req))))"

definition service_UpdateEndpoints :: "faults \<Rightarrow> Coordinator \<Rightarrow> byte list \<Rightarrow> string list \<Rightarrow> Coordinator \<times> (grpc_code + unit)" where
  "service_UpdateEndpoints flt c machineKey endpoints = (case MachinePublicFromBytes machineKey of
     Inl _ \<Rightarrow> (c, Inl InvalidArgument)
   | Inr mkey \<Rightarrow> (case coord_UpdateEndpoints flt c mkey endpoints of
       (c', Inl e) \<Rightarrow> (c', Inl (if is_not_found e then NotFound else InvalidArgument))
     | (c', Inr _) \<Rightarrow> (c', Inr ())))"

text \<open>The part of \<^verbatim>\<open>StreamNetMap\<close> before its loop, and one turn of the loop: on what the select saw,
  the turn sends a message or ends the call (with \<open>None\<close> for a nil error).\<close>

definition StreamNetMap_open :: "faults \<Rightarrow> int \<Rightarrow> Coordinator \<Rightarrow> byte list \<Rightarrow> Coordinator \<times> (grpc_code + Node \<times> nat)" where
  "StreamNetMap_open flt now c machineKey = (case MachinePublicFromBytes machineKey of
     Inl _ \<Rightarrow> (c, Inl InvalidArgument)
   | Inr mkey \<Rightarrow> (case Subscribe flt now c mkey of
       (c', Inl e) \<Rightarrow> (c', Inl (if is_not_found e then NotFound else Internal))
     | (c', Inr x) \<Rightarrow> (c', Inr x)))"

datatype 'a stream_event = CtxDone | Inbox "'a received" | PeerError bool

datatype 'a turn = Deliver 'a | Again | Return "grpc_code option" | ReturnPeerError

fun StreamNetMap_turn :: "NetMap stream_event \<Rightarrow> NetMap turn" where
  "StreamNetMap_turn CtxDone = Return None"
| "StreamNetMap_turn (Inbox (Value nm)) = Deliver nm"
| "StreamNetMap_turn (Inbox Closed) = Return (Some NotFound)"
| "StreamNetMap_turn (Inbox Waiting) = Again"
| "StreamNetMap_turn (PeerError _) = ReturnPeerError"

text \<open>\<^verbatim>\<open>SignalStream\<close>: the HELLO, then the same kind of loop; \<open>PeerError True\<close> is the end of the stream
  (\<^verbatim>\<open>io.EOF\<close>).\<close>

definition SignalStream_open :: "faults \<Rightarrow> Coordinator \<Rightarrow> SignalEnvelope \<Rightarrow> Coordinator \<times> (grpc_code + Node \<times> nat)" where
  "SignalStream_open flt c first =
     (if se_Kind first \<noteq> SK_HELLO then (c, Inl InvalidArgument)
      else (case MachinePublicFromBytes (se_MachineKey first) of
          Inl _ \<Rightarrow> (c, Inl InvalidArgument)
        | Inr mkey \<Rightarrow> (case signalSubscribe flt c mkey of
            (c', Inl e) \<Rightarrow> (c', Inl (if is_not_found e then NotFound else Internal))
          | (c', Inr x) \<Rightarrow> (c', Inr x))))"

fun SignalStream_turn :: "SignalEnvelope stream_event \<Rightarrow> SignalEnvelope turn" where
  "SignalStream_turn CtxDone = Return None"
| "SignalStream_turn (PeerError eof) = (if eof then Return None else ReturnPeerError)"
| "SignalStream_turn (Inbox Closed) = Return (Some Aborted)"
| "SignalStream_turn (Inbox (Value env)) = Deliver env"
| "SignalStream_turn (Inbox Waiting) = Again"

end
