(* ===== verification/Golib.thy ===== *)
theory Golib
  imports Netip
begin

text \<open>
  Further parts of Go's standard library that the sources use: host-port text (\<^verbatim>\<open>net\<close>), path text
  on Unix (\<^verbatim>\<open>path/filepath\<close>) and the query part of URLs (\<^verbatim>\<open>net/url\<close>), with the lemmas on clean
  paths and on queries that the components share.
\<close>

section \<open>Text\<close>

text \<open>The line break, \<^verbatim>\<open>strings.Index\<close>, \<^verbatim>\<open>strings.Contains\<close>, \<^verbatim>\<open>strings.CutPrefix\<close>, and \<^verbatim>\<open>strings.Fields\<close> on ASCII text.\<close>

definition nl :: string where "nl = [CHR 0x0A]"

fun str_index :: "string \<Rightarrow> string \<Rightarrow> nat option" where
  "str_index [] p = (if p = [] then Some 0 else None)"
| "str_index (c # s) p = (if has_prefix (c # s) p then Some 0 else map_option Suc (str_index s p))"

definition str_contains :: "string \<Rightarrow> string \<Rightarrow> bool" where
  "str_contains s p \<longleftrightarrow> str_index s p \<noteq> None"

definition cut_prefix :: "string \<Rightarrow> string \<Rightarrow> string option" where
  "cut_prefix s p = (if has_prefix s p then Some (drop (length p) s) else None)"

definition str_fields :: "string \<Rightarrow> string list" where
  "str_fields s = filter (\<lambda>f. f \<noteq> []) (split_on CHR '' '' (map (\<lambda>c. if is_space c then CHR '' '' else c) s))"

lemma has_prefix_append [simp]: "has_prefix (p @ s) p"
  by (simp add: has_prefix_def)

lemma has_prefix_line:
  assumes "c \<notin> set p"
  shows "has_prefix (l @ c # s) p \<longleftrightarrow> has_prefix l p"
proof (cases "length p \<le> length l")
  case False
  then have "take (length p) (l @ c # s) = l @ c # take (length p - length l - 1) s"
    by (simp add: take_Cons' )
  with assms have "take (length p) (l @ c # s) \<noteq> p"
    by (metis in_set_conv_decomp)
  moreover have "take (length p) l \<noteq> p"
    using False by (metis nat_le_linear take_all length_take min.absorb_iff2)
  ultimately show ?thesis
    by (simp add: has_prefix_def)
qed (simp add: has_prefix_def)

lemma str_index_line:
  assumes "c \<notin> set p" and "p \<noteq> []"
  shows "str_index (l @ c # s) p = (case str_index l p of Some i \<Rightarrow> Some i | None \<Rightarrow> map_option (\<lambda>i. length l + 1 + i) (str_index s p))"
proof (induction l)
  case Nil
  have "\<not> has_prefix (c # s) p"
    using has_prefix_line [OF assms(1), of "[]" s] assms(2) by (simp add: has_prefix_def)
  with assms(2) show ?case
    by (cases "str_index s p") auto
next
  case (Cons d l)
  have "has_prefix (d # l @ c # s) p \<longleftrightarrow> has_prefix (d # l) p"
    using has_prefix_line [OF assms(1), of "d # l" s] by simp
  with Cons show ?case
    by (cases "str_index l p"; cases "str_index s p") auto
qed

lemma str_index_absent: "p \<noteq> [] \<Longrightarrow> hd p \<notin> set s \<Longrightarrow> str_index s p = None"
  by (induction s) (auto simp: has_prefix_def neq_Nil_conv split: if_splits)

lemma str_index_prefix: "p \<noteq> [] \<Longrightarrow> str_index (p @ s) p = Some 0"
  by (cases p) (simp_all, metis append_Cons has_prefix_append)

lemma str_index_suffix: "str_index t p \<noteq> None \<Longrightarrow> str_index (s @ t) p \<noteq> None"
  by (induction s) auto

lemma str_contains_mid: "p \<noteq> [] \<Longrightarrow> str_contains (a @ p @ b) p"
  unfolding str_contains_def by (rule str_index_suffix) (simp add: str_index_prefix)

lemma trim_func_idem: "trim_func p (trim_func p s) = trim_func p s"
proof -
  define t u where "t = dropWhile p s" and "u = rev (dropWhile p (rev t))"
  have "t = u @ rev (takeWhile p (rev t))" unfolding u_def by (metis rev_append rev_rev_ident takeWhile_dropWhile_id)
  moreover have "t = [] \<or> \<not> p (hd t)" using hd_dropWhile [of p s] by (auto simp: t_def)
  ultimately have "u = [] \<or> \<not> p (hd u)" by (metis hd_append append_is_Nil_conv)
  then have "dropWhile p u = u" by (auto simp: dropWhile_eq_self_iff)
  moreover have "dropWhile p (rev u) = rev u" by (simp add: u_def)
  ultimately show ?thesis by (simp add: trim_func_def t_def [symmetric] u_def [symmetric])
qed

lemma trim_space_idem [simp]: "trim_space (trim_space s) = trim_space s"
  by (simp add: trim_space_def trim_func_idem)

section \<open>Case and suffixes\<close>

lemma to_lower_char_other:
  assumes "\<not> is_upper d" and "\<not> is_lower d"
  shows "to_lower_char c = d \<longleftrightarrow> c = d"
proof (cases "is_upper c")
  case True
  then have "(of_char (to_lower_char c) :: nat) = of_char c + 32" by (simp add: to_lower_char_def is_upper_def)
  then have "is_lower (to_lower_char c)" using True by (simp add: is_lower_def is_upper_def)
  then show ?thesis using assms True by auto
next
  case False
  then show ?thesis by (simp add: to_lower_char_def)
qed

lemma to_lower_set: "\<not> is_upper d \<Longrightarrow> \<not> is_lower d \<Longrightarrow> d \<in> set (to_lower s) \<longleftrightarrow> d \<in> set s"
  unfolding to_lower_def by (metis (mono_tags, lifting) image_iff list.set_map to_lower_char_other)

lemma to_lower_simps [simp]:
  "CHR ''.'' \<in> set (to_lower s) \<longleftrightarrow> CHR ''.'' \<in> set s"
  "CHR 0x5C \<in> set (to_lower s) \<longleftrightarrow> CHR 0x5C \<in> set s"
  "to_lower (a @ b) = to_lower a @ to_lower b"
  "to_lower [] = []" "to_lower s = [] \<longleftrightarrow> s = []" "to_lower ''.'' = ''.''"
  by (simp_all add: to_lower_set is_upper_def is_lower_def) (simp_all add: to_lower_def to_lower_char_def is_upper_def)

lemma to_lower_last: "s \<noteq> [] \<Longrightarrow> last (to_lower s) = CHR ''.'' \<longleftrightarrow> last s = CHR ''.''"
  by (simp add: to_lower_def last_map to_lower_char_other is_upper_def is_lower_def)

lemma has_suffix_append [simp]: "has_suffix (a @ b) b"
  by (simp add: has_suffix_def)

lemma has_suffix_iff: "has_suffix s p \<longleftrightarrow> (\<exists>a. s = a @ p)"
  unfolding has_suffix_def
  by (metis append_take_drop_id append_eq_conv_conj diff_add_inverse2 le_add2 length_append)

lemma trim_suffix_append [simp]: "trim_suffix (a @ b) b = a"
  by (simp add: trim_suffix_def)

section \<open>Addresses\<close>

text \<open>\<^verbatim>\<open>Addr.AsSlice\<close>: nil for the zero address.\<close>

fun as_slice :: "Addr \<Rightarrow> byte list" where
  "as_slice NoAddr = []"
| "as_slice (V4 w) = be_bytes 4 (unat w)"
| "as_slice (V6 w _) = as16 w"

text \<open>\<^verbatim>\<open>Addr.IsLoopback\<close>, and \<^verbatim>\<open>Addr.IsGlobalUnicast\<close> of addresses that are not IPv4 in IPv6.\<close>

fun addr_is_loopback :: "Addr \<Rightarrow> bool" where
  "addr_is_loopback NoAddr = False"
| "addr_is_loopback (V4 w) \<longleftrightarrow> unat w div 2 ^ 24 = 127"
| "addr_is_loopback (V6 w z) \<longleftrightarrow> (if addr_is4in6 (V6 w z) then unat (ucast w :: 32 word) div 2 ^ 24 = 127 else w = 1)"

fun addr_is_global_unicast :: "Addr \<Rightarrow> bool" where
  "addr_is_global_unicast NoAddr = False"
| "addr_is_global_unicast (V4 w) \<longleftrightarrow> w \<noteq> 0 \<and> w \<noteq> 0xffffffff \<and> unat w div 2 ^ 24 \<noteq> 127 \<and>
     unat w div 2 ^ 28 \<noteq> 14 \<and> unat w div 2 ^ 16 \<noteq> 0xa9fe"
| "addr_is_global_unicast (V6 w z) \<longleftrightarrow> w \<noteq> 0 \<and> w \<noteq> 1 \<and> unat w div 2 ^ 120 \<noteq> 0xff \<and> unat w div 2 ^ 118 \<noteq> 0x3fa"

text \<open>The network interfaces as \<^verbatim>\<open>net.Interfaces\<close> and \<^verbatim>\<open>Addrs\<close> report them: \<open>None\<close> for the addresses of an interface
  that cannot be listed, and for an address that is not an IP network.\<close>

record net_iface =
  ni_up :: bool
  ni_loopback :: bool
  ni_addrs :: "byte list option list option"

definition iface_addrs :: "net_iface \<Rightarrow> Addr list" where
  "iface_addrs ifc =
     (if \<not> ni_up ifc \<or> ni_loopback ifc then []
      else (case ni_addrs ifc of
         None \<Rightarrow> []
       | Some as \<Rightarrow> List.map_filter (\<lambda>a. Option.bind a (\<lambda>b. map_option addr_unmap (addr_from_slice b))) as))"

section \<open>Host and port\<close>

text \<open>\<^verbatim>\<open>net.JoinHostPort\<close>: a host with a colon is put in brackets.\<close>

definition JoinHostPort :: "string \<Rightarrow> string \<Rightarrow> string" where
  "JoinHostPort host port = (if CHR '':'' \<in> set host then ''['' @ host @ '']:'' @ port else host @ '':'' @ port)"

text \<open>\<^verbatim>\<open>net.SplitHostPort\<close>: at the last colon, which must follow a bracketed host at once; an
  unbracketed host has no colon, and no brackets are left over.\<close>

definition SplitHostPort :: "string \<Rightarrow> (string \<times> string) res" where
  "SplitHostPort hostport = (case split_last CHR '':'' hostport of
     None \<Rightarrow> Inl (ErrMsg ''missing port in address'')
   | Some (pre, port) \<Rightarrow>
      if hd hostport = CHR ''['' then
        (case cut (tl hostport) CHR '']'' of (host, rest, found) \<Rightarrow>
          if \<not> found then Inl (ErrMsg ''missing ']' in address'')
          else if rest = [] then Inl (ErrMsg ''missing port in address'')
          else if pre \<noteq> CHR ''['' # host @ '']'' then
            Inl (ErrMsg (if hd rest = CHR '':'' then ''too many colons in address'' else ''missing port in address''))
          else if CHR ''['' \<in> set (tl hostport) then Inl (ErrMsg ''unexpected '[' in address'')
          else if CHR '']'' \<in> set rest then Inl (ErrMsg ''unexpected ']' in address'')
          else Inr (host, port))
      else if CHR '':'' \<in> set pre then Inl (ErrMsg ''too many colons in address'')
      else if CHR ''['' \<in> set hostport then Inl (ErrMsg ''unexpected '[' in address'')
      else if CHR '']'' \<in> set hostport then Inl (ErrMsg ''unexpected ']' in address'')
      else Inr (pre, port))"

lemma cut_sep [simp]: "c \<notin> set f \<Longrightarrow> cut (f @ c # s) c = (f, s, True)"
  by (induction f) (auto simp: cut_def split: if_splits)

lemma split_host_port:
  assumes "CHR '':'' \<notin> set host" "CHR ''['' \<notin> set host" "CHR '']'' \<notin> set host"
    and "CHR '':'' \<notin> set port" "CHR ''['' \<notin> set port" "CHR '']'' \<notin> set port"
  shows "SplitHostPort (host @ '':'' @ port) = Inr (host, port)"
  using assms by (cases host) (auto simp: SplitHostPort_def)

lemma split_bracketed_host_port:
  assumes "CHR ''['' \<notin> set host" "CHR '']'' \<notin> set host"
    and "CHR '':'' \<notin> set port" "CHR ''['' \<notin> set port" "CHR '']'' \<notin> set port"
  shows "SplitHostPort (''['' @ host @ '']:'' @ port) = Inr (host, port)"
proof -
  have c: "cut (host @ CHR '']'' # CHR '':'' # port) CHR '']'' = (host, CHR '':'' # port, True)"
    using assms(2) by simp
  have l: "split_last CHR '':'' (host @ CHR '']'' # CHR '':'' # port) = Some (host @ '']'', port)"
    using split_last_sep [OF assms(3), of "host @ '']''"] by simp
  show ?thesis using assms by (simp add: SplitHostPort_def c l)
qed

lemma split_join_host_port:
  assumes "CHR ''['' \<notin> set host" "CHR '']'' \<notin> set host"
    and "CHR '':'' \<notin> set port" "CHR ''['' \<notin> set port" "CHR '']'' \<notin> set port"
  shows "SplitHostPort (JoinHostPort host port) = Inr (host, port)"
  using assms split_host_port split_bracketed_host_port by (simp add: JoinHostPort_def)

section \<open>Paths\<close>

text \<open>Package \<^verbatim>\<open>path/filepath\<close> on Unix. \<^verbatim>\<open>Clean\<close> works on the elements between slashes: empty and dot
  elements go, dot-dot removes the element before it.\<close>

definition clean_step :: "bool \<Rightarrow> string \<Rightarrow> string list \<Rightarrow> string list" where
  "clean_step rooted e st =
     (if e = [] \<or> e = ''.'' then st
      else if e = ''..'' then
        (if st \<noteq> [] \<and> hd st \<noteq> ''..'' then tl st else if rooted then st else e # st)
      else e # st)"

definition path_clean :: "string \<Rightarrow> string" where
  "path_clean s =
     (if s = [] then ''.''
      else (let rooted = (hd s = CHR ''/'');
                elems = rev (fold (clean_step rooted) (split_on CHR ''/'' s) []) in
        if rooted then CHR ''/'' # join CHR ''/'' elems
        else if elems = [] then ''.'' else join CHR ''/'' elems))"

definition path_join :: "string \<Rightarrow> string \<Rightarrow> string" where
  "path_join a b = (if a \<noteq> [] then path_clean (a @ ''/'' @ b) else if b \<noteq> [] then path_clean b else [])"

definition after_last :: "char \<Rightarrow> string \<Rightarrow> string" where
  "after_last c s = rev (takeWhile (\<lambda>x. x \<noteq> c) (rev s))"

definition path_base :: "string \<Rightarrow> string" where
  "path_base s =
     (if s = [] then ''.''
      else (let t = rev (dropWhile (\<lambda>x. x = CHR ''/'') (rev s)) in
        if t = [] then ''/'' else after_last CHR ''/'' t))"

definition path_dir :: "string \<Rightarrow> string" where
  "path_dir s = path_clean (rev (dropWhile (\<lambda>x. x \<noteq> CHR ''/'') (rev s)))"

definition path_ext :: "string \<Rightarrow> string" where
  "path_ext s = (let e = after_last CHR ''/'' s in
     if CHR ''.'' \<in> set e then CHR ''.'' # after_last CHR ''.'' e else [])"

text \<open>A name that is one element of a path, and a directory path in clean form.\<close>

definition plain :: "string \<Rightarrow> bool" where
  "plain e \<longleftrightarrow> e \<noteq> [] \<and> e \<noteq> ''.'' \<and> e \<noteq> ''..'' \<and> CHR ''/'' \<notin> set e"

definition clean_dir :: "string \<Rightarrow> bool" where
  "clean_dir d \<longleftrightarrow> path_clean d = d \<and> d \<noteq> ''/'' \<and> d \<noteq> ''.''"

lemma split_on_nonempty [simp]: "split_on c s \<noteq> []"
  by (induction s) (auto split: list.splits)

lemma split_on_snoc: "c \<notin> set e \<Longrightarrow> split_on c (d @ c # e) = split_on c d @ [e]"
  by (induction d) (auto split: list.splits)

lemma join_snoc: "fs \<noteq> [] \<Longrightarrow> join c (fs @ [e]) = join c fs @ c # e"
  by (induction c fs rule: join.induct) auto

lemma clean_append:
  assumes "clean_dir d" and "plain e"
  shows "path_clean (d @ ''/'' @ e) = d @ ''/'' @ e"
proof -
  have d: "path_clean d = d" "d \<noteq> []" "d \<noteq> ''/''" "d \<noteq> ''.''"
    using assms(1) by (auto simp: clean_dir_def path_clean_def)
  define r st where "r \<longleftrightarrow> hd d = CHR ''/''" and "st = fold (clean_step r) (split_on CHR ''/'' d) []"
  have st: "st \<noteq> []" using d by (auto simp: path_clean_def Let_def r_def st_def split: if_splits)
  have dst: "d = (if r then CHR ''/'' # join CHR ''/'' (rev st) else join CHR ''/'' (rev st))"
    using d st by (auto simp: path_clean_def Let_def r_def st_def split: if_splits)
  have f: "fold (clean_step r) (split_on CHR ''/'' (d @ CHR ''/'' # e)) [] = e # st"
    using assms(2) by (simp add: split_on_snoc plain_def st_def clean_step_def)
  have h: "hd (d @ CHR ''/'' # e) = hd d" using d(2) by simp
  have "path_clean (d @ CHR ''/'' # e) =
    (if r then CHR ''/'' # join CHR ''/'' (rev st @ [e]) else join CHR ''/'' (rev st @ [e]))"
    using d(2) f h by (simp add: path_clean_def r_def)
  also have "\<dots> = d @ CHR ''/'' # e" using st dst by (auto simp: join_snoc)
  finally show ?thesis by simp
qed

lemma clean_dir_nonempty: "clean_dir d \<Longrightarrow> d \<noteq> []"
  by (auto simp: clean_dir_def path_clean_def)

lemma join_plain: "clean_dir d \<Longrightarrow> plain e \<Longrightarrow> path_join d e = d @ ''/'' @ e"
  using clean_append clean_dir_nonempty by (simp add: path_join_def)

lemma clean_dir_append: "clean_dir d \<Longrightarrow> plain e \<Longrightarrow> clean_dir (d @ ''/'' @ e)"
  using clean_append [of d e] clean_dir_nonempty [of d] by (cases d) (auto simp: clean_dir_def plain_def)

lemma takeWhile_rev_free: "c \<notin> set b \<Longrightarrow> takeWhile (\<lambda>x. x \<noteq> c) (rev b) = rev b"
  by (auto simp: takeWhile_eq_all_conv)

lemma after_last_free [simp]: "c \<notin> set b \<Longrightarrow> after_last c b = b"
  by (simp add: after_last_def takeWhile_rev_free)

lemma after_last_sep [simp]: "c \<notin> set b \<Longrightarrow> after_last c (a @ c # b) = b"
  by (simp add: after_last_def takeWhile_tail takeWhile_rev_free)

lemma after_last_notin [simp]: "c \<notin> set (after_last c s)"
  using set_takeWhileD by (fastforce simp: after_last_def)

lemma after_last_subset: "set (after_last c s) \<subseteq> set s"
  using set_takeWhileD by (fastforce simp: after_last_def)

lemma strip_slashes: "s = [] \<or> last s \<noteq> c \<Longrightarrow> rev (dropWhile (\<lambda>x. x = c) (rev s)) = s"
  by (cases "s = []") (simp_all add: dropWhile_eq_self_iff [THEN iffD2] hd_rev)

lemma base_of_plain: "plain e \<Longrightarrow> path_base e = e"
  by (cases e rule: rev_cases) (auto simp: path_base_def plain_def Let_def)

lemma last_free: "c \<notin> set e \<Longrightarrow> e \<noteq> [] \<Longrightarrow> last e \<noteq> c"
  by (metis last_in_set)

lemma base_plain:
  assumes "plain e"
  shows "path_base (d @ ''/'' @ e) = e"
proof -
  have "last (d @ CHR ''/'' # e) \<noteq> CHR ''/''" using assms last_free [of "CHR ''/''" e] by (simp add: plain_def)
  then have "rev (dropWhile (\<lambda>x. x = CHR ''/'') (rev (d @ CHR ''/'' # e))) = d @ CHR ''/'' # e"
    by (rule strip_slashes [OF disjI2])
  then show ?thesis using assms unfolding path_base_def Let_def by (simp add: plain_def del: rev_append)
qed

lemma base_cases: "path_base s \<in> {''.'', ''..'', ''/''} \<or> plain (path_base s)"
proof -
  define t where "t = rev (dropWhile (\<lambda>x. x = CHR ''/'') (rev s))"
  have "after_last CHR ''/'' t \<noteq> []" if "t \<noteq> []"
  proof -
    have "last t \<noteq> CHR ''/''" using that hd_dropWhile [of "\<lambda>x. x = CHR ''/''" "rev s"] by (simp add: t_def last_rev)
    with that show ?thesis by (cases t rule: rev_cases) (simp_all add: after_last_def)
  qed
  then show ?thesis by (auto simp: path_base_def t_def [symmetric] Let_def plain_def)
qed

lemma clean_slash:
  assumes "clean_dir d"
  shows "path_clean (d @ ''/'') = d"
proof -
  have "split_on CHR ''/'' (d @ ''/'') = split_on CHR ''/'' d @ [[]]" using split_on_snoc [of "CHR ''/''" "[]" d] by simp
  moreover have "path_clean d = d" "d \<noteq> []" using assms clean_dir_nonempty by (auto simp: clean_dir_def)
  ultimately show ?thesis by (simp add: path_clean_def clean_step_def)
qed

lemma dir_plain: "clean_dir d \<Longrightarrow> plain e \<Longrightarrow> path_dir (d @ ''/'' @ e) = d"
  using clean_slash [of d] dropWhile_eq_Nil_conv [of "\<lambda>x. x \<noteq> CHR ''/''" "rev e"]
  by (auto simp: path_dir_def plain_def dropWhile_append)

text \<open>A changed last element gives a different clean path.\<close>

definition clean_prefix :: "string \<Rightarrow> string" where
  "clean_prefix y = (let r = (hd (y @ ''/'') = CHR ''/''); st = rev (fold (clean_step r) (split_on CHR ''/'' y) []) in
     (if r then ''/'' else []) @ (if st = [] then [] else join CHR ''/'' st @ ''/''))"

lemma clean_plain: "plain t \<Longrightarrow> path_clean t = t"
  by (cases t) (auto simp: path_clean_def plain_def clean_step_def)

lemma clean_last:
  assumes "plain t"
  shows "path_clean (y @ CHR ''/'' # t) = clean_prefix y @ t"
proof -
  have "hd (y @ CHR ''/'' # t) = hd (y @ ''/'')" by (cases y) auto
  moreover have "clean_step r t st = t # st" for r st using assms by (simp add: clean_step_def plain_def)
  moreover have "split_on CHR ''/'' (y @ CHR ''/'' # t) = split_on CHR ''/'' y @ [t]"
    using assms by (simp add: split_on_snoc plain_def)
  ultimately show ?thesis by (simp add: path_clean_def clean_prefix_def Let_def join_snoc)
qed

lemma clean_tail_inj:
  assumes "plain (after_last CHR ''/'' w @ a)" and "plain (after_last CHR ''/'' w @ b)"
    and "path_clean (w @ a) = path_clean (w @ b)"
  shows "a = b"
proof (cases "CHR ''/'' \<in> set w")
  case True
  then obtain y v where w: "w = y @ CHR ''/'' # v" "CHR ''/'' \<notin> set v" by (meson split_list_last)
  then show ?thesis using assms clean_last [of "v @ a" y] clean_last [of "v @ b" y] by simp
next
  case False
  then show ?thesis using assms clean_plain [of "w @ a"] clean_plain [of "w @ b"] by simp
qed

lemma path_ext_free: "CHR ''/'' \<notin> set (path_ext s)"
  using after_last_subset [of "CHR ''.''" "after_last CHR ''/'' s"] by (auto simp: path_ext_def Let_def)

section \<open>Queries\<close>

text \<open>\<^verbatim>\<open>url.QueryUnescape\<close>: a percent sign takes two hexadecimal digits, a plus sign is a space.\<close>

fun QueryUnescape :: "string \<Rightarrow> string option" where
  "QueryUnescape [] = Some []"
| "QueryUnescape (x # s) =
     (if x = CHR ''%'' then
        (case s of
           a # b # r \<Rightarrow>
             (case (hex_val a, hex_val b) of
                (Some h, Some l) \<Rightarrow> map_option (Cons (char_of (16 * h + l))) (QueryUnescape r)
              | _ \<Rightarrow> None)
         | _ \<Rightarrow> None)
      else map_option (Cons (if x = CHR ''+'' then CHR '' '' else x)) (QueryUnescape s))"

text \<open>\<^verbatim>\<open>url.ParseQuery\<close>: one pair per part between ampersands; parts with a semicolon or a bad escape
  are left out. \<^verbatim>\<open>Get\<close> gives the first value of a key, the empty text when there is none.\<close>

definition parse_pair :: "string \<Rightarrow> (string \<times> string) option" where
  "parse_pair part =
     (if CHR '';'' \<in> set part \<or> part = [] then None
      else (case cut part CHR ''='' of (k, v, _) \<Rightarrow>
        (case (QueryUnescape k, QueryUnescape v) of (Some k', Some v') \<Rightarrow> Some (k', v') | _ \<Rightarrow> None)))"

definition ParseQuery :: "string \<Rightarrow> (string \<times> string) list" where
  "ParseQuery q = List.map_filter parse_pair (split_on CHR ''&'' q)"

definition query_get :: "string \<Rightarrow> string \<Rightarrow> string" where
  "query_get q k = (case map_of (ParseQuery q) k of None \<Rightarrow> [] | Some v \<Rightarrow> v)"

end
