(* ===== verification/Magicsock.thy ===== *)
theory Magicsock
  imports Gochan Golib
begin

text \<open>
  The shared socket, \<^verbatim>\<open>src/internal/magicsock/bind.go\<close>: endpoints and their text, the life cycle of the
  \<^verbatim>\<open>Bind\<close> that WireGuard opens and closes, the sorting of datagrams into STUN and WireGuard, and the inbox
  of relayed packets. The test for STUN messages (\<^verbatim>\<open>stun.IsMessage\<close>) and the socket are parameters; a
  receive call gets the datagrams that arrive during it. Where Go's \<^verbatim>\<open>select\<close> may take either of two
  ready cases, the argument \<open>pick\<close> says which.
\<close>

section \<open>Endpoints\<close>

datatype endpoint = RelayEP "byte list" | UdpEP AddrPort

definition relayEndpointPrefix :: string where "relayEndpointPrefix = ''relay:''"

definition RelayEndpointString :: "byte list \<Rightarrow> string" where
  "RelayEndpointString nodeKey = relayEndpointPrefix @ hex_encode nodeKey"

definition ParseEndpoint :: "string \<Rightarrow> endpoint res" where
  "ParseEndpoint s =
     (if has_prefix s relayEndpointPrefix then
        (case hex_decode (drop (length relayEndpointPrefix) s) of
           Some raw \<Rightarrow> if length raw = 32 then Inr (RelayEP raw) else Inl (ErrMsg ''magicsock: bad relay endpoint '')
         | None \<Rightarrow> Inl (ErrMsg ''magicsock: bad relay endpoint ''))
      else (case parse_addr_port s of None \<Rightarrow> Inl (ErrMsg ''ParseAddrPort'') | Some ap \<Rightarrow> Inr (UdpEP ap)))"

fun DstToString :: "endpoint \<Rightarrow> string" where
  "DstToString (RelayEP k) = RelayEndpointString k"
| "DstToString (UdpEP ap) = addr_port_text ap"

definition ascii_bytes :: "string \<Rightarrow> byte list" where
  "ascii_bytes s = map (\<lambda>c. word_of_nat (of_char c)) s"

text \<open>\<^verbatim>\<open>AddrPort.MarshalBinary\<close>: address, zone, and the port with its low byte first.\<close>

fun DstToBytes :: "endpoint \<Rightarrow> byte list" where
  "DstToBytes (RelayEP k) = ascii_bytes ''relay'' @ k"
| "DstToBytes (UdpEP (a, p)) = as_slice a @ ascii_bytes (addr_zone a) @ rev (be_bytes 2 (unat p))"

fun DstIP :: "endpoint \<Rightarrow> Addr" where
  "DstIP (RelayEP _) = NoAddr"
| "DstIP (UdpEP ap) = fst ap"

section \<open>The primary local address\<close>

definition inOverlay :: "Addr \<Rightarrow> bool" where
  "inOverlay a \<longleftrightarrow> prefix_contains (Pfx (V4 0x64400000) 10) a"

definition primaryLocalAddr :: "net_iface list option \<Rightarrow> 16 word \<Rightarrow> AddrPort" where
  "primaryLocalAddr ifaces port =
     (case List.find (\<lambda>ip. addr_is4 ip \<and> addr_is_global_unicast ip \<and> \<not> inOverlay ip)
         (concat (map iface_addrs (case ifaces of None \<Rightarrow> [] | Some is \<Rightarrow> is))) of
        Some ip \<Rightarrow> (ip, port)
      | None \<Rightarrow> (V4 0x7f000001, port))"

section \<open>The bind\<close>

record muxPacket =
  mp_data :: "byte list"
  mp_addr :: AddrPort

record muxConn =
  mc_local :: AddrPort
  mc_ch :: "muxPacket chan"
  mc_done :: bool

definition newMuxConn :: "AddrPort \<Rightarrow> muxConn" where
  "newMuxConn local_addr = \<lparr>mc_local = local_addr, mc_ch = \<lparr>ch_buf = [], ch_cap = 64, ch_closed = False\<rparr>, mc_done = False\<rparr>"

definition mux_deliver :: "bool \<Rightarrow> byte list \<Rightarrow> AddrPort \<Rightarrow> muxConn \<Rightarrow> muxConn" where
  "mux_deliver pick d addr m =
     (if mc_done m \<and> pick then m else m\<lparr>mc_ch := fst (try_send \<lparr>mp_data = d, mp_addr = addr\<rparr> (mc_ch m))\<rparr>)"

text \<open>\<^verbatim>\<open>ReadFrom\<close> into a buffer of \<open>n\<close> bytes; \<open>None\<close> while it waits.\<close>

definition mux_ReadFrom :: "bool \<Rightarrow> nat \<Rightarrow> muxConn \<Rightarrow> (muxConn \<times> (byte list \<times> AddrPort) res) option" where
  "mux_ReadFrom pick n m = (case chan_recv (mc_ch m) of
     Some (pkt, ch) \<Rightarrow> if mc_done m \<and> pick then Some (m, Inl (ErrMsg ''closed''))
       else Some (m\<lparr>mc_ch := ch\<rparr>, Inr (take n (mp_data pkt), mp_addr pkt))
   | None \<Rightarrow> if mc_done m then Some (m, Inl (ErrMsg ''closed'')) else None)"

definition mux_WriteTo_addr :: "AddrPort \<Rightarrow> AddrPort" where
  "mux_WriteTo_addr ap = (addr_unmap (fst ap), snd ap)"

definition mux_close :: "muxConn \<Rightarrow> muxConn" where
  "mux_close m = m\<lparr>mc_done := True\<rparr>"

record relayPacket =
  rp_src :: "byte list"
  rp_data :: "byte list"

text \<open>\<open>bd_ready\<close> is whether the current ready channel is closed. The channels made for \<^verbatim>\<open>openDone\<close> are
  numbered; \<open>bd_closed\<close> are the closed ones, which the receive functions that wait on them see.\<close>

record Bind =
  bd_pc :: "16 word option"
  bd_muxway :: "muxConn option"
  bd_ready :: bool
  bd_openDone :: "nat option"
  bd_next :: nat
  bd_closed :: "nat set"
  bd_panic :: bool
  bd_wgPkts :: "64 word"
  bd_relaySender :: bool
  bd_relayInbox :: "relayPacket chan"

definition NewBind :: Bind where
  "NewBind = \<lparr>bd_pc = None, bd_muxway = None, bd_ready = False, bd_openDone = None, bd_next = 0, bd_closed = {}, bd_panic = False,
     bd_wgPkts = 0, bd_relaySender = False, bd_relayInbox = \<lparr>ch_buf = [], ch_cap = 256, ch_closed = False\<rparr>\<rparr>"

definition SetRelaySender :: "bool \<Rightarrow> Bind \<Rightarrow> Bind" where
  "SetRelaySender s b = b\<lparr>bd_relaySender := s\<rparr>"

definition DeliverRelayPacket :: "byte list \<Rightarrow> byte list \<Rightarrow> Bind \<Rightarrow> Bind" where
  "DeliverRelayPacket src d b = b\<lparr>bd_relayInbox := fst (try_send \<lparr>rp_src = src, rp_data = d\<rparr> (bd_relayInbox b))\<rparr>"

definition LocalPort :: "Bind \<Rightarrow> 16 word" where
  "LocalPort b = (case bd_pc b of None \<Rightarrow> 0 | Some p \<Rightarrow> p)"

text \<open>\<open>listen\<close> is the port the socket got, or the error of listening.\<close>

definition bind_Open :: "16 word res \<Rightarrow> net_iface list option \<Rightarrow> Bind \<Rightarrow> Bind \<times> 16 word res" where
  "bind_Open listen ifaces b =
     (if bd_pc b \<noteq> None then (b, Inl (ErrMsg ''bind is already open''))
      else (case listen of
        Inl e \<Rightarrow> (b, Inl e)
      | Inr actual \<Rightarrow>
         (b\<lparr>bd_pc := Some actual, bd_muxway := Some (newMuxConn (primaryLocalAddr ifaces actual)),
            bd_openDone := Some (bd_next b), bd_next := bd_next b + 1, bd_ready := True\<rparr>, Inr actual)))"

definition bind_Close :: "Bind \<Rightarrow> Bind" where
  "bind_Close b = (let b1 = b\<lparr>bd_muxway := None, bd_pc := None\<rparr> in
     (case bd_openDone b1 of
        None \<Rightarrow> b1
      | Some c \<Rightarrow> (if c \<in> bd_closed b1 then b1\<lparr>bd_panic := True\<rparr> else b1\<lparr>bd_closed := insert c (bd_closed b1)\<rparr>)\<lparr>bd_openDone := None\<rparr>)
     \<lparr>bd_ready := False\<rparr>)"

text \<open>The receive function for relayed packets, called with the channel it read at its start.\<close>

definition receiveRelay :: "bool \<Rightarrow> nat option \<Rightarrow> nat \<Rightarrow> Bind \<Rightarrow> (Bind \<times> (byte list \<times> endpoint) res) option" where
  "receiveRelay pick closedC n b = (case closedC of
     None \<Rightarrow> Some (b, Inl (ErrMsg ''closed''))
   | Some c \<Rightarrow> (case chan_recv (bd_relayInbox b) of
       Some (pkt, ch) \<Rightarrow> if c \<in> bd_closed b \<and> pick then Some (b, Inl (ErrMsg ''closed''))
         else Some (b\<lparr>bd_relayInbox := ch\<rparr>, Inr (take n (rp_data pkt), RelayEP (rp_src pkt)))
     | None \<Rightarrow> if c \<in> bd_closed b then Some (b, Inl (ErrMsg ''closed'')) else None))"

text \<open>The receive function for the socket: STUN goes to the mux, the first other datagram to WireGuard.\<close>

fun receive_loop :: "(byte list \<Rightarrow> bool) \<Rightarrow> (byte list \<times> AddrPort) res list \<Rightarrow> Bind \<Rightarrow> (Bind \<times> (byte list \<times> endpoint) res) option" where
  "receive_loop is_stun [] b = None"
| "receive_loop is_stun (Inl e # ds) b = Some (b, Inl e)"
| "receive_loop is_stun (Inr (d, addr) # ds) b =
     (if is_stun d then receive_loop is_stun ds (b\<lparr>bd_muxway := map_option (mux_deliver False d addr) (bd_muxway b)\<rparr>)
      else Some (b\<lparr>bd_wgPkts := bd_wgPkts b + 1\<rparr>, Inr (d, UdpEP (addr_unmap (fst addr), snd addr))))"

definition bind_receive :: "(byte list \<Rightarrow> bool) \<Rightarrow> (byte list \<times> AddrPort) res list \<Rightarrow> Bind \<Rightarrow> (Bind \<times> (byte list \<times> endpoint) res) option" where
  "bind_receive is_stun ds b = (if bd_pc b = None then Some (b, Inl (ErrMsg ''closed'')) else receive_loop is_stun ds b)"

text \<open>\<^verbatim>\<open>Send\<close>: the packets up to the first failure of the relay or of the socket. The relay's failure is not
  reported.\<close>

fun send_each :: "('p \<Rightarrow> 'w \<Rightarrow> 'w \<times> unit res) \<Rightarrow> 'p list \<Rightarrow> 'w \<Rightarrow> 'w \<times> unit res" where
  "send_each f [] w = (w, Inr ())"
| "send_each f (p # ps) w = (case f p w of (w1, Inl e) \<Rightarrow> (w1, Inl e) | (w1, Inr _) \<Rightarrow> send_each f ps w1)"

definition bind_Send :: "(byte list \<Rightarrow> byte list \<Rightarrow> 'w \<Rightarrow> 'w \<times> unit res) \<Rightarrow> (AddrPort \<Rightarrow> byte list \<Rightarrow> 'w \<Rightarrow> 'w \<times> unit res) \<Rightarrow>
    Bind \<Rightarrow> byte list list \<Rightarrow> endpoint \<Rightarrow> 'w \<Rightarrow> 'w \<times> unit res" where
  "bind_Send relay udp b bufs ep w = (case ep of
     RelayEP k \<Rightarrow> if \<not> bd_relaySender b then (w, Inr ()) else (fst (send_each (relay k) bufs w), Inr ())
   | UdpEP ap \<Rightarrow> if bd_pc b = None then (w, Inl (ErrMsg ''closed'')) else send_each (udp ap) bufs w)"

section \<open>Lemmas\<close>

text \<open>The text of an endpoint, as it is written into WireGuard's configuration, is read back.\<close>

definition endpoint_dec :: "string \<Rightarrow> endpoint option" where
  "endpoint_dec s = (case ParseEndpoint s of Inr e \<Rightarrow> Some e | Inl _ \<Rightarrow> None)"

fun endpoint_ok :: "endpoint \<Rightarrow> bool" where
  "endpoint_ok (RelayEP k) \<longleftrightarrow> length k = 32"
| "endpoint_ok (UdpEP (a, p)) \<longleftrightarrow> addr_is_valid a \<and> no_zone a"

lemma parse_relay_endpoint:
  assumes "length k = 32"
  shows "ParseEndpoint (RelayEndpointString k) = Inr (RelayEP k)"
  using assms by (simp add: ParseEndpoint_def RelayEndpointString_def has_prefix_def hex_decode_encode)

lemma addr_port_text_not_relay:
  assumes "addr_is_valid a" and "no_zone a"
  shows "\<not> has_prefix (addr_port_text (a, p)) relayEndpointPrefix"
proof (cases a)
  case (V4 u)
  obtain c t where t: "ipv4_text u = c # t"
    using ipv4_text_hd [of u] by (cases "ipv4_text u") auto
  then have "is_hex_digit c \<or> c = CHR ''.''"
    using set_ipv4_text [of c u] by simp
  then have "c \<noteq> CHR ''r''"
    by (auto simp: is_hex_digit_def)
  with V4 t show ?thesis
    by (simp add: has_prefix_def relayEndpointPrefix_def)
qed (use assms in \<open>simp_all add: has_prefix_def relayEndpointPrefix_def\<close>)

interpretation endpoint_codec: text_codec DstToString endpoint_dec endpoint_ok
proof unfold_locales
  fix e
  assume "endpoint_ok e"
  then show "endpoint_dec (DstToString e) = Some e"
  proof (cases e rule: endpoint_ok.cases)
    case (1 k)
    then show ?thesis
      using \<open>endpoint_ok e\<close> by (simp add: endpoint_dec_def parse_relay_endpoint)
  next
    case (2 a p)
    then show ?thesis
      using \<open>endpoint_ok e\<close> by (simp add: endpoint_dec_def ParseEndpoint_def addr_port_text_not_relay parse_addr_port_text)
  qed
qed

text \<open>Open and Close: the invariant says that a closed channel is never closed again.\<close>

definition bind_inv :: "Bind \<Rightarrow> bool" where
  "bind_inv b \<longleftrightarrow> \<not> bd_panic b \<and> (bd_ready b \<longleftrightarrow> bd_pc b \<noteq> None) \<and> (bd_pc b = None \<longleftrightarrow> bd_openDone b = None) \<and>
     (bd_pc b = None \<longleftrightarrow> bd_muxway b = None) \<and> (\<forall>c. bd_openDone b = Some c \<longrightarrow> c \<notin> bd_closed b \<and> c < bd_next b) \<and>
     (\<forall>c\<in>bd_closed b. c < bd_next b) \<and> ch_cap (bd_relayInbox b) = 256 \<and> length (ch_buf (bd_relayInbox b)) \<le> 256"

lemma NewBind_inv: "bind_inv NewBind"
  by (simp add: bind_inv_def NewBind_def)

lemma bind_Open_inv: "bind_inv b \<Longrightarrow> bind_inv (fst (bind_Open listen ifaces b))"
  by (auto simp: bind_inv_def bind_Open_def split: sum.splits)

lemma bind_Close_inv: "bind_inv b \<Longrightarrow> bind_inv (bind_Close b)"
  by (auto simp: bind_inv_def bind_Close_def Let_def split: option.splits)

lemma DeliverRelayPacket_inv: "bind_inv b \<Longrightarrow> bind_inv (DeliverRelayPacket src d b)"
  by (auto simp: bind_inv_def DeliverRelayPacket_def try_send_def)

lemma receive_loop_inv: "bind_inv b \<Longrightarrow> receive_loop is_stun ds b = Some (b', r) \<Longrightarrow> bind_inv b'"
  by (induction is_stun ds b arbitrary: b' r rule: receive_loop.induct) (auto simp: bind_inv_def split: if_splits)

lemma receiveRelay_inv:
  assumes "bind_inv b" and "receiveRelay pick c n b = Some (b', r)"
  shows "bind_inv b'"
  using assms by (auto simp: bind_inv_def receiveRelay_def chan_recv_def split: option.splits list.splits if_splits)

text \<open>Closing leaves the bind ready to be opened again, and wakes the function that waits for relayed packets.\<close>

lemma bind_reopens:
  assumes "bind_inv b"
  shows "snd (bind_Open (Inr p) ifaces (bind_Close b)) = Inr p"
    and "bd_ready (fst (bind_Open (Inr p) ifaces (bind_Close b)))"
    and "\<not> bd_ready (bind_Close b)"
  using assms by (auto simp: bind_inv_def bind_Open_def bind_Close_def Let_def split: option.splits)

lemma bind_Close_wakes:
  assumes "bind_inv b" and "bd_openDone b = Some c"
  shows "receiveRelay pick (Some c) n (bind_Close b) \<noteq> None"
  using assms by (auto simp: bind_inv_def bind_Close_def receiveRelay_def Let_def split: option.splits)

text \<open>What reaches WireGuard from the socket: the datagrams that are not STUN, in order, up to an error.\<close>

lemma receive_loop_result:
  "receive_loop is_stun ds b = Some (b', r) \<Longrightarrow>
     \<exists>pre x post. ds = pre @ x # post \<and> (\<forall>y\<in>set pre. \<exists>d a. y = Inr (d, a) \<and> is_stun d) \<and>
       (case x of Inl e \<Rightarrow> r = Inl e | Inr (d, a) \<Rightarrow> \<not> is_stun d \<and> r = Inr (d, UdpEP (addr_unmap (fst a), snd a)))"
proof (induction is_stun ds b arbitrary: b' r rule: receive_loop.induct)
  case (3 is_stun d addr ds b)
  show ?case
  proof (cases "is_stun d")
    case True
    then obtain pre x post where "ds = pre @ x # post" "\<forall>y\<in>set pre. \<exists>d a. y = Inr (d, a) \<and> is_stun d"
      "case x of Inl e \<Rightarrow> r = Inl e | Inr (d, a) \<Rightarrow> \<not> is_stun d \<and> r = Inr (d, UdpEP (addr_unmap (fst a), snd a))"
      using 3 by fastforce
    then show ?thesis
      using True by (intro exI [of _ "Inr (d, addr) # pre"] exI [of _ x] exI [of _ post]) auto
  next
    case False
    then show ?thesis
      using 3 by (intro exI [of _ "[]"] exI [of _ "Inr (d, addr)"] exI [of _ ds]) auto
  qed
qed fastforce+

text \<open>The inbox gives out what was delivered, oldest first.\<close>

lemma relay_packet_received:
  assumes "bind_inv b" and "bd_openDone b = Some c" and "ch_buf (bd_relayInbox b) = []" and "length d \<le> n"
  shows "\<exists>b'. receiveRelay pick (Some c) n (DeliverRelayPacket src d b) = Some (b', Inr (d, RelayEP src))"
  using assms by (auto simp: bind_inv_def DeliverRelayPacket_def receiveRelay_def try_send_def chan_recv_def)

text \<open>The mux never gets the overlay's own addresses to listen on.\<close>

lemma primaryLocalAddr_not_overlay: "\<not> inOverlay (fst (primaryLocalAddr ifaces port))"
proof -
  have "\<not> inOverlay (V4 0x7f000001)"
    by code_simp
  then show ?thesis
    by (auto simp: primaryLocalAddr_def find_Some_iff split: option.splits)
qed

end
