(* ===== verification/Connmgr.thy ===== *)
theory Connmgr
  imports Magicsock
begin

text \<open>
  The negotiation of direct paths, \<^verbatim>\<open>src/internal/magicsock/connmgr.go\<close>. A manager keeps one peer connection per
  peer; signalling messages, netmap changes and the goroutines that negotiate change it under one lock. The
  goroutine \<^verbatim>\<open>negotiate\<close> is cut where it gives up the lock (\<open>neg_attach\<close>, \<open>neg_register\<close>, \<open>neg_answer\<close>,
  \<open>neg_fail\<close>, \<open>neg_selected\<close>), so that other handlers run in between; \<open>cm_step\<close> is one such step and
  \<open>negotiate\<close> the whole of it without interruption.

  ICE agents and candidates belong to a library: the parser of candidates, their address and port are the
  record \<open>ice_lib\<close>; an agent is what the manager does with it, the candidates given to it and whether it was closed.
  Every range over a Go map takes the order as an argument, a repeated visit included where the loop inserts
  the key it visits, and every reading of the clock is an argument too.
\<close>

section \<open>Types\<close>

type_synonym u64 = "64 word"

datatype PathState = PathNone | PathConnecting | PathDirect

record PathUpdate =
  pu_NodeID :: u64
  pu_State :: PathState
  pu_Endpoint :: AddrPort
  pu_RTT :: int

definition path_update :: "u64 \<Rightarrow> PathState \<Rightarrow> PathUpdate" where
  "path_update n st = \<lparr>pu_NodeID = n, pu_State = st, pu_Endpoint = (NoAddr, 0), pu_RTT = 0\<rparr>"

record 'c ice_lib =
  il_unmarshal :: "string \<Rightarrow> 'c option"
  il_marshal :: "'c \<Rightarrow> string"
  il_address :: "'c \<Rightarrow> string"
  il_port :: "'c \<Rightarrow> nat"

record 'c ice_agent =
  ia_closed :: bool
  ia_remote :: "'c list"

record peerConn =
  pcn_nodeID :: u64
  pcn_session :: u64
  pcn_agent :: "nat option"
  pcn_cancel :: "nat option"
  pcn_state :: PathState
  pcn_pendingRemote :: "string list"

datatype signal = SigOffer u64 u64 string string | SigAnswer u64 u64 string string | SigCandidate u64 u64 string

datatype job = RunInitiator u64 u64 | RunResponder u64 u64 string string

record 'c ConnMgr =
  cm_selfNode :: u64
  cm_stun :: "string list"
  cm_peers :: "u64 \<rightharpoonup> peerConn"
  cm_closed :: bool
  cm_restarts :: u64
  cm_agents :: "nat \<rightharpoonup> 'c ice_agent"
  cm_next :: nat
  cm_cancelled :: "nat set"
  cm_answers :: "u64 \<times> u64 \<rightharpoonup> (string \<times> string) option"
  cm_paths :: "PathUpdate list"
  cm_sent :: "signal list"
  cm_jobs :: "job list"

definition NewConnMgr :: "u64 \<Rightarrow> 'c ConnMgr" where
  "NewConnMgr selfNode = \<lparr>cm_selfNode = selfNode, cm_stun = [], cm_peers = Map.empty, cm_closed = False, cm_restarts = 0,
     cm_agents = Map.empty, cm_next = 0, cm_cancelled = {}, cm_answers = Map.empty, cm_paths = [], cm_sent = [], cm_jobs = []\<rparr>"

definition onPath :: "PathUpdate \<Rightarrow> 'c ConnMgr \<Rightarrow> 'c ConnMgr" where
  "onPath u m = m\<lparr>cm_paths := cm_paths m @ [u]\<rparr>"

section \<open>Reconciling with the netmap\<close>

text \<open>\<open>parse\<close> is whether \<^verbatim>\<open>stun.ParseURI\<close> accepts the text.\<close>

definition SetStunServers :: "(string \<Rightarrow> bool) \<Rightarrow> string list \<Rightarrow> 'c ConnMgr \<Rightarrow> 'c ConnMgr" where
  "SetStunServers parse servers m = m\<lparr>cm_stun := filter parse (map (\<lambda>s. ''stun:'' @ s) servers)\<rparr>"

definition agent_close :: "nat \<Rightarrow> 'c ConnMgr \<Rightarrow> 'c ConnMgr" where
  "agent_close a m = m\<lparr>cm_agents := (cm_agents m)(a := map_option (ia_closed_update (\<lambda>_. True)) (cm_agents m a))\<rparr>"

definition teardownLocked :: "peerConn \<Rightarrow> 'c ConnMgr \<Rightarrow> 'c ConnMgr" where
  "teardownLocked pc m =
     (let m1 = (case pcn_cancel pc of None \<Rightarrow> m | Some a \<Rightarrow> m\<lparr>cm_cancelled := insert a (cm_cancelled m)\<rparr>)
      in case pcn_agent pc of None \<Rightarrow> m1 | Some a \<Rightarrow> agent_close a m1)"

definition startInitiatorLocked :: "u64 \<Rightarrow> int \<Rightarrow> 'c ConnMgr \<Rightarrow> 'c ConnMgr" where
  "startInitiatorLocked peerID now m =
     (let session = word_of_int now;
          pc = \<lparr>pcn_nodeID = peerID, pcn_session = session, pcn_agent = None, pcn_cancel = None, pcn_state = PathConnecting, pcn_pendingRemote = []\<rparr>;
          m1 = onPath (path_update peerID PathConnecting) (m\<lparr>cm_peers := (cm_peers m)(peerID \<mapsto> pc)\<rparr>)
      in m1\<lparr>cm_jobs := cm_jobs m1 @ [RunInitiator peerID session]\<rparr>)"

definition drop_offline :: "u64 list \<Rightarrow> u64 \<Rightarrow> 'c ConnMgr \<Rightarrow> 'c ConnMgr" where
  "drop_offline online n m = (case cm_peers m n of
     None \<Rightarrow> m
   | Some pc \<Rightarrow> if n \<in> set online then m
       else (let m1 = teardownLocked pc m in onPath (path_update n PathNone) (m1\<lparr>cm_peers := (cm_peers m1)(n := None)\<rparr>)))"

definition start_new :: "u64 \<times> int \<Rightarrow> 'c ConnMgr \<Rightarrow> 'c ConnMgr" where
  "start_new v m = (if cm_peers m (fst v) \<noteq> None \<or> cm_selfNode m \<ge> fst v then m else startInitiatorLocked (fst v) (snd v) m)"

definition SetPeers :: "u64 list \<Rightarrow> (u64 \<times> int) list \<Rightarrow> 'c ConnMgr \<Rightarrow> 'c ConnMgr" where
  "SetPeers order online m =
     (if cm_closed m then m else fold start_new online (fold (drop_offline (map fst online)) order m))"

definition restart_one :: "u64 \<times> int \<Rightarrow> 'c ConnMgr \<Rightarrow> 'c ConnMgr" where
  "restart_one v m = (case cm_peers m (fst v) of
     None \<Rightarrow> m
   | Some pc \<Rightarrow> (let m1 = teardownLocked pc m; m2 = m1\<lparr>cm_peers := (cm_peers m1)(fst v := None)\<rparr>
       in if cm_selfNode m2 < fst v then startInitiatorLocked (fst v) (snd v) m2
          else onPath (path_update (fst v) PathConnecting) m2))"

definition cm_Restart :: "(u64 \<times> int) list \<Rightarrow> 'c ConnMgr \<Rightarrow> 'c ConnMgr" where
  "cm_Restart visits m = (if cm_closed m then m else fold restart_one visits (m\<lparr>cm_restarts := cm_restarts m + 1\<rparr>))"

definition close_one :: "u64 \<Rightarrow> 'c ConnMgr \<Rightarrow> 'c ConnMgr" where
  "close_one n m = (case cm_peers m n of
     None \<Rightarrow> m
   | Some pc \<Rightarrow> (let m1 = teardownLocked pc m in m1\<lparr>cm_peers := (cm_peers m1)(n := None)\<rparr>))"

definition cm_Close :: "u64 list \<Rightarrow> 'c ConnMgr \<Rightarrow> 'c ConnMgr" where
  "cm_Close order m = fold close_one order (m\<lparr>cm_closed := True\<rparr>)"

section \<open>Signalling\<close>

definition HandleOffer :: "u64 \<Rightarrow> u64 \<Rightarrow> string \<Rightarrow> string \<Rightarrow> 'c ConnMgr \<Rightarrow> 'c ConnMgr" where
  "HandleOffer fromNode session ufrag pwd m =
     (if cm_closed m then m
      else if (case cm_peers m fromNode of None \<Rightarrow> False | Some pc \<Rightarrow> pcn_session pc \<ge> session) then m
      else
        let m1 = (case cm_peers m fromNode of
              None \<Rightarrow> m
            | Some pc \<Rightarrow> (let m0 = teardownLocked pc m in m0\<lparr>cm_peers := (cm_peers m0)(fromNode := None)\<rparr>));
            pc = \<lparr>pcn_nodeID = fromNode, pcn_session = session, pcn_agent = None, pcn_cancel = None, pcn_state = PathConnecting, pcn_pendingRemote = []\<rparr>;
            m2 = onPath (path_update fromNode PathConnecting) (m1\<lparr>cm_peers := (cm_peers m1)(fromNode \<mapsto> pc)\<rparr>)
        in m2\<lparr>cm_jobs := cm_jobs m2 @ [RunResponder fromNode session ufrag pwd]\<rparr>)"

definition HandleAnswer :: "u64 \<Rightarrow> u64 \<Rightarrow> string \<Rightarrow> string \<Rightarrow> 'c ConnMgr \<Rightarrow> 'c ConnMgr" where
  "HandleAnswer fromNode session ufrag pwd m = (case cm_peers m fromNode of
     None \<Rightarrow> m
   | Some pc \<Rightarrow> if pcn_session pc = session \<and> cm_answers m (fromNode, session) = Some None
       then m\<lparr>cm_answers := (cm_answers m)((fromNode, session) \<mapsto> Some (ufrag, pwd))\<rparr> else m)"

definition isLoopbackCandidate :: "'c ice_lib \<Rightarrow> 'c \<Rightarrow> bool" where
  "isLoopbackCandidate il c = (case parse_addr (il_address il c) of Some a \<Rightarrow> addr_is_loopback a | None \<Rightarrow> False)"

definition addRemoteCandidate :: "'c ice_lib \<Rightarrow> nat \<Rightarrow> string \<Rightarrow> 'c ConnMgr \<Rightarrow> 'c ConnMgr" where
  "addRemoteCandidate il a raw m = (case il_unmarshal il raw of
     None \<Rightarrow> m
   | Some c \<Rightarrow> if isLoopbackCandidate il c then m
       else (case cm_agents m a of
          Some ag \<Rightarrow> if ia_closed ag then m else m\<lparr>cm_agents := (cm_agents m)(a \<mapsto> ag\<lparr>ia_remote := ia_remote ag @ [c]\<rparr>)\<rparr>
        | None \<Rightarrow> m))"

definition HandleCandidate :: "'c ice_lib \<Rightarrow> u64 \<Rightarrow> u64 \<Rightarrow> string \<Rightarrow> 'c ConnMgr \<Rightarrow> 'c ConnMgr" where
  "HandleCandidate il fromNode session cand m = (case cm_peers m fromNode of
     None \<Rightarrow> m
   | Some pc \<Rightarrow> if pcn_session pc \<noteq> session then m
       else (case pcn_agent pc of
          None \<Rightarrow> m\<lparr>cm_peers := (cm_peers m)(fromNode \<mapsto> pc\<lparr>pcn_pendingRemote := pcn_pendingRemote pc @ [cand]\<rparr>)\<rparr>
        | Some a \<Rightarrow> addRemoteCandidate il a cand m))"

section \<open>The negotiation\<close>

text \<open>Creating an agent and attaching it; the result is the agent, when the session is still the current one.\<close>

definition neg_attach :: "'c ice_lib \<Rightarrow> u64 \<Rightarrow> u64 \<Rightarrow> 'c ConnMgr \<Rightarrow> 'c ConnMgr \<times> nat option" where
  "neg_attach il peerID session m =
     (let a = cm_next m;
          m1 = m\<lparr>cm_next := a + 1, cm_agents := (cm_agents m)(a \<mapsto> \<lparr>ia_closed = False, ia_remote = []\<rparr>)\<rparr>
      in case cm_peers m1 peerID of
           None \<Rightarrow> (agent_close a m1, None)
         | Some pc \<Rightarrow> if pcn_session pc \<noteq> session then (agent_close a m1, None)
             else (fold (addRemoteCandidate il a) (pcn_pendingRemote pc)
                     (m1\<lparr>cm_peers := (cm_peers m1)(peerID \<mapsto> pc\<lparr>pcn_agent := Some a, pcn_pendingRemote := []\<rparr>)\<rparr>), Some a))"

text \<open>The library's callback with a local candidate.\<close>

definition on_local_candidate :: "'c ice_lib \<Rightarrow> u64 \<Rightarrow> u64 \<Rightarrow> 'c option \<Rightarrow> 'c ConnMgr \<Rightarrow> 'c ConnMgr" where
  "on_local_candidate il peerID session cand m = (case cand of
     None \<Rightarrow> m
   | Some c \<Rightarrow> if isLoopbackCandidate il c then m else m\<lparr>cm_sent := cm_sent m @ [SigCandidate peerID session (il_marshal il c)]\<rparr>)"

text \<open>The selected pair: \<^verbatim>\<open>fmt.Sprintf("%s:%d", remote.Address(), remote.Port())\<close>, parsed.\<close>

definition pair_text :: "'c ice_lib \<Rightarrow> 'c \<Rightarrow> string" where
  "pair_text il c = il_address il c @ '':'' @ itoa (il_port il c)"

definition neg_selected :: "'c ice_lib \<Rightarrow> u64 \<Rightarrow> 'c \<Rightarrow> int \<Rightarrow> 'c ConnMgr \<Rightarrow> 'c ConnMgr" where
  "neg_selected il peerID remote rtt m = (case parse_addr_port (pair_text il remote) of
     None \<Rightarrow> m
   | Some ap \<Rightarrow> onPath \<lparr>pu_NodeID = peerID, pu_State = PathDirect, pu_Endpoint = ap, pu_RTT = rtt\<rparr> m)"

datatype ice_state = IceFailed | IceDisconnected | IceOther

definition on_connection_state :: "u64 \<Rightarrow> ice_state \<Rightarrow> 'c ConnMgr \<Rightarrow> 'c ConnMgr" where
  "on_connection_state peerID s m = (case s of IceOther \<Rightarrow> m | _ \<Rightarrow> onPath (path_update peerID PathNone) m)"

definition neg_register :: "u64 \<Rightarrow> u64 \<Rightarrow> string \<Rightarrow> string \<Rightarrow> 'c ConnMgr \<Rightarrow> 'c ConnMgr" where
  "neg_register peerID session ufrag pwd m =
     m\<lparr>cm_answers := (cm_answers m)((peerID, session) \<mapsto> None), cm_sent := cm_sent m @ [SigOffer peerID session ufrag pwd]\<rparr>"

definition neg_unregister :: "u64 \<Rightarrow> u64 \<Rightarrow> 'c ConnMgr \<Rightarrow> 'c ConnMgr" where
  "neg_unregister peerID session m = m\<lparr>cm_answers := (cm_answers m)((peerID, session) := None)\<rparr>"

definition neg_answer :: "u64 \<Rightarrow> u64 \<Rightarrow> string \<Rightarrow> string \<Rightarrow> 'c ConnMgr \<Rightarrow> 'c ConnMgr" where
  "neg_answer peerID session ufrag pwd m = m\<lparr>cm_sent := cm_sent m @ [SigAnswer peerID session ufrag pwd]\<rparr>"

text \<open>The dial with agent \<open>a\<close> can be cancelled while the session is the current one.\<close>

definition neg_context :: "u64 \<Rightarrow> u64 \<Rightarrow> nat \<Rightarrow> 'c ConnMgr \<Rightarrow> 'c ConnMgr" where
  "neg_context peerID session a m = (case cm_peers m peerID of
     None \<Rightarrow> m
   | Some pc \<Rightarrow> if pcn_session pc = session then m\<lparr>cm_peers := (cm_peers m)(peerID \<mapsto> pc\<lparr>pcn_cancel := Some a\<rparr>)\<rparr> else m)"

text \<open>What the library and the network do during one negotiation. The answer is the one that arrives in time.\<close>

record 'c neg_env =
  ne_ready :: bool
  ne_agent_ok :: bool
  ne_creds :: "(string \<times> string) option"
  ne_send_ok :: bool
  ne_gather_ok :: bool
  ne_local :: "'c option list"
  ne_answer :: "(string \<times> string) option"
  ne_dial :: "string \<times> string \<Rightarrow> bool"
  ne_pair :: "'c option"
  ne_rtt :: int

definition neg_dial :: "'c ice_lib \<Rightarrow> 'c neg_env \<Rightarrow> u64 \<Rightarrow> u64 \<Rightarrow> nat \<Rightarrow> string \<times> string \<Rightarrow> 'c ConnMgr \<Rightarrow> 'c ConnMgr \<times> bool \<times> bool" where
  "neg_dial il env peerID session a creds m =
     (let m1 = neg_context peerID session a m
      in if \<not> ne_dial env creds then (agent_close a (onPath (path_update peerID PathNone) m1), False, True)
         else (case ne_pair env of None \<Rightarrow> m1 | Some r \<Rightarrow> neg_selected il peerID r (ne_rtt env) m1, True, False))"

definition neg_exchange :: "'c ice_lib \<Rightarrow> 'c neg_env \<Rightarrow> u64 \<Rightarrow> u64 \<Rightarrow> bool \<Rightarrow> string \<times> string \<Rightarrow> nat \<Rightarrow> string \<times> string \<Rightarrow>
    'c ConnMgr \<Rightarrow> 'c ConnMgr \<times> bool \<times> bool" where
  "neg_exchange il env peerID session initiator remote a creds m =
     (let m1 = (if initiator then neg_register peerID session (fst creds) (snd creds) m
                else neg_answer peerID session (fst creds) (snd creds) m)
      in if \<not> ne_send_ok env \<or> \<not> ne_gather_ok env then (agent_close a m1, False, True)
         else (let m2 = fold (on_local_candidate il peerID session) (ne_local env) m1
               in if initiator then (case ne_answer env of
                     None \<Rightarrow> (agent_close a m2, False, True)
                   | Some r \<Rightarrow> neg_dial il env peerID session a r m2)
                  else neg_dial il env peerID session a remote m2))"

definition negotiate :: "'c ice_lib \<Rightarrow> 'c neg_env \<Rightarrow> u64 \<Rightarrow> u64 \<Rightarrow> bool \<Rightarrow> string \<times> string \<Rightarrow> 'c ConnMgr \<Rightarrow> 'c ConnMgr \<times> bool \<times> bool" where
  "negotiate il env peerID session initiator remote m =
     (if cm_closed m then (m, False, False)
      else if \<not> ne_ready env \<or> \<not> ne_agent_ok env then (m, False, True)
      else (case neg_attach il peerID session m of
         (m1, None) \<Rightarrow> (m1, False, False)
       | (m1, Some a) \<Rightarrow> (case ne_creds env of
           None \<Rightarrow> (agent_close a m1, False, True)
         | Some creds \<Rightarrow> (case neg_exchange il env peerID session initiator remote a creds m1 of
             (m2, r) \<Rightarrow> (if initiator then neg_unregister peerID session m2 else m2, r)))))"

text \<open>The loop of the initiator: the pause between attempts, and the new session of the next attempt.\<close>

definition punch_backoff :: "int \<Rightarrow> int" where
  "punch_backoff b = (if b * 2 > 60 then 60 else b * 2)"

definition retry_session :: "u64 \<Rightarrow> u64 \<Rightarrow> int \<Rightarrow> 'c ConnMgr \<Rightarrow> 'c ConnMgr \<times> u64 option" where
  "retry_session peerID session now m = (case cm_peers m peerID of
     None \<Rightarrow> (m, None)
   | Some pc \<Rightarrow> if pcn_session pc \<noteq> session \<or> cm_closed m then (m, None)
       else (m\<lparr>cm_peers := (cm_peers m)(peerID \<mapsto> pc\<lparr>pcn_session := word_of_int now, pcn_pendingRemote := []\<rparr>)\<rparr>, Some (word_of_int now)))"

text \<open>Fuel counts the attempts: \<^verbatim>\<open>runInitiator\<close> goes on for as long as the peer is there and the attempts fail.\<close>

fun runInitiator :: "'c ice_lib \<Rightarrow> ('c neg_env \<times> int) list \<Rightarrow> u64 \<Rightarrow> u64 \<Rightarrow> 'c ConnMgr \<Rightarrow> ('c ConnMgr \<times> bool) option" where
  "runInitiator il [] peerID session m = None"
| "runInitiator il ((env, now) # envs) peerID session m = (case negotiate il env peerID session True ([], []) m of
     (m1, ok, retry) \<Rightarrow> if ok \<or> \<not> retry then Some (m1, ok)
       else (case retry_session peerID session now m1 of
          (m2, None) \<Rightarrow> Some (m2, False)
        | (m2, Some s) \<Rightarrow> runInitiator il envs peerID s m2))"

section \<open>Interleavings\<close>

datatype 'c cm_event =
    EvSetPeers "u64 list" "(u64 \<times> int) list"
  | EvRestart "(u64 \<times> int) list"
  | EvClose "u64 list"
  | EvOffer u64 u64 string string
  | EvAnswer u64 u64 string string
  | EvCandidate u64 u64 string
  | EvAttach u64 u64
  | EvRegister u64 u64 string string
  | EvUnregister u64 u64
  | EvSendAnswer u64 u64 string string
  | EvLocal u64 u64 "'c option"
  | EvSelected u64 'c int
  | EvState u64 ice_state
  | EvContext u64 u64 nat
  | EvFail nat
  | EvRetry u64 u64 int

fun cm_step :: "'c ice_lib \<Rightarrow> 'c cm_event \<Rightarrow> 'c ConnMgr \<Rightarrow> 'c ConnMgr" where
  "cm_step il (EvSetPeers order online) = SetPeers order online"
| "cm_step il (EvRestart visits) = cm_Restart visits"
| "cm_step il (EvClose order) = cm_Close order"
| "cm_step il (EvOffer p s u w) = HandleOffer p s u w"
| "cm_step il (EvAnswer p s u w) = HandleAnswer p s u w"
| "cm_step il (EvCandidate p s c) = HandleCandidate il p s c"
| "cm_step il (EvAttach p s) = (\<lambda>m. fst (neg_attach il p s m))"
| "cm_step il (EvRegister p s u w) = neg_register p s u w"
| "cm_step il (EvUnregister p s) = neg_unregister p s"
| "cm_step il (EvSendAnswer p s u w) = neg_answer p s u w"
| "cm_step il (EvLocal p s c) = on_local_candidate il p s c"
| "cm_step il (EvSelected p r rtt) = neg_selected il p r rtt"
| "cm_step il (EvState p s) = on_connection_state p s"
| "cm_step il (EvContext p s a) = neg_context p s a"
| "cm_step il (EvFail a) = agent_close a"
| "cm_step il (EvRetry p s now) = (\<lambda>m. fst (retry_session p s now m))"

definition cm_run :: "'c ice_lib \<Rightarrow> 'c cm_event list \<Rightarrow> 'c ConnMgr \<Rightarrow> 'c ConnMgr" where
  "cm_run il es m = fold (cm_step il) es m"

section \<open>Fields\<close>

lemma onPath_fields [simp]:
  "cm_peers (onPath u m) = cm_peers m" "cm_agents (onPath u m) = cm_agents m" "cm_next (onPath u m) = cm_next m"
  "cm_closed (onPath u m) = cm_closed m" "cm_selfNode (onPath u m) = cm_selfNode m" "cm_paths (onPath u m) = cm_paths m @ [u]"
  by (simp_all add: onPath_def)

lemma agent_close_fields [simp]:
  "cm_peers (agent_close a m) = cm_peers m" "cm_next (agent_close a m) = cm_next m"
  "cm_closed (agent_close a m) = cm_closed m" "cm_selfNode (agent_close a m) = cm_selfNode m"
  "cm_paths (agent_close a m) = cm_paths m"
  by (simp_all add: agent_close_def)

lemma agent_close_agents:
  "cm_agents (agent_close a m) b = (if b = a then map_option (ia_closed_update (\<lambda>_. True)) (cm_agents m a) else cm_agents m b)"
  by (simp add: agent_close_def)

lemma teardown_fields [simp]:
  "cm_peers (teardownLocked pc m) = cm_peers m" "cm_next (teardownLocked pc m) = cm_next m"
  "cm_closed (teardownLocked pc m) = cm_closed m" "cm_selfNode (teardownLocked pc m) = cm_selfNode m"
  "cm_paths (teardownLocked pc m) = cm_paths m"
  by (simp_all add: teardownLocked_def Let_def split: option.splits)

lemma teardown_agents:
  "cm_agents (teardownLocked pc m) b =
     (if pcn_agent pc = Some b then map_option (ia_closed_update (\<lambda>_. True)) (cm_agents m b) else cm_agents m b)"
  by (auto simp: teardownLocked_def Let_def agent_close_agents split: option.splits)

lemma addRemoteCandidate_fields [simp]:
  "cm_peers (addRemoteCandidate il a c m) = cm_peers m" "cm_next (addRemoteCandidate il a c m) = cm_next m"
  "cm_closed (addRemoteCandidate il a c m) = cm_closed m" "cm_paths (addRemoteCandidate il a c m) = cm_paths m"
  by (simp_all add: addRemoteCandidate_def split: option.splits)

lemma addRemoteCandidate_dom: "(cm_agents (addRemoteCandidate il a c m) b = None) = (cm_agents m b = None)"
  by (auto simp: addRemoteCandidate_def split: option.splits)

lemma addRemoteCandidate_other: "b \<noteq> a \<Longrightarrow> cm_agents (addRemoteCandidate il a c m) b = cm_agents m b"
  by (auto simp: addRemoteCandidate_def split: option.splits)

lemma fold_addRemote_fields [simp]:
  "cm_peers (fold (addRemoteCandidate il a) cs m) = cm_peers m" "cm_next (fold (addRemoteCandidate il a) cs m) = cm_next m"
  "cm_closed (fold (addRemoteCandidate il a) cs m) = cm_closed m"
  by (induction cs arbitrary: m) simp_all

lemma fold_addRemote_dom: "(cm_agents (fold (addRemoteCandidate il a) cs m) b = None) = (cm_agents m b = None)"
  by (induction cs arbitrary: m) (simp_all add: addRemoteCandidate_dom)

section \<open>Invariant: attached agents\<close>

text \<open>Agents are numbered in the order of their creation, and no two peers share one.\<close>

definition cm_inv :: "'c ConnMgr \<Rightarrow> bool" where
  "cm_inv m \<longleftrightarrow> (\<forall>a. cm_agents m a \<noteq> None \<longrightarrow> a < cm_next m) \<and>
     (\<forall>p pc a. cm_peers m p = Some pc \<longrightarrow> pcn_agent pc = Some a \<longrightarrow> a < cm_next m) \<and>
     (\<forall>p pc q qc a. cm_peers m p = Some pc \<longrightarrow> cm_peers m q = Some qc \<longrightarrow>
        pcn_agent pc = Some a \<longrightarrow> pcn_agent qc = Some a \<longrightarrow> p = q)"

lemma cm_inv_frame:
  assumes "cm_inv m" and "\<And>a. cm_agents m' a \<noteq> None \<Longrightarrow> cm_agents m a \<noteq> None" and "cm_next m' = cm_next m"
    and "\<And>p pc a. cm_peers m' p = Some pc \<Longrightarrow> pcn_agent pc = Some a \<Longrightarrow> \<exists>pd. cm_peers m p = Some pd \<and> pcn_agent pd = Some a"
  shows "cm_inv m'"
  unfolding cm_inv_def
proof (intro conjI allI impI)
  fix a
  assume "cm_agents m' a \<noteq> None"
  then show "a < cm_next m'"
    using assms(1-3) by (simp add: cm_inv_def)
next
  fix p pc a
  assume "cm_peers m' p = Some pc" and "pcn_agent pc = Some a"
  then obtain pd where "cm_peers m p = Some pd" "pcn_agent pd = Some a"
    using assms(4) by blast
  then show "a < cm_next m'"
    using assms(1,3) by (auto simp: cm_inv_def)
next
  fix p pc q qc a
  assume "cm_peers m' p = Some pc" "cm_peers m' q = Some qc" "pcn_agent pc = Some a" "pcn_agent qc = Some a"
  then obtain pd qd where "cm_peers m p = Some pd" "pcn_agent pd = Some a" "cm_peers m q = Some qd" "pcn_agent qd = Some a"
    using assms(4) by meson
  then show "p = q"
    using assms(1) unfolding cm_inv_def by blast
qed

lemmas cm_ops = drop_offline_def start_new_def restart_one_def close_one_def startInitiatorLocked_def HandleOffer_def
  HandleAnswer_def HandleCandidate_def neg_register_def neg_unregister_def neg_answer_def on_local_candidate_def
  neg_selected_def on_connection_state_def neg_context_def retry_session_def Let_def

lemma drop_offline_inv: "cm_inv m \<Longrightarrow> cm_inv (drop_offline online n m)"
  by (rule cm_inv_frame [of m]) (auto simp: cm_ops teardown_agents split: option.splits if_splits)

lemma start_new_inv: "cm_inv m \<Longrightarrow> cm_inv (start_new v m)"
  by (rule cm_inv_frame [of m]) (auto simp: cm_ops split: option.splits if_splits)

lemma restart_one_inv: "cm_inv m \<Longrightarrow> cm_inv (restart_one v m)"
  by (rule cm_inv_frame [of m]) (auto simp: cm_ops teardown_agents split: option.splits if_splits)

lemma close_one_inv: "cm_inv m \<Longrightarrow> cm_inv (close_one n m)"
  by (rule cm_inv_frame [of m]) (auto simp: cm_ops teardown_agents split: option.splits if_splits)

lemma HandleOffer_inv: "cm_inv m \<Longrightarrow> cm_inv (HandleOffer p s u w m)"
  by (rule cm_inv_frame [of m]) (auto simp: cm_ops teardown_agents split: option.splits if_splits)

lemma HandleCandidate_inv: "cm_inv m \<Longrightarrow> cm_inv (HandleCandidate il p s c m)"
proof (rule cm_inv_frame [of m])
  show "cm_agents m a \<noteq> None" if "cm_agents (HandleCandidate il p s c m) a \<noteq> None" for a
    using that by (simp add: cm_ops addRemoteCandidate_dom del: not_None_eq split: option.splits if_splits)
qed (auto simp: cm_ops split: option.splits if_splits)

lemma neg_attach_dom: "(cm_agents (fst (neg_attach il p s m)) a = None) = (cm_agents m a = None \<and> a \<noteq> cm_next m)"
  by (auto simp: neg_attach_def Let_def agent_close_agents fold_addRemote_dom simp del: not_None_eq split: option.splits)

lemma neg_attach_next: "cm_next (fst (neg_attach il p s m)) = Suc (cm_next m)"
  by (simp add: neg_attach_def Let_def split: option.splits)

lemma neg_attach_peers:
  "cm_peers (fst (neg_attach il p s m)) q = (case cm_peers m q of
     Some pc \<Rightarrow> if q = p \<and> pcn_session pc = s then Some (pc\<lparr>pcn_agent := Some (cm_next m), pcn_pendingRemote := []\<rparr>) else Some pc
   | None \<Rightarrow> None)"
  by (auto simp: neg_attach_def Let_def split: option.splits)

lemma neg_attach_agent:
  assumes "cm_peers (fst (neg_attach il p s m)) q = Some qc" and "pcn_agent qc = Some a"
  shows "q = p \<and> a = cm_next m \<or> (\<exists>qd. cm_peers m q = Some qd \<and> pcn_agent qd = Some a)"
  using assms by (auto simp: neg_attach_peers split: option.splits if_splits)

lemma neg_attach_inv:
  assumes "cm_inv m"
  shows "cm_inv (fst (neg_attach il p s m))"
proof -
  have old: "a < cm_next m" if "cm_peers m q = Some qc" "pcn_agent qc = Some a" for q qc a
    using assms that by (auto simp: cm_inv_def)
  have inj: "q = q'" if "cm_peers m q = Some qc" "pcn_agent qc = Some a" "cm_peers m q' = Some qc'" "pcn_agent qc' = Some a" for q q' qc qc' a
    using assms that by (auto simp: cm_inv_def)
  show ?thesis
    unfolding cm_inv_def
  proof (intro conjI allI impI)
    fix a
    assume "cm_agents (fst (neg_attach il p s m)) a \<noteq> None"
    then show "a < cm_next (fst (neg_attach il p s m))"
      using assms by (auto simp: neg_attach_dom neg_attach_next cm_inv_def less_Suc_eq)
  next
    fix q qc a
    assume "cm_peers (fst (neg_attach il p s m)) q = Some qc" and "pcn_agent qc = Some a"
    from neg_attach_agent [OF this] show "a < cm_next (fst (neg_attach il p s m))"
      using old by (fastforce simp: neg_attach_next)
  next
    fix q qc q' qc' a
    assume a: "cm_peers (fst (neg_attach il p s m)) q = Some qc" "cm_peers (fst (neg_attach il p s m)) q' = Some qc'"
      "pcn_agent qc = Some a" "pcn_agent qc' = Some a"
    from neg_attach_agent [OF a(1,3)] neg_attach_agent [OF a(2,4)] show "q = q'"
      using old inj by blast
  qed
qed

lemma small_ops_inv:
  assumes "cm_inv m"
  shows "cm_inv (HandleAnswer p s u w m)" and "cm_inv (neg_register p s u w m)" and "cm_inv (neg_unregister p s m)"
    and "cm_inv (neg_answer p s u w m)" and "cm_inv (on_local_candidate il p s c m)" and "cm_inv (neg_selected il p r rtt m)"
    and "cm_inv (on_connection_state p st m)" and "cm_inv (neg_context p s a m)" and "cm_inv (agent_close a m)"
    and "cm_inv (fst (retry_session p s now m))"
  by (rule cm_inv_frame [OF assms]; auto simp: cm_ops agent_close_agents split: option.splits if_splits ice_state.splits)+

lemma cm_step_inv: "cm_inv m \<Longrightarrow> cm_inv (cm_step il e m)"
proof (cases e)
  case (EvSetPeers order online)
  moreover assume "cm_inv m"
  ultimately show ?thesis
    by (auto simp: SetPeers_def intro!: fold_invariant [where P = cm_inv and Q = "\<lambda>_. True"] start_new_inv drop_offline_inv)
next
  case (EvRestart visits)
  moreover assume "cm_inv m"
  ultimately show ?thesis
    by (auto simp: cm_Restart_def cm_inv_def [of "m\<lparr>cm_restarts := cm_restarts m + 1\<rparr>"] cm_inv_def [of m]
        intro!: fold_invariant [where P = cm_inv and Q = "\<lambda>_. True"] restart_one_inv)
next
  case (EvClose order)
  moreover assume "cm_inv m"
  ultimately show ?thesis
    by (auto simp: cm_Close_def cm_inv_def [of "m\<lparr>cm_closed := True\<rparr>"] cm_inv_def [of m]
        intro!: fold_invariant [where P = cm_inv and Q = "\<lambda>_. True"] close_one_inv)
qed (simp_all add: HandleOffer_inv HandleCandidate_inv neg_attach_inv small_ops_inv)

lemma NewConnMgr_inv: "cm_inv (NewConnMgr n)"
  by (simp add: cm_inv_def NewConnMgr_def)

interpretation connmgr_sys:
  inductive_invariant "\<lambda>m. \<exists>n. m = NewConnMgr n" "\<lambda>m m'. \<exists>e. m' = cm_step il e m" cm_inv for il
  by unfold_locales (auto simp: NewConnMgr_inv cm_step_inv)

section \<open>Trickled candidates\<close>

text \<open>A peer whose session waits for its agent, and one whose agent runs.\<close>

definition awaiting :: "u64 \<Rightarrow> u64 \<Rightarrow> string list \<Rightarrow> 'c ConnMgr \<Rightarrow> bool" where
  "awaiting p s cs m \<longleftrightarrow> (\<exists>pc. cm_peers m p = Some pc \<and> pcn_session pc = s \<and> pcn_agent pc = None \<and> pcn_pendingRemote pc = cs)"

definition attached :: "u64 \<Rightarrow> u64 \<Rightarrow> nat \<Rightarrow> 'c list \<Rightarrow> 'c ConnMgr \<Rightarrow> bool" where
  "attached p s a cs m \<longleftrightarrow> (\<exists>pc. cm_peers m p = Some pc \<and> pcn_session pc = s \<and> pcn_agent pc = Some a \<and>
     cm_agents m a = Some \<lparr>ia_closed = False, ia_remote = cs\<rparr>)"

text \<open>The candidates an agent takes: those the library can read, loopback left out.\<close>

definition usable :: "'c ice_lib \<Rightarrow> string list \<Rightarrow> 'c list" where
  "usable il raws = filter (\<lambda>c. \<not> isLoopbackCandidate il c) (List.map_filter (il_unmarshal il) raws)"

fun cand_of :: "u64 \<Rightarrow> u64 \<Rightarrow> 'c cm_event \<Rightarrow> string list" where
  "cand_of p s (EvCandidate q t c) = (if q = p \<and> t = s then [c] else [])"
| "cand_of p s _ = []"

text \<open>The events that leave session \<open>s\<close> with peer \<open>p\<close> as it is: no teardown of it, and no newer offer.\<close>

fun leaves :: "u64 \<Rightarrow> u64 \<Rightarrow> 'c cm_event \<Rightarrow> bool" where
  "leaves p s (EvSetPeers order online) \<longleftrightarrow> p \<in> fst ` set online"
| "leaves p s (EvRestart visits) \<longleftrightarrow> p \<notin> fst ` set visits"
| "leaves p s (EvClose order) \<longleftrightarrow> p \<notin> set order"
| "leaves p s (EvOffer q t u w) \<longleftrightarrow> q = p \<longrightarrow> t \<le> s"
| "leaves p s (EvAttach q t) \<longleftrightarrow> \<not> (q = p \<and> t = s)"
| "leaves p s (EvRetry q t now) \<longleftrightarrow> \<not> (q = p \<and> t = s)"
| "leaves p s _ \<longleftrightarrow> True"

lemma usable_append [simp]: "usable il (xs @ ys) = usable il xs @ usable il ys"
  by (simp add: usable_def List.map_filter_def)

lemma usable_Nil [simp]: "usable il [] = []"
  by (simp add: usable_def List.map_filter_def)

lemma addRemote_usable:
  assumes "cm_agents m a = Some \<lparr>ia_closed = False, ia_remote = cs\<rparr>"
  shows "cm_agents (addRemoteCandidate il a c m) a = Some \<lparr>ia_closed = False, ia_remote = cs @ usable il [c]\<rparr>"
  using assms by (simp add: addRemoteCandidate_def usable_def List.map_filter_def split: option.splits)

lemma fold_addRemote_usable:
  assumes "cm_agents m a = Some \<lparr>ia_closed = False, ia_remote = cs\<rparr>"
  shows "cm_agents (fold (addRemoteCandidate il a) raws m) a = Some \<lparr>ia_closed = False, ia_remote = cs @ usable il raws\<rparr>"
  using assms
proof (induction raws arbitrary: m cs)
  case (Cons r raws)
  have "usable il (r # raws) = usable il [r] @ usable il raws"
    using usable_append [of il "[r]" raws] by simp
  with Cons.IH [OF addRemote_usable [OF Cons.prems]] show ?case
    by simp
qed simp

lemma neg_attach_awaiting:
  assumes "awaiting p s cs m"
  shows "attached p s (cm_next m) (usable il cs) (fst (neg_attach il p s m))"
proof -
  from assms obtain pc where pc: "cm_peers m p = Some pc" "pcn_session pc = s" "pcn_agent pc = None" "pcn_pendingRemote pc = cs"
    by (auto simp: awaiting_def)
  then show ?thesis
    by (simp add: attached_def neg_attach_def Let_def fold_addRemote_usable)
qed

subsection \<open>Loops over other peers\<close>

lemma drop_offline_awaiting: "awaiting p s cs m \<Longrightarrow> p \<in> set online \<Longrightarrow> awaiting p s cs (drop_offline online n m)"
  by (auto simp: awaiting_def drop_offline_def Let_def split: option.splits)

lemma start_new_awaiting: "awaiting p s cs m \<Longrightarrow> awaiting p s cs (start_new v m)"
  by (auto simp: awaiting_def start_new_def startInitiatorLocked_def Let_def)

lemma restart_one_awaiting: "awaiting p s cs m \<Longrightarrow> fst v \<noteq> p \<Longrightarrow> awaiting p s cs (restart_one v m)"
  by (auto simp: awaiting_def restart_one_def startInitiatorLocked_def Let_def split: option.splits)

lemma close_one_awaiting: "awaiting p s cs m \<Longrightarrow> n \<noteq> p \<Longrightarrow> awaiting p s cs (close_one n m)"
  by (auto simp: awaiting_def close_one_def Let_def split: option.splits)

lemma teardown_attached:
  assumes "cm_inv m" and "attached p s a cs m" and "cm_peers m q = Some qc" and "q \<noteq> p"
  shows "cm_agents (teardownLocked qc m) a = cm_agents m a"
  using assms unfolding cm_inv_def attached_def by (auto simp: teardown_agents)

lemma drop_offline_attached:
  assumes "cm_inv m" and "attached p s a cs m" and "p \<in> set online"
  shows "attached p s a cs (drop_offline online n m)"
proof (cases "n \<in> set online \<or> cm_peers m n = None")
  case False
  with assms have "n \<noteq> p" by auto
  with False assms(2) teardown_attached [OF assms(1,2)] show ?thesis
    by (auto simp: attached_def drop_offline_def Let_def)
qed (use assms in \<open>auto simp: attached_def drop_offline_def split: option.splits\<close>)

lemma start_new_attached: "attached p s a cs m \<Longrightarrow> attached p s a cs (start_new v m)"
  by (auto simp: attached_def start_new_def startInitiatorLocked_def Let_def)

lemma restart_one_attached:
  assumes "cm_inv m" and "attached p s a cs m" and "fst v \<noteq> p"
  shows "attached p s a cs (restart_one v m)"
  using assms teardown_attached [OF assms(1,2)]
  by (auto simp: attached_def restart_one_def startInitiatorLocked_def Let_def split: option.splits)

lemma close_one_attached:
  assumes "cm_inv m" and "attached p s a cs m" and "n \<noteq> p"
  shows "attached p s a cs (close_one n m)"
  using assms teardown_attached [OF assms(1,2)] by (auto simp: attached_def close_one_def Let_def split: option.splits)

subsection \<open>One step\<close>

lemma HandleOffer_awaiting:
  assumes "awaiting p s cs m" and "q = p \<longrightarrow> t \<le> s"
  shows "awaiting p s cs (HandleOffer q t u w m)"
  using assms by (auto simp: awaiting_def HandleOffer_def Let_def split: option.splits)

lemma HandleOffer_attached:
  assumes "cm_inv m" and "attached p s a cs m" and "q = p \<longrightarrow> t \<le> s"
  shows "attached p s a cs (HandleOffer q t u w m)"
proof (cases "q = p")
  case True
  then show ?thesis
    using assms by (auto simp: attached_def HandleOffer_def)
next
  case False
  then show ?thesis
    using assms(2) teardown_attached [OF assms(1,2)] by (auto simp: attached_def HandleOffer_def Let_def split: option.splits)
qed

lemma HandleCandidate_awaiting:
  "awaiting p s cs m \<Longrightarrow> awaiting p s (cs @ cand_of p s (EvCandidate q t c)) (HandleCandidate il q t c m)"
  by (auto simp: awaiting_def HandleCandidate_def split: option.splits)

lemma HandleCandidate_attached:
  assumes "cm_inv m" and "attached p s a cs m"
  shows "attached p s a (cs @ usable il (cand_of p s (EvCandidate q t c))) (HandleCandidate il q t c m)"
proof (cases "q = p")
  case True
  then show ?thesis
    using assms(2) by (auto simp: attached_def HandleCandidate_def addRemote_usable)
next
  case False
  have "cm_agents (addRemoteCandidate il b c m) a = cm_agents m a" if "cm_peers m q = Some qc" "pcn_agent qc = Some b" for b qc
    using assms that False by (intro addRemoteCandidate_other) (auto simp: cm_inv_def attached_def)
  with False assms(2) show ?thesis
    by (auto simp: attached_def HandleCandidate_def split: option.splits)
qed

lemma neg_attach_keeps_awaiting:
  assumes "awaiting p s cs m" and "\<not> (q = p \<and> t = s)"
  shows "awaiting p s cs (fst (neg_attach il q t m))"
  using assms by (auto simp: awaiting_def neg_attach_peers split: option.splits)

lemma fold_addRemote_other: "b \<noteq> a \<Longrightarrow> cm_agents (fold (addRemoteCandidate il a) cs m) b = cm_agents m b"
  by (induction cs arbitrary: m) (simp_all add: addRemoteCandidate_other)

lemma neg_attach_agents:
  "b \<noteq> cm_next m \<Longrightarrow> cm_agents (fst (neg_attach il q t m)) b = cm_agents m b"
  by (simp add: neg_attach_def Let_def agent_close_agents fold_addRemote_other split: option.splits)

lemma neg_attach_keeps_attached:
  assumes "cm_inv m" and "attached p s a cs m" and "\<not> (q = p \<and> t = s)"
  shows "attached p s a cs (fst (neg_attach il q t m))"
proof -
  have "a \<noteq> cm_next m"
    using assms(1,2) by (auto simp: attached_def cm_inv_def)
  with assms(2,3) show ?thesis
    by (auto simp: attached_def neg_attach_peers neg_attach_agents split: option.splits)
qed

lemma step_awaiting:
  assumes "awaiting p s cs m" and "leaves p s e"
  shows "awaiting p s (cs @ cand_of p s e) (cm_step il e m)"
proof (cases e)
  case (EvSetPeers order online)
  with assms have on: "p \<in> set (map fst online)" by simp
  have "awaiting p s cs (fold (drop_offline (map fst online)) order m)"
    by (rule fold_invariant [where Q = "\<lambda>_. True"]) (use assms(1) in \<open>auto intro: drop_offline_awaiting [OF _ on]\<close>)
  then have "awaiting p s cs (fold start_new online (fold (drop_offline (map fst online)) order m))"
    by (rule fold_invariant [where Q = "\<lambda>_. True", rotated]) (auto intro: start_new_awaiting)
  with EvSetPeers assms show ?thesis
    by (simp add: SetPeers_def)
next
  case (EvRestart visits)
  have "awaiting p s cs (fold restart_one visits (m\<lparr>cm_restarts := cm_restarts m + 1\<rparr>))"
    by (rule fold_invariant [where Q = "\<lambda>v. fst v \<noteq> p"])
      (use assms EvRestart in \<open>auto simp: awaiting_def [of p s cs "m\<lparr>cm_restarts := cm_restarts m + 1\<rparr>"] awaiting_def [of p s cs m]
        intro: restart_one_awaiting\<close>)
  with EvRestart assms show ?thesis
    by (simp add: cm_Restart_def)
next
  case (EvClose order)
  have "awaiting p s cs (fold close_one order (m\<lparr>cm_closed := True\<rparr>))"
    by (rule fold_invariant [where Q = "\<lambda>v. v \<noteq> p"])
      (use assms EvClose in \<open>auto simp: awaiting_def [of p s cs "m\<lparr>cm_closed := True\<rparr>"] awaiting_def [of p s cs m]
        intro: close_one_awaiting\<close>)
  with EvClose show ?thesis
    by (simp add: cm_Close_def)
qed (use assms HandleCandidate_awaiting [OF assms(1), of _ _ _ il] in \<open>auto simp: HandleOffer_awaiting neg_attach_keeps_awaiting\<close>,
  auto simp: awaiting_def cm_ops split: option.splits ice_state.splits)

lemma step_attached:
  assumes "cm_inv m" and "attached p s a cs m" and "leaves p s e" and "e \<noteq> EvFail a"
  shows "attached p s a (cs @ usable il (cand_of p s e)) (cm_step il e m)"
proof (cases e)
  case (EvSetPeers order online)
  with assms have on: "p \<in> set (map fst online)" by simp
  have "cm_inv (fold (drop_offline (map fst online)) order m) \<and> attached p s a cs (fold (drop_offline (map fst online)) order m)"
    by (rule fold_invariant [where Q = "\<lambda>_. True"]) (use assms(1,2) in \<open>auto intro: drop_offline_attached [OF _ _ on] drop_offline_inv\<close>)
  then have "attached p s a cs (fold (drop_offline (map fst online)) order m)" ..
  then have "attached p s a cs (fold start_new online (fold (drop_offline (map fst online)) order m))"
    by (rule fold_invariant [where Q = "\<lambda>_. True", rotated]) (auto intro: start_new_attached)
  with EvSetPeers assms show ?thesis
    by (simp add: SetPeers_def)
next
  case (EvRestart visits)
  have "(\<lambda>m. cm_inv m \<and> attached p s a cs m) (fold restart_one visits (m\<lparr>cm_restarts := cm_restarts m + 1\<rparr>))"
    by (rule fold_invariant [where Q = "\<lambda>v. fst v \<noteq> p"])
      (use assms EvRestart in \<open>auto simp: cm_inv_def [of "m\<lparr>cm_restarts := cm_restarts m + 1\<rparr>"] cm_inv_def [of m]
        attached_def [of p s a cs "m\<lparr>cm_restarts := cm_restarts m + 1\<rparr>"] attached_def [of p s a cs m]
        intro: restart_one_attached restart_one_inv\<close>)
  with EvRestart assms show ?thesis
    by (simp add: cm_Restart_def)
next
  case (EvClose order)
  have "(\<lambda>m. cm_inv m \<and> attached p s a cs m) (fold close_one order (m\<lparr>cm_closed := True\<rparr>))"
    by (rule fold_invariant [where Q = "\<lambda>v. v \<noteq> p"])
      (use assms EvClose in \<open>auto simp: cm_inv_def [of "m\<lparr>cm_closed := True\<rparr>"] cm_inv_def [of m]
        attached_def [of p s a cs "m\<lparr>cm_closed := True\<rparr>"] attached_def [of p s a cs m]
        intro: close_one_attached close_one_inv\<close>)
  with EvClose show ?thesis
    by (simp add: cm_Close_def)
qed (use assms HandleCandidate_attached [OF assms(1,2), of il] in
    \<open>auto simp: HandleOffer_attached neg_attach_keeps_attached simp del: cand_of.simps(1)\<close>,
  auto simp: attached_def cm_ops agent_close_agents split: option.splits ice_state.splits)

lemma run_awaiting:
  assumes "awaiting p s cs m" and "\<forall>e\<in>set es. leaves p s e"
  shows "awaiting p s (cs @ concat (map (cand_of p s) es)) (cm_run il es m)"
  using assms
proof (induction es arbitrary: cs m)
  case (Cons e es)
  then show ?case
    using step_awaiting [of p s cs m e il] by (simp add: cm_run_def) (metis append_assoc)
qed (simp add: cm_run_def)

lemma run_attached:
  assumes "cm_inv m" and "attached p s a cs m" and "\<forall>e\<in>set es. leaves p s e \<and> e \<noteq> EvFail a"
  shows "attached p s a (cs @ usable il (concat (map (cand_of p s) es))) (cm_run il es m)"
  using assms
proof (induction es arbitrary: cs m)
  case (Cons e es)
  then show ?case
    using step_attached [of m p s a cs e il] by (simp add: cm_run_def cm_step_inv) (metis append_assoc cm_step_inv)
qed (simp add: cm_run_def)

lemma cm_run_inv: "cm_inv m \<Longrightarrow> cm_inv (cm_run il es m)"
  unfolding cm_run_def by (rule fold_invariant [where Q = "\<lambda>_. True"]) (auto intro: cm_step_inv)

lemma cm_run_append: "cm_run il (es @ fs) m = cm_run il fs (cm_run il es m)"
  by (simp add: cm_run_def)

section \<open>Properties\<close>


text \<open>A run for a witness: candidates are texts, an address and the port 9; \<open>x\<close> cannot be read.\<close>

definition sample_ice :: "string ice_lib" where
  "sample_ice = \<lparr>il_unmarshal = (\<lambda>s. if s = ''x'' then None else Some s), il_marshal = (\<lambda>c. c), il_address = (\<lambda>c. c), il_port = (\<lambda>_. 9)\<rparr>"


section \<open>Other facts\<close>

text \<open>Of two nodes that see each other online, the one with the lower identity starts, the other waits.\<close>

lemma one_initiator:
  assumes "a \<noteq> b"
  shows "(cm_jobs (SetPeers [] [(b, t)] (NewConnMgr a)) = []) \<noteq> (cm_jobs (SetPeers [] [(a, u)] (NewConnMgr b)) = [])"
  using assms
  by (auto simp: SetPeers_def NewConnMgr_def start_new_def startInitiatorLocked_def onPath_def Let_def)

text \<open>A closed manager accepts nothing any more.\<close>

lemma closed_manager_silent:
  assumes "cm_closed m"
  shows "SetPeers order online m = m" and "cm_Restart visits m = m" and "HandleOffer p s u w m = m"
    and "fst (negotiate il env p s i r m) = m"
  using assms by (simp_all add: SetPeers_def cm_Restart_def HandleOffer_def negotiate_def)

text \<open>The pause between attempts is never more than a minute.\<close>

lemma punch_backoff_bounds: "2 \<le> b \<Longrightarrow> b \<le> 60 \<Longrightarrow> 2 \<le> punch_backoff b \<and> punch_backoff b \<le> 60 \<and> b \<le> punch_backoff b"
  by (simp add: punch_backoff_def)

text \<open>The address of a selected pair is written without brackets, and so a pair whose remote address is IPv6 is
  dropped: no path is ever reported for it, although agents are created for both families.\<close>

lemma pair_split: "split_last CHR '':'' (pair_text il r) = Some (il_address il r, itoa (il_port il r))"
  unfolding pair_text_def using split_last_sep [OF port_text_free, of "il_address il r" "il_port il r"] by simp

lemma ipv6_text_plain: "c \<in> set (addr_text (V6 w [])) \<Longrightarrow> c \<noteq> CHR ''[''"
  using set_ipv6_body_text [of c "groups6 w"] ipv4_text_free(3) [of "ucast w"] by (auto simp: special_not_hex split: if_splits)

lemma ipv6_pair_unused:
  assumes "il_address il r = addr_text (V6 w [])"
  shows "neg_selected il p r rtt m = m"
proof -
  have "parse_addr (il_address il r) = Some (V6 w [])"
    unfolding assms by (rule parse_addr_text) (auto simp: no_zone_def)
  moreover have "il_address il r \<noteq> [] \<Longrightarrow> hd (il_address il r) \<noteq> CHR ''[''"
    unfolding assms by (rule ipv6_text_plain [of _ w]) (rule hd_in_set)
  ultimately have "parse_addr_port (pair_text il r) = None"
    by (simp add: parse_addr_port_def pair_split itoa_nonempty Let_def split: option.splits)
  then show ?thesis
    by (simp add: neg_selected_def)
qed

lemma ipv4_pair_direct:
  assumes "il_address il r = addr_text (V4 w)" and "il_port il r < 65536"
  shows "cm_paths (neg_selected il p r rtt m) =
    cm_paths m @ [\<lparr>pu_NodeID = p, pu_State = PathDirect, pu_Endpoint = (V4 w, word_of_nat (il_port il r)), pu_RTT = rtt\<rparr>]"
proof -
  have "unat (word_of_nat (il_port il r) :: 16 word) = il_port il r"
    using assms(2) by (simp add: unat_of_nat take_bit_nat_eq_self)
  then have "pair_text il r = addr_port_text (V4 w, word_of_nat (il_port il r))"
    using assms(1) by (simp add: pair_text_def)
  then have "parse_addr_port (pair_text il r) = Some (V4 w, word_of_nat (il_port il r))"
    using parse_addr_port_text [of "V4 w"] by (simp add: no_zone_def)
  then show ?thesis
    by (simp add: neg_selected_def)
qed

end
