(* ===== verification/Meshdns.thy ===== *)
theory Meshdns
  imports Golib
begin

text \<open>
  The overlay resolver, \<^verbatim>\<open>src/internal/meshdns/server.go\<close>. The DNS message type and the library
  functions the handler calls (\<^verbatim>\<open>dns.Fqdn\<close>, \<^verbatim>\<open>Msg.SetReply\<close>, \<^verbatim>\<open>Msg.SetRcode\<close> of
  github.com/miekg/dns) are a parameter, the record \<open>dnslib\<close>; \<open>dns_ok\<close> states what their
  documentation promises. The listeners of \<^verbatim>\<open>Start\<close> and \<^verbatim>\<open>Close\<close> are left out.

  A lookup in a Go map of slices gives nil for an absent key and for a nil value alike, so the
  records are a function to an optional list with \<open>None\<close> for nil. The iteration order of the map
  that \<^verbatim>\<open>SetRecords\<close> copies is the order of the list it gets here.

  The lemmas say what a query is answered: names outside the zone are refused, names of the zone
  that are not recorded do not exist, and recorded names get exactly their addresses of the asked
  type, whatever the case of the letters.
\<close>

section \<open>Messages\<close>

record dns_Question =
  q_Name :: string
  q_Qtype :: "16 word"

datatype dns_RR =
    RR_A (rr_Name: string) (rr_Ttl: nat) (rr_Addr: "byte list")
  | RR_AAAA (rr_Name: string) (rr_Ttl: nat) (rr_Addr: "byte list")

record dns_Msg =
  dm_Id :: "16 word"
  dm_Response :: bool
  dm_Rcode :: nat
  dm_Authoritative :: bool
  dm_Question :: "dns_Question list"
  dm_Answer :: "dns_RR list"

definition RcodeSuccess :: nat where "RcodeSuccess = 0"
definition RcodeFormatError :: nat where "RcodeFormatError = 1"
definition RcodeNameError :: nat where "RcodeNameError = 3"
definition RcodeRefused :: nat where "RcodeRefused = 5"

definition TypeA :: "16 word" where "TypeA = 1"
definition TypeAAAA :: "16 word" where "TypeAAAA = 28"
definition TypeANY :: "16 word" where "TypeANY = 255"

lemmas dns_consts = RcodeSuccess_def RcodeFormatError_def RcodeNameError_def RcodeRefused_def
  TypeA_def TypeAAAA_def TypeANY_def

text \<open>The library: \<open>SetReply req\<close> and \<open>SetRcode req rc\<close> are the effect of the methods on a new message.\<close>

record dnslib =
  dl_Fqdn :: "string \<Rightarrow> string"
  dl_SetReply :: "dns_Msg \<Rightarrow> dns_Msg"
  dl_SetRcode :: "dns_Msg \<Rightarrow> nat \<Rightarrow> dns_Msg"

definition reply_to :: "dns_Msg \<Rightarrow> nat \<Rightarrow> dns_Msg" where
  "reply_to req rc = \<lparr>dm_Id = dm_Id req, dm_Response = True, dm_Rcode = rc, dm_Authoritative = False,
     dm_Question = take 1 (dm_Question req), dm_Answer = []\<rparr>"

definition dns_ok :: "dnslib \<Rightarrow> bool" where
  "dns_ok lib \<longleftrightarrow>
     (\<forall>s. CHR 0x5C \<notin> set s \<longrightarrow> dl_Fqdn lib s = (if s \<noteq> [] \<and> last s = CHR ''.'' then s else s @ ''.'')) \<and>
     (\<forall>req. dl_SetReply lib req = reply_to req RcodeSuccess) \<and>
     (\<forall>req rc. dl_SetRcode lib req rc = reply_to req rc)"

section \<open>The resolver\<close>

record meshdns_Server =
  md_zone :: string
  md_records :: "string \<Rightarrow> Addr list option"

definition meshdns_NewServer :: meshdns_Server where
  "meshdns_NewServer = \<lparr>md_zone = [], md_records = (\<lambda>_. None)\<rparr>"

definition SetRecords :: "dnslib \<Rightarrow> string \<Rightarrow> (string \<times> Addr list option) list \<Rightarrow> meshdns_Server \<Rightarrow> meshdns_Server" where
  "SetRecords lib domain records s =
     (let norm = fold (\<lambda>(h, addrs) m. m(to_lower h := addrs)) records (\<lambda>_. None) in
      s\<lparr>md_zone := dl_Fqdn lib (to_lower domain), md_records := norm\<rparr>)"

definition answer_rr :: "dns_Question \<Rightarrow> Addr \<Rightarrow> dns_RR list" where
  "answer_rr q a =
     (if addr_is4 a \<and> (q_Qtype q = TypeA \<or> q_Qtype q = TypeANY) then [RR_A (q_Name q) 60 (as_slice a)]
      else if addr_is6 a \<and> (q_Qtype q = TypeAAAA \<or> q_Qtype q = TypeANY) then [RR_AAAA (q_Name q) 60 (as_slice a)]
      else [])"

definition dns_handle :: "dnslib \<Rightarrow> meshdns_Server \<Rightarrow> dns_Msg \<Rightarrow> dns_Msg" where
  "dns_handle lib s req = (case dm_Question req of
     [q] \<Rightarrow>
       (let name = to_lower (q_Name q);
            zone = md_zone s;
            inZone = (zone \<noteq> [] \<and> has_suffix name (''.'' @ zone) \<or> name = zone);
            addrs = (if inZone \<and> name \<noteq> zone then
                       (let host = trim_suffix name (''.'' @ zone) in
                        if CHR ''.'' \<notin> set host then md_records s host else None)
                     else None)
        in if \<not> inZone then dl_SetRcode lib req RcodeRefused
           else (case addrs of
              None \<Rightarrow> (dl_SetRcode lib req RcodeNameError)\<lparr>dm_Authoritative := True\<rparr>
            | Some as \<Rightarrow> (dl_SetReply lib req)\<lparr>dm_Authoritative := True, dm_Answer := concat (map (answer_rr q) as)\<rparr>))
   | _ \<Rightarrow> dl_SetRcode lib req RcodeFormatError)"

section \<open>What a query is answered\<close>

definition zone_of :: "string \<Rightarrow> string" where
  "zone_of domain = to_lower (if domain \<noteq> [] \<and> last domain = CHR ''.'' then domain else domain @ ''.'')"

lemma SetRecords_zone:
  assumes "dns_ok lib" and "CHR 0x5C \<notin> set domain"
  shows "md_zone (SetRecords lib domain records s) = zone_of domain"
  using assms by (auto simp: SetRecords_def Let_def dns_ok_def zone_of_def to_lower_last)

lemma zone_of_nonempty [simp]: "zone_of domain \<noteq> []"
  by (simp add: zone_of_def)

lemma norm_absent:
  "x \<notin> (\<lambda>(h, _). to_lower h) ` set records \<Longrightarrow> fold (\<lambda>(h, addrs) m. m(to_lower h := addrs)) records m x = m x"
  by (induction records arbitrary: m) auto

lemma norm_lookup:
  "distinct (map (\<lambda>(h, _). to_lower h) records) \<Longrightarrow> (h, addrs) \<in> set records \<Longrightarrow>
   fold (\<lambda>(h, addrs) m. m(to_lower h := addrs)) records m (to_lower h) = addrs"
  by (induction records arbitrary: m) (auto simp: norm_absent image_iff)

lemma SetRecords_lookup:
  "distinct (map (\<lambda>(h, _). to_lower h) records) \<Longrightarrow> (h, addrs) \<in> set records \<Longrightarrow>
   md_records (SetRecords lib domain records s) (to_lower h) = addrs"
  by (simp add: SetRecords_def Let_def norm_lookup)

lemma SetRecords_absent:
  "x \<notin> (\<lambda>(h, _). to_lower h) ` set records \<Longrightarrow> md_records (SetRecords lib domain records s) x = None"
  by (simp add: SetRecords_def Let_def norm_absent)

lemma handle_format_error:
  assumes "dns_ok lib" and "length (dm_Question req) \<noteq> 1"
  shows "dns_handle lib s req = reply_to req RcodeFormatError"
  using assms by (auto simp: dns_handle_def dns_ok_def split: list.splits)

lemma handle_refused:
  assumes "dns_ok lib" and "dm_Question req = [q]"
    and "to_lower (q_Name q) \<noteq> md_zone s" and "\<not> has_suffix (to_lower (q_Name q)) (''.'' @ md_zone s)"
  shows "dns_handle lib s req = reply_to req RcodeRefused"
  using assms by (simp add: dns_handle_def dns_ok_def)

lemma handle_zone:
  assumes "dns_ok lib" and "dm_Question req = [q]" and "to_lower (q_Name q) = md_zone s"
  shows "dns_handle lib s req = (reply_to req RcodeNameError)\<lparr>dm_Authoritative := True\<rparr>"
  using assms by (simp add: dns_handle_def dns_ok_def)

lemma handle_host:
  assumes "dns_ok lib" and "dm_Question req = [q]" and "md_zone s \<noteq> []" and "to_lower (q_Name q) = host @ ''.'' @ md_zone s"
  shows "dns_handle lib s req = (case (if CHR ''.'' \<in> set host then None else md_records s host) of
      None \<Rightarrow> (reply_to req RcodeNameError)\<lparr>dm_Authoritative := True\<rparr>
    | Some as \<Rightarrow> (reply_to req RcodeSuccess)\<lparr>dm_Authoritative := True, dm_Answer := concat (map (answer_rr q) as)\<rparr>)"
proof -
  have "has_suffix (to_lower (q_Name q)) (''.'' @ md_zone s)" "trim_suffix (to_lower (q_Name q)) (''.'' @ md_zone s) = host"
    "to_lower (q_Name q) \<noteq> md_zone s"
    using assms(4) has_suffix_append [of host "''.'' @ md_zone s"] trim_suffix_append [of host "''.'' @ md_zone s"] by auto
  then show ?thesis using assms(1-3) by (simp add: dns_handle_def dns_ok_def split: option.split)
qed

text \<open>Answers carry the asked name and only addresses of the asked type; both types are given when
  any is asked for.\<close>

lemma answer_rr_types:
  "rr \<in> set (answer_rr q a) \<Longrightarrow> rr_Name rr = q_Name q \<and> rr_Ttl rr = 60 \<and> rr_Addr rr = as_slice a \<and>
     (case rr of RR_A _ _ _ \<Rightarrow> addr_is4 a \<and> q_Qtype q \<noteq> TypeAAAA | RR_AAAA _ _ _ \<Rightarrow> addr_is6 a \<and> q_Qtype q \<noteq> TypeA)"
  by (auto simp: answer_rr_def dns_consts split: if_splits)

end
