(* ===== verification/Overdrop.thy ===== *)
theory Overdrop
  imports Golib "HOL-Library.AList"
begin

text \<open>
  File transfer between nodes, \<^verbatim>\<open>src/internal/overdrop/overdrop.go\<close>: the receiver's two HTTP handlers
  with the checks on sender and parameters, the staging and renaming of files, the inbox listing and
  the sending side.

  The file system is an association list from clean paths to inodes; symbolic links and permissions
  are left out, \<^verbatim>\<open>Stat\<close> fails for missing files only, and a directory has size 0. Every other system call can fail where the record \<open>io_faults\<close> says so: a directory
  creation part way, a write after some bytes. A request body is the bytes that arrive and whether
  reading ended in an error. \<^verbatim>\<open>Send\<close> gets the two HTTP round trips as functions on the state of
  whatever is at the other end (\<open>None\<close> for a transport error). Listening is left out.

  The lemmas show that a request touches only the sender's directory and never an existing file
  there other than the staged one, and that a transfer interrupted any number of times ends with
  exactly the bytes of the file.
\<close>

section \<open>Files\<close>

datatype inode = Reg "byte list" int | Directory

type_synonym fs = "(string \<times> inode) list"

definition fs_exists :: "fs \<Rightarrow> string \<Rightarrow> bool" where
  "fs_exists fs p \<longleftrightarrow> map_of fs p \<noteq> None"

record io_faults =
  io_mkdir :: "nat option"
  io_open :: bool
  io_stat :: bool
  io_seek :: bool
  io_write :: "nat option"
  io_remove :: bool
  io_sync :: bool
  io_rename :: bool

definition no_io_faults :: io_faults where
  "no_io_faults = \<lparr>io_mkdir = None, io_open = False, io_stat = False, io_seek = False, io_write = None,
     io_remove = False, io_sync = False, io_rename = False\<rparr>"

text \<open>\<^verbatim>\<open>os.MkdirAll\<close>: each directory on the way that is missing; a regular file on the way is an error.\<close>

definition ancestors :: "string \<Rightarrow> string list" where
  "ancestors d = map (\<lambda>i. take i d) (filter (\<lambda>i. i = length d \<or> d ! i = CHR ''/'') [1..<Suc (length d)])"

fun mkdirs :: "string list \<Rightarrow> fs \<Rightarrow> fs \<times> bool" where
  "mkdirs [] fs = (fs, True)"
| "mkdirs (d # ds) fs = (case map_of fs d of
     None \<Rightarrow> mkdirs ds (AList.update d Directory fs)
   | Some Directory \<Rightarrow> mkdirs ds fs
   | Some (Reg _ _) \<Rightarrow> (fs, False))"

definition MkdirAll :: "nat option \<Rightarrow> string \<Rightarrow> fs \<Rightarrow> fs \<times> bool" where
  "MkdirAll fault d fs = (case fault of
     None \<Rightarrow> mkdirs (ancestors d) fs
   | Some k \<Rightarrow> (fst (mkdirs (take k (ancestors d)) fs), False))"

text \<open>\<^verbatim>\<open>os.OpenFile(p, O_CREATE|O_WRONLY)\<close>: an empty file when there is none.\<close>

definition OpenFile :: "bool \<Rightarrow> int \<Rightarrow> string \<Rightarrow> fs \<Rightarrow> fs \<times> (byte list) option" where
  "OpenFile fault now p fs =
     (if fault then (fs, None)
      else (case map_of fs p of
        None \<Rightarrow> (AList.update p (Reg [] now) fs, Some [])
      | Some (Reg b _) \<Rightarrow> (fs, Some b)
      | Some Directory \<Rightarrow> (fs, None)))"

text \<open>\<^verbatim>\<open>os.Rename\<close> of a regular file: replaces a regular file, fails on a directory.\<close>

definition Rename :: "bool \<Rightarrow> string \<Rightarrow> string \<Rightarrow> fs \<Rightarrow> fs \<times> bool" where
  "Rename fault p q fs =
     (case (map_of fs p, map_of fs q) of
        (Some n, d) \<Rightarrow> if fault \<or> d = Some Directory then (fs, False)
          else (AList.update q n (AList.delete p fs), True)
      | _ \<Rightarrow> (fs, False))"

section \<open>The receiver\<close>

definition DefaultPort :: "16 word" where "DefaultPort = 41645"

record od_Server =
  od_dir :: string
  od_peerName :: "Addr \<Rightarrow> string"
  od_busy :: "string set"

definition od_NewServer :: "string \<Rightarrow> (Addr \<Rightarrow> string) \<Rightarrow> od_Server" where
  "od_NewServer dir peerName = \<lparr>od_dir = dir, od_peerName = peerName, od_busy = {}\<rparr>"

record od_request =
  rq_RemoteAddr :: string
  rq_RawQuery :: string

datatype od_response = OdOffset nat | OdNoContent | OdError nat goerr

definition od_sender :: "od_Server \<Rightarrow> od_request \<Rightarrow> string res" where
  "od_sender s r = (case SplitHostPort (rq_RemoteAddr r) of
     Inl e \<Rightarrow> Inl e
   | Inr (host, _) \<Rightarrow> (case parse_addr host of
       None \<Rightarrow> Inl (ErrMsg ''ParseAddr'')
     | Some addr \<Rightarrow>
        (let name = od_peerName s (addr_unmap addr) in
         if name = [] then Inl (ErrMsg ''unknown peer'') else Inr name)))"

definition od_params :: "od_request \<Rightarrow> (string \<times> nat) res" where
  "od_params r =
     (let name = path_base (trim_space (query_get (rq_RawQuery r) ''name'')) in
      if name = [] \<or> name = ''.'' \<or> name = ''..'' \<or> name = ''/'' \<or> set name \<inter> {CHR ''/'', CHR 0x5C, CHR 0x00} \<noteq> {}
      then Inl (ErrMsg ''bad name'')
      else (case parse_int64 (query_get (rq_RawQuery r) ''size'') of
          None \<Rightarrow> Inl (ErrMsg ''bad size'')
        | Some sz \<Rightarrow> if sz < 0 then Inl (ErrMsg ''bad size'') else Inr (name, nat sz)))"

definition part_name :: "string \<Rightarrow> nat \<Rightarrow> string" where
  "part_name name sz = name @ ''.'' @ itoa sz @ ''.part''"

definition od_paths :: "od_Server \<Rightarrow> string \<Rightarrow> string \<Rightarrow> nat \<Rightarrow> string \<times> string \<times> string" where
  "od_paths s sender name sz =
     (let dir = path_join (od_dir s) sender in (dir, path_join dir (part_name name sz), path_join dir name))"

definition handleOffset :: "od_Server \<Rightarrow> fs \<Rightarrow> od_request \<Rightarrow> od_response" where
  "handleOffset s fs r = (case od_sender s r of
     Inl e \<Rightarrow> OdError 403 e
   | Inr from \<Rightarrow> (case od_params r of
       Inl e \<Rightarrow> OdError 400 e
     | Inr (name, sz) \<Rightarrow>
        (case od_paths s from name sz of (_, part, _) \<Rightarrow>
          OdOffset (case map_of fs part of Some (Reg b _) \<Rightarrow> length b | _ \<Rightarrow> 0))))"

text \<open>\<^verbatim>\<open>dedupePath\<close>: the path itself, or the first free numbered variant of its last element.\<close>

definition numbered :: "string \<Rightarrow> nat \<Rightarrow> string" where
  "numbered path i =
     (let dir = path_dir path; base = path_base path; ext = path_ext base; stem = trim_suffix base ext in
      path_join dir (stem @ '' ('' @ itoa i @ '')'' @ ext))"

lemma finite_fs: "finite {p. fs_exists fs p}"
  using finite_dom_map_of [of fs] by (simp add: fs_exists_def dom_def)

lemma numbered_inj: "inj (numbered path)"
proof (rule injI)
  fix i j assume eq: "numbered path i = numbered path j"
  define dir ext stem where "dir = path_dir path" and "ext = path_ext (path_base path)" and "stem = trim_suffix (path_base path) ext"
  define w where "w = (if dir = [] then stem else dir @ CHR ''/'' # stem)"
  let ?a = "\<lambda>i. '' ('' @ itoa i @ '')'' @ ext"
  have "plain (after_last CHR ''/'' w @ ?a i)" for i
    using itoa_sep_free [of "CHR ''/''" i] path_ext_free [of "path_base path"] by (auto simp: plain_def ext_def is_hex_digit_def)
  moreover have "numbered path i = path_clean (w @ ?a i)" for i
    by (simp add: numbered_def Let_def path_join_def w_def dir_def ext_def stem_def)
  ultimately have "?a i = ?a j" using eq clean_tail_inj by metis
  then show "i = j" by (simp add: itoa_inj)
qed

function dedupe_file :: "fs \<Rightarrow> string \<Rightarrow> nat \<Rightarrow> string \<Rightarrow> string" where
  "dedupe_file fs path i p = (if fs_exists fs p then dedupe_file fs path (i + 1) (numbered path i) else p)"
  by auto
termination
proof (relation "measure (\<lambda>(fs, path, i, p). taken_ahead (numbered path) {p. fs_exists fs p} i p)", goal_cases)
  case (2 fs path i p)
  then show ?case by (simp add: taken_ahead_decreases finite_fs numbered_inj)
qed simp

declare dedupe_file.simps [simp del]

definition dedupePath :: "fs \<Rightarrow> string \<Rightarrow> string" where
  "dedupePath fs path = dedupe_file fs path 2 path"

text \<open>The stages of \<^verbatim>\<open>handlePut\<close> after its checks: opening the staged file and comparing its size with the
  offset; copying the body; renaming.\<close>

definition put_open :: "io_faults \<Rightarrow> int \<Rightarrow> string \<Rightarrow> string \<Rightarrow> nat \<Rightarrow> fs \<Rightarrow> fs \<times> (od_response + byte list)" where
  "put_open io now dir part offset fs = (case MkdirAll (io_mkdir io) dir fs of
     (fs1, False) \<Rightarrow> (fs1, Inl (OdError 500 ErrDriver))
   | (fs1, True) \<Rightarrow> (case OpenFile (io_open io) now part fs1 of
       (fs2, None) \<Rightarrow> (fs2, Inl (OdError 500 ErrDriver))
     | (fs2, Some b) \<Rightarrow>
        if io_stat io \<or> length b \<noteq> offset then (fs2, Inl (OdError 409 (ErrMsg ''offset mismatch: have %d'')))
        else if io_seek io then (fs2, Inl (OdError 500 ErrDriver))
        else (fs2, Inr b)))"

text \<open>\<^verbatim>\<open>io.Copy\<close>: the bytes written and whether it ended without an error.\<close>

definition io_Copy :: "nat option \<Rightarrow> byte list \<times> bool \<Rightarrow> byte list \<times> bool" where
  "io_Copy limit body = (case limit of
     Some k \<Rightarrow> if k < length (fst body) then (take k (fst body), False) else body
   | None \<Rightarrow> body)"

definition put_copy :: "io_faults \<Rightarrow> int \<Rightarrow> string \<Rightarrow> nat \<Rightarrow> nat \<Rightarrow> byte list \<times> bool \<Rightarrow> byte list \<Rightarrow> fs \<Rightarrow> fs \<times> od_response option" where
  "put_copy io now part sz offset body b fs =
     (case io_Copy (io_write io) body of (w, ok) \<Rightarrow>
       (let fs1 = (if w = [] then fs else AList.update part (Reg (b @ w) now) fs);
            got = offset + length w in
        if \<not> ok \<or> sz < got then
          (if sz < got then (if io_remove io then fs1 else AList.delete part fs1, Some (OdError 400 (ErrMsg ''more bytes than announced'')))
           else (fs1, Some (OdError 500 (ErrMsg ''short transfer at %d/%d''))))
        else if got < sz then (fs1, Some (OdError 400 (ErrMsg ''short transfer at %d/%d'')))
        else (fs1, None)))"

definition put_commit :: "io_faults \<Rightarrow> string \<Rightarrow> string \<Rightarrow> fs \<Rightarrow> fs \<times> od_response" where
  "put_commit io part final fs =
     (if io_sync io then (fs, OdError 500 ErrDriver)
      else (case Rename (io_rename io) part (dedupePath fs final) fs of
         (fs1, True) \<Rightarrow> (fs1, OdNoContent)
       | (fs1, False) \<Rightarrow> (fs1, OdError 500 ErrDriver)))"

definition put_transfer :: "io_faults \<Rightarrow> int \<Rightarrow> string \<times> string \<times> string \<Rightarrow> nat \<Rightarrow> nat \<Rightarrow> byte list \<times> bool \<Rightarrow> fs \<Rightarrow> fs \<times> od_response" where
  "put_transfer io now paths sz offset body fs = (case paths of (dir, part, final) \<Rightarrow>
     (case put_open io now dir part offset fs of
        (fs1, Inl r) \<Rightarrow> (fs1, r)
      | (fs1, Inr b) \<Rightarrow> (case put_copy io now part sz offset body b fs1 of
          (fs2, Some r) \<Rightarrow> (fs2, r)
        | (fs2, None) \<Rightarrow> put_commit io part final fs2)))"

text \<open>The whole handler. The key is busy during the transfer and released at the end, so the set of
  busy keys is the same afterwards; a request that meets its key busy is refused.\<close>

definition handlePut :: "io_faults \<Rightarrow> int \<Rightarrow> od_Server \<Rightarrow> od_request \<Rightarrow> byte list \<times> bool \<Rightarrow> fs \<Rightarrow> od_Server \<times> fs \<times> od_response" where
  "handlePut io now s r body fs = (case od_sender s r of
     Inl e \<Rightarrow> (s, fs, OdError 403 e)
   | Inr from \<Rightarrow> (case od_params r of
       Inl e \<Rightarrow> (s, fs, OdError 400 e)
     | Inr (name, sz) \<Rightarrow>
        (case parse_int64 (query_get (rq_RawQuery r) ''offset'') of
           None \<Rightarrow> (s, fs, OdError 400 (ErrMsg ''bad offset''))
         | Some offset \<Rightarrow>
            if offset < 0 \<or> int sz < offset then (s, fs, OdError 400 (ErrMsg ''bad offset''))
            else (case od_paths s from name sz of (dir, part, final) \<Rightarrow>
              if part \<in> od_busy s then (s, fs, OdError 409 (ErrMsg ''transfer already in progress''))
              else (let s1 = s\<lparr>od_busy := insert part (od_busy s)\<rparr> in
                (case put_transfer io now (dir, part, final) sz (nat offset) body fs of
                   (fs1, resp) \<Rightarrow> (s1\<lparr>od_busy := od_busy s1 - {part}\<rparr>, fs1, resp)))))))"

section \<open>The inbox listing\<close>

record InboxFile =
  if_From :: string
  if_Name :: string
  if_Size :: nat
  if_Partial :: bool
  if_ModTime :: int
  if_Path :: string

text \<open>\<^verbatim>\<open>os.ReadDir\<close>: the entries of a directory by name; \<open>Inr None\<close> stands for a missing directory.\<close>

definition dir_entries :: "fs \<Rightarrow> string \<Rightarrow> (string \<times> inode) list" where
  "dir_entries fs d = order_by fst (List.map_filter
     (\<lambda>(p, n). if has_prefix p (d @ ''/'') \<and> plain (drop (length d + 1) p) then Some (drop (length d + 1) p, n) else None)
     (AList.clearjunk fs))"

definition ReadDir :: "(string \<Rightarrow> bool) \<Rightarrow> fs \<Rightarrow> string \<Rightarrow> goerr + (string \<times> inode) list option" where
  "ReadDir flt fs d = (case map_of fs d of
     None \<Rightarrow> Inr None
   | Some Directory \<Rightarrow> if flt d then Inl ErrDriver else Inr (Some (dir_entries fs d))
   | Some (Reg _ _) \<Rightarrow> Inl ErrDriver)"

definition list_sender :: "(string \<Rightarrow> bool) \<Rightarrow> fs \<Rightarrow> string \<Rightarrow> string \<times> inode \<Rightarrow> InboxFile list" where
  "list_sender flt fs dir sd = (case sd of
     (_, Reg _ _) \<Rightarrow> []
   | (sender, Directory) \<Rightarrow> (case ReadDir flt fs (path_join dir sender) of
       Inr (Some files) \<Rightarrow> List.map_filter (\<lambda>(name, n). case n of
           Directory \<Rightarrow> None
         | Reg b mt \<Rightarrow> if flt (path_join (path_join dir sender) name) then None
             else Some \<lparr>if_From = sender, if_Name = name, if_Size = length b, if_Partial = has_suffix name ''.part'',
               if_ModTime = mt, if_Path = path_join (path_join dir sender) name\<rparr>) files
     | _ \<Rightarrow> []))"

definition ListInbox :: "(string \<Rightarrow> bool) \<Rightarrow> fs \<Rightarrow> string \<Rightarrow> InboxFile list res" where
  "ListInbox flt fs dir = (case ReadDir flt fs dir of
     Inl e \<Rightarrow> Inl e
   | Inr None \<Rightarrow> Inr []
   | Inr (Some senders) \<Rightarrow> Inr (concat (map (list_sender flt fs dir) senders)))"

section \<open>Sending\<close>

text \<open>\<^verbatim>\<open>urlEscape\<close>, and the check of URLs for control characters in \<^verbatim>\<open>net/http\<close>.\<close>

definition escape_char :: "char \<Rightarrow> string" where
  "escape_char c =
     (if c = CHR ''%'' then ''%25'' else if c = CHR ''&'' then ''%26'' else if c = CHR ''+'' then ''%2B''
      else if c = CHR ''#'' then ''%23'' else if c = CHR ''?'' then ''%3F'' else if c = CHR '' '' then ''%20'' else [c])"

definition urlEscape :: "string \<Rightarrow> string" where
  "urlEscape s = concat (map escape_char s)"

definition has_ctl :: "string \<Rightarrow> bool" where
  "has_ctl s \<longleftrightarrow> (\<exists>c \<in> set s. (of_char c :: nat) < 32 \<or> (of_char c :: nat) = 127)"

record 'w transport =
  tr_get :: "string \<Rightarrow> 'w \<Rightarrow> 'w \<times> od_response option"
  tr_put :: "string \<Rightarrow> byte list \<Rightarrow> 'w \<Rightarrow> 'w \<times> od_response option"

definition send_query :: "string \<Rightarrow> nat \<Rightarrow> string" where
  "send_query name sz = ''name='' @ urlEscape name @ ''&size='' @ itoa sz"

definition Send :: "'w transport \<Rightarrow> fs \<Rightarrow> string \<Rightarrow> 'w \<Rightarrow> 'w \<times> unit res" where
  "Send tr fs path w = (case map_of fs path of
     None \<Rightarrow> (w, Inl ErrDriver)
   | Some Directory \<Rightarrow> (w, Inl (ErrMsg ''cannot send a directory (zip it first)''))
   | Some (Reg content _) \<Rightarrow>
      (let sz = length content; name = path_base path; q = send_query name sz in
       if has_ctl q then (w, Inl (ErrWrap ''receiver unreachable (is the peer online and overdrop enabled?): %w'' ErrDriver))
       else (case tr_get tr q w of
         (w1, None) \<Rightarrow> (w1, Inl (ErrWrap ''receiver unreachable (is the peer online and overdrop enabled?): %w'' ErrDriver))
       | (w1, Some (OdOffset off)) \<Rightarrow>
          (let offset = (if sz < off then 0 else off) in
           (case tr_put tr (q @ ''&offset='' @ itoa offset) (drop offset content) w1 of
              (w2, None) \<Rightarrow> (w2, Inl (ErrWrap ''transfer interrupted (rerun to resume): %w'' ErrDriver))
            | (w2, Some OdNoContent) \<Rightarrow> (w2, Inr ())
            | (w2, Some _) \<Rightarrow> (w2, Inl (ErrMsg ''receiver rejected the file: %s: %s''))))
       | (w1, Some _) \<Rightarrow> (w1, Inl (ErrMsg ''offset query failed: %s'')))))"

text \<open>The progress reader: each read reports the bytes sent so far, counted from the resume point.\<close>

record progressReader =
  pr_base :: nat
  pr_sent :: nat
  pr_total :: nat

definition progress_Read :: "nat \<Rightarrow> progressReader \<Rightarrow> progressReader \<times> (nat \<times> nat)" where
  "progress_Read n p = (let p1 = p\<lparr>pr_sent := pr_sent p + n\<rparr> in (p1, (pr_base p1 + pr_sent p1, pr_total p1)))"

text \<open>A receiver at the other end: requests arrive from one address and port, and a put may be cut
  after some bytes of its body, in which case the sender gets no answer.\<close>

type_synonym receiver = "od_Server \<times> fs"

definition to_receiver :: "io_faults \<Rightarrow> int \<Rightarrow> string \<Rightarrow> nat option \<Rightarrow> receiver transport" where
  "to_receiver io now remote cutoff = \<lparr>
     tr_get = (\<lambda>q (s, fs). ((s, fs), Some (handleOffset s fs \<lparr>rq_RemoteAddr = remote, rq_RawQuery = q\<rparr>))),
     tr_put = (\<lambda>q body (s, fs). (case cutoff of
         None \<Rightarrow> (case handlePut io now s \<lparr>rq_RemoteAddr = remote, rq_RawQuery = q\<rparr> (body, True) fs of
            (s', fs', r) \<Rightarrow> ((s', fs'), Some r))
       | Some k \<Rightarrow> (case handlePut io now s \<lparr>rq_RemoteAddr = remote, rq_RawQuery = q\<rparr> (take k body, False) fs of
            (s', fs', r) \<Rightarrow> ((s', fs'), None))))\<rparr>"

section \<open>What a request may touch\<close>

lemmas fs_simps [simp] = update_conv' delete_conv'

definition staged :: "fs \<Rightarrow> string \<Rightarrow> byte list" where
  "staged fs part = (case map_of fs part of Some (Reg b _) \<Rightarrow> b | _ \<Rightarrow> [])"

text \<open>Outside \<open>X\<close> nothing changed but that missing directories may have been made.\<close>

definition untouched :: "string set \<Rightarrow> fs \<Rightarrow> fs \<Rightarrow> bool" where
  "untouched X fs fs' \<longleftrightarrow> (\<forall>p. p \<notin> X \<longrightarrow> map_of fs' p = map_of fs p \<or> map_of fs p = None \<and> map_of fs' p = Some Directory)"

lemma untouched_refl [simp]: "untouched X fs fs"
  by (simp add: untouched_def)

lemma untouched_trans: "untouched X fs fs' \<Longrightarrow> untouched X fs' fs'' \<Longrightarrow> untouched X fs fs''"
  unfolding untouched_def by metis

lemma untouched_mono: "untouched X fs fs' \<Longrightarrow> X \<subseteq> Y \<Longrightarrow> untouched Y fs fs'"
  unfolding untouched_def by blast

lemma free_untouched: "untouched X fs fs' \<Longrightarrow> p \<notin> X \<Longrightarrow> \<not> fs_exists fs' p \<Longrightarrow> \<not> fs_exists fs p"
  by (auto simp: untouched_def fs_exists_def)

lemma untouched_write: "p \<in> X \<Longrightarrow> untouched X fs (AList.update p n fs)" "p \<in> X \<Longrightarrow> untouched X fs (AList.delete p fs)"
  by (auto simp: untouched_def)

lemma mkdirs_untouched: "untouched {} fs (fst (mkdirs ds fs))"
proof (induction ds fs rule: mkdirs.induct)
  case (2 d ds fs)
  have "untouched {} fs (AList.update d Directory fs)" if "map_of fs d = None" using that by (auto simp: untouched_def)
  with 2 show ?case by (auto split: option.split inode.split intro: untouched_trans)
qed simp

lemma MkdirAll_untouched: "MkdirAll fault d fs = (fs', ok) \<Longrightarrow> untouched X fs fs'"
  using mkdirs_untouched untouched_mono [of "{}" _ _ X]
  by (auto simp: MkdirAll_def split: option.splits dest: sym) (metis fst_conv)+

lemma put_open_effect:
  assumes "put_open io now dir part offset fs = (fs', r)"
  shows "untouched {part} fs fs'"
    and "r = Inr b \<Longrightarrow> b = staged fs part \<and> length b = offset \<and> (\<exists>t. map_of fs' part = Some (Reg b t))"
proof -
  obtain fs1 ok where m: "MkdirAll (io_mkdir io) dir fs = (fs1, ok)" by fastforce
  obtain fs2 ob where o: "OpenFile (io_open io) now part fs1 = (fs2, ob)" by fastforce
  have u1: "untouched {part} fs fs1" and u0: "untouched {} fs fs1" using MkdirAll_untouched [OF m] by auto
  have u2: "untouched {part} fs1 fs2"
    using o by (auto simp: OpenFile_def untouched_write split: if_splits option.splits inode.splits)
  show "untouched {part} fs fs'"
    using assms m o u1 u2 by (auto simp: put_open_def split: bool.splits option.splits if_splits intro: untouched_trans)
  assume "r = Inr b"
  then have b: "ob = Some b" "length b = offset" "fs' = fs2"
    using assms m o by (auto simp: put_open_def split: bool.splits option.splits if_splits)
  have "map_of fs1 part = map_of fs part \<or> map_of fs part = None \<and> map_of fs1 part = Some Directory"
    using u0 by (simp add: untouched_def)
  then show "b = staged fs part \<and> length b = offset \<and> (\<exists>t. map_of fs' part = Some (Reg b t))"
    using o b by (auto simp: OpenFile_def staged_def split: if_splits option.splits inode.splits) metis
qed

lemma put_copy_effect:
  assumes "put_copy io now part sz offset body b fs = (fs', r)" and "map_of fs part = Some (Reg b t)" and "length b = offset"
  shows "untouched {part} fs fs'"
    and "r = None \<Longrightarrow> length (b @ fst body) = sz \<and> (\<exists>t. map_of fs' part = Some (Reg (b @ fst body) t))"
    and "r \<noteq> Some OdNoContent"
  using assms
  by (auto simp: put_copy_def io_Copy_def Let_def untouched_def split: option.splits if_splits prod.splits)

interpretation file_search: free_search "numbered path" "{p. fs_exists fs p}" "dedupe_file fs path" for fs path
  by unfold_locales (simp_all add: finite_fs numbered_inj, simp_all add: dedupe_file.simps)

lemma dedupePath_free: "\<not> fs_exists fs (dedupePath fs path)" "dedupePath fs path = path \<or> (\<exists>k. dedupePath fs path = numbered path k)"
  using file_search.search_free [of fs path 2 path] by (auto simp: dedupePath_def)

lemma put_commit_effect:
  assumes "put_commit io part final fs = (fs', r)" and "map_of fs part = Some (Reg b t)"
  shows "r \<noteq> OdNoContent \<Longrightarrow> fs' = fs"
    and "r = OdNoContent \<Longrightarrow> \<not> fs_exists fs (dedupePath fs final) \<and> map_of fs' (dedupePath fs final) = Some (Reg b t) \<and>
      map_of fs' part = None \<and> untouched {part, dedupePath fs final} fs fs'"
proof -
  have free: "map_of fs (dedupePath fs final) = None" using dedupePath_free(1) [of fs final] by (simp add: fs_exists_def)
  then have ne: "dedupePath fs final \<noteq> part" using assms(2) by auto
  show "r \<noteq> OdNoContent \<Longrightarrow> fs' = fs"
    using assms free by (auto simp: put_commit_def Rename_def split: if_splits)
  assume "r = OdNoContent"
  then have "fs' = AList.update (dedupePath fs final) (Reg b t) (AList.delete part fs)"
    using assms free by (auto simp: put_commit_def Rename_def split: if_splits)
  then show "\<not> fs_exists fs (dedupePath fs final) \<and> map_of fs' (dedupePath fs final) = Some (Reg b t) \<and>
      map_of fs' part = None \<and> untouched {part, dedupePath fs final} fs fs'"
    using ne free by (auto simp: fs_exists_def untouched_def)
qed

lemma numbered_in_dir:
  assumes "clean_dir d" and "plain e"
  shows "\<exists>e'. plain e' \<and> numbered (d @ ''/'' @ e) k = d @ ''/'' @ e'"
proof -
  define ext stem where "ext = path_ext e" and "stem = trim_suffix e ext"
  have "set stem \<subseteq> set e" by (auto simp: stem_def trim_suffix_def dest: in_set_takeD)
  then have "plain (stem @ '' ('' @ itoa k @ '')'' @ ext)"
    using assms(2) path_ext_free [of e] itoa_sep_free [of "CHR ''/''" k]
    by (auto simp: plain_def ext_def is_hex_digit_def)
  moreover have "numbered (d @ ''/'' @ e) k = path_join d (stem @ '' ('' @ itoa k @ '')'' @ ext)"
    using dir_plain [OF assms] base_plain [OF assms(2), of d] by (simp add: numbered_def Let_def ext_def stem_def)
  ultimately show ?thesis using join_plain [OF assms(1)] by metis
qed

lemma dedupePath_in_dir:
  assumes "clean_dir d" and "plain e"
  shows "\<exists>e'. plain e' \<and> dedupePath fs (d @ ''/'' @ e) = d @ ''/'' @ e'"
  using dedupePath_free(2) [of fs "d @ ''/'' @ e"] numbered_in_dir [OF assms] assms(2) by metis

lemma put_transfer_effect:
  assumes "put_transfer io now (dir, part, final) sz offset body fs = (fs', r)"
  shows "r \<noteq> OdNoContent \<Longrightarrow> untouched {part} fs fs'"
    and "r = OdNoContent \<Longrightarrow> length (staged fs part) = offset \<and> offset + length (fst body) = sz \<and>
      (\<exists>fs2 t. untouched {part} fs fs2 \<and> \<not> fs_exists fs2 (dedupePath fs2 final) \<and>
        map_of fs' (dedupePath fs2 final) = Some (Reg (staged fs part @ fst body) t) \<and>
        map_of fs' part = None \<and> untouched {part, dedupePath fs2 final} fs fs')"
proof -
  obtain fs1 r1 where 1: "put_open io now dir part offset fs = (fs1, r1)" by fastforce
  note u1 = put_open_effect(1) [OF 1]
  { fix b assume b: "r1 = Inr b"
    then obtain t where t: "b = staged fs part" "length b = offset" "map_of fs1 part = Some (Reg b t)"
      using put_open_effect(2) [OF 1] by blast
    obtain fs2 r2 where 2: "put_copy io now part sz offset body b fs1 = (fs2, r2)" by fastforce
    note e2 = put_copy_effect [OF 2 t(3,2)]
    have u2: "untouched {part} fs fs2" using untouched_trans [OF u1 e2(1)] .
    have "(r \<noteq> OdNoContent \<longrightarrow> untouched {part} fs fs') \<and>
      (r = OdNoContent \<longrightarrow> offset + length (fst body) = sz \<and> \<not> fs_exists fs2 (dedupePath fs2 final) \<and>
        (\<exists>t. map_of fs' (dedupePath fs2 final) = Some (Reg (b @ fst body) t)) \<and>
        map_of fs' part = None \<and> untouched {part, dedupePath fs2 final} fs fs')"
    proof (cases r2)
      case (Some x)
      then have "r = x" "fs' = fs2" using assms 1 2 b by (simp_all add: put_transfer_def)
      then show ?thesis using e2(3) Some u2 by simp
    next
      case None
      then obtain t2 where t2: "length (b @ fst body) = sz" "map_of fs2 part = Some (Reg (b @ fst body) t2)" using e2(2) by blast
      have c: "put_commit io part final fs2 = (fs', r)" using assms 1 2 b None by (simp add: put_transfer_def)
      show ?thesis
        using put_commit_effect [OF c t2(2)] u2 t2(1) t(2) untouched_mono [OF u2, of "{part, dedupePath fs2 final}"]
        by (auto intro: untouched_trans)
    qed
    then have "(r \<noteq> OdNoContent \<longrightarrow> untouched {part} fs fs') \<and>
      (r = OdNoContent \<longrightarrow> length (staged fs part) = offset \<and> offset + length (fst body) = sz \<and>
      (\<exists>fs2 t. untouched {part} fs fs2 \<and> \<not> fs_exists fs2 (dedupePath fs2 final) \<and>
        map_of fs' (dedupePath fs2 final) = Some (Reg (staged fs part @ fst body) t) \<and>
        map_of fs' part = None \<and> untouched {part, dedupePath fs2 final} fs fs'))"
      using u2 t(1,2) by blast }
  moreover have "r \<noteq> OdNoContent \<and> fs' = fs1" if "r1 = Inl x" for x
    using that assms 1 by (auto simp: put_transfer_def put_open_def split: prod.splits bool.splits option.splits if_splits)
  ultimately show "r \<noteq> OdNoContent \<Longrightarrow> untouched {part} fs fs'"
    and "r = OdNoContent \<Longrightarrow> length (staged fs part) = offset \<and> offset + length (fst body) = sz \<and>
      (\<exists>fs2 t. untouched {part} fs fs2 \<and> \<not> fs_exists fs2 (dedupePath fs2 final) \<and>
        map_of fs' (dedupePath fs2 final) = Some (Reg (staged fs part @ fst body) t) \<and>
        map_of fs' part = None \<and> untouched {part, dedupePath fs2 final} fs fs')"
    using u1 by (cases r1; blast)+
qed

lemma params_plain: "od_params r = Inr (name, sz) \<Longrightarrow> plain name"
  using base_cases [of "trim_space (query_get (rq_RawQuery r) ''name'')"]
  by (auto simp: od_params_def Let_def split: if_splits option.splits)

lemma part_name_plain: "plain name \<Longrightarrow> plain (part_name name sz)"
  using itoa_sep_free [of "CHR ''/''" sz] by (cases name) (auto simp: plain_def part_name_def is_hex_digit_def)

lemma od_paths_plain:
  assumes "clean_dir (od_dir s)" and "plain h" and "plain name"
  shows "od_paths s h name sz = (let d = od_dir s @ ''/'' @ h in (d, d @ ''/'' @ part_name name sz, d @ ''/'' @ name))"
  using join_plain [OF assms(1,2)] clean_dir_append [OF assms(1,2)] join_plain assms(3) part_name_plain [OF assms(3)]
  by (simp add: od_paths_def Let_def)

lemma handlePut_transfer:
  assumes "handlePut io now s r body fs = (s', fs', resp)" and "od_sender s r = Inr h" and "od_params r = Inr (name, sz)"
    and "od_paths s h name sz = (dir, part, final)"
  shows "s' = s \<and> (fs' = fs \<and> resp \<noteq> OdNoContent \<or>
    (\<exists>offset. put_transfer io now (dir, part, final) sz offset body fs = (fs', resp)))"
  using assms by (auto simp: handlePut_def Let_def split: option.splits if_splits prod.splits)

text \<open>
  Claim C10. A transfer touches nothing but its own staged file in the sender's directory: whatever a
  request asks for, whoever sends it and whichever system calls fail, no existing file is
  overwritten, truncated or removed and nothing appears outside. A request that is answered with
  success has put exactly the announced number of bytes, the staged ones and then the body, under a
  name that was free. Requests from unknown addresses or with bad parameters change nothing.
\<close>
theorem put_never_overwrites:
  assumes "clean_dir (od_dir s)" and "range (od_peerName s) \<subseteq> insert [] (Collect plain)"
    and "handlePut io now s r body fs = (s', fs', resp)"
  shows "s' = s \<and> (case (od_sender s r, od_params r) of
      (Inr h, Inr (name, sz)) \<Rightarrow>
        (let d = od_dir s @ ''/'' @ h; part = d @ ''/'' @ part_name name sz in
         if resp = OdNoContent
         then \<exists>e t. plain e \<and> \<not> fs_exists fs (d @ ''/'' @ e) \<and>
           map_of fs' (d @ ''/'' @ e) = Some (Reg (staged fs part @ fst body) t) \<and> length (staged fs part @ fst body) = sz \<and>
           map_of fs' part = None \<and> untouched {part, d @ ''/'' @ e} fs fs'
         else untouched {part} fs fs')
    | _ \<Rightarrow> fs' = fs \<and> resp \<noteq> OdNoContent)"
proof (cases "od_sender s r")
  case (Inl e)
  then show ?thesis using assms(3) by (auto simp: handlePut_def)
next
  case h: (Inr h)
  have "od_peerName s a = [] \<or> plain (od_peerName s a)" for a using assms(2) by auto
  with h have ph: "plain h" by (auto simp: od_sender_def Let_def split: sum.splits option.splits if_splits) metis
  show ?thesis
  proof (cases "od_params r")
    case (Inl e)
    then show ?thesis using assms(3) h by (auto simp: handlePut_def)
  next
    case (Inr x)
    then obtain name sz where p: "od_params r = Inr (name, sz)" by (cases x) simp
    define d part where "d = od_dir s @ ''/'' @ h" and "part = d @ ''/'' @ part_name name sz"
    have n: "plain name" using params_plain [OF p] .
    have d: "clean_dir d" unfolding d_def by (rule clean_dir_append [OF assms(1) ph])
    have paths: "od_paths s h name sz = (d, part, d @ ''/'' @ name)"
      using od_paths_plain [OF assms(1) ph n] by (simp add: d_def part_def Let_def)
    note t = handlePut_transfer [OF assms(3) h p paths]
    have "if resp = OdNoContent
         then \<exists>e t. plain e \<and> \<not> fs_exists fs (d @ ''/'' @ e) \<and>
           map_of fs' (d @ ''/'' @ e) = Some (Reg (staged fs part @ fst body) t) \<and> length (staged fs part @ fst body) = sz \<and>
           map_of fs' part = None \<and> untouched {part, d @ ''/'' @ e} fs fs'
         else untouched {part} fs fs'"
    proof (cases "resp = OdNoContent")
      case True
      then obtain offset where o: "put_transfer io now (d, part, d @ ''/'' @ name) sz offset body fs = (fs', resp)" using t by blast
      obtain fs2 tm where e: "untouched {part} fs fs2" "\<not> fs_exists fs2 (dedupePath fs2 (d @ ''/'' @ name))"
        "map_of fs' (dedupePath fs2 (d @ ''/'' @ name)) = Some (Reg (staged fs part @ fst body) tm)" "map_of fs' part = None"
        "untouched {part, dedupePath fs2 (d @ ''/'' @ name)} fs fs'" "length (staged fs part @ fst body) = sz"
        using put_transfer_effect(2) [OF o True] by auto
      obtain el where el: "plain el" "dedupePath fs2 (d @ ''/'' @ name) = d @ ''/'' @ el" using dedupePath_in_dir [OF d n] by blast
      have "d @ ''/'' @ el \<noteq> part" using e(3,4) el(2) by auto
      then have "\<not> fs_exists fs (d @ ''/'' @ el)"
        using e(1,2) el(2) by (auto simp: untouched_def fs_exists_def)
      then show ?thesis using True e el by auto
    next
      case False
      then show ?thesis using t put_transfer_effect(1) [of io now d part "d @ ''/'' @ name" sz _ body fs fs' resp] by auto
    qed
    then show ?thesis using t h p unfolding d_def part_def
      by (cases "resp = OdNoContent") (simp_all add: Let_def)
  qed
qed

section \<open>Resumption\<close>

subsection \<open>The query as the receiver reads it\<close>

lemma escaped_bytes:
  "char_of (37 :: nat) = CHR ''%''" "char_of (38 :: nat) = CHR ''&''" "char_of (43 :: nat) = CHR ''+''"
  "char_of (35 :: nat) = CHR ''#''" "char_of (63 :: nat) = CHR ''?''" "char_of (32 :: nat) = CHR '' ''"
  by (simp_all add: char_of_eq_iff)

lemma unescape_escape: "QueryUnescape (urlEscape s) = Some s"
proof (induction s)
  case (Cons c s)
  then have "QueryUnescape (concat (map escape_char s)) = Some s" by (simp add: urlEscape_def)
  then show ?case by (simp add: urlEscape_def escape_char_def hex_val_def escaped_bytes)
qed (simp add: urlEscape_def)

lemma unescape_plain: "CHR ''%'' \<notin> set s \<Longrightarrow> CHR ''+'' \<notin> set s \<Longrightarrow> QueryUnescape s = Some s"
  by (induction s) auto

lemma escape_set:
  "CHR ''&'' \<notin> set (urlEscape s)"
  "CHR '';'' \<in> set (urlEscape s) \<longleftrightarrow> CHR '';'' \<in> set s"
  by (auto simp: urlEscape_def escape_char_def split: if_splits)

lemma itoa_free: "c \<in> {CHR ''&'', CHR '';'', CHR ''%'', CHR ''+'', CHR ''='', CHR '':'', CHR ''['', CHR '']''} \<Longrightarrow> c \<notin> set (itoa n)"
  using itoa_sep_free [of c n] by (auto simp: is_hex_digit_def)

lemma parse_pair_itoa:
  assumes "k \<noteq> []" and "set k \<inter> {CHR ''%'', CHR ''+'', CHR '';'', CHR ''=''} = {}"
  shows "parse_pair (k @ CHR ''='' # itoa n) = Some (k, itoa n)"
proof -
  have "QueryUnescape k = Some k" "QueryUnescape (itoa n) = Some (itoa n)" using assms(2) itoa_free by (auto intro!: unescape_plain)
  moreover have "CHR '';'' \<notin> set (k @ CHR ''='' # itoa n)" "CHR ''='' \<notin> set k" using assms(2) itoa_free by auto
  ultimately show ?thesis by (simp add: parse_pair_def)
qed

lemma parse_pair_name: "CHR '';'' \<notin> set name \<Longrightarrow> parse_pair (''name='' @ urlEscape name) = Some (''name'', name)"
  using cut_sep [of "CHR ''=''" "''name''" "urlEscape name"] escape_set(2) [of name] unescape_plain [of "''name''"] unescape_escape [of name]
  by (simp add: parse_pair_def)

lemma query_parts:
  "split_on CHR ''&'' (send_query name sz) = [''name='' @ urlEscape name, ''size='' @ itoa sz]"
  "split_on CHR ''&'' (send_query name sz @ ''&offset='' @ itoa off) = [''name='' @ urlEscape name, ''size='' @ itoa sz, ''offset='' @ itoa off]"
  using split_on_sep [of "CHR ''&''" "''name='' @ urlEscape name" "''size='' @ itoa sz"]
    split_on_sep [of "CHR ''&''" "''name='' @ urlEscape name" "''size='' @ itoa sz @ ''&offset='' @ itoa off"]
    split_on_sep [of "CHR ''&''" "''size='' @ itoa sz" "''offset='' @ itoa off"]
    split_on_free [of "CHR ''&''" "''size='' @ itoa sz"] split_on_free [of "CHR ''&''" "''offset='' @ itoa off"]
    escape_set(1) [of name] itoa_free [of "CHR ''&''" sz] itoa_free [of "CHR ''&''" off]
  by (simp_all add: send_query_def)

lemma query_values:
  assumes "CHR '';'' \<notin> set name" and "q = send_query name sz \<or> q = send_query name sz @ ''&offset='' @ itoa off"
  shows "query_get q ''name'' = name" "query_get q ''size'' = itoa sz"
    and "q = send_query name sz @ ''&offset='' @ itoa off \<Longrightarrow> query_get q ''offset'' = itoa off"
  using assms(2) parse_pair_name [OF assms(1)] parse_pair_itoa [of "''size''" sz] parse_pair_itoa [of "''offset''" off]
  by (auto simp: query_get_def ParseQuery_def query_parts query_parts(2) [simplified] List.map_filter_simps)

lemma parse_int64_itoa:
  assumes "n < 2 ^ 63"
  shows "parse_int64 (itoa n) = Some (int n)"
proof -
  obtain c cs where c: "itoa n = c # cs" using itoa_nonempty by (cases "itoa n") auto
  then have "is_digit c" using itoa_digits [of n] by simp
  then have "c \<noteq> CHR ''-''" "c \<noteq> CHR ''+''" by (auto simp: is_digit_def)
  moreover have "int n < 2 ^ 63" using assms by (simp flip: of_nat_less_iff)
  ultimately show ?thesis using c itoa_digits [of n] dec_value_itoa [of n] by (simp add: parse_int64_def Let_def)
qed

definition sendable :: "string \<Rightarrow> bool" where
  "sendable name \<longleftrightarrow> plain name \<and> trim_space name = name \<and> \<not> has_ctl name \<and> set name \<inter> {CHR '';'', CHR 0x5C} = {}"

lemma has_ctl_simps [simp]:
  "\<not> has_ctl []" "has_ctl (c # s) \<longleftrightarrow> (of_char c :: nat) < 32 \<or> (of_char c :: nat) = 127 \<or> has_ctl s"
  "has_ctl (a @ b) \<longleftrightarrow> has_ctl a \<or> has_ctl b"
  by (auto simp: has_ctl_def)

lemma itoa_ctl [simp]: "\<not> has_ctl (itoa n)"
  using itoa_digits [of n] by (auto simp: has_ctl_def list_all_iff is_digit_def)

lemma urlEscape_ctl [simp]: "has_ctl (urlEscape s) \<longleftrightarrow> has_ctl s"
proof (induction s)
  case (Cons c s)
  have "has_ctl (escape_char c) \<longleftrightarrow> (of_char c :: nat) < 32 \<or> (of_char c :: nat) = 127" by (simp add: escape_char_def)
  with Cons show ?case by (simp add: urlEscape_def)
qed (simp add: urlEscape_def)

lemma send_query_ctl: "has_ctl (send_query name sz) \<longleftrightarrow> has_ctl name"
  by (simp add: send_query_def)

lemma params_sent:
  assumes "sendable name" and "sz < 2 ^ 63" and "q = send_query name sz \<or> q = send_query name sz @ ''&offset='' @ itoa off"
  shows "od_params \<lparr>rq_RemoteAddr = remote, rq_RawQuery = q\<rparr> = Inr (name, sz)"
proof -
  have n: "plain name" "trim_space name = name" "CHR '';'' \<notin> set name" "CHR 0x5C \<notin> set name" using assms(1) by (auto simp: sendable_def)
  have "CHR 0x00 \<notin> set name" using assms(1) by (auto simp: sendable_def has_ctl_def)
  then show ?thesis
    using query_values(1,2) [OF n(3) assms(3)] n base_of_plain [OF n(1)] parse_int64_itoa [OF assms(2)]
    by (auto simp: od_params_def plain_def)
qed

subsection \<open>Attempts\<close>

lemma mkdirs_outside: "p \<notin> set ds \<Longrightarrow> map_of (fst (mkdirs ds fs)) p = map_of fs p"
  by (induction ds fs rule: mkdirs.induct) (auto split: option.split inode.split)

definition no_file_in_way :: "fs \<Rightarrow> string \<Rightarrow> bool" where
  "no_file_in_way fs d \<longleftrightarrow> list_all (\<lambda>p. case map_of fs p of Some (Reg _ _) \<Rightarrow> False | _ \<Rightarrow> True) (ancestors d)"

lemma mkdirs_ok: "list_all (\<lambda>p. case map_of fs p of Some (Reg _ _) \<Rightarrow> False | _ \<Rightarrow> True) ds \<Longrightarrow> snd (mkdirs ds fs)"
proof (induction ds fs rule: mkdirs.induct)
  case (2 d ds fs)
  have "list_all (\<lambda>p. case map_of (AList.update d Directory fs) p of Some (Reg _ _) \<Rightarrow> False | _ \<Rightarrow> True) ds"
    using 2(3) by (auto simp: list_all_iff split: option.splits inode.splits if_splits)
  with 2 show ?case by (auto split: option.splits inode.splits)
qed simp

lemma ancestors_length: "p \<in> set (ancestors d) \<Longrightarrow> length p \<le> length d"
  by (auto simp: ancestors_def)

lemma MkdirAll_outside: "MkdirAll fault d fs = (fs', ok) \<Longrightarrow> length d < length p \<Longrightarrow> map_of fs' p = map_of fs p"
  using ancestors_length [of p d] mkdirs_outside [of p] set_take_subset [of _ "ancestors d"]
  by (auto simp: MkdirAll_def split: option.splits dest: sym) (metis fst_conv linorder_not_le subset_iff)+

lemma no_file_in_way_untouched:
  assumes "no_file_in_way fs d" and "untouched {part} fs fs'" and "length d < length part"
  shows "no_file_in_way fs' d"
proof -
  have "map_of fs' p = map_of fs p \<or> map_of fs' p = Some Directory" if "p \<in> set (ancestors d)" for p
  proof -
    have "p \<noteq> part" using ancestors_length [OF that] assms(3) by auto
    then show ?thesis using assms(2) by (auto simp: untouched_def)
  qed
  then show ?thesis using assms(1) unfolding no_file_in_way_def list_all_iff by fastforce
qed

text \<open>What is staged is a beginning of the file.\<close>

definition staged_prefix :: "fs \<Rightarrow> string \<Rightarrow> byte list \<Rightarrow> bool" where
  "staged_prefix fs part content \<longleftrightarrow>
     (case map_of fs part of None \<Rightarrow> True | Some (Reg b _) \<Rightarrow> (\<exists>j. b = take j content) | Some Directory \<Rightarrow> False)"

lemma staged_take: "staged_prefix fs part content \<Longrightarrow> staged fs part = take (length (staged fs part)) content \<and> length (staged fs part) \<le> length content"
  by (auto simp: staged_prefix_def staged_def min_def split: option.splits inode.splits)

lemma io_Copy_cut: "\<exists>j. io_Copy lim (take k X, False) = (take j X, False)"
  by (auto simp: io_Copy_def split: option.splits)

lemma put_open_staged:
  assumes "put_open io now dir part offset fs = (fs', r)" and "length dir < length part" and "staged_prefix fs part content"
  shows "staged_prefix fs' part content \<and> staged fs' part = staged fs part"
proof -
  obtain fs1 ok where m: "MkdirAll (io_mkdir io) dir fs = (fs1, ok)" by fastforce
  have "map_of fs1 part = map_of fs part" by (rule MkdirAll_outside [OF m assms(2)])
  then show ?thesis using assms(1,3) m
    by (auto simp: put_open_def OpenFile_def staged_prefix_def staged_def
        split: bool.splits option.splits if_splits inode.splits intro: exI [of _ 0])
qed

lemma put_cut_staged:
  assumes "put_transfer io now (dir, part, final) (length content) (length (staged fs part)) (take k (drop (length (staged fs part)) content), False) fs = (fs', r)"
    and "length dir < length part" and "staged_prefix fs part content"
  shows "staged_prefix fs' part content \<and> r \<noteq> OdNoContent"
proof -
  let ?n = "length (staged fs part)"
  obtain fs1 r1 where 1: "put_open io now dir part ?n fs = (fs1, r1)" by fastforce
  note s1 = put_open_staged [OF 1 assms(2,3)]
  show ?thesis
  proof (cases r1)
    case (Inl x)
    then have "fs' = fs1" "r = x" using assms(1) 1 by (simp_all add: put_transfer_def)
    then show ?thesis using s1 Inl 1 by (auto simp: put_open_def split: prod.splits bool.splits option.splits if_splits)
  next
    case (Inr b)
    then obtain t where b: "b = staged fs part" "map_of fs1 part = Some (Reg b t)" using put_open_effect(2) [OF 1] by blast
    have pre: "b @ take j (drop ?n content) = take (?n + j) content" for j
      using staged_take [OF assms(3)] b(1) by (metis take_add)
    obtain fs2 r2 where 2: "put_copy io now part (length content) ?n (take k (drop ?n content), False) b fs1 = (fs2, r2)" by fastforce
    obtain j where j: "io_Copy (io_write io) (take k (drop ?n content), False) = (take j (drop ?n content), False)" using io_Copy_cut by blast
    have "?n + length (take j (drop ?n content)) \<le> length content" using staged_take [OF assms(3)] by auto
    then have "\<exists>t. map_of fs2 part = Some (Reg (b @ take j (drop ?n content)) t)" and "r2 \<noteq> None" "r2 \<noteq> Some OdNoContent"
      using 2 j b(2) by (auto simp: put_copy_def Let_def split: if_splits)
    then show ?thesis using assms(1) 1 Inr 2 pre by (auto simp: put_transfer_def staged_prefix_def)
  qed
qed

lemma od_sender_remote: "od_sender s \<lparr>rq_RemoteAddr = remote, rq_RawQuery = q\<rparr> = od_sender s \<lparr>rq_RemoteAddr = remote, rq_RawQuery = []\<rparr>"
  by (simp add: od_sender_def)

lemma Send_to_receiver:
  assumes "clean_dir (od_dir s)" and "plain h" and "od_sender s \<lparr>rq_RemoteAddr = remote, rq_RawQuery = []\<rparr> = Inr h"
    and "map_of sfs path = Some (Reg content t0)" and "sendable (path_base path)" and "length content < 2 ^ 63"
    and "d = od_dir s @ ''/'' @ h" and "part = d @ ''/'' @ part_name (path_base path) (length content)"
    and "part \<notin> od_busy s" and "staged_prefix fs part content" and "n = length (staged fs part)"
    and "put_transfer io now (d, part, d @ ''/'' @ path_base path) (length content) n
       (case c of None \<Rightarrow> (drop n content, True) | Some k \<Rightarrow> (take k (drop n content), False)) fs = (fs', r)"
  shows "Send (to_receiver io now remote c) sfs path (s, fs) = ((s, fs'), case c of
      Some _ \<Rightarrow> Inl (ErrWrap ''transfer interrupted (rerun to resume): %w'' ErrDriver)
    | None \<Rightarrow> if r = OdNoContent then Inr () else Inl (ErrMsg ''receiver rejected the file: %s: %s''))"
proof -
  let ?name = "path_base path" and ?sz = "length content"
  define q q2 where "q = send_query ?name ?sz" and "q2 = send_query ?name ?sz @ ''&offset='' @ itoa n"
  have n: "n \<le> ?sz" using staged_take [OF assms(10)] assms(11) by simp
  have name: "plain ?name" "CHR '';'' \<notin> set ?name" "\<not> has_ctl ?name" using assms(5) by (auto simp: sendable_def)
  have paths: "od_paths s h ?name ?sz = (d, part, d @ ''/'' @ ?name)"
    using od_paths_plain [OF assms(1,2) name(1), of ?sz] assms(7,8) by (simp add: Let_def)
  have sender: "od_sender s \<lparr>rq_RemoteAddr = remote, rq_RawQuery = q\<rparr> = Inr h" for q using od_sender_remote assms(3) by metis
  have params: "od_params \<lparr>rq_RemoteAddr = remote, rq_RawQuery = q\<rparr> = Inr (?name, ?sz)"
    "od_params \<lparr>rq_RemoteAddr = remote, rq_RawQuery = q2\<rparr> = Inr (?name, ?sz)"
    using params_sent [OF assms(5,6)] q_def q2_def by blast+
  have off: "parse_int64 (query_get q2 ''offset'') = Some (int n)"
    using query_values(3) [OF name(2), of q2 ?sz n] q2_def parse_int64_itoa [of n] n assms(6) by simp
  have get: "handleOffset s fs \<lparr>rq_RemoteAddr = remote, rq_RawQuery = q\<rparr> = OdOffset n"
    using assms(11) by (simp add: handleOffset_def sender params paths staged_def split: option.splits inode.splits)
  have put: "handlePut io now s \<lparr>rq_RemoteAddr = remote, rq_RawQuery = q2\<rparr> body fs = (s, fs1, r1)"
    if "put_transfer io now (d, part, d @ ''/'' @ ?name) ?sz n body fs = (fs1, r1)" for body fs1 r1
    using that n assms(9) by (simp add: handlePut_def sender params(2) off paths Let_def)
  show ?thesis
    using assms(4,12) put get n name(3)
    by (auto simp: Send_def q_def [symmetric] q2_def [simplified, folded q_def, symmetric] send_query_ctl [of ?name ?sz, folded q_def] to_receiver_def Let_def split: option.splits od_response.splits)
qed

lemma put_full_succeeds:
  assumes "put_transfer no_io_faults now (d, part, final) (length content) n (drop n content, True) fs = (fs', r)"
    and "no_file_in_way fs d" and "length d < length part" and "staged_prefix fs part content" and "n = length (staged fs part)"
  shows "r = OdNoContent"
proof -
  obtain fs1 where m: "MkdirAll None d fs = (fs1, True)"
    using mkdirs_ok [of fs "ancestors d"] assms(2) by (cases "mkdirs (ancestors d) fs") (auto simp: MkdirAll_def no_file_in_way_def)
  have p1: "map_of fs1 part = map_of fs part" by (rule MkdirAll_outside [OF m assms(3)])
  obtain fs2 t where o: "put_open no_io_faults now d part n fs = (fs2, Inr (staged fs part))" "map_of fs2 part = Some (Reg (staged fs part) t)"
    using m p1 assms(4,5)
    by (auto simp: put_open_def no_io_faults_def OpenFile_def staged_prefix_def staged_def split: option.splits inode.splits)
  have "n \<le> length content" using staged_take [OF assms(4)] assms(5) by simp
  then obtain fs3 where c: "put_copy no_io_faults now part (length content) n (drop n content, True) (staged fs part) fs2 = (fs3, None)"
    by (auto simp: put_copy_def io_Copy_def no_io_faults_def Let_def)
  obtain t3 where t3: "map_of fs3 part = Some (Reg (staged fs part @ drop n content) t3)"
    using put_copy_effect(2) [OF c o(2) assms(5) [symmetric]] by auto
  have "map_of fs3 (dedupePath fs3 final) = None" using dedupePath_free(1) [of fs3 final] by (simp add: fs_exists_def)
  then show ?thesis using assms(1) o(1) c t3 by (simp add: put_transfer_def put_commit_def Rename_def no_io_faults_def)
qed

text \<open>Attempts that are cut off: each has its own failures and its own number of bytes that arrive.\<close>

definition cut_attempts :: "(io_faults \<times> int \<times> nat) list \<Rightarrow> string \<Rightarrow> fs \<Rightarrow> string \<Rightarrow> receiver \<Rightarrow> receiver" where
  "cut_attempts as remote sfs path w = fold (\<lambda>(io, now, k) w. fst (Send (to_receiver io now remote (Some k)) sfs path w)) as w"

lemma cut_attempts_stage:
  assumes "clean_dir (od_dir s)" and "plain h" and "od_sender s \<lparr>rq_RemoteAddr = remote, rq_RawQuery = []\<rparr> = Inr h"
    and "map_of sfs path = Some (Reg content t0)" and "sendable (path_base path)" and "length content < 2 ^ 63"
    and "d = od_dir s @ ''/'' @ h" and "part = d @ ''/'' @ part_name (path_base path) (length content)"
    and "part \<notin> od_busy s" and "staged_prefix fs part content"
  shows "\<exists>fs'. cut_attempts as remote sfs path (s, fs) = (s, fs') \<and> untouched {part} fs fs' \<and> staged_prefix fs' part content"
  using assms(10)
proof (induction as arbitrary: fs)
  case Nil
  then show ?case by (simp add: cut_attempts_def)
next
  case (Cons a as)
  obtain io now k where a: "a = (io, now, k)" by (cases a)
  let ?n = "length (staged fs part)"
  obtain fs1 r where t: "put_transfer io now (d, part, d @ ''/'' @ path_base path) (length content) ?n (take k (drop ?n content), False) fs = (fs1, r)"
    by fastforce
  have "length d < length part" using assms(8) by simp
  then have 1: "staged_prefix fs1 part content" "r \<noteq> OdNoContent" using put_cut_staged [OF t _ Cons.prems] by auto
  have u: "untouched {part} fs fs1" by (rule put_transfer_effect(1) [OF t 1(2)])
  have "fst (Send (to_receiver io now remote (Some k)) sfs path (s, fs)) = (s, fs1)"
    using Send_to_receiver [OF assms(1-9) Cons.prems refl, of io now "Some k" fs1 r] t by simp
  then show ?case using Cons.IH [OF 1(1)] u by (auto simp: cut_attempts_def a intro: untouched_trans)
qed

text \<open>
  Claim C9. A transfer survives interruptions: however often sending a file is cut off, after however
  many bytes and with whatever failures at the receiver, the next undisturbed attempt succeeds, and
  then the file is in the inbox under the sender's name with exactly its bytes, once, under a name
  that was free, the staged file is gone and every other file is as it was before the first attempt.
\<close>
theorem resumed_transfer_exact:
  assumes "clean_dir (od_dir s)" and "plain h" and "od_sender s \<lparr>rq_RemoteAddr = remote, rq_RawQuery = []\<rparr> = Inr h"
    and "map_of sfs path = Some (Reg content t0)" and "sendable (path_base path)" and "length content < 2 ^ 63"
    and "d = od_dir s @ ''/'' @ h" and "part = d @ ''/'' @ part_name (path_base path) (length content)"
    and "part \<notin> od_busy s" and "staged_prefix fs part content" and "no_file_in_way fs d"
  shows "\<exists>fs' e t. Send (to_receiver no_io_faults now remote None) sfs path (cut_attempts as remote sfs path (s, fs)) = ((s, fs'), Inr ()) \<and>
    plain e \<and> \<not> fs_exists fs (d @ ''/'' @ e) \<and> map_of fs' (d @ ''/'' @ e) = Some (Reg content t) \<and>
    map_of fs' part = None \<and> untouched {part, d @ ''/'' @ e} fs fs'"
proof -
  obtain fs1 where 1: "cut_attempts as remote sfs path (s, fs) = (s, fs1)" "untouched {part} fs fs1" "staged_prefix fs1 part content"
    using cut_attempts_stage [OF assms(1-10)] by blast
  have len: "length d < length part" using assms(8) by simp
  have d: "clean_dir d" using clean_dir_append [OF assms(1,2)] assms(7) by simp
  have name: "plain (path_base path)" using assms(5) by (simp add: sendable_def)
  let ?n = "length (staged fs1 part)" and ?final = "d @ ''/'' @ path_base path"
  obtain fs' r where t: "put_transfer no_io_faults now (d, part, ?final) (length content) ?n (drop ?n content, True) fs1 = (fs', r)"
    by fastforce
  have r: "r = OdNoContent" by (rule put_full_succeeds [OF t no_file_in_way_untouched [OF assms(11) 1(2) len] len 1(3) refl])
  obtain fs2 tm where e: "untouched {part} fs1 fs2" "\<not> fs_exists fs2 (dedupePath fs2 ?final)"
    "map_of fs' (dedupePath fs2 ?final) = Some (Reg content tm)" "map_of fs' part = None" "untouched {part, dedupePath fs2 ?final} fs1 fs'"
    using put_transfer_effect(2) [OF t r] staged_take [OF 1(3)] by (metis append_take_drop_id fst_conv)
  obtain el where el: "plain el" "dedupePath fs2 ?final = d @ ''/'' @ el" using dedupePath_in_dir [OF d name] by blast
  have "d @ ''/'' @ el \<noteq> part" using e(3,4) el(2) by auto
  then have "\<not> fs_exists fs (d @ ''/'' @ el)"
    using free_untouched [OF untouched_trans [OF 1(2) e(1)]] e(2) el(2) by simp
  moreover have "Send (to_receiver no_io_faults now remote None) sfs path (s, fs1) = ((s, fs'), Inr ())"
    using Send_to_receiver [OF assms(1-9) 1(3) refl, of no_io_faults now None fs' r] t r by simp
  moreover have "untouched {part, d @ ''/'' @ el} fs fs'"
    by (rule untouched_trans [OF untouched_mono [OF 1(2)] e(5) [unfolded el(2)]]) simp
  ultimately show ?thesis using 1(1) e(3,4) el by (intro exI [of _ fs'] exI [of _ el] exI [of _ tm]) simp
qed

section \<open>A sample receiver\<close>

definition sample_receiver :: od_Server where
  "sample_receiver = od_NewServer ''/in'' (\<lambda>_. ''laptop'')"

definition sample_inbox :: fs where
  "sample_inbox = [(''/in'', Directory), (''/in/laptop'', Directory), (''/in/laptop/a.txt'', Reg [9] 0), (''/in/laptop/a.txt.3.part'', Reg [1] 0)]"

lemma sample_sender: "od_sender sample_receiver \<lparr>rq_RemoteAddr = ''100.64.0.2:5000'', rq_RawQuery = q\<rparr> = Inr ''laptop''"
  by (subst od_sender_remote) code_simp

lemma sample_receiver_ok:
  "clean_dir (od_dir sample_receiver)" "range (od_peerName sample_receiver) \<subseteq> insert [] (Collect plain)"
  "od_dir sample_receiver = ''/in''" "od_busy sample_receiver = {}"
proof -
  show "clean_dir (od_dir sample_receiver)" by code_simp
  have "plain ''laptop''" by code_simp
  then show "range (od_peerName sample_receiver) \<subseteq> insert [] (Collect plain)" by (auto simp: sample_receiver_def od_NewServer_def)
qed (simp_all add: sample_receiver_def od_NewServer_def)

lemma sample_staged:
  "''/in/laptop/'' @ part_name ''a.txt'' 3 = ''/in/laptop/a.txt.3.part''" "staged sample_inbox ''/in/laptop/a.txt.3.part'' = [1]"
  by code_simp+

theorem put_never_overwrites_witness:
  "\<exists>fs' e t. handlePut no_io_faults 7 sample_receiver \<lparr>rq_RemoteAddr = ''100.64.0.2:5000'', rq_RawQuery = ''name=a.txt&size=3&offset=1''\<rparr>
      ([2, 3], True) sample_inbox = (sample_receiver, fs', OdNoContent) \<and>
    plain e \<and> \<not> fs_exists sample_inbox (''/in/laptop/'' @ e) \<and> map_of fs' (''/in/laptop/'' @ e) = Some (Reg [1, 2, 3] t)"
proof -
  let ?r = "\<lparr>rq_RemoteAddr = ''100.64.0.2:5000'', rq_RawQuery = ''name=a.txt&size=3&offset=1''\<rparr>"
  obtain s' fs' resp where h: "handlePut no_io_faults 7 sample_receiver ?r ([2, 3], True) sample_inbox = (s', fs', resp)"
    by (rule prod_cases3)
  have "snd (snd (handlePut no_io_faults 7 sample_receiver ?r ([2, 3], True) sample_inbox)) = OdNoContent" by code_simp
  then have r: "resp = OdNoContent" using h by simp
  have p: "od_params ?r = Inr (''a.txt'', 3)" by code_simp
  show ?thesis
    using put_never_overwrites [OF sample_receiver_ok(1,2) h] h r
    by (auto simp: sample_sender p sample_receiver_ok(3) sample_staged [simplified] Let_def)
qed

theorem resumed_transfer_exact_witness:
  "\<exists>fs' e t. Send (to_receiver no_io_faults 7 ''100.64.0.2:5000'' None) [(''/home/a.txt'', Reg [1, 2, 3] 0)] ''/home/a.txt''
      (cut_attempts [(no_io_faults, 5, 1)] ''100.64.0.2:5000'' [(''/home/a.txt'', Reg [1, 2, 3] 0)] ''/home/a.txt'' (sample_receiver, sample_inbox)) =
      ((sample_receiver, fs'), Inr ()) \<and> plain e \<and> map_of fs' (''/in/laptop/'' @ e) = Some (Reg [1, 2, 3] t)"
proof -
  have b: "path_base ''/home/a.txt'' = ''a.txt''" "sendable ''a.txt''" "plain ''laptop''" "no_file_in_way sample_inbox ''/in/laptop''" by code_simp+
  have pn: "part_name ''a.txt'' (Suc (Suc (Suc 0))) = ''a.txt.3.part''" by code_simp
  have "map_of sample_inbox ''/in/laptop/a.txt.3.part'' = Some (Reg [1] 0)" by code_simp
  then have "staged_prefix sample_inbox ''/in/laptop/a.txt.3.part'' [1, 2, 3]" by (auto simp: staged_prefix_def intro: exI [of _ 1])
  then show ?thesis
    using resumed_transfer_exact [OF sample_receiver_ok(1) b(3) sample_sender, of "[(''/home/a.txt'', Reg [1, 2, 3] 0)]" "''/home/a.txt''" "[1, 2, 3]" 0
      "''/in/laptop''" "''/in/laptop/a.txt.3.part''" sample_inbox 7 "[(no_io_faults, 5, 1)]"] b sample_receiver_ok
    by (auto simp: pn)
qed

text \<open>
  The check for a free name and the renaming are two system calls: of two transfers of the same name
  and different sizes that both pass the check before either renames, the second replaces the
  file of the first.
\<close>

lemma dedupe_rename_race:
  assumes "map_of fs p1 = Some (Reg b1 t1)" and "map_of fs p2 = Some (Reg b2 t2)" and "p1 \<noteq> p2" and "\<not> fs_exists fs final"
  shows "case Rename False p1 (dedupePath fs final) fs of (fs1, ok1) \<Rightarrow> ok1 \<and> map_of fs1 final = Some (Reg b1 t1) \<and>
    (case Rename False p2 (dedupePath fs final) fs1 of (fs2, ok2) \<Rightarrow> ok2 \<and> map_of fs2 final = Some (Reg b2 t2))"
proof -
  have "dedupePath fs final = final" using assms(4) by (simp add: dedupePath_def dedupe_file.simps)
  then show ?thesis using assms by (auto simp: Rename_def fs_exists_def split: option.splits)
qed

text \<open>Names with a semicolon cannot be sent: \<^verbatim>\<open>urlEscape\<close> leaves the character and the receiver's query
  parser drops the pair.\<close>

lemma semicolon_name_refused:
  assumes "CHR '';'' \<in> set name"
  shows "query_get (send_query name sz) ''name'' = [] \<and>
    od_params \<lparr>rq_RemoteAddr = remote, rq_RawQuery = send_query name sz\<rparr> = Inl (ErrMsg ''bad name'')"
proof -
  have "parse_pair (''name='' @ urlEscape name) = None" using assms escape_set(2) [of name] by (simp add: parse_pair_def)
  then have "query_get (send_query name sz) ''name'' = []"
    using parse_pair_itoa [of "''size''" sz] by (simp add: query_get_def ParseQuery_def query_parts List.map_filter_simps)
  then show ?thesis by (simp add: od_params_def path_base_def trim_space_def trim_func_def)
qed

end
