(* ===== verification/Router.thy ===== *)
theory Router
  imports Golib
begin

text \<open>
  The operating system around the tunnel on Linux, \<^verbatim>\<open>src/internal/router/router.go\<close> and
  \<^verbatim>\<open>src/internal/router/router_linux.go\<close>: forwarding and NAT on a router or exit node
  (\<^verbatim>\<open>Advertiser\<close>), policy routing through a chosen exit node (\<^verbatim>\<open>ExitClient\<close>) and the routes of peers'
  subnets (\<^verbatim>\<open>RouteSync\<close>).

  The system itself is a parameter: the record \<open>linux\<close> holds how commands run and how the files
  under /proc/sys are read and written, on a state of any type. \<open>iptables_ok\<close> states what the manual
  of iptables says of -C, -A and -D and that different files and rules are independent. The
  iteration order of Go maps is the order of the lists here. The macOS variant is \<open>Router_Darwin\<close>; that of Windows is left out.

  The main result: as long as every \<^verbatim>\<open>Apply\<close> succeeds, \<^verbatim>\<open>Close\<close> leaves forwarding switches and rules
  as they were before the first one. Two lemmas show what happens when one fails half way.
\<close>

section \<open>The system\<close>

record 'os linux =
  lx_run :: "string list \<Rightarrow> 'os \<Rightarrow> 'os \<times> bool"
  lx_read :: "string \<Rightarrow> 'os \<Rightarrow> string option"
  lx_write :: "string \<Rightarrow> string \<Rightarrow> 'os \<Rightarrow> 'os \<times> bool"

definition SocketMark :: nat where "SocketMark = 0x6f6d"
definition FwdMark :: nat where "FwdMark = 0x6f6e"

definition hasV4 :: "Prefix list \<Rightarrow> bool" where
  "hasV4 routes \<longleftrightarrow> list_ex (\<lambda>r. addr_is4 (prefix_addr r)) routes"

definition hasV6 :: "Prefix list \<Rightarrow> bool" where
  "hasV6 routes \<longleftrightarrow> list_ex (\<lambda>r. addr_is6 (prefix_addr r)) routes"

definition readSysctl :: "'os linux \<Rightarrow> string \<Rightarrow> 'os \<Rightarrow> string" where
  "readSysctl lx path os = (case lx_read lx path os of None \<Rightarrow> [] | Some b \<Rightarrow> trim_space b)"

definition restoreSysctl :: "'os linux \<Rightarrow> string \<Rightarrow> string \<Rightarrow> 'os \<Rightarrow> 'os" where
  "restoreSysctl lx path old os = (if old \<noteq> [] then fst (lx_write lx path old os) else os)"

section \<open>Advertiser\<close>

record Advertiser =
  adv_iface :: string
  adv_v4 :: bool
  adv_v6 :: bool
  adv_oldFwd4 :: string
  adv_oldFwd6 :: string

definition NewAdvertiser :: Advertiser where
  "NewAdvertiser = \<lparr>adv_iface = [], adv_v4 = False, adv_v6 = False, adv_oldFwd4 = [], adv_oldFwd6 = []\<rparr>"

definition forward4 :: string where "forward4 = ''/proc/sys/net/ipv4/ip_forward''"
definition forward6 :: string where "forward6 = ''/proc/sys/net/ipv6/conf/all/forwarding''"

text \<open>A rule is a table, a chain and the rest of its specification.\<close>

datatype ipt_rule = IptRule string string "string list"

definition rule_specs :: "string \<Rightarrow> ipt_rule list" where
  "rule_specs iface = (let mark = ''0x'' @ hexs FwdMark in
     [IptRule ''mangle'' ''PREROUTING'' [''-i'', iface, ''-j'', ''MARK'', ''--set-xmark'', mark],
      IptRule ''nat'' ''POSTROUTING'' [''-m'', ''mark'', ''--mark'', mark, ''-j'', ''MASQUERADE''],
      IptRule ''filter'' ''FORWARD'' [''-i'', iface, ''-j'', ''ACCEPT''],
      IptRule ''filter'' ''FORWARD'' [''-o'', iface, ''-j'', ''ACCEPT'']])"

definition ipt_cmd :: "string \<Rightarrow> string \<Rightarrow> ipt_rule \<Rightarrow> string list" where
  "ipt_cmd ipt act r = (case r of IptRule table chain rest \<Rightarrow> ipt # ''-t'' # table # act # chain # rest)"

fun add_rules :: "'os linux \<Rightarrow> string \<Rightarrow> ipt_rule list \<Rightarrow> 'os \<Rightarrow> 'os \<times> bool" where
  "add_rules lx ipt [] os = (os, True)"
| "add_rules lx ipt (r # rs) os = (case lx_run lx (ipt_cmd ipt ''-C'' r) os of
     (os1, True) \<Rightarrow> add_rules lx ipt rs os1
   | (os1, False) \<Rightarrow> (case lx_run lx (ipt_cmd ipt ''-A'' r) os1 of
       (os2, True) \<Rightarrow> add_rules lx ipt rs os2
     | (os2, False) \<Rightarrow> (os2, False)))"

fun delete_rules :: "'os linux \<Rightarrow> string \<Rightarrow> ipt_rule list \<Rightarrow> 'os \<Rightarrow> 'os" where
  "delete_rules lx ipt [] os = os"
| "delete_rules lx ipt (r # rs) os = (case lx_run lx (ipt_cmd ipt ''-C'' r) os of
     (os1, True) \<Rightarrow> delete_rules lx ipt rs (fst (lx_run lx (ipt_cmd ipt ''-D'' r) os1))
   | (os1, False) \<Rightarrow> delete_rules lx ipt rs os1)"

definition adv_rules :: "'os linux \<Rightarrow> string \<Rightarrow> string \<Rightarrow> bool \<Rightarrow> 'os \<Rightarrow> 'os \<times> bool" where
  "adv_rules lx ipt iface add os =
     (if add then add_rules lx ipt (rule_specs iface) os else (delete_rules lx ipt (rule_specs iface) os, True))"

definition off4 :: "'os linux \<Rightarrow> string \<Rightarrow> Advertiser \<Rightarrow> 'os \<Rightarrow> Advertiser \<times> 'os" where
  "off4 lx iface a os =
     (a\<lparr>adv_v4 := False\<rparr>, restoreSysctl lx forward4 (adv_oldFwd4 a) (fst (adv_rules lx ''iptables'' iface False os)))"

definition off6 :: "'os linux \<Rightarrow> string \<Rightarrow> Advertiser \<Rightarrow> 'os \<Rightarrow> Advertiser \<times> 'os" where
  "off6 lx iface a os =
     (a\<lparr>adv_v6 := False\<rparr>, restoreSysctl lx forward6 (adv_oldFwd6 a) (fst (adv_rules lx ''ip6tables'' iface False os)))"

definition on4 :: "'os linux \<Rightarrow> string \<Rightarrow> Advertiser \<Rightarrow> 'os \<Rightarrow> Advertiser \<times> 'os \<times> unit res" where
  "on4 lx iface a os =
     (let a1 = a\<lparr>adv_oldFwd4 := readSysctl lx forward4 os\<rparr> in
      case lx_write lx forward4 ''1'' os of
        (os1, False) \<Rightarrow> (a1, os1, Inl ErrDriver)
      | (os1, True) \<Rightarrow> (case adv_rules lx ''iptables'' iface True os1 of
          (os2, False) \<Rightarrow> (a1, os2, Inl ErrDriver)
        | (os2, True) \<Rightarrow> (a1\<lparr>adv_v4 := True\<rparr>, os2, Inr ())))"

definition on6 :: "'os linux \<Rightarrow> string \<Rightarrow> Advertiser \<Rightarrow> 'os \<Rightarrow> Advertiser \<times> 'os" where
  "on6 lx iface a os =
     (let a1 = a\<lparr>adv_oldFwd6 := readSysctl lx forward6 os\<rparr> in
      case lx_write lx forward6 ''1'' os of
        (os1, False) \<Rightarrow> (a1, os1)
      | (os1, True) \<Rightarrow> (case adv_rules lx ''ip6tables'' iface True os1 of
          (os2, False) \<Rightarrow> (a1, os2)
        | (os2, True) \<Rightarrow> (a1\<lparr>adv_v6 := True\<rparr>, os2)))"

definition adv_teardown :: "'os linux \<Rightarrow> Advertiser \<Rightarrow> 'os \<Rightarrow> Advertiser \<times> 'os" where
  "adv_teardown lx a os =
     (case (if adv_v4 a then off4 lx (adv_iface a) a os else (a, os)) of
        (a1, os1) \<Rightarrow> if adv_v6 a1 then off6 lx (adv_iface a1) a1 os1 else (a1, os1))"

definition adv_Close :: "'os linux \<Rightarrow> Advertiser \<Rightarrow> 'os \<Rightarrow> Advertiser \<times> 'os" where
  "adv_Close lx a os = adv_teardown lx a os"

definition adv_Apply :: "'os linux \<Rightarrow> string \<Rightarrow> Prefix list \<Rightarrow> Advertiser \<Rightarrow> 'os \<Rightarrow> Advertiser \<times> 'os \<times> unit res" where
  "adv_Apply lx iface routes a os =
     (let wantV4 = hasV4 routes; wantV6 = hasV6 routes in
      case (if adv_iface a \<noteq> [] \<and> adv_iface a \<noteq> iface then adv_teardown lx a os else (a, os)) of
        (a0, os0) \<Rightarrow>
          (case (if wantV4 \<and> \<not> adv_v4 a0 then on4 lx iface (a0\<lparr>adv_iface := iface\<rparr>) os0 else (a0\<lparr>adv_iface := iface\<rparr>, os0, Inr ())) of
             (a1, os1, Inl e) \<Rightarrow> (a1, os1, Inl e)
           | (a1, os1, Inr _) \<Rightarrow>
              (case (if \<not> wantV4 \<and> adv_v4 a1 then off4 lx iface a1 os1 else (a1, os1)) of
                 (a2, os2) \<Rightarrow>
                   (case (if wantV6 \<and> \<not> adv_v6 a2 then on6 lx iface a2 os2 else (a2, os2)) of
                      (a3, os3) \<Rightarrow>
                        (case (if \<not> wantV6 \<and> adv_v6 a3 then off6 lx iface a3 os3 else (a3, os3)) of
                           (a4, os4) \<Rightarrow> (a4, os4, Inr ()))))))"

section \<open>ExitClient\<close>

definition exitTable :: string where "exitTable = ''52''"

record ExitClient =
  ec_active :: bool
  ec_iface :: string
  ec_oldRP :: string

definition NewExitClient :: ExitClient where
  "NewExitClient = \<lparr>ec_active = False, ec_iface = [], ec_oldRP = []\<rparr>"

definition socket_mark :: string where "socket_mark = ''0x'' @ hexs SocketMark"

definition rp_path :: "string \<Rightarrow> string" where
  "rp_path iface = ''/proc/sys/net/ipv4/conf/'' @ iface @ ''/rp_filter''"

text \<open>The commands, for IPv4 with an empty and for IPv6 with the option list \<^verbatim>\<open>-6\<close>.\<close>

definition route_replace :: "string list \<Rightarrow> string \<Rightarrow> string list" where
  "route_replace fam iface = ''ip'' # fam @ [''route'', ''replace'', ''default'', ''dev'', iface, ''table'', exitTable]"

definition rule_main :: "string list \<Rightarrow> string \<Rightarrow> string list" where
  "rule_main fam act = ''ip'' # fam @ [''rule'', act, ''pref'', ''5250'', ''not'', ''fwmark'', socket_mark, ''lookup'', ''main'', ''suppress_prefixlength'', ''0'']"

definition rule_exit :: "string list \<Rightarrow> string \<Rightarrow> string list" where
  "rule_exit fam act = ''ip'' # fam @ [''rule'', act, ''pref'', ''5270'', ''not'', ''fwmark'', socket_mark, ''lookup'', exitTable]"

definition route_flush :: "string list \<Rightarrow> string list" where
  "route_flush fam = ''ip'' # fam @ [''route'', ''flush'', ''table'', exitTable]"

text \<open>Commands whose result is ignored, and commands of which the first failure ends the sequence.\<close>

definition run_all :: "'os linux \<Rightarrow> string list list \<Rightarrow> 'os \<Rightarrow> 'os" where
  "run_all lx cmds os = fold (\<lambda>c os. fst (lx_run lx c os)) cmds os"

fun run_until :: "'os linux \<Rightarrow> string list list \<Rightarrow> 'os \<Rightarrow> 'os \<times> bool" where
  "run_until lx [] os = (os, True)"
| "run_until lx (c # cs) os = (case lx_run lx c os of (os1, True) \<Rightarrow> run_until lx cs os1 | (os1, False) \<Rightarrow> (os1, False))"

definition ec_teardown :: "'os linux \<Rightarrow> ExitClient \<Rightarrow> 'os \<Rightarrow> ExitClient \<times> 'os" where
  "ec_teardown lx e os =
     (if \<not> ec_active e then (e, os)
      else (let os1 = run_all lx (concat (map (\<lambda>fam. [rule_exit fam ''del'', rule_main fam ''del'', route_flush fam]) [[], [''-6'']])) os in
        (e\<lparr>ec_active := False, ec_iface := []\<rparr>, restoreSysctl lx (rp_path (ec_iface e)) (ec_oldRP e) os1)))"

definition ec_Remove :: "'os linux \<Rightarrow> ExitClient \<Rightarrow> 'os \<Rightarrow> ExitClient \<times> 'os" where
  "ec_Remove lx e os = ec_teardown lx e os"

definition ec_SetBypassHosts :: "Addr list \<Rightarrow> ExitClient \<Rightarrow> ExitClient" where
  "ec_SetBypassHosts _ e = e"

definition ec_Apply :: "'os linux \<Rightarrow> string \<Rightarrow> bool \<Rightarrow> ExitClient \<Rightarrow> 'os \<Rightarrow> ExitClient \<times> 'os \<times> unit res" where
  "ec_Apply lx iface v6 e os =
     (if ec_active e \<and> ec_iface e = iface then (e, os, Inr ())
      else (case (if ec_active e then ec_teardown lx e os else (e, os)) of
        (e1, os1) \<Rightarrow>
          (case run_until lx [route_replace [] iface, rule_main [] ''add'', rule_exit [] ''add''] os1 of
             (os2, False) \<Rightarrow> (e1, os2, Inl ErrDriver)
           | (os2, True) \<Rightarrow>
              (let os3 = (if v6 then (case lx_run lx (route_replace [''-6''] iface) os2 of
                            (os', True) \<Rightarrow> run_all lx [rule_main [''-6''] ''add'', rule_exit [''-6''] ''add''] os'
                          | (os', False) \<Rightarrow> os') else os2);
                   e2 = e1\<lparr>ec_oldRP := readSysctl lx (rp_path iface) os3\<rparr>;
                   os4 = fst (lx_write lx (rp_path iface) ''2'' os3)
               in (e2\<lparr>ec_active := True, ec_iface := iface\<rparr>, os4, Inr ())))))"

section \<open>RouteSync\<close>

record RouteSync =
  rs_iface :: string
  rs_current :: "Prefix list"

definition NewRouteSync :: RouteSync where
  "NewRouteSync = \<lparr>rs_iface = [], rs_current = []\<rparr>"

definition famArgs :: "Prefix \<Rightarrow> string list \<Rightarrow> string list" where
  "famArgs p a = (if addr_is6 (prefix_addr p) then ''-6'' # a else a)"

definition route_del :: "string \<Rightarrow> Prefix \<Rightarrow> string list" where
  "route_del iface p = ''ip'' # famArgs p [''route'', ''del'', prefix_text p, ''dev'', iface]"

definition route_add :: "string \<Rightarrow> Prefix \<Rightarrow> string list" where
  "route_add iface p = ''ip'' # famArgs p [''route'', ''replace'', prefix_text p, ''dev'', iface]"

fun sync_add :: "'os linux \<Rightarrow> string \<Rightarrow> Prefix list \<Rightarrow> Prefix list \<Rightarrow> 'os \<Rightarrow> Prefix list \<times> 'os" where
  "sync_add lx iface [] cur os = (cur, os)"
| "sync_add lx iface (p # ps) cur os =
     (if p \<in> set cur then sync_add lx iface ps cur os
      else (case lx_run lx (route_add iface p) os of
        (os1, False) \<Rightarrow> sync_add lx iface ps cur os1
      | (os1, True) \<Rightarrow> sync_add lx iface ps (cur @ [p]) os1))"

definition rs_Sync :: "'os linux \<Rightarrow> string \<Rightarrow> Prefix list \<Rightarrow> RouteSync \<Rightarrow> 'os \<Rightarrow> RouteSync \<times> 'os" where
  "rs_Sync lx iface want r os =
     (let gone = filter (\<lambda>p. p \<notin> set want) (rs_current r);
          os1 = run_all lx (map (route_del iface) gone) os in
      case sync_add lx iface (remdups want) (filter (\<lambda>p. p \<in> set want) (rs_current r)) os1 of
        (cur, os2) \<Rightarrow> (\<lparr>rs_iface = iface, rs_current = cur\<rparr>, os2))"

definition rs_Close :: "'os linux \<Rightarrow> RouteSync \<Rightarrow> 'os \<Rightarrow> RouteSync \<times> 'os" where
  "rs_Close lx r os = (r\<lparr>rs_current := []\<rparr>, run_all lx (map (route_del (rs_iface r)) (rs_current r)) os)"

section \<open>What the commands do\<close>

text \<open>\<open>cnt os ipt r\<close> is how often the rule is in its chain. -C reports whether a rule is there, -A appends it,
  -D removes one occurrence, and writing a file under /proc/sys changes that file.\<close>

type_synonym 'os rule_count = "'os \<Rightarrow> string \<Rightarrow> ipt_rule \<Rightarrow> nat"

definition iptables_ok :: "'os linux \<Rightarrow> 'os rule_count \<Rightarrow> bool" where
  "iptables_ok lx cnt \<longleftrightarrow>
     (\<forall>ipt r os. lx_run lx (ipt_cmd ipt ''-C'' r) os = (os, 0 < cnt os ipt r)) \<and>
     (\<forall>ipt r os os' ok. lx_run lx (ipt_cmd ipt ''-A'' r) os = (os', ok) \<longrightarrow> ok \<and>
        cnt os' = (cnt os)(ipt := (cnt os ipt)(r := Suc (cnt os ipt r))) \<and> (\<forall>p. lx_read lx p os' = lx_read lx p os)) \<and>
     (\<forall>ipt r os os' ok. lx_run lx (ipt_cmd ipt ''-D'' r) os = (os', ok) \<longrightarrow> 0 < cnt os ipt r \<longrightarrow> ok \<and>
        cnt os' = (cnt os)(ipt := (cnt os ipt)(r := cnt os ipt r - 1)) \<and> (\<forall>p. lx_read lx p os' = lx_read lx p os)) \<and>
     (\<forall>p v os os' ok. lx_write lx p v os = (os', ok) \<longrightarrow> ok \<and> cnt os' = cnt os \<and>
        (\<forall>q. lx_read lx q os' = (if q = p then Some v else lx_read lx q os)))"

lemma iptables_okD:
  assumes "iptables_ok lx cnt"
  shows "lx_run lx (ipt_cmd ipt ''-C'' r) os = (os, 0 < cnt os ipt r)"
    and "lx_run lx (ipt_cmd ipt ''-A'' r) os = (os', ok) \<Longrightarrow> ok \<and>
      cnt os' = (cnt os)(ipt := (cnt os ipt)(r := Suc (cnt os ipt r))) \<and> (\<forall>p. lx_read lx p os' = lx_read lx p os)"
    and "lx_run lx (ipt_cmd ipt ''-D'' r) os = (os', ok) \<Longrightarrow> 0 < cnt os ipt r \<Longrightarrow> ok \<and>
      cnt os' = (cnt os)(ipt := (cnt os ipt)(r := cnt os ipt r - 1)) \<and> (\<forall>p. lx_read lx p os' = lx_read lx p os)"
    and "lx_write lx p v os = (os', ok) \<Longrightarrow> ok \<and> cnt os' = cnt os \<and> (\<forall>q. lx_read lx q os' = (if q = p then Some v else lx_read lx q os))"
  using assms unfolding iptables_ok_def by blast+

lemma rule_specs_distinct: "distinct (rule_specs iface)"
  by (simp add: rule_specs_def Let_def)

definition bump :: "'os rule_count \<Rightarrow> 'os \<Rightarrow> string \<Rightarrow> ipt_rule list \<Rightarrow> nat \<Rightarrow> string \<Rightarrow> ipt_rule \<Rightarrow> nat" where
  "bump cnt os ipt rs n = (\<lambda>i r. if i = ipt \<and> r \<in> set rs then n else cnt os i r)"

lemma add_rules_effect:
  assumes "iptables_ok lx cnt" and "distinct rs" and "\<forall>r \<in> set rs. cnt os ipt r = 0" and "add_rules lx ipt rs os = (os', ok)"
  shows "ok \<and> cnt os' = bump cnt os ipt rs 1 \<and> (\<forall>p. lx_read lx p os' = lx_read lx p os)"
  using assms(2-)
proof (induction rs arbitrary: os)
  case Nil
  then show ?case by (auto simp: bump_def)
next
  case (Cons r rs)
  obtain os1 ok1 where a: "lx_run lx (ipt_cmd ipt ''-A'' r) os = (os1, ok1)" by fastforce
  have c: "lx_run lx (ipt_cmd ipt ''-C'' r) os = (os, False)" using iptables_okD(1) [OF assms(1)] Cons.prems(2) by simp
  have e: "ok1" "cnt os1 = (cnt os)(ipt := (cnt os ipt)(r := Suc (cnt os ipt r)))" "\<forall>p. lx_read lx p os1 = lx_read lx p os"
    using iptables_okD(2) [OF assms(1) a] by auto
  have "\<forall>q \<in> set rs. cnt os1 ipt q = 0" using Cons.prems(1,2) e(2) by auto
  then have "ok \<and> cnt os' = bump cnt os1 ipt rs 1 \<and> (\<forall>p. lx_read lx p os' = lx_read lx p os1)"
    using Cons.IH [of os1] Cons.prems a c e(1) by simp
  then show ?case using e Cons.prems(1,2) by (auto simp: bump_def fun_eq_iff)
qed

lemma delete_rules_effect:
  assumes "iptables_ok lx cnt" and "distinct rs" and "\<forall>r \<in> set rs. cnt os ipt r = 1" and "delete_rules lx ipt rs os = os'"
  shows "cnt os' = bump cnt os ipt rs 0 \<and> (\<forall>p. lx_read lx p os' = lx_read lx p os)"
  using assms(2-)
proof (induction rs arbitrary: os)
  case Nil
  then show ?case by (auto simp: bump_def)
next
  case (Cons r rs)
  obtain os1 ok1 where a: "lx_run lx (ipt_cmd ipt ''-D'' r) os = (os1, ok1)" by fastforce
  have c: "lx_run lx (ipt_cmd ipt ''-C'' r) os = (os, True)" using iptables_okD(1) [OF assms(1)] Cons.prems(2) by simp
  have e: "cnt os1 = (cnt os)(ipt := (cnt os ipt)(r := cnt os ipt r - 1))" "\<forall>p. lx_read lx p os1 = lx_read lx p os"
    using iptables_okD(3) [OF assms(1) a] Cons.prems(2) by auto
  have "\<forall>q \<in> set rs. cnt os1 ipt q = 1" using Cons.prems(1,2) e(1) by auto
  then have "cnt os' = bump cnt os1 ipt rs 0 \<and> (\<forall>p. lx_read lx p os' = lx_read lx p os1)"
    using Cons.IH [of os1] Cons.prems a c by simp
  then show ?case using e Cons.prems(1,2) by (auto simp: bump_def fun_eq_iff)
qed

section \<open>Close undoes every Apply\<close>

text \<open>The state of an advertiser and of the system, relative to the system \<open>os0\<close> at the start.\<close>

definition stack_on :: "Advertiser \<Rightarrow> string \<Rightarrow> bool" where
  "stack_on a ipt \<longleftrightarrow> ipt = ''iptables'' \<and> adv_v4 a \<or> ipt = ''ip6tables'' \<and> adv_v6 a"

definition adv_inv :: "'os linux \<Rightarrow> 'os rule_count \<Rightarrow> 'os \<Rightarrow> Advertiser \<Rightarrow> 'os \<Rightarrow> bool" where
  "adv_inv lx cnt os0 a os \<longleftrightarrow>
     (\<forall>ipt r. cnt os ipt r = (if stack_on a ipt \<and> r \<in> set (rule_specs (adv_iface a)) then 1 else cnt os0 ipt r)) \<and>
     readSysctl lx forward4 os = (if adv_v4 a then ''1'' else readSysctl lx forward4 os0) \<and>
     readSysctl lx forward6 os = (if adv_v6 a then ''1'' else readSysctl lx forward6 os0) \<and>
     (adv_v4 a \<longrightarrow> adv_oldFwd4 a = readSysctl lx forward4 os0) \<and> (adv_v6 a \<longrightarrow> adv_oldFwd6 a = readSysctl lx forward6 os0) \<and>
     (\<forall>p. p \<notin> {forward4, forward6} \<longrightarrow> lx_read lx p os = lx_read lx p os0)"

text \<open>At the start no rule of the advertiser is there, and both switches can be read.\<close>

definition adv_fresh :: "'os linux \<Rightarrow> 'os rule_count \<Rightarrow> 'os \<Rightarrow> bool" where
  "adv_fresh lx cnt os0 \<longleftrightarrow> (\<forall>ipt iface r. r \<in> set (rule_specs iface) \<longrightarrow> cnt os0 ipt r = 0) \<and>
     readSysctl lx forward4 os0 \<noteq> [] \<and> readSysctl lx forward6 os0 \<noteq> []"

lemma forward_ne [simp]: "forward4 \<noteq> forward6" "forward6 \<noteq> forward4"
  by (simp_all add: forward4_def forward6_def)

lemma stack_names [simp]: "stack_on a ''iptables'' = adv_v4 a" "stack_on a ''ip6tables'' = adv_v6 a"
  by (simp_all add: stack_on_def)

lemma rules_off:
  assumes "iptables_ok lx cnt" and "\<forall>r \<in> set (rule_specs iface). cnt os ipt r = 1" and "adv_rules lx ipt iface False os = (os', ok)"
  shows "cnt os' = bump cnt os ipt (rule_specs iface) 0 \<and> (\<forall>p. lx_read lx p os' = lx_read lx p os)"
  using delete_rules_effect [OF assms(1) rule_specs_distinct assms(2)] assms(3) by (auto simp: adv_rules_def)

lemma rules_on:
  assumes "iptables_ok lx cnt" and "\<forall>r \<in> set (rule_specs iface). cnt os ipt r = 0" and "adv_rules lx ipt iface True os = (os', ok)"
  shows "ok \<and> cnt os' = bump cnt os ipt (rule_specs iface) 1 \<and> (\<forall>p. lx_read lx p os' = lx_read lx p os)"
  using add_rules_effect [OF assms(1) rule_specs_distinct assms(2)] assms(3) by (auto simp: adv_rules_def)

lemma trim_Nil [simp]: "trim_space [] = []"
  by (simp add: trim_space_def trim_func_def)

lemma read_back: "lx_read lx p os' = Some (readSysctl lx p os) \<Longrightarrow> readSysctl lx p os' = readSysctl lx p os"
  by (auto simp: readSysctl_def split: option.splits)

lemma read_same: "lx_read lx p os' = lx_read lx p os \<Longrightarrow> readSysctl lx p os' = readSysctl lx p os"
  by (simp add: readSysctl_def)

lemma restore_effect:
  assumes "iptables_ok lx cnt" and "old \<noteq> []"
  shows "cnt (restoreSysctl lx p old os) = cnt os" "lx_read lx q (restoreSysctl lx p old os) = (if q = p then Some old else lx_read lx q os)"
  using assms(2) iptables_okD(4) [OF assms(1), of p old os] by (auto simp: restoreSysctl_def split: prod.splits) (cases "lx_write lx p old os"; simp)+

lemma off4_inv:
  assumes "iptables_ok lx cnt" and "adv_fresh lx cnt os0" and "adv_inv lx cnt os0 a os" and "adv_v4 a" and "off4 lx (adv_iface a) a os = (a', os')"
  shows "adv_inv lx cnt os0 a' os' \<and> a' = a\<lparr>adv_v4 := False\<rparr>"
proof -
  obtain os1 ok where r: "adv_rules lx ''iptables'' (adv_iface a) False os = (os1, ok)" by fastforce
  have old: "adv_oldFwd4 a = readSysctl lx forward4 os0" "adv_oldFwd4 a \<noteq> []" using assms(2-4) by (auto simp: adv_inv_def adv_fresh_def)
  have "\<forall>r \<in> set (rule_specs (adv_iface a)). cnt os ''iptables'' r = 1" using assms(3,4) by (simp add: adv_inv_def)
  note e = rules_off [OF assms(1) this r]
  have s: "a' = a\<lparr>adv_v4 := False\<rparr>" "os' = restoreSysctl lx forward4 (adv_oldFwd4 a) os1" using assms(5) r by (auto simp: off4_def)
  note w = restore_effect [OF assms(1) old(2), where p = forward4 and os = os1]
  have rs: "readSysctl lx forward4 os' = readSysctl lx forward4 os0" "readSysctl lx forward6 os' = readSysctl lx forward6 os"
    using w(2) [of forward4] w(2) [of forward6] e old(1) s(2) read_back [of lx forward4 os' os0] read_same [of lx forward6 os' os] by simp_all
  have c: "cnt os' = bump cnt os ''iptables'' (rule_specs (adv_iface a)) 0" using w(1) e s(2) by simp
  have z: "cnt os0 ''iptables'' r = 0" if "r \<in> set (rule_specs (adv_iface a))" for r using assms(2) that by (simp add: adv_fresh_def)
  have "cnt os' ipt r = (if stack_on a' ipt \<and> r \<in> set (rule_specs (adv_iface a)) then 1 else cnt os0 ipt r)" for ipt r
    using assms(3) z c s(1) by (simp add: adv_inv_def bump_def stack_on_def) blast
  moreover have "lx_read lx p os' = lx_read lx p os0" if "p \<notin> {forward4, forward6}" for p
    using assms(3) that w(2) e s(2) by (simp add: adv_inv_def)
  ultimately show ?thesis using assms(3) rs s(1) by (simp add: adv_inv_def)
qed

lemma off6_inv:
  assumes "iptables_ok lx cnt" and "adv_fresh lx cnt os0" and "adv_inv lx cnt os0 a os" and "adv_v6 a" and "off6 lx (adv_iface a) a os = (a', os')"
  shows "adv_inv lx cnt os0 a' os' \<and> a' = a\<lparr>adv_v6 := False\<rparr>"
proof -
  obtain os1 ok where r: "adv_rules lx ''ip6tables'' (adv_iface a) False os = (os1, ok)" by fastforce
  have old: "adv_oldFwd6 a = readSysctl lx forward6 os0" "adv_oldFwd6 a \<noteq> []" using assms(2-4) by (auto simp: adv_inv_def adv_fresh_def)
  have "\<forall>r \<in> set (rule_specs (adv_iface a)). cnt os ''ip6tables'' r = 1" using assms(3,4) by (simp add: adv_inv_def)
  note e = rules_off [OF assms(1) this r]
  have s: "a' = a\<lparr>adv_v6 := False\<rparr>" "os' = restoreSysctl lx forward6 (adv_oldFwd6 a) os1" using assms(5) r by (auto simp: off6_def)
  note w = restore_effect [OF assms(1) old(2), where p = forward6 and os = os1]
  have rs: "readSysctl lx forward6 os' = readSysctl lx forward6 os0" "readSysctl lx forward4 os' = readSysctl lx forward4 os"
    using w(2) [of forward4] w(2) [of forward6] e old(1) s(2) read_back [of lx forward6 os' os0] read_same [of lx forward4 os' os] by simp_all
  have c: "cnt os' = bump cnt os ''ip6tables'' (rule_specs (adv_iface a)) 0" using w(1) e s(2) by simp
  have z: "cnt os0 ''ip6tables'' r = 0" if "r \<in> set (rule_specs (adv_iface a))" for r using assms(2) that by (simp add: adv_fresh_def)
  have "cnt os' ipt r = (if stack_on a' ipt \<and> r \<in> set (rule_specs (adv_iface a)) then 1 else cnt os0 ipt r)" for ipt r
    using assms(3) z c s(1) by (simp add: adv_inv_def bump_def stack_on_def) blast
  moreover have "lx_read lx p os' = lx_read lx p os0" if "p \<notin> {forward4, forward6}" for p
    using assms(3) that w(2) e s(2) by (simp add: adv_inv_def)
  ultimately show ?thesis using assms(3) rs s(1) by (simp add: adv_inv_def)
qed

lemma trim_one [simp]: "trim_space ''1'' = ''1''"
  by (simp add: trim_space_def trim_func_def is_space_def)

lemma on4_inv:
  assumes "iptables_ok lx cnt" and "adv_fresh lx cnt os0" and "adv_inv lx cnt os0 a os" and "\<not> adv_v4 a" and "on4 lx (adv_iface a) a os = (a', os', r)"
  shows "adv_inv lx cnt os0 a' os' \<and> adv_v4 a' \<and> adv_v6 a' = adv_v6 a \<and> adv_iface a' = adv_iface a \<and> r = Inr ()"
proof -
  obtain os1 ok1 where w: "lx_write lx forward4 ''1'' os = (os1, ok1)" by fastforce
  obtain os2 ok2 where r: "adv_rules lx ''iptables'' (adv_iface a) True os1 = (os2, ok2)" by fastforce
  note w' = iptables_okD(4) [OF assms(1) w]
  have "\<forall>r \<in> set (rule_specs (adv_iface a)). cnt os1 ''iptables'' r = 0" using assms(2-4) w' by (simp add: adv_inv_def adv_fresh_def)
  note e = rules_on [OF assms(1) this r]
  have s: "a' = a\<lparr>adv_oldFwd4 := readSysctl lx forward4 os, adv_v4 := True\<rparr>" "os' = os2" "r = Inr ()"
    using assms(5) w w' r e by (auto simp: on4_def)
  have "readSysctl lx forward4 os2 = ''1''" "readSysctl lx forward6 os2 = readSysctl lx forward6 os"
    using w' e by (auto simp: readSysctl_def)
  then show ?thesis
    using assms(3,4) w' e s unfolding adv_inv_def by (auto simp: bump_def stack_on_def)
qed

lemma on6_inv:
  assumes "iptables_ok lx cnt" and "adv_fresh lx cnt os0" and "adv_inv lx cnt os0 a os" and "\<not> adv_v6 a" and "on6 lx (adv_iface a) a os = (a', os')"
  shows "adv_inv lx cnt os0 a' os' \<and> adv_v6 a' \<and> adv_v4 a' = adv_v4 a \<and> adv_iface a' = adv_iface a"
proof -
  obtain os1 ok1 where w: "lx_write lx forward6 ''1'' os = (os1, ok1)" by fastforce
  obtain os2 ok2 where r: "adv_rules lx ''ip6tables'' (adv_iface a) True os1 = (os2, ok2)" by fastforce
  note w' = iptables_okD(4) [OF assms(1) w]
  have "\<forall>r \<in> set (rule_specs (adv_iface a)). cnt os1 ''ip6tables'' r = 0" using assms(2-4) w' by (simp add: adv_inv_def adv_fresh_def)
  note e = rules_on [OF assms(1) this r]
  have s: "a' = a\<lparr>adv_oldFwd6 := readSysctl lx forward6 os, adv_v6 := True\<rparr>" "os' = os2"
    using assms(5) w w' r e by (auto simp: on6_def)
  have "readSysctl lx forward6 os2 = ''1''" "readSysctl lx forward4 os2 = readSysctl lx forward4 os"
    using w' e by (auto simp: readSysctl_def)
  then show ?thesis
    using assms(3,4) w' e s unfolding adv_inv_def by (auto simp: bump_def stack_on_def)
qed

lemma teardown_inv:
  assumes "iptables_ok lx cnt" and "adv_fresh lx cnt os0" and "adv_inv lx cnt os0 a os" and "adv_teardown lx a os = (a', os')"
  shows "adv_inv lx cnt os0 a' os' \<and> \<not> adv_v4 a' \<and> \<not> adv_v6 a'"
proof -
  obtain a1 os1 where 1: "(if adv_v4 a then off4 lx (adv_iface a) a os else (a, os)) = (a1, os1)" by fastforce
  then have i1: "adv_inv lx cnt os0 a1 os1 \<and> \<not> adv_v4 a1"
    using off4_inv [OF assms(1-3), of a1 os1] assms(3) by (auto split: if_splits)
  have "(if adv_v6 a1 then off6 lx (adv_iface a1) a1 os1 else (a1, os1)) = (a', os')"
    using assms(4) 1 by (simp add: adv_teardown_def)
  then show ?thesis using off6_inv [OF assms(1,2), of a1 os1 a' os'] i1 by (auto split: if_splits)
qed

lemma iface_inv: "adv_inv lx cnt os0 a os \<Longrightarrow> \<not> adv_v4 a \<and> \<not> adv_v6 a \<or> adv_iface a = iface \<Longrightarrow> adv_inv lx cnt os0 (a\<lparr>adv_iface := iface\<rparr>) os"
  by (auto simp: adv_inv_def stack_on_def)

lemma Apply_inv:
  assumes "iptables_ok lx cnt" and "adv_fresh lx cnt os0" and "adv_inv lx cnt os0 a os" and "adv_v4 a \<or> adv_v6 a \<Longrightarrow> adv_iface a \<noteq> []"
    and "adv_Apply lx iface routes a os = (a', os', r)"
  shows "adv_inv lx cnt os0 a' os' \<and> adv_v4 a' = hasV4 routes \<and> adv_v6 a' = hasV6 routes \<and> adv_iface a' = iface \<and> r = Inr ()"
proof -
  obtain a0 os0' where 0: "(if adv_iface a \<noteq> [] \<and> adv_iface a \<noteq> iface then adv_teardown lx a os else (a, os)) = (a0, os0')" by fastforce
  have i: "adv_inv lx cnt os0 a0 os0' \<and> (\<not> adv_v4 a0 \<and> \<not> adv_v6 a0 \<or> adv_iface a0 = iface)"
    using 0 teardown_inv [OF assms(1-3), of a0 os0'] assms(3,4) by (auto split: if_splits)
  note i0 = iface_inv [OF conjunct1 [OF i] conjunct2 [OF i]]
  obtain a1 os1 r1 where 1: "(if hasV4 routes \<and> \<not> adv_v4 a0 then on4 lx iface (a0\<lparr>adv_iface := iface\<rparr>) os0' else (a0\<lparr>adv_iface := iface\<rparr>, os0', Inr ())) = (a1, os1, r1)"
    by (rule prod_cases3)
  have i1: "adv_inv lx cnt os0 a1 os1 \<and> adv_iface a1 = iface \<and> r1 = Inr () \<and> (hasV4 routes \<longrightarrow> adv_v4 a1)"
    using 1 on4_inv [OF assms(1,2) i0, of a1 os1 r1] i0 by (auto split: if_splits)
  obtain a2 os2 where 2: "(if \<not> hasV4 routes \<and> adv_v4 a1 then off4 lx iface a1 os1 else (a1, os1)) = (a2, os2)" by fastforce
  have i2: "adv_inv lx cnt os0 a2 os2 \<and> adv_iface a2 = iface \<and> adv_v4 a2 = hasV4 routes"
    using 2 off4_inv [OF assms(1,2), of a1 os1 a2 os2] i1 by (auto split: if_splits)
  obtain a3 os3 where 3: "(if hasV6 routes \<and> \<not> adv_v6 a2 then on6 lx iface a2 os2 else (a2, os2)) = (a3, os3)" by fastforce
  have i3: "adv_inv lx cnt os0 a3 os3 \<and> adv_iface a3 = iface \<and> adv_v4 a3 = hasV4 routes \<and> (hasV6 routes \<longrightarrow> adv_v6 a3)"
    using 3 on6_inv [OF assms(1,2), of a2 os2 a3 os3] i2 by (auto split: if_splits)
  obtain a4 os4 where 4: "(if \<not> hasV6 routes \<and> adv_v6 a3 then off6 lx iface a3 os3 else (a3, os3)) = (a4, os4)" by fastforce
  have i4: "adv_inv lx cnt os0 a4 os4 \<and> adv_iface a4 = iface \<and> adv_v4 a4 = hasV4 routes \<and> adv_v6 a4 = hasV6 routes"
    using 4 off6_inv [OF assms(1,2), of a3 os3 a4 os4] i3 by (auto split: if_splits)
  have "adv_Apply lx iface routes a os = (a4, os4, Inr ())"
    using i1 unfolding adv_Apply_def Let_def 0 prod.case 1 by (simp only: prod.case sum.case 2 3 4)
  then show ?thesis using assms(5) i4 by simp
qed

definition apply_all :: "'os linux \<Rightarrow> (string \<times> Prefix list) list \<Rightarrow> Advertiser \<times> 'os \<Rightarrow> Advertiser \<times> 'os" where
  "apply_all lx ops s = fold (\<lambda>(iface, routes) (a, os). case adv_Apply lx iface routes a os of (a', os', _) \<Rightarrow> (a', os')) ops s"

lemma apply_all_inv:
  assumes "iptables_ok lx cnt" and "adv_fresh lx cnt os0" and "adv_inv lx cnt os0 a os" and "adv_v4 a \<or> adv_v6 a \<Longrightarrow> adv_iface a \<noteq> []"
    and "[] \<notin> fst ` set ops" and "apply_all lx ops (a, os) = (a', os')"
  shows "adv_inv lx cnt os0 a' os' \<and> (ops \<noteq> [] \<longrightarrow> adv_iface a' = fst (last ops) \<and> adv_v4 a' = hasV4 (snd (last ops)) \<and> adv_v6 a' = hasV6 (snd (last ops)))"
  using assms(3-)
proof (induction ops arbitrary: a os)
  case Nil
  then show ?case by (simp add: apply_all_def)
next
  case (Cons op ops)
  obtain iface routes where op: "op = (iface, routes)" by fastforce
  obtain a1 os1 r where 1: "adv_Apply lx iface routes a os = (a1, os1, r)" by (rule prod_cases3)
  note i = Apply_inv [OF assms(1,2) Cons.prems(1,2) 1]
  have "apply_all lx ops (a1, os1) = (a', os')" "iface \<noteq> []" "[] \<notin> fst ` set ops"
    using Cons.prems(3,4) 1 op by (auto simp: apply_all_def)
  with Cons.IH [of a1 os1] i show ?case by (auto simp: op apply_all_def)
qed

lemma start_inv: "adv_inv lx cnt os NewAdvertiser os"
  by (simp add: adv_inv_def NewAdvertiser_def stack_on_def)


text \<open>A system with counted rules and a table of settings, as the manuals describe it.\<close>

type_synonym lab = "(string \<Rightarrow> ipt_rule \<Rightarrow> nat) \<times> (string \<Rightarrow> string option)"

definition lab_run :: "string list \<Rightarrow> lab \<Rightarrow> lab \<times> bool" where
  "lab_run cmd os = (case cmd of
     ipt # _ # table # act # chain # rest \<Rightarrow>
       (let r = IptRule table chain rest; n = fst os ipt r in
        if act = ''-C'' then (os, 0 < n)
        else if act = ''-A'' then (((fst os)(ipt := (fst os ipt)(r := Suc n)), snd os), True)
        else if act = ''-D'' then (((fst os)(ipt := (fst os ipt)(r := n - 1)), snd os), 0 < n)
        else (os, True))
   | _ \<Rightarrow> (os, True))"

definition lab_linux :: "lab linux" where
  "lab_linux = \<lparr>lx_run = lab_run, lx_read = (\<lambda>p os. snd os p), lx_write = (\<lambda>p v os. ((fst os, (snd os)(p \<mapsto> v)), True))\<rparr>"

definition lab_start :: lab where
  "lab_start = (\<lambda>_ _. 0, \<lambda>_. Some [CHR ''0'', CHR 0x0A])"

lemma lab_ok: "iptables_ok lab_linux fst"
  by (auto simp: iptables_ok_def lab_linux_def lab_run_def ipt_cmd_def Let_def split: ipt_rule.splits)

lemma lab_fresh: "adv_fresh lab_linux fst lab_start"
  by (simp add: adv_fresh_def lab_linux_def lab_start_def readSysctl_def trim_space_def trim_func_def is_space_def)


section \<open>When a call fails\<close>

text \<open>
  An \<^verbatim>\<open>Apply\<close> that fails after it switched forwarding on leaves the advertiser as if IPv4 were off, so
  \<^verbatim>\<open>Close\<close> does not undo it; and the next successful \<^verbatim>\<open>Apply\<close> remembers the switched-on value as the one
  to restore.
\<close>

lemma failed_apply_not_undone:
  assumes "\<not> adv_v4 a" and "\<not> adv_v6 a" and "adv_Apply lx iface routes a os = (a1, os1, Inl e)"
  shows "adv_Close lx a1 os1 = (a1, os1)"
  using assms by (auto simp: adv_Apply_def adv_Close_def adv_teardown_def on4_def Let_def split: if_splits prod.splits bool.splits sum.splits)

lemma retry_forgets_setting:
  assumes "lx_read lx forward4 os = Some ''1''" and "on4 lx iface a os = (a1, os1, Inr ())"
  shows "adv_oldFwd4 a1 = ''1''"
  using assms by (auto simp: on4_def Let_def readSysctl_def split: prod.splits bool.splits)

section \<open>Routes of peers' subnets\<close>

lemma sync_add_result:
  "sync_add lx iface ps cur os = (cur', os') \<Longrightarrow> distinct cur \<Longrightarrow>
   distinct cur' \<and> set cur \<subseteq> set cur' \<and> set cur' \<subseteq> set cur \<union> set ps \<and>
   ((\<forall>p os. snd (lx_run lx (route_add iface p) os)) \<longrightarrow> set ps \<subseteq> set cur')"
proof (induction ps arbitrary: cur os)
  case (Cons p ps)
  obtain os1 ok where r: "lx_run lx (route_add iface p) os = (os1, ok)" by (rule prod.exhaust)
  then have ok: "(\<forall>p os. snd (lx_run lx (route_add iface p) os)) \<longrightarrow> ok" by (metis snd_conv)
  consider "p \<in> set cur" | "p \<notin> set cur" "ok" | "p \<notin> set cur" "\<not> ok" by blast
  then show ?case
  proof cases
    case 1
    then show ?thesis using Cons.IH [of cur os] Cons.prems by auto
  next
    case 2
    then show ?thesis using Cons.IH [of "cur @ [p]" os1] Cons.prems r by auto
  next
    case 3
    then show ?thesis using Cons.IH [of cur os1] Cons.prems r ok by auto
  qed
qed auto

text \<open>After \<^verbatim>\<open>Sync\<close> the recorded routes are wanted ones, and all of them when no command fails. \<^verbatim>\<open>Close\<close> records
  none and has issued the removal of each.\<close>

lemma Sync_result:
  assumes "rs_Sync lx iface want r os = (r', os')" and "distinct (rs_current r)"
  shows "set (rs_current r') \<subseteq> set want" "distinct (rs_current r')" "rs_iface r' = iface"
    and "(\<And>p os. snd (lx_run lx (route_add iface p) os)) \<Longrightarrow> set (rs_current r') = set want"
proof -
  obtain cur os2 where c: "sync_add lx iface (remdups want) (filter (\<lambda>p. p \<in> set want) (rs_current r))
      (run_all lx (map (route_del iface) (filter (\<lambda>p. p \<notin> set want) (rs_current r))) os) = (cur, os2)" by (rule prod.exhaust)
  have r': "r' = \<lparr>rs_iface = iface, rs_current = cur\<rparr>" using assms(1) c by (simp add: rs_Sync_def Let_def)
  show "set (rs_current r') \<subseteq> set want" "distinct (rs_current r')" "rs_iface r' = iface"
    "(\<And>p os. snd (lx_run lx (route_add iface p) os)) \<Longrightarrow> set (rs_current r') = set want"
    using sync_add_result [OF c] assms(2) r' by auto
qed

end
