(* ===== verification/Relay.thy ===== *)
theory Relay
  imports Gochan Golib
begin

text \<open>
  \<^verbatim>\<open>internal/relay\<close>: the framing (\<^verbatim>\<open>frames.go\<close>), the relay server (\<^verbatim>\<open>server.go\<close>) and its client (\<^verbatim>\<open>client.go\<close>).
  A stream is its bytes: the unread input, and a writer that may break after some bytes. nacl/box is
  a parameter with its law \<open>box_ok\<close>. The server is a transition system with one step per turn of its
  goroutines (accept, reader turn, writer turn, leave); the registry lock is held for each of
  them, and each outgoing queue is a bounded channel of 256 frames. Deadlines and log lines are not
  modelled; counters are unbounded integers.
\<close>

section \<open>Streams\<close>

text \<open>\<open>wr_left\<close> is how many more bytes the connection takes before it breaks, \<open>None\<close> for never.\<close>

record writer =
  wr_out :: "byte list"
  wr_left :: "nat option"

definition conn_write :: "byte list \<Rightarrow> writer \<Rightarrow> writer \<times> unit res" where
  "conn_write bs w = (case wr_left w of
     None \<Rightarrow> (w\<lparr>wr_out := wr_out w @ bs\<rparr>, Inr ())
   | Some k \<Rightarrow>
      if length bs \<le> k then (w\<lparr>wr_out := wr_out w @ bs, wr_left := Some (k - length bs)\<rparr>, Inr ())
      else (w\<lparr>wr_out := wr_out w @ take k bs, wr_left := Some 0\<rparr>, Inl (ErrMsg ''write: broken connection'')))"

text \<open>\<^verbatim>\<open>io.ReadFull\<close> of \<open>n\<close> bytes: all or an error (\<^verbatim>\<open>EOF\<close> or \<^verbatim>\<open>ErrUnexpectedEOF\<close>).\<close>

definition ReadFull :: "nat \<Rightarrow> byte list \<Rightarrow> byte list \<times> byte list res" where
  "ReadFull n inp = (if length inp < n then ([], Inl (ErrMsg ''EOF'')) else (drop n inp, Inr (take n inp)))"

section \<open>Frames\<close>

definition ProtocolName :: string where "ProtocolName = ''overmesh-relay/1''"
definition UpgradePath :: string where "UpgradePath = ''/relay''"

definition frameChallenge :: byte where "frameChallenge = 1"
definition frameAuth :: byte where "frameAuth = 2"
definition frameOK :: byte where "frameOK = 3"
definition frameSend :: byte where "frameSend = 4"
definition frameRecv :: byte where "frameRecv = 5"
definition framePing :: byte where "framePing = 6"
definition framePong :: byte where "framePong = 7"

lemmas frame_types = frameChallenge_def frameAuth_def frameOK_def frameSend_def frameRecv_def framePing_def framePong_def

definition maxFrameLen :: nat where "maxFrameLen = 4096"

definition writeFrame :: "byte \<Rightarrow> byte list \<Rightarrow> writer \<Rightarrow> writer \<times> unit res" where
  "writeFrame ty body w =
     (if length body > maxFrameLen then (w, Inl (ErrMsg ''relay: frame too large (%d)''))
      else (case conn_write (ty # be_bytes 2 (length body)) w of
          (w1, Inl e) \<Rightarrow> (w1, Inl e)
        | (w1, Inr _) \<Rightarrow> conn_write body w1))"

definition readFrame :: "byte list \<Rightarrow> byte list \<times> (byte \<times> byte list) res" where
  "readFrame inp = (case ReadFull 3 inp of
     (r1, Inl e) \<Rightarrow> (r1, Inl e)
   | (r1, Inr hdr) \<Rightarrow>
      (let n = be_value (drop 1 hdr) in
       if n > maxFrameLen then (r1, Inl (ErrMsg ''relay: oversized frame (%d)''))
       else (case ReadFull n r1 of
           (r2, Inl e) \<Rightarrow> (r2, Inl e)
         | (r2, Inr body) \<Rightarrow> (r2, Inr (hd hdr, body)))))"

section \<open>The server\<close>

record outFrame =
  of_typ :: byte
  of_body :: "byte list"

record serverConn =
  sc_key :: "byte list"
  sc_sendq :: "outFrame chan"
  sc_done :: bool
  sc_conn :: writer

text \<open>\<^verbatim>\<open>sc.close()\<close>: once; the connection takes no more bytes.\<close>

definition sc_close :: "serverConn \<Rightarrow> serverConn" where
  "sc_close sc = sc\<lparr>sc_done := True, sc_conn := (sc_conn sc)\<lparr>wr_left := Some 0\<rparr>\<rparr>"

record relay_Server =
  rv_framesForwarded :: int
  rv_bytesForwarded :: int
  rv_framesDropped :: int
  rv_conns :: "byte list \<rightharpoonup> nat"
  rv_heap :: "nat \<rightharpoonup> serverConn"
  rv_next :: nat

record Stats =
  st_Clients :: nat
  st_FramesForwarded :: int
  st_BytesForwarded :: int
  st_FramesDropped :: int

definition relay_Stats :: "relay_Server \<Rightarrow> Stats" where
  "relay_Stats s = \<lparr>st_Clients = card (dom (rv_conns s)), st_FramesForwarded = rv_framesForwarded s,
     st_BytesForwarded = rv_bytesForwarded s, st_FramesDropped = rv_framesDropped s\<rparr>"

definition NewServer :: relay_Server where
  "NewServer = \<lparr>rv_framesForwarded = 0, rv_bytesForwarded = 0, rv_framesDropped = 0, rv_conns = Map.empty, rv_heap = Map.empty, rv_next = 0\<rparr>"

text \<open>The upgrade handler: the refusal, or the 101 response after which the connection is served.\<close>

datatype upgrade = RefuseUpgrade nat | Upgraded string

definition crlf :: string where "crlf = [CHR 0x0D, CHR 0x0A]"

definition relay_Handler :: "string \<Rightarrow> bool \<Rightarrow> upgrade" where
  "relay_Handler upgrade_header hijackable =
     (if upgrade_header \<noteq> ProtocolName then RefuseUpgrade 426
      else if \<not> hijackable then RefuseUpgrade 500
      else Upgraded (''HTTP/1.1 101 Switching Protocols'' @ crlf @ ''Upgrade: '' @ ProtocolName @ crlf @
             ''Connection: Upgrade'' @ crlf @ crlf))"

subsection \<open>Handshake\<close>

type_synonym box_seal = "byte list \<Rightarrow> byte list \<Rightarrow> byte list \<Rightarrow> byte list \<Rightarrow> byte list"
type_synonym box_open = "byte list \<Rightarrow> byte list \<Rightarrow> byte list \<Rightarrow> byte list \<Rightarrow> byte list option"

definition Overhead :: nat where "Overhead = 16"

text \<open>What nacl/box documents: a box sealed for a peer opens with the sender's public key and the
  peer's private key, and is 16 bytes longer than the message.\<close>

definition box_ok :: "(byte list \<Rightarrow> byte list) \<Rightarrow> box_seal \<Rightarrow> box_open \<Rightarrow> bool" where
  "box_ok pub seal opn \<longleftrightarrow> (\<forall>m n p q. opn (seal m n (pub q) p) n (pub p) q = Some m) \<and>
     (\<forall>m n k p. length (seal m n k p) = length m + Overhead) \<and> (\<forall>p. length (pub p) = 32)"

definition errBadAuth :: goerr where "errBadAuth = ErrMsg ''relay: bad auth''"

text \<open>\<open>eph\<close> is the key pair of \<^verbatim>\<open>box.GenerateKey\<close> and \<open>nonce\<close> the 24 bytes of \<^verbatim>\<open>rand.Read\<close>, \<open>None\<close> their errors.\<close>

definition handshake :: "box_open \<Rightarrow> (byte list \<times> byte list) option \<Rightarrow> byte list option \<Rightarrow> byte list \<Rightarrow> writer \<Rightarrow>
    byte list \<times> writer \<times> byte list res" where
  "handshake opn eph nonce_bytes inp w = (case eph of
     None \<Rightarrow> (inp, w, Inl ErrDriver)
   | Some (ephPub, ephPriv) \<Rightarrow> (case nonce_bytes of
       None \<Rightarrow> (inp, w, Inl ErrDriver)
     | Some nonce \<Rightarrow> (case writeFrame frameChallenge (ephPub @ nonce) w of
         (w1, Inl e) \<Rightarrow> (inp, w1, Inl e)
       | (w1, Inr _) \<Rightarrow> (case readFrame inp of
           (inp1, Inl e) \<Rightarrow> (inp1, w1, Inl e)
         | (inp1, Inr (ty, body)) \<Rightarrow>
            if ty \<noteq> frameAuth \<or> length body < 32 + Overhead then (inp1, w1, Inl errBadAuth)
            else (let clientPub = take 32 body in
              case opn (drop 32 body) nonce clientPub ephPriv of
                None \<Rightarrow> (inp1, w1, Inl errBadAuth)
              | Some opened \<Rightarrow>
                 if length opened \<noteq> 24 \<or> opened \<noteq> nonce then (inp1, w1, Inl errBadAuth)
                 else (case writeFrame frameOK [] w1 of
                     (w2, Inl e) \<Rightarrow> (inp1, w2, Inl e)
                   | (w2, Inr _) \<Rightarrow> (inp1, w2, Inr clientPub)))))))"

subsection \<open>Serving a connection\<close>

definition upd_conn :: "nat \<Rightarrow> (serverConn \<Rightarrow> serverConn) \<Rightarrow> relay_Server \<Rightarrow> relay_Server" where
  "upd_conn i f s = (case rv_heap s i of None \<Rightarrow> s | Some sc \<Rightarrow> s\<lparr>rv_heap := (rv_heap s)(i \<mapsto> f sc)\<rparr>)"

text \<open>Registration after the handshake: the newest connection of a key wins.\<close>

definition relay_accept :: "byte list \<Rightarrow> writer \<Rightarrow> relay_Server \<Rightarrow> relay_Server \<times> nat" where
  "relay_accept key w s =
     (let i = rv_next s;
          sc = \<lparr>sc_key = key, sc_sendq = \<lparr>ch_buf = [], ch_cap = 256, ch_closed = False\<rparr>, sc_done = False, sc_conn = w\<rparr>;
          s1 = (case rv_conns s key of None \<Rightarrow> s | Some old \<Rightarrow> upd_conn old sc_close s) in
      (s1\<lparr>rv_heap := (rv_heap s1)(i \<mapsto> sc), rv_conns := (rv_conns s1)(key \<mapsto> i), rv_next := i + 1\<rparr>, i))"

text \<open>The deferred clean-up.\<close>

definition relay_leave :: "nat \<Rightarrow> relay_Server \<Rightarrow> relay_Server" where
  "relay_leave i s = (case rv_heap s i of
     None \<Rightarrow> s
   | Some sc \<Rightarrow>
      (let s1 = (if rv_conns s (sc_key sc) = Some i then s\<lparr>rv_conns := (rv_conns s)(sc_key sc := None)\<rparr> else s) in
       upd_conn i sc_close s1))"

text \<open>A non-blocking send on the queue of a connection.\<close>

definition try_enqueue :: "nat \<Rightarrow> outFrame \<Rightarrow> relay_Server \<Rightarrow> relay_Server \<times> bool" where
  "try_enqueue i f s = (case rv_heap s i of
     None \<Rightarrow> (s, False)
   | Some sc \<Rightarrow> (let (q, sent) = try_send f (sc_sendq sc) in (upd_conn i (sc_sendq_update (\<lambda>_. q)) s, sent)))"

definition forward :: "byte list \<Rightarrow> byte list \<Rightarrow> byte list \<Rightarrow> relay_Server \<Rightarrow> relay_Server" where
  "forward src dst payload s = (case rv_conns s dst of
     None \<Rightarrow> s
   | Some target \<Rightarrow>
      (let body = src @ payload; (s1, sent) = try_enqueue target \<lparr>of_typ = frameRecv, of_body = body\<rparr> s in
       if sent then s1\<lparr>rv_framesForwarded := rv_framesForwarded s1 + 1, rv_bytesForwarded := rv_bytesForwarded s1 + int (length payload)\<rparr>
       else s1\<lparr>rv_framesDropped := rv_framesDropped s1 + 1\<rparr>))"

text \<open>One turn of the reader on what it read, and of the writer: \<open>False\<close> when the goroutine ends.\<close>

definition reader_turn :: "nat \<Rightarrow> (byte \<times> byte list) res \<Rightarrow> relay_Server \<Rightarrow> relay_Server \<times> bool" where
  "reader_turn i rd s = (case rv_heap s i of
     None \<Rightarrow> (s, False)
   | Some sc \<Rightarrow> (case rd of
       Inl _ \<Rightarrow> (relay_leave i s, False)
     | Inr (ty, body) \<Rightarrow>
        if ty = framePing then (fst (try_enqueue i \<lparr>of_typ = framePong, of_body = []\<rparr> s), True)
        else if ty = frameSend then
          (if length body < 32 then (s, True) else (forward (sc_key sc) (take 32 body) (drop 32 body) s, True))
        else (s, True)))"

definition writer_turn :: "nat \<Rightarrow> relay_Server \<Rightarrow> relay_Server \<times> bool" where
  "writer_turn i s = (case rv_heap s i of
     None \<Rightarrow> (s, False)
   | Some sc \<Rightarrow>
      if sc_done sc then (s, False)
      else (case chan_recv (sc_sendq sc) of
          None \<Rightarrow> (s, True)
        | Some (f, q) \<Rightarrow> (case writeFrame (of_typ f) (of_body f) (sc_conn sc) of
            (w, Inl _) \<Rightarrow> (upd_conn i (\<lambda>c. sc_close (c\<lparr>sc_sendq := q, sc_conn := w\<rparr>)) s, False)
          | (w, Inr _) \<Rightarrow> (upd_conn i (\<lambda>c. c\<lparr>sc_sendq := q, sc_conn := w\<rparr>) s, True))))"

section \<open>The client\<close>

text \<open>The parts of \<^verbatim>\<open>url.Parse\<close>'s result that are used; the parser is an argument (\<open>None\<close> for its error).\<close>

record relay_url =
  ru_Scheme :: string
  ru_Host :: string
  ru_Hostname :: string
  ru_Port :: string
  ru_Path :: string

definition dial_target :: "relay_url \<Rightarrow> string" where
  "dial_target u = (if ru_Port u = [] then JoinHostPort (ru_Hostname u) (if ru_Scheme u = ''https'' then ''443'' else ''80'') else ru_Host u)"

definition upgrade_request :: "relay_url \<Rightarrow> string" where
  "upgrade_request u = (let path = (if ru_Path u = [] then UpgradePath else ru_Path u) in
     ''GET '' @ path @ '' HTTP/1.1'' @ crlf @ ''Host: '' @ ru_Hostname u @ crlf @ ''Upgrade: '' @ ProtocolName @ crlf @
     ''Connection: Upgrade'' @ crlf @ crlf)"

text \<open>\<^verbatim>\<open>ReadString('\n')\<close>: through the delimiter, or an error when the input ends first.\<close>

definition is_newline :: "char \<Rightarrow> bool" where
  "is_newline c \<longleftrightarrow> c = CHR 0x0A"

fun ReadString :: "string \<Rightarrow> (string \<times> string) option" where
  "ReadString [] = None"
| "ReadString (c # cs) = (if is_newline c then Some ([c], cs)
     else (case ReadString cs of None \<Rightarrow> None | Some (line, rest) \<Rightarrow> Some (c # line, rest)))"

lemma ReadString_shorter: "ReadString s = Some (line, rest) \<Longrightarrow> length rest < length s"
  by (induction s arbitrary: line rest) (auto split: if_splits option.splits)

function skip_headers :: "string \<Rightarrow> string res" where
  "skip_headers s = (case ReadString s of
     None \<Rightarrow> Inl (ErrMsg ''EOF'')
   | Some (line, rest) \<Rightarrow> if line = crlf \<or> line = [CHR 0x0A] then Inr rest else skip_headers rest)"
  by pat_completeness auto

termination skip_headers
  by (relation "measure length") (auto dest: ReadString_shorter)

declare skip_headers.simps [simp del]

text \<open>The response part of \<^verbatim>\<open>dial\<close>: the status code, then the headers up to the blank line.\<close>

definition read_upgrade :: "string \<Rightarrow> string res" where
  "read_upgrade s = (case ReadString s of
     None \<Rightarrow> Inl (ErrMsg ''EOF'')
   | Some (status, rest) \<Rightarrow>
      if length status < 12 \<or> take 3 (drop 9 status) \<noteq> ''101'' then Inl (ErrMsg ''relay: unexpected response %q'')
      else skip_headers rest)"

definition authenticate :: "box_seal \<Rightarrow> byte list \<Rightarrow> byte list \<Rightarrow> byte list \<Rightarrow> writer \<Rightarrow> byte list \<times> writer \<times> unit res" where
  "authenticate seal priv pub inp w = (case readFrame inp of
     (inp1, Inl e) \<Rightarrow> (inp1, w, Inl e)
   | (inp1, Inr (ty, body)) \<Rightarrow>
      if ty \<noteq> frameChallenge \<or> length body \<noteq> 32 + 24 then (inp1, w, Inl (ErrMsg ''relay: bad challenge''))
      else (let serverEph = take 32 body; nonce = drop 32 body; sealed = seal nonce nonce serverEph priv in
        case writeFrame frameAuth (pub @ sealed) w of
          (w1, Inl e) \<Rightarrow> (inp1, w1, Inl e)
        | (w1, Inr _) \<Rightarrow> (case readFrame inp1 of
            (inp2, Inl e) \<Rightarrow> (inp2, w1, Inl e)
          | (inp2, Inr (ty2, _)) \<Rightarrow>
             if ty2 \<noteq> frameOK then (inp2, w1, Inl (ErrMsg ''relay: auth rejected'')) else (inp2, w1, Inr ()))))"

record relay_Client =
  rc_priv :: "byte list"
  rc_pub :: "byte list"
  rc_conn :: "writer option"
  rc_up :: bool
  rc_closed :: bool

definition Connected :: "relay_Client \<Rightarrow> bool" where
  "Connected c = rc_up c"

definition relay_Send :: "byte list \<Rightarrow> byte list \<Rightarrow> relay_Client \<Rightarrow> relay_Client \<times> unit res" where
  "relay_Send dst payload c = (case rc_conn c of
     None \<Rightarrow> (c, Inl (ErrMsg ''relay: not connected''))
   | Some w \<Rightarrow>
      if \<not> rc_up c then (c, Inl (ErrMsg ''relay: not connected''))
      else (let (w1, r) = writeFrame frameSend (dst @ payload) w in (c\<lparr>rc_conn := Some w1\<rparr>, r)))"

definition client_Close :: "relay_Client \<Rightarrow> relay_Client" where
  "client_Close c = c\<lparr>rc_closed := True, rc_conn := map_option (wr_left_update (\<lambda>_. Some 0)) (rc_conn c)\<rparr>"

text \<open>\<^verbatim>\<open>session\<close>: once authenticated the connection is published, unless the client was closed.\<close>

definition session_up :: "writer \<Rightarrow> relay_Client \<Rightarrow> relay_Client \<times> unit res" where
  "session_up w c = (if rc_closed c then (c, Inl (ErrMsg ''closed'')) else (c\<lparr>rc_conn := Some w, rc_up := True\<rparr>, Inr ()))"

text \<open>The read loop of \<^verbatim>\<open>session\<close> on the bytes that arrive before the stream ends: the calls of
  \<^verbatim>\<open>onPacket\<close>, and the error that ends it.\<close>

lemma readFrame_shorter: "readFrame inp = (rest, Inr x) \<Longrightarrow> length rest < length inp"
  by (auto simp: readFrame_def ReadFull_def Let_def split: if_splits)

function session_loop :: "byte list \<Rightarrow> (byte list \<times> byte list) list \<times> goerr" where
  "session_loop inp = (case readFrame inp of
     (_, Inl e) \<Rightarrow> ([], e)
   | (rest, Inr (ty, body)) \<Rightarrow>
      (let (ps, e) = session_loop rest in
       if ty = frameRecv \<and> \<not> length body < 32 then ((take 32 body, drop 32 body) # ps, e) else (ps, e)))"
  by pat_completeness auto

termination session_loop
  by (relation "measure length") (auto dest: readFrame_shorter [OF sym])

declare session_loop.simps [simp del]

text \<open>The tail of a turn of \<^verbatim>\<open>run\<close>: the link is down; unless closed, the loop waits and doubles the delay.\<close>

definition run_down :: "relay_Client \<Rightarrow> relay_Client" where
  "run_down c = c\<lparr>rc_up := False, rc_conn := None\<rparr>"

definition next_backoff :: "int \<Rightarrow> int" where
  "next_backoff b = (let b2 = b * 2 in if b2 > 30 * 1000000000 then 30 * 1000000000 else b2)"

section \<open>Lemmas: framing\<close>

definition frame_bytes :: "byte \<times> byte list \<Rightarrow> byte list" where
  "frame_bytes f = fst f # be_bytes 2 (length (snd f)) @ snd f"

definition fits :: "byte \<times> byte list \<Rightarrow> bool" where
  "fits f \<longleftrightarrow> length (snd f) \<le> maxFrameLen"

lemma frame_len: "fits f \<Longrightarrow> be_value (be_bytes 2 (length (snd f))) = length (snd f)"
  by (rule be_value_be_bytes) (simp add: fits_def maxFrameLen_def)

lemma readFrame_frame [codec_simps]: "fits f \<Longrightarrow> readFrame (frame_bytes f @ rest) = (rest, Inr f)"
proof -
  assume f: "fits f"
  obtain t b where tb: "f = (t, b)" by fastforce
  have 1: "ReadFull 3 (frame_bytes (t, b) @ rest) = (b @ rest, Inr (t # be_bytes 2 (length b)))"
    by (simp add: ReadFull_def frame_bytes_def numeral_3_eq_3)
  have 2: "ReadFull (length b) (b @ rest) = (rest, Inr b)" by (simp add: ReadFull_def)
  show ?thesis using frame_len [OF f] f by (simp add: readFrame_def 1 2 tb Let_def fits_def)
qed

text \<open>A truncated frame is not read.\<close>

lemma readFrame_truncated:
  assumes "fits f" and "n < length (frame_bytes f)"
  shows "\<exists>r e. readFrame (take n (frame_bytes f)) = (r, Inl e)"
proof -
  obtain t b where tb: "f = (t, b)" by fastforce
  show ?thesis
  proof (cases "n < 3")
    case True
    with assms(2) show ?thesis by (simp add: readFrame_def ReadFull_def)
  next
    case False
    then have t: "take n (frame_bytes f) = t # be_bytes 2 (length b) @ take (n - 3) b"
      by (simp add: frame_bytes_def tb take_Cons' eval_nat_numeral)
    have "ReadFull 3 (t # be_bytes 2 (length b) @ take (n - 3) b) = (take (n - 3) b, Inr (t # be_bytes 2 (length b)))"
      by (simp add: ReadFull_def numeral_3_eq_3)
    moreover have "length (take (n - 3) b) < length b" using assms(2) False by (simp add: frame_bytes_def tb)
    ultimately show ?thesis using frame_len [OF assms(1)] assms(1) unfolding t
      by (simp add: readFrame_def tb Let_def fits_def ReadFull_def)
  qed
qed

lemma writeFrame_ok:
  assumes "fits (t, b)" and "case wr_left w of None \<Rightarrow> True | Some k \<Rightarrow> 3 + length b \<le> k"
  shows "\<exists>w'. writeFrame t b w = (w', Inr ()) \<and> wr_out w' = wr_out w @ frame_bytes (t, b) \<and>
    wr_left w' = map_option (\<lambda>k. k - (3 + length b)) (wr_left w)"
  using assms by (auto simp: writeFrame_def conn_write_def frame_bytes_def fits_def split: option.splits)

lemma writeFrame_open: "fits (t, b) \<Longrightarrow> wr_left w = None \<Longrightarrow> writeFrame t b w = (w\<lparr>wr_out := wr_out w @ frame_bytes (t, b)\<rparr>, Inr ())"
  by (simp add: writeFrame_def conn_write_def frame_bytes_def fits_def)

section \<open>Lemmas: the registry\<close>

text \<open>The steps of the server: a client that passed the handshake is accepted, a reader got a frame or
  an error, a writer takes its turn, a connection ends.\<close>

inductive relay_step :: "relay_Server \<Rightarrow> relay_Server \<Rightarrow> bool" where
  relay_step_accept: "length key = 32 \<Longrightarrow> relay_step s (fst (relay_accept key w s))"
| relay_step_read: "readFrame inp = (rest, rd) \<Longrightarrow> relay_step s (fst (reader_turn i rd s))"
| relay_step_write: "relay_step s (fst (writer_turn i s))"
| relay_step_leave: "relay_step s (relay_leave i s)"

definition relay_init :: "relay_Server \<Rightarrow> bool" where
  "relay_init s \<longleftrightarrow> s = NewServer"

definition conn_ok :: "serverConn \<Rightarrow> bool" where
  "conn_ok sc \<longleftrightarrow> length (sc_key sc) = 32 \<and> ch_cap (sc_sendq sc) = 256 \<and> length (ch_buf (sc_sendq sc)) \<le> 256 \<and>
     list_all (\<lambda>f. length (of_body f) \<le> maxFrameLen) (ch_buf (sc_sendq sc))"

definition relay_inv :: "relay_Server \<Rightarrow> bool" where
  "relay_inv s \<longleftrightarrow> (\<forall>k i. rv_conns s k = Some i \<longrightarrow> (\<exists>sc. rv_heap s i = Some sc \<and> sc_key sc = k)) \<and>
     (\<forall>i sc. rv_heap s i = Some sc \<longrightarrow> i < rv_next s \<and> conn_ok sc \<and> (\<not> sc_done sc \<longrightarrow> rv_conns s (sc_key sc) = Some i))"

lemma relay_invD:
  "relay_inv s \<Longrightarrow> rv_conns s k = Some i \<Longrightarrow> \<exists>sc. rv_heap s i = Some sc \<and> sc_key sc = k"
  "relay_inv s \<Longrightarrow> rv_heap s i = Some sc \<Longrightarrow> i < rv_next s \<and> conn_ok sc"
  "relay_inv s \<Longrightarrow> rv_heap s i = Some sc \<Longrightarrow> \<not> sc_done sc \<Longrightarrow> rv_conns s (sc_key sc) = Some i"
  unfolding relay_inv_def by blast+

lemma upd_conn_simps [simp]: "rv_conns (upd_conn i f s) = rv_conns s" "rv_next (upd_conn i f s) = rv_next s"
  by (simp_all add: upd_conn_def split: option.split)

lemma upd_conn_heap: "rv_heap (upd_conn i f s) j = (if j = i then map_option f (rv_heap s i) else rv_heap s j)"
  by (simp add: upd_conn_def split: option.split)

lemma upd_conn_inv:
  assumes "relay_inv s" and "\<And>sc. rv_heap s i = Some sc \<Longrightarrow> conn_ok sc \<Longrightarrow> sc_key (f sc) = sc_key sc \<and> conn_ok (f sc) \<and> (sc_done sc \<longrightarrow> sc_done (f sc))"
  shows "relay_inv (upd_conn i f s)"
  using assms unfolding relay_inv_def
  by (auto simp: upd_conn_heap split: if_splits) (metis+)

lemma sc_close_ok [simp]: "conn_ok (sc_close sc) = conn_ok sc" "sc_key (sc_close sc) = sc_key sc" "sc_done (sc_close sc)"
  by (simp_all add: conn_ok_def sc_close_def)

lemma relay_accept_inv:
  assumes inv: "relay_inv s" and k: "length key = 32"
  shows "relay_inv (fst (relay_accept key w s))"
proof -
  define s1 where "s1 = (case rv_conns s key of None \<Rightarrow> s | Some old \<Rightarrow> upd_conn old sc_close s)"
  let ?sc = "\<lparr>sc_key = key, sc_sendq = \<lparr>ch_buf = [], ch_cap = 256, ch_closed = False\<rparr>, sc_done = False, sc_conn = w\<rparr>"
  have i1: "relay_inv s1" unfolding s1_def using inv by (auto intro!: upd_conn_inv split: option.split)
  have n: "rv_next s1 = rv_next s" by (simp add: s1_def split: option.split)
  have done_old: "sc_done sc" if sc: "rv_heap s1 i = Some sc" "sc_key sc = key" for i sc
  proof (rule ccontr)
    assume nd: "\<not> sc_done sc"
    with relay_invD(3) [OF i1 sc(1)] sc(2) have "rv_conns s key = Some i" by (simp add: s1_def split: option.splits)
    then have "rv_heap s1 i = map_option sc_close (rv_heap s i)" by (simp add: s1_def upd_conn_heap)
    with sc(1) nd show False by (cases "rv_heap s i") auto
  qed
  have f: "rv_heap s1 (rv_next s) = None"
  proof (cases "rv_heap s1 (rv_next s)")
    case (Some sc)
    from relay_invD(2) [OF i1 Some] n show ?thesis by simp
  qed simp
  have e: "fst (relay_accept key w s) = s1\<lparr>rv_heap := (rv_heap s1)(rv_next s \<mapsto> ?sc), rv_conns := (rv_conns s1)(key \<mapsto> rv_next s), rv_next := rv_next s + 1\<rparr>"
    by (simp add: relay_accept_def Let_def s1_def)
  show ?thesis
    unfolding relay_inv_def e
  proof (intro conjI allI impI)
    fix k' i assume "rv_conns (s1\<lparr>rv_heap := (rv_heap s1)(rv_next s \<mapsto> ?sc), rv_conns := (rv_conns s1)(key \<mapsto> rv_next s), rv_next := rv_next s + 1\<rparr>) k' = Some i"
    with relay_invD(1) [OF i1, of k' i] f
    show "\<exists>sc. rv_heap (s1\<lparr>rv_heap := (rv_heap s1)(rv_next s \<mapsto> ?sc), rv_conns := (rv_conns s1)(key \<mapsto> rv_next s), rv_next := rv_next s + 1\<rparr>) i = Some sc \<and> sc_key sc = k'"
      by (auto split: if_splits)
  qed (use relay_invD(2,3) [OF i1] done_old n k in \<open>auto simp: conn_ok_def split: if_splits\<close>, fastforce)
qed

lemma relay_leave_inv:
  assumes inv: "relay_inv s"
  shows "relay_inv (relay_leave i s)"
proof (cases "rv_heap s i")
  case (Some sc)
  let ?s1 = "if rv_conns s (sc_key sc) = Some i then s\<lparr>rv_conns := (rv_conns s)(sc_key sc := None)\<rparr> else s"
  have heap: "rv_heap (relay_leave i s) j = (if j = i then Some (sc_close sc) else rv_heap s j)" for j
    using Some by (simp add: relay_leave_def Let_def upd_conn_heap)
  have conns: "rv_conns (relay_leave i s) = (if rv_conns s (sc_key sc) = Some i then (rv_conns s)(sc_key sc := None) else rv_conns s)"
    using Some by (simp add: relay_leave_def Let_def)
  have nx: "rv_next (relay_leave i s) = rv_next s" using Some by (simp add: relay_leave_def Let_def)
  show ?thesis
    unfolding relay_inv_def
  proof (intro conjI allI impI)
    fix k j assume "rv_conns (relay_leave i s) k = Some j"
    then have "rv_conns s k = Some j" by (auto simp: conns split: if_splits)
    with relay_invD(1) [OF inv this] Some show "\<exists>sc. rv_heap (relay_leave i s) j = Some sc \<and> sc_key sc = k" by (auto simp: heap)
  next
    fix j c assume c: "rv_heap (relay_leave i s) j = Some c"
    then show "j < rv_next (relay_leave i s)" "conn_ok c" using relay_invD(2) [OF inv] Some by (auto simp: heap nx split: if_splits)
    assume nd: "\<not> sc_done c"
    with c have j: "j \<noteq> i" "rv_heap s j = Some c" by (auto simp: heap split: if_splits)
    with relay_invD(3) [OF inv j(2) nd] show "rv_conns (relay_leave i s) (sc_key c) = Some j" by (auto simp: conns)
  qed
qed (simp add: relay_leave_def inv)

lemma try_enqueue_inv:
  assumes "relay_inv s" and "length (of_body f) \<le> maxFrameLen"
  shows "relay_inv (fst (try_enqueue i f s))"
  using assms
  by (auto simp: try_enqueue_def try_send_def conn_ok_def split: option.split intro!: upd_conn_inv)

lemma counters_inv: "relay_inv (rv_framesForwarded_update f s) = relay_inv s" "relay_inv (rv_bytesForwarded_update f s) = relay_inv s"
  "relay_inv (rv_framesDropped_update f s) = relay_inv s"
  by (simp_all add: relay_inv_def)

lemma forward_inv: "relay_inv s \<Longrightarrow> length src + length payload \<le> maxFrameLen \<Longrightarrow> relay_inv (forward src dst payload s)"
  using try_enqueue_inv [of s "\<lparr>of_typ = frameRecv, of_body = src @ payload\<rparr>"]
  by (auto simp: forward_def Let_def counters_inv split: option.split prod.split) (metis fst_conv)+

lemma readFrame_bounded: "readFrame inp = (rest, Inr (ty, body)) \<Longrightarrow> length body \<le> maxFrameLen"
  by (auto simp: readFrame_def ReadFull_def Let_def split: if_splits)

lemma reader_turn_inv:
  assumes inv: "relay_inv s" and rd: "readFrame inp = (rest, rd)"
  shows "relay_inv (fst (reader_turn i rd s))"
proof (cases "rv_heap s i")
  case (Some sc)
  have k: "length (sc_key sc) = 32" using relay_invD(2) [OF inv Some] by (simp add: conn_ok_def)
  show ?thesis
  proof (cases rd)
    case (Inr x)
    obtain ty body where x: "x = (ty, body)" by fastforce
    have b: "length body \<le> maxFrameLen" using readFrame_bounded rd Inr x by blast
    have 1: "relay_inv (forward (sc_key sc) (take 32 body) (drop 32 body) s)" if "\<not> length body < 32"
      using inv k b that by (intro forward_inv) auto
    have 2: "relay_inv (fst (try_enqueue i \<lparr>of_typ = framePong, of_body = []\<rparr> s))" using inv by (rule try_enqueue_inv) simp
    from 1 2 inv Some Inr x show ?thesis by (auto simp: reader_turn_def)
  qed (use inv Some relay_leave_inv in \<open>simp add: reader_turn_def\<close>)
qed (simp add: reader_turn_def inv)

lemma writer_turn_inv:
  assumes inv: "relay_inv s"
  shows "relay_inv (fst (writer_turn i s))"
proof (cases "rv_heap s i")
  case (Some sc)
  show ?thesis
  proof (cases "ch_buf (sc_sendq sc)")
    case (Cons f fs)
    have q: "conn_ok (sc\<lparr>sc_sendq := (sc_sendq sc)\<lparr>ch_buf := fs\<rparr>, sc_conn := w\<rparr>)" for w
      using relay_invD(2) [OF inv Some] Cons by (auto simp: conn_ok_def)
    have "relay_inv (upd_conn i (\<lambda>c. sc_close (c\<lparr>sc_sendq := (sc_sendq sc)\<lparr>ch_buf := fs\<rparr>, sc_conn := w\<rparr>)) s)"
      "relay_inv (upd_conn i (\<lambda>c. c\<lparr>sc_sendq := (sc_sendq sc)\<lparr>ch_buf := fs\<rparr>, sc_conn := w\<rparr>) s)" for w
      using Some q by (auto intro!: upd_conn_inv [OF inv])
    with inv Some Cons show ?thesis
      by (auto simp: writer_turn_def chan_recv_def split: prod.split sum.split)
  qed (use inv Some in \<open>simp add: writer_turn_def chan_recv_def\<close>)
qed (simp add: writer_turn_def inv)

interpretation relay_sys: inductive_invariant relay_init relay_step relay_inv
proof unfold_locales
  fix s assume "relay_init s"
  then show "relay_inv s" by (simp add: relay_init_def NewServer_def relay_inv_def)
next
  fix s s' assume i: "relay_inv s" and st: "relay_step s s'"
  from st i show "relay_inv s'"
    by (induction rule: relay_step.induct) (auto intro: relay_accept_inv reader_turn_inv writer_turn_inv relay_leave_inv)
qed

section \<open>Properties\<close>

text \<open>Reading frames until the first error.\<close>

function read_all :: "byte list \<Rightarrow> (byte \<times> byte list) list" where
  "read_all inp = (case readFrame inp of (_, Inl _) \<Rightarrow> [] | (rest, Inr f) \<Rightarrow> f # read_all rest)"
  by pat_completeness auto

termination read_all
  by (relation "measure length") (auto dest: readFrame_shorter [OF sym])

declare read_all.simps [simp del]

lemma read_all_frame: "fits f \<Longrightarrow> read_all (frame_bytes f @ rest) = f # read_all rest"
  by (subst read_all.simps) (simp add: readFrame_frame)

lemma read_all_error: "readFrame inp = (r, Inl e) \<Longrightarrow> read_all inp = []"
  by (subst read_all.simps) simp

lemma read_all_stream:
  assumes "list_all fits fs"
  shows "\<exists>k. read_all (take n (concat (map frame_bytes fs))) = take k fs \<and> (length (concat (map frame_bytes fs)) \<le> n \<longrightarrow> take k fs = fs)"
  using assms
proof (induction fs arbitrary: n)
  case Nil
  have "readFrame [] = ([], Inl (ErrMsg ''EOF''))" by (simp add: readFrame_def ReadFull_def)
  then show ?case by (simp add: read_all_error)
next
  case (Cons f fs)
  let ?c = "concat (map frame_bytes fs)"
  from Cons.prems have f: "fits f" and fs: "list_all fits fs" by auto
  show ?case
  proof (cases "n < length (frame_bytes f)")
    case True
    then have t: "take n (concat (map frame_bytes (f # fs))) = take n (frame_bytes f)" by simp
    obtain r e where "readFrame (take n (frame_bytes f)) = (r, Inl e)" using readFrame_truncated [OF f True] by blast
    then have "read_all (take n (frame_bytes f)) = []" by (rule read_all_error)
    with t have "read_all (take n (concat (map frame_bytes (f # fs)))) = []" by (simp only:)
    moreover have "\<not> length (concat (map frame_bytes (f # fs))) \<le> n" using True by simp
    ultimately show ?thesis by (metis take0)
  next
    case False
    then have t: "take n (concat (map frame_bytes (f # fs))) = frame_bytes f @ take (n - length (frame_bytes f)) ?c" by simp
    from Cons.IH [OF fs, of "n - length (frame_bytes f)"] obtain k where
      k: "read_all (take (n - length (frame_bytes f)) ?c) = take k fs" "length ?c \<le> n - length (frame_bytes f) \<longrightarrow> take k fs = fs" by blast
    have "read_all (take n (concat (map frame_bytes (f # fs)))) = take (Suc k) (f # fs)"
      unfolding t by (simp add: read_all_frame [OF f] k(1))
    moreover have "length (concat (map frame_bytes (f # fs))) \<le> n \<longrightarrow> take (Suc k) (f # fs) = f # fs" using k(2) by auto
    ultimately show ?thesis by blast
  qed
qed

text \<open>
  Claim C27. Framing: \<^verbatim>\<open>writeFrame\<close> puts a body of at most 4096 bytes on the wire (and nothing of a longer
  one), and a stream of frames is read back frame by frame. However the stream is cut, what is
  read is a prefix of what was sent: no frame is torn, altered or invented.
\<close>
theorem frame_stream:
  assumes "list_all fits fs"
  shows "read_all (concat (map frame_bytes fs)) = fs \<and>
    (\<exists>k. read_all (take n (concat (map frame_bytes fs))) = take k fs) \<and>
    (writeFrame ty body \<lparr>wr_out = out, wr_left = None\<rparr> =
       (if length body \<le> 4096 then (\<lparr>wr_out = out @ frame_bytes (ty, body), wr_left = None\<rparr>, Inr ())
        else (\<lparr>wr_out = out, wr_left = None\<rparr>, Inl (ErrMsg ''relay: frame too large (%d)''))))"
proof -
  from read_all_stream [OF assms, of "length (concat (map frame_bytes fs))"] have "read_all (concat (map frame_bytes fs)) = fs" by auto
  with read_all_stream [OF assms, of n] show ?thesis
    by (auto simp: writeFrame_def conn_write_def frame_bytes_def maxFrameLen_def)
qed

theorem frame_stream_witness:
  "read_all (concat (map frame_bytes [(frameSend, [1, 2]), (framePing, [])])) = [(frameSend, [1, 2]), (framePing, [])]"
  using frame_stream [of "[(frameSend, [1, 2]), (framePing, [])]"] by (simp add: fits_def maxFrameLen_def)

text \<open>
  Claim C7. The newest connection of a key wins: however clients come, go and come back, a connection
  that was not closed is the registered one of its key, so a key has at most one live
  connection and frames for it go there. Outgoing queues hold at most 256 frames, and every
  queued frame can be written.
\<close>
theorem relay_newest_wins:
  assumes "reachable relay_init relay_step s" and "rv_heap s i = Some sc"
  shows "(\<not> sc_done sc \<longrightarrow> rv_conns s (sc_key sc) = Some i \<and>
      (\<forall>j d. rv_heap s j = Some d \<and> sc_key d = sc_key sc \<and> \<not> sc_done d \<longrightarrow> j = i)) \<and>
    length (ch_buf (sc_sendq sc)) \<le> 256 \<and> list_all (\<lambda>f. fits (of_typ f, of_body f)) (ch_buf (sc_sendq sc))"
proof -
  note inv = relay_sys.reachable_inv [OF assms(1)]
  have 1: "rv_conns s (sc_key d) = Some j" if "rv_heap s j = Some d" "\<not> sc_done d" for j d
    by (rule relay_invD(3) [OF inv that])
  have "conn_ok sc" using relay_invD(2) [OF inv assms(2)] by blast
  then have "length (ch_buf (sc_sendq sc)) \<le> 256 \<and> list_all (\<lambda>f. fits (of_typ f, of_body f)) (ch_buf (sc_sendq sc))"
    by (simp add: conn_ok_def fits_def)
  with 1 assms(2) show ?thesis by (metis option.inject)
qed

definition sample_relay :: relay_Server where
  "sample_relay = fst (relay_accept (replicate 32 7) \<lparr>wr_out = [], wr_left = None\<rparr>
     (fst (relay_accept (replicate 32 9) \<lparr>wr_out = [], wr_left = None\<rparr> NewServer)))"

lemma sample_relay_reachable: "reachable relay_init relay_step sample_relay"
proof -
  have 1: "reachable relay_init relay_step (fst (relay_accept (replicate 32 9) \<lparr>wr_out = [], wr_left = None\<rparr> NewServer))"
    by (rule reachable_step [OF reachable_init [where s = NewServer]], simp add: relay_init_def) (simp add: relay_step_accept)
  show ?thesis unfolding sample_relay_def by (rule reachable_step [OF 1 relay_step_accept]) simp
qed

lemma sample_relay_conns:
  "rv_conns sample_relay (replicate 32 7) = Some 1" "rv_conns sample_relay (replicate 32 9) = Some 0"
  "rv_heap sample_relay 0 = Some \<lparr>sc_key = replicate 32 9, sc_sendq = \<lparr>ch_buf = [], ch_cap = 256, ch_closed = False\<rparr>, sc_done = False,
     sc_conn = \<lparr>wr_out = [], wr_left = None\<rparr>\<rparr>"
  "rv_heap sample_relay 1 = Some \<lparr>sc_key = replicate 32 7, sc_sendq = \<lparr>ch_buf = [], ch_cap = 256, ch_closed = False\<rparr>, sc_done = False,
     sc_conn = \<lparr>wr_out = [], wr_left = None\<rparr>\<rparr>"
proof -
  have "(replicate 32 7 :: byte list) \<noteq> replicate 32 9" by simp
  then show "rv_conns sample_relay (replicate 32 7) = Some 1" "rv_conns sample_relay (replicate 32 9) = Some 0"
    "rv_heap sample_relay 0 = Some \<lparr>sc_key = replicate 32 9, sc_sendq = \<lparr>ch_buf = [], ch_cap = 256, ch_closed = False\<rparr>, sc_done = False,
     sc_conn = \<lparr>wr_out = [], wr_left = None\<rparr>\<rparr>"
    "rv_heap sample_relay 1 = Some \<lparr>sc_key = replicate 32 7, sc_sendq = \<lparr>ch_buf = [], ch_cap = 256, ch_closed = False\<rparr>, sc_done = False,
     sc_conn = \<lparr>wr_out = [], wr_left = None\<rparr>\<rparr>"
    by (simp_all add: sample_relay_def relay_accept_def Let_def NewServer_def)
qed

theorem relay_newest_wins_witness:
  "{j. \<exists>d. rv_heap sample_relay j = Some d \<and> sc_key d = replicate 32 9 \<and> \<not> sc_done d} \<subseteq> {0}"
  using relay_newest_wins [OF sample_relay_reachable sample_relay_conns(3)] by auto

text \<open>
  Claim C8. A payload goes through the relay as it was sent: a client's \<^verbatim>\<open>Send\<close> of up to 4064 bytes, read
  by the server on a connection of key \<open>sc_key sa\<close> and written to the live connection of the addressed
  key with an empty queue, reaches that client's \<^verbatim>\<open>onPacket\<close> unchanged, once, with the sender's
  authenticated key as its source.
\<close>
theorem relay_delivers:
  assumes "reachable relay_init relay_step s" and "rv_heap s i = Some sa" and "rv_conns s dst = Some j" and "rv_heap s j = Some sb"
    and "\<not> sc_done sb" and "ch_buf (sc_sendq sb) = []" and "wr_left (sc_conn sb) = None"
    and "rc_conn c = Some w" and "rc_up c" and "wr_left w = None" and "length payload \<le> 4064"
  shows "\<exists>c' w' frame s1 s2 sb'. relay_Send dst payload c = (c', Inr ()) \<and> rc_conn c' = Some w' \<and>
    (\<exists>sent. wr_out w' = wr_out w @ sent \<and> readFrame (sent @ rest) = (rest, Inr frame)) \<and>
    reader_turn i (Inr frame) s = (s1, True) \<and> rv_framesForwarded s1 = rv_framesForwarded s + 1 \<and>
    writer_turn j s1 = (s2, True) \<and> rv_heap s2 j = Some sb' \<and>
    (\<exists>sent e. wr_out (sc_conn sb') = wr_out (sc_conn sb) @ sent \<and> session_loop sent = ([(sc_key sa, payload)], e))"
proof -
  note inv = relay_sys.reachable_inv [OF assms(1)]
  have ka: "length (sc_key sa) = 32" and ok: "conn_ok sb" using relay_invD(2) [OF inv assms(2)] relay_invD(2) [OF inv assms(4)] by (auto simp: conn_ok_def)
  have kb: "length dst = 32" using relay_invD(1) [OF inv assms(3)] assms(4) ok by (auto simp: conn_ok_def)
  have f1: "fits (frameSend, dst @ payload)" and f2: "fits (frameRecv, sc_key sa @ payload)"
    using ka kb assms(11) by (auto simp: fits_def maxFrameLen_def)
  let ?w = "w\<lparr>wr_out := wr_out w @ frame_bytes (frameSend, dst @ payload)\<rparr>"
  have send: "relay_Send dst payload c = (c\<lparr>rc_conn := Some ?w\<rparr>, Inr ())"
    using assms(8-10) by (simp add: relay_Send_def writeFrame_open [OF f1])
  have rd: "readFrame (frame_bytes (frameSend, dst @ payload) @ rest) = (rest, Inr (frameSend, dst @ payload))" by (rule readFrame_frame [OF f1])
  let ?q = "(sc_sendq sb)\<lparr>ch_buf := [\<lparr>of_typ = frameRecv, of_body = sc_key sa @ payload\<rparr>]\<rparr>"
  let ?s1 = "(upd_conn j (sc_sendq_update (\<lambda>_. ?q)) s)\<lparr>rv_framesForwarded := rv_framesForwarded s + 1, rv_bytesForwarded := rv_bytesForwarded s + int (length payload)\<rparr>"
  have cnt: "rv_framesForwarded (upd_conn j h s) = rv_framesForwarded s" "rv_bytesForwarded (upd_conn j h s) = rv_bytesForwarded s" for h
    by (simp_all add: upd_conn_def split: option.split)
  have "forward (sc_key sa) dst payload s = ?s1"
    using assms(3,4,6) ok by (simp add: forward_def Let_def try_enqueue_def try_send_def conn_ok_def cnt)
  then have r: "reader_turn i (Inr (frameSend, dst @ payload)) s = (?s1, True)"
    using assms(2) kb by (simp add: reader_turn_def frame_types)
  define s1 where "s1 = ?s1"
  have r1: "reader_turn i (Inr (frameSend, dst @ payload)) s = (s1, True)" "rv_framesForwarded s1 = rv_framesForwarded s + 1"
    using r by (simp_all add: s1_def)
  have h1: "rv_heap s1 j = Some (sb\<lparr>sc_sendq := ?q\<rparr>)" using assms(4) by (simp add: s1_def upd_conn_heap)
  let ?sb = "sb\<lparr>sc_sendq := ?q\<lparr>ch_buf := []\<rparr>, sc_conn := (sc_conn sb)\<lparr>wr_out := wr_out (sc_conn sb) @ frame_bytes (frameRecv, sc_key sa @ payload)\<rparr>\<rparr>"
  obtain s2 where wt: "writer_turn j s1 = (s2, True)" and h2: "rv_heap s2 j = Some ?sb"
    using h1 assms(5,7) by (simp add: writer_turn_def chan_recv_def writeFrame_open [OF f2] upd_conn_heap)
  have "session_loop (frame_bytes (frameRecv, sc_key sa @ payload)) = ([(sc_key sa, payload)], ErrMsg ''EOF'')"
  proof -
    have "session_loop [] = ([], ErrMsg ''EOF'')" by (subst session_loop.simps) (simp add: readFrame_def ReadFull_def)
    with readFrame_frame [OF f2, of "[]"] ka show ?thesis by (subst session_loop.simps) simp
  qed
  then have out: "\<exists>sent e. wr_out (sc_conn ?sb) = wr_out (sc_conn sb) @ sent \<and> session_loop sent = ([(sc_key sa, payload)], e)" by auto
  have "\<exists>sent. wr_out ?w = wr_out w @ sent \<and> readFrame (sent @ rest) = (rest, Inr (frameSend, dst @ payload))" using rd by auto
  with send r1 wt h2 out show ?thesis
    by (intro exI [of _ "c\<lparr>rc_conn := Some ?w\<rparr>"] exI [of _ ?w] exI [of _ "(frameSend, dst @ payload)"] exI [of _ s1] exI [of _ s2] exI [of _ ?sb])
      simp
qed

theorem relay_delivers_witness:
  "\<exists>frame s1 s2 sb' sent e. reader_turn 0 (Inr frame) sample_relay = (s1, True) \<and> writer_turn 1 s1 = (s2, True) \<and> rv_heap s2 1 = Some sb' \<and>
     wr_out (sc_conn sb') = sent \<and> session_loop sent = ([(replicate 32 9, [1, 2, 3])], e)"
  using relay_delivers [OF sample_relay_reachable sample_relay_conns(3) sample_relay_conns(1,4), of
      "\<lparr>rc_priv = [], rc_pub = [], rc_conn = Some \<lparr>wr_out = [], wr_left = None\<rparr>, rc_up = True, rc_closed = False\<rparr>"
      "\<lparr>wr_out = [], wr_left = None\<rparr>" "[1, 2, 3]" "[]"]
  by simp blast

text \<open>
  Claim C26. The handshake: a client that holds the private key of the public key it names is accepted
  under that key, both sides consuming exactly their frames. Whoever is accepted under a
  key sent a box that opens with that key to the very nonce of this challenge.
\<close>
theorem relay_handshake:
  assumes "box_ok pub seal opn" and "length nonce = 24"
  shows "authenticate seal priv (pub priv) (frame_bytes (frameChallenge, pub eph @ nonce) @ frame_bytes (frameOK, []) @ rest) \<lparr>wr_out = [], wr_left = None\<rparr> =
      (rest, \<lparr>wr_out = frame_bytes (frameAuth, pub priv @ seal nonce nonce (pub eph) priv), wr_left = None\<rparr>, Inr ()) \<and>
    handshake opn (Some (pub eph, eph)) (Some nonce) (frame_bytes (frameAuth, pub priv @ seal nonce nonce (pub eph) priv) @ rest) \<lparr>wr_out = [], wr_left = None\<rparr> =
      (rest, \<lparr>wr_out = frame_bytes (frameChallenge, pub eph @ nonce) @ frame_bytes (frameOK, []), wr_left = None\<rparr>, Inr (pub priv)) \<and>
    (handshake opn (Some (ephPub, ephPriv)) (Some nonce') inp w = (inp', w', Inr k) \<longrightarrow>
      (\<exists>body. readFrame inp = (inp', Inr (frameAuth, body)) \<and> k = take 32 body \<and> opn (drop 32 body) nonce' k ephPriv = Some nonce'))"
proof -
  from assms have b: "length (pub x) = 32" "length (seal m n y x) = length m + 16" "opn (seal m n (pub y) x) n (pub x) y = Some m" for m n x y
    by (auto simp: box_ok_def Overhead_def)
  have f: "fits (frameChallenge, pub eph @ nonce)" "fits (frameOK, [])" "fits (frameAuth, pub priv @ seal nonce nonce (pub eph) priv)"
    using assms(2) b by (simp_all add: fits_def maxFrameLen_def)
  have 1: "authenticate seal priv (pub priv) (frame_bytes (frameChallenge, pub eph @ nonce) @ frame_bytes (frameOK, []) @ rest) \<lparr>wr_out = [], wr_left = None\<rparr> =
      (rest, \<lparr>wr_out = frame_bytes (frameAuth, pub priv @ seal nonce nonce (pub eph) priv), wr_left = None\<rparr>, Inr ())"
    using assms(2) b by (simp add: authenticate_def readFrame_frame f writeFrame_open Let_def)
  have 2: "handshake opn (Some (pub eph, eph)) (Some nonce) (frame_bytes (frameAuth, pub priv @ seal nonce nonce (pub eph) priv) @ rest) \<lparr>wr_out = [], wr_left = None\<rparr> =
      (rest, \<lparr>wr_out = frame_bytes (frameChallenge, pub eph @ nonce) @ frame_bytes (frameOK, []), wr_left = None\<rparr>, Inr (pub priv))"
    using assms(2) b by (simp add: handshake_def readFrame_frame f writeFrame_open Let_def Overhead_def)
  have 3: "\<exists>body. readFrame inp = (inp', Inr (frameAuth, body)) \<and> k = take 32 body \<and> opn (drop 32 body) nonce' k ephPriv = Some nonce'"
    if "handshake opn (Some (ephPub, ephPriv)) (Some nonce') inp w = (inp', w', Inr k)"
    using that by (auto simp: handshake_def Let_def split: prod.splits sum.splits if_splits option.splits)
  from 1 2 3 show ?thesis by blast
qed

theorem relay_handshake_witness:
  "authenticate (\<lambda>m n k p. m @ replicate 16 0) [5] (replicate 32 0)
     (frame_bytes (frameChallenge, replicate 32 0 @ replicate 24 3) @ frame_bytes (frameOK, [])) \<lparr>wr_out = [], wr_left = None\<rparr> =
   ([], \<lparr>wr_out = frame_bytes (frameAuth, replicate 32 0 @ replicate 24 3 @ replicate 16 0), wr_left = None\<rparr>, Inr ())"
proof -
  have "box_ok (\<lambda>_. replicate 32 0) (\<lambda>m n k p. m @ replicate 16 0) (\<lambda>c n k q. Some (take (length c - 16) c))"
    by (simp add: box_ok_def Overhead_def)
  from relay_handshake [OF this, of "replicate 24 3" "[5]" "[]" "[]"] show ?thesis by simp
qed

text \<open>The client accepts the server's upgrade response and starts reading frames right after it.\<close>

lemma upgrade_accepted:
  "relay_Handler ProtocolName True = Upgraded r \<Longrightarrow> read_upgrade (r @ rest) = Inr rest"
  by (auto simp: relay_Handler_def read_upgrade_def ProtocolName_def crlf_def is_newline_def skip_headers.simps)

lemma backoff_bounded: "0 < b \<Longrightarrow> 0 < next_backoff b \<and> next_backoff b \<le> 30000000000 \<and> (b \<le> 30000000000 \<longrightarrow> b \<le> next_backoff b)"
  by (simp add: next_backoff_def Let_def)

end
