(* ===== verification/Daemon_State.thy ===== *)
theory Daemon_State
  imports Key Golib
begin

text \<open>
  The daemon's persistent state, \<^verbatim>\<open>src/internal/daemon/state.go\<close>: the device's keys and the last session. The
  state file holds the JSON of the exported fields; as \<^verbatim>\<open>encoding/json\<close> reads back what it wrote, the model keeps
  the fields themselves. \<open>load_faults\<close> says which file operations fail and what the random source gives.

  The lemmas show that the identity survives: what was saved is what the next start reads, and a start never
  replaces the keys of a file that is there.
\<close>

record state_json =
  sj_MachinePrivateHex :: string
  sj_NodePrivateHex :: string
  sj_Server :: string
  sj_DesiredUp :: bool
  sj_UseTLS :: bool
  sj_AdvertiseRoutes :: "string list"
  sj_ExitNode :: string
  sj_NodeKeyRotatedAt :: int

record State = state_json +
  sj_machinePriv :: MachinePrivate
  sj_nodePriv :: NodePrivate

definition empty_State :: State where
  "empty_State = \<lparr>sj_MachinePrivateHex = [], sj_NodePrivateHex = [], sj_Server = [], sj_DesiredUp = False, sj_UseTLS = False,
     sj_AdvertiseRoutes = [], sj_ExitNode = [], sj_NodeKeyRotatedAt = 0,
     sj_machinePriv = MachinePrivate zero_key, sj_nodePriv = NodePrivate zero_key\<rparr>"

text \<open>The state directory: the state file and the temporary file beside it.\<close>

datatype state_file = Absent | Corrupt | Saved state_json

record state_dir =
  sd_file :: state_file
  sd_tmp :: state_file

text \<open>A write that fails may leave anything in the temporary file.\<close>

record state_io =
  sio_mkdir :: bool
  sio_read :: bool
  sio_write :: "state_file option"
  sio_rename :: bool
  sio_random1 :: "byte list option"
  sio_random2 :: "byte list option"

definition State_Save :: "state_io \<Rightarrow> State \<Rightarrow> state_dir \<Rightarrow> state_dir \<times> unit res" where
  "State_Save io st d = (case sio_write io of
     Some junk \<Rightarrow> (d\<lparr>sd_tmp := junk\<rparr>, Inl ErrDriver)
   | None \<Rightarrow> (let d1 = d\<lparr>sd_tmp := Saved (state_json.truncate st)\<rparr>
       in if sio_rename io then (d1, Inl ErrDriver) else (d1\<lparr>sd_file := sd_tmp d1, sd_tmp := Absent\<rparr>, Inr ())))"

definition load_fields :: "state_io \<Rightarrow> state_dir \<Rightarrow> State res" where
  "load_fields io d =
     (if sio_read io then Inl ErrDriver
      else (case sd_file d of
        Saved j \<Rightarrow> Inr (state_json.extend j \<lparr>sj_machinePriv = MachinePrivate zero_key, sj_nodePriv = NodePrivate zero_key\<rparr>)
      | Corrupt \<Rightarrow> Inl (ErrWrap ''corrupt state file %s: %w'' ErrDriver)
      | Absent \<Rightarrow> (case NewMachine (sio_random1 io) of
          Inl e \<Rightarrow> Inl e
        | Inr mk \<Rightarrow> (case NewNode (sio_random2 io) of
            Inl e \<Rightarrow> Inl e
          | Inr nk \<Rightarrow> Inr (empty_State\<lparr>sj_MachinePrivateHex := MachinePrivate_Hex mk, sj_NodePrivateHex := NodePrivate_Hex nk\<rparr>)))))"

definition LoadOrCreateState :: "state_io \<Rightarrow> state_dir \<Rightarrow> state_dir \<times> State res" where
  "LoadOrCreateState io d =
     (if sio_mkdir io then (d, Inl ErrDriver)
      else (case load_fields io d of
        Inl e \<Rightarrow> (d, Inl e)
      | Inr st \<Rightarrow> (case MachinePrivateFromHex (sj_MachinePrivateHex st) of
          Inl e \<Rightarrow> (d, Inl e)
        | Inr mp \<Rightarrow> (case NodePrivateFromHex (sj_NodePrivateHex st) of
            Inl e \<Rightarrow> (d, Inl e)
          | Inr np \<Rightarrow> (let st1 = st\<lparr>sj_machinePriv := mp, sj_nodePriv := np\<rparr>
              in case State_Save io st1 d of (d1, Inl e) \<Rightarrow> (d1, Inl e) | (d1, Inr _) \<Rightarrow> (d1, Inr st1))))))"

definition SetNodeKey :: "NodePrivate \<Rightarrow> int \<Rightarrow> State \<Rightarrow> State" where
  "SetNodeKey nk now st = st\<lparr>sj_nodePriv := nk, sj_NodePrivateHex := NodePrivate_Hex nk, sj_NodeKeyRotatedAt := now\<rparr>"

section \<open>Lemmas\<close>

text \<open>The hex fields belong to the keys in use.\<close>

definition state_ok :: "State \<Rightarrow> bool" where
  "state_ok st \<longleftrightarrow> MachinePrivateFromHex (sj_MachinePrivateHex st) = Inr (sj_machinePriv st) \<and>
     NodePrivateFromHex (sj_NodePrivateHex st) = Inr (sj_nodePriv st)"

lemma node_hex_roundtrip: "key_ok (npriv_k p) \<Longrightarrow> NodePrivateFromHex (NodePrivate_Hex p) = Inr p"
  by (simp add: NodePrivateFromHex_def NodePrivate_Hex_def privFromHex_def key_ok_def codec_simps)

lemma LoadOrCreateState_ok: "LoadOrCreateState io d = (d', Inr st) \<Longrightarrow> state_ok st \<and> sd_file d' = Saved (state_json.truncate st)"
  by (auto simp: LoadOrCreateState_def State_Save_def state_ok_def Let_def state_json.defs split: if_splits sum.splits option.splits)

lemma SetNodeKey_ok: "state_ok st \<Longrightarrow> key_ok (npriv_k nk) \<Longrightarrow> state_ok (SetNodeKey nk now st)"
  by (simp add: state_ok_def SetNodeKey_def node_hex_roundtrip)

text \<open>A save replaces the file as a whole or leaves it.\<close>

lemma State_Save_atomic:
  "State_Save io st d = (d', r) \<Longrightarrow> sd_file d' = (if r = Inr () then Saved (state_json.truncate st) else sd_file d)"
  by (auto simp: State_Save_def Let_def split: option.splits if_splits)

text \<open>A restart reads back what was saved.\<close>

lemma reload_saved:
  assumes "state_ok st" and "sd_file d = Saved (state_json.truncate st)"
    and "\<not> sio_mkdir io" and "\<not> sio_read io" and "sio_write io = None" and "\<not> sio_rename io"
  shows "snd (LoadOrCreateState io d) = Inr st"
proof -
  have "load_fields io d = Inr (st\<lparr>sj_machinePriv := MachinePrivate zero_key, sj_nodePriv := NodePrivate zero_key\<rparr>)"
    using assms(2,4) by (simp add: load_fields_def state_json.defs)
  then show ?thesis
    using assms by (simp add: LoadOrCreateState_def state_ok_def State_Save_def Let_def)
qed

text \<open>Whatever fails, a start keeps the keys of a file that is there.\<close>

lemma start_keeps_keys:
  assumes "sd_file d = Saved j" and "LoadOrCreateState io d = (d', r)"
  shows "\<exists>j'. sd_file d' = Saved j' \<and> sj_MachinePrivateHex j' = sj_MachinePrivateHex j \<and> sj_NodePrivateHex j' = sj_NodePrivateHex j"
  using assms
  by (auto simp: LoadOrCreateState_def load_fields_def State_Save_def Let_def state_json.defs split: if_splits sum.splits option.splits)

end
