(* ===== verification/Daemon.thy ===== *)
theory Daemon
  imports Coord Connmgr Wg_Engine Meshdns Overdrop Router Relay Daemon_State
begin

text \<open>
  The node agent, \<^verbatim>\<open>src/internal/daemon/daemon.go\<close>, on top of the components it drives: it registers, merges every
  netmap into its table of peers and from it programs the WireGuard engine, the packet filter, the overlay
  resolver, the operating system's routes, the file receiver and the negotiation of direct paths.

  The engine is Go's interface \<^verbatim>\<open>wgengine.Engine\<close>, the record \<open>engine_ops\<close> of its methods on a state
  \<open>'e\<close>; \<open>userspace_ops\<close> is the instance of \<open>Wg_Engine\<close>. Libraries and the outcomes of system calls are the
  record \<open>dm_lib\<close>. A range over the map of peers takes its order from the argument \<open>ord\<close>, the order of the
  \<open>k\<close>-th loop of a call; \<open>orders_ok\<close> says that these are orders of the map's keys. Path updates that the
  connection manager reports while it reconciles its peers are handled when it returns. Goroutines, timeouts
  and log lines are left out, and the routes are those of Linux.
\<close>

section \<open>Libraries\<close>

record 'e engine_ops =
  eo_SetPeers :: "PeerConfig list \<Rightarrow> 'e \<Rightarrow> 'e \<times> unit res"
  eo_SetFilter :: "Filter option \<Rightarrow> 'e \<Rightarrow> 'e"
  eo_SetPrivateKey :: "byte list \<Rightarrow> 'e \<Rightarrow> 'e \<times> unit res"
  eo_IfName :: "'e \<Rightarrow> string"
  eo_Kind :: "'e \<Rightarrow> string"

definition userspace_ops :: "(string \<Rightarrow> 'dev \<Rightarrow> 'dev \<times> unit res) \<Rightarrow> 'dev userspaceEngine engine_ops" where
  "userspace_ops ipc = \<lparr>eo_SetPeers = ue_SetPeers ipc, eo_SetFilter = ue_SetFilter, eo_SetPrivateKey = ue_SetPrivateKey ipc,
     eo_IfName = ue_name, eo_Kind = (\<lambda>_. ''userspace'')\<rparr>"

text \<open>A URL as \<^verbatim>\<open>url.Parse\<close> gives it: the scheme, the host with its port, and the rest.\<close>

record url =
  url_Scheme :: string
  url_Host :: string
  url_Rest :: string

record ('e, 'os) dm_lib =
  ml_GOOS :: string
  ml_eng :: "'e engine_ops"
  ml_lx :: "'os linux"
  ml_dns :: dnslib
  ml_stun :: "string \<Rightarrow> bool"
  ml_urlParse :: "string \<Rightarrow> url option"
  ml_urlString :: "url \<Rightarrow> string"
  ml_LookupIP :: "string \<Rightarrow> byte list list option"
  ml_public :: "byte list \<Rightarrow> byte list"
  ml_dnsStart :: bool
  ml_ConfigureOS :: bool
  ml_dropStart :: bool

text \<open>\<^verbatim>\<open>URL.Hostname\<close> and \<^verbatim>\<open>URL.Port\<close>.\<close>

definition url_Hostname :: "url \<Rightarrow> string" where
  "url_Hostname u = (let h = url_Host u in
     if CHR '':'' \<notin> set h then h
     else if CHR '']'' \<in> set h then
       (let t = takeWhile (\<lambda>c. c \<noteq> CHR '']'') h in if has_prefix t ''['' then tl t else t)
     else takeWhile (\<lambda>c. c \<noteq> CHR '':'') h)"

definition url_Port :: "url \<Rightarrow> string" where
  "url_Port u = (let h = url_Host u in
     if CHR '':'' \<notin> set h then []
     else if CHR '']'' \<in> set h then
       (let t = dropWhile (\<lambda>c. c \<noteq> CHR '']'') h in if has_prefix t '']:'' then drop 2 t else [])
     else tl (dropWhile (\<lambda>c. c \<noteq> CHR '':'') h))"

text \<open>\<^verbatim>\<open>strings.EqualFold\<close> on ASCII text.\<close>

definition equal_fold :: "string \<Rightarrow> string \<Rightarrow> bool" where
  "equal_fold a b \<longleftrightarrow> to_lower a = to_lower b"

section \<open>State\<close>

record dm_Options =
  op_ListenPort :: "16 word"
  op_IfaceName :: string
  op_WGMode :: string
  op_MTU :: int
  op_StateDir :: string
  op_UseTLS :: bool
  op_OverdropOff :: bool
  op_OverdropDir :: string
  op_OverdropPort :: "16 word"

definition overdropDir :: "dm_Options \<Rightarrow> string" where
  "overdropDir o' = (if op_OverdropDir o' \<noteq> [] then op_OverdropDir o' else op_StateDir o' @ ''/overdrop'')"

definition overdropPort :: "dm_Options \<Rightarrow> 16 word" where
  "overdropPort o' = (if op_OverdropPort o' \<noteq> 0 then op_OverdropPort o' else 41645)"

record PeerStatus =
  ps_Hostname :: string
  ps_IPv4 :: string
  ps_IPv6 :: string
  ps_Online :: bool
  ps_Path :: string
  ps_Endpoint :: string
  ps_RTTms :: int
  ps_Endpoints :: "string list"
  ps_Routes :: "string list"
  ps_OffersExit :: bool

record Status =
  ss_Running :: bool
  ss_Server :: string
  ss_Network :: string
  ss_Hostname :: string
  ss_IPv4 :: string
  ss_IPv6 :: string
  ss_Iface :: string
  ss_Engine :: string
  ss_Conn :: string
  ss_Relay :: string
  ss_Domain :: string
  ss_AdvertisedRoutes :: "string list"
  ss_ApprovedRoutes :: "string list"
  ss_ExitNode :: string
  ss_ExitNodeActive :: bool
  ss_OverdropDir :: string
  ss_Peers :: "PeerStatus list"

definition empty_Status :: Status where
  "empty_Status = \<lparr>ss_Running = False, ss_Server = [], ss_Network = [], ss_Hostname = [], ss_IPv4 = [], ss_IPv6 = [], ss_Iface = [],
     ss_Engine = [], ss_Conn = [], ss_Relay = [], ss_Domain = [], ss_AdvertisedRoutes = [], ss_ApprovedRoutes = [], ss_ExitNode = [],
     ss_ExitNodeActive = False, ss_OverdropDir = [], ss_Peers = []\<rparr>"

record peerInfo =
  pi_nodeID :: u64
  pi_hostname :: string
  pi_pubKey :: "byte list"
  pi_allowed :: "Prefix list"
  pi_ipv4 :: string
  pi_ipv6 :: string
  pi_online :: bool
  pi_staticEPs :: "string list"
  pi_path :: PathState
  pi_pathEP :: AddrPort
  pi_rtt :: int
  pi_subnetRoutes :: "Prefix list"
  pi_exitRoutes :: "Prefix list"

record relay_link =
  rl_URL :: string
  rl_cli :: relay_Client

record Transfer =
  tf_ID :: int
  tf_File :: string
  tf_Peer :: string
  tf_Sent :: int
  tf_Total :: int
  tf_State :: string
  tf_Error :: bool
  tf_StartedAt :: int

record ('e, 'os, 'c) Daemon =
  d_opts :: dm_Options
  d_state :: State
  d_dir :: state_dir
  d_running :: bool
  d_engine :: "'e option"
  d_connmgr :: "'c ConnMgr option"
  d_bind :: "Bind option"
  d_relayCli :: "relay_link option"
  d_dnsSrv :: "meshdns_Server option"
  d_dnsOSDone :: bool
  d_selfV4 :: Addr
  d_kernWarn :: bool
  d_speedHint :: bool
  d_peers :: "u64 \<rightharpoonup> peerInfo"
  d_status :: Status
  d_adv :: "Advertiser option"
  d_exitCli :: "ExitClient option"
  d_routeSync :: "RouteSync option"
  d_exitNode :: string
  d_exitPeerID :: u64
  d_dropSrv :: bool
  d_lastRelays :: "string list"
  d_lastStun :: "string list"
  d_nextXfer :: int
  d_xfers :: "int \<rightharpoonup> Transfer"
  d_os :: 'os
  d_panic :: bool

definition daemon_New :: "dm_Options \<Rightarrow> state_io \<Rightarrow> state_dir \<Rightarrow> 'os \<Rightarrow> ('e, 'os, 'c) Daemon res" where
  "daemon_New opts io dir os = (case LoadOrCreateState io dir of
     (_, Inl e) \<Rightarrow> Inl e
   | (dir1, Inr st) \<Rightarrow> Inr \<lparr>d_opts = opts, d_state = st, d_dir = dir1, d_running = False, d_engine = None, d_connmgr = None,
       d_bind = None, d_relayCli = None, d_dnsSrv = None, d_dnsOSDone = False, d_selfV4 = NoAddr, d_kernWarn = False,
       d_speedHint = False, d_peers = Map.empty, d_status = empty_Status, d_adv = None, d_exitCli = None, d_routeSync = None,
       d_exitNode = [], d_exitPeerID = 0, d_dropSrv = False, d_lastRelays = [], d_lastStun = [], d_nextXfer = 0,
       d_xfers = Map.empty, d_os = os, d_panic = False\<rparr>)"

definition save_state :: "state_io \<Rightarrow> ('e, 'os, 'c) Daemon \<Rightarrow> ('e, 'os, 'c) Daemon \<times> unit res" where
  "save_state io d = (case State_Save io (d_state d) (d_dir d) of (dir, r) \<Rightarrow> (d\<lparr>d_dir := dir\<rparr>, r))"

text \<open>The peers in the order of a range loop.\<close>

definition ranged :: "u64 list \<Rightarrow> (u64 \<rightharpoonup> peerInfo) \<Rightarrow> peerInfo list" where
  "ranged ks peers = List.map_filter peers ks"

section \<open>Peers\<close>

definition new_peer :: "u64 \<Rightarrow> peerInfo" where
  "new_peer n = \<lparr>pi_nodeID = n, pi_hostname = [], pi_pubKey = zero_key, pi_allowed = [], pi_ipv4 = [], pi_ipv6 = [], pi_online = False,
     pi_staticEPs = [], pi_path = PathNone, pi_pathEP = no_addr_port, pi_rtt = 0, pi_subnetRoutes = [], pi_exitRoutes = []\<rparr>"

definition overlay_texts :: "Prefix list \<Rightarrow> string \<times> string" where
  "overlay_texts ps = fold (\<lambda>p (v4, v6). if addr_is4 (prefix_addr p) then (addr_text (prefix_addr p), v6)
     else (v4, addr_text (prefix_addr p))) ps ([], [])"

definition merge_peer :: "pb_Peer \<Rightarrow> (u64 \<rightharpoonup> peerInfo) \<Rightarrow> (u64 \<rightharpoonup> peerInfo)" where
  "merge_peer p peers =
     (if length (pbp_NodeKey p) \<noteq> 32 then peers
      else (let n = pbp_NodeId p;
                pi = (case peers n of None \<Rightarrow> new_peer n | Some pi \<Rightarrow> pi);
                allowed = List.map_filter parse_prefix (pbp_OverlayIps p);
                routes = List.map_filter parse_prefix (pbp_AllowedRoutes p)
            in peers(n \<mapsto> pi\<lparr>pi_pubKey := pbp_NodeKey p, pi_hostname := pbp_Hostname p, pi_online := pbp_Online p,
                 pi_staticEPs := pbp_Endpoints p, pi_allowed := allowed, pi_ipv4 := fst (overlay_texts allowed),
                 pi_ipv6 := snd (overlay_texts allowed),
                 pi_exitRoutes := filter (\<lambda>r. prefix_bits r = 0) routes,
                 pi_subnetRoutes := filter (\<lambda>r. prefix_bits r \<noteq> 0) routes\<rparr>)))"

definition seen_peers :: "NetMap \<Rightarrow> u64 list" where
  "seen_peers nm = map pbp_NodeId (filter (\<lambda>p. length (pbp_NodeKey p) = 32) (nm_Peers nm))"

definition online_peers :: "NetMap \<Rightarrow> u64 list" where
  "online_peers nm = remdups (map pbp_NodeId (filter (\<lambda>p. length (pbp_NodeKey p) = 32 \<and> pbp_Online p) (nm_Peers nm)))"

definition merge_netmap :: "NetMap \<Rightarrow> (u64 \<rightharpoonup> peerInfo) \<Rightarrow> (u64 \<rightharpoonup> peerInfo)" where
  "merge_netmap nm peers = (fold merge_peer (nm_Peers nm) peers) |` set (seen_peers nm)"

definition selectExitPeerLocked :: "u64 list \<Rightarrow> ('e, 'os, 'c) Daemon \<Rightarrow> ('e, 'os, 'c) Daemon" where
  "selectExitPeerLocked ks d =
     d\<lparr>d_exitPeerID := (if d_exitNode d = [] then 0
        else (case List.find (\<lambda>pi. equal_fold (pi_hostname pi) (d_exitNode d) \<and> pi_exitRoutes pi \<noteq> []) (ranged ks (d_peers d)) of
          None \<Rightarrow> 0 | Some pi \<Rightarrow> pi_nodeID pi))\<rparr>"

definition relay_up :: "('e, 'os, 'c) Daemon \<Rightarrow> bool" where
  "relay_up d = (case d_relayCli d of None \<Rightarrow> False | Some rl \<Rightarrow> Connected (rl_cli rl))"

text \<open>The path ladder of one peer: direct, relay, static.\<close>

definition peer_config :: "bool \<Rightarrow> u64 \<Rightarrow> peerInfo \<Rightarrow> PeerConfig" where
  "peer_config relayUp exitID pi =
     (let pc = \<lparr>pc_PublicKey = pi_pubKey pi,
            pc_AllowedIPs = pi_allowed pi @ pi_subnetRoutes pi @ (if pi_nodeID pi = exitID then pi_exitRoutes pi else []),
            pc_Endpoint = no_addr_port, pc_RelayEndpoint = []\<rparr>
      in if pi_path pi = PathDirect \<and> ap_valid (pi_pathEP pi) then pc\<lparr>pc_Endpoint := pi_pathEP pi\<rparr>
         else if relayUp \<and> pi_online pi then pc\<lparr>pc_RelayEndpoint := RelayEndpointString (pi_pubKey pi)\<rparr>
         else (case List.map_filter parse_addr_port (pi_staticEPs pi) of [] \<Rightarrow> pc | ap # _ \<Rightarrow> pc\<lparr>pc_Endpoint := ap\<rparr>))"

definition buildPeerConfigsLocked :: "u64 list \<Rightarrow> ('e, 'os, 'c) Daemon \<Rightarrow> PeerConfig list" where
  "buildPeerConfigsLocked ks d =
     filter (\<lambda>pc. ap_valid (pc_Endpoint pc) \<or> pc_RelayEndpoint pc \<noteq> [])
       (map (peer_config (relay_up d) (d_exitPeerID d)) (ranged ks (d_peers d)))"

definition peer_status :: "bool \<Rightarrow> bool \<Rightarrow> peerInfo \<Rightarrow> PeerStatus" where
  "peer_status relayUp nomgr pi =
     (let s = \<lparr>ps_Hostname = pi_hostname pi, ps_IPv4 = pi_ipv4 pi, ps_IPv6 = pi_ipv6 pi, ps_Online = pi_online pi, ps_Path = [],
            ps_Endpoint = [], ps_RTTms = 0, ps_Endpoints = pi_staticEPs pi, ps_Routes = map prefix_text (pi_subnetRoutes pi),
            ps_OffersExit = (pi_exitRoutes pi \<noteq> [])\<rparr>;
          s1 = (if pi_path pi = PathDirect then
                  s\<lparr>ps_Path := ''direct'', ps_Endpoint := addr_port_text (pi_pathEP pi), ps_RTTms := pi_rtt pi div 1000000\<rparr>
                else if relayUp \<and> pi_online pi then s\<lparr>ps_Path := ''relay''\<rparr>
                else if pi_path pi = PathConnecting then s\<lparr>ps_Path := ''connecting''\<rparr>
                else if nomgr \<and> pi_staticEPs pi \<noteq> [] then s\<lparr>ps_Path := ''lan''\<rparr> else s\<lparr>ps_Path := ''none''\<rparr>)
      in if pi_online pi then s1 else s1\<lparr>ps_Path := ''none''\<rparr>)"

definition refreshPeerStatusLocked :: "u64 list \<Rightarrow> ('e, 'os, 'c) Daemon \<Rightarrow> ('e, 'os, 'c) Daemon" where
  "refreshPeerStatusLocked ks d =
     d\<lparr>d_status := (d_status d)\<lparr>
        ss_Relay := (case d_relayCli d of Some rl \<Rightarrow> if relay_up d then rl_URL rl else [] | None \<Rightarrow> []),
        ss_Peers := order_by ps_Hostname (map (peer_status (relay_up d) (d_connmgr d = None)) (ranged ks (d_peers d)))\<rparr>\<rparr>"

definition syncPeers :: "('e, 'os) dm_lib \<Rightarrow> (nat \<Rightarrow> u64 list) \<Rightarrow> ('e, 'os, 'c) Daemon \<Rightarrow> ('e, 'os, 'c) Daemon" where
  "syncPeers lib ord d = (case d_engine d of
     None \<Rightarrow> d
   | Some e \<Rightarrow> (let cfgs = buildPeerConfigsLocked (ord 0) d; d1 = refreshPeerStatusLocked (ord 1) d
       in d1\<lparr>d_engine := Some (fst (eo_SetPeers (ml_eng lib) cfgs e))\<rparr>))"

text \<open>\<^verbatim>\<open>peerNameByAddr\<close>, the identification of senders of files.\<close>

definition peerNameByAddr :: "u64 list \<Rightarrow> ('e, 'os, 'c) Daemon \<Rightarrow> Addr \<Rightarrow> string" where
  "peerNameByAddr ks d a =
     (case List.find (\<lambda>pi. pi_ipv4 pi = addr_text a \<or> pi_ipv6 pi = addr_text a) (ranged ks (d_peers d)) of
        None \<Rightarrow> [] | Some pi \<Rightarrow> pi_hostname pi)"

definition InboxDir :: "('e, 'os, 'c) Daemon \<Rightarrow> string" where
  "InboxDir d = (if op_OverdropOff (d_opts d) then [] else overdropDir (d_opts d))"

section \<open>Addresses\<close>

definition overlayRoutes :: "Prefix \<Rightarrow> Prefix \<Rightarrow> Prefix list" where
  "overlayRoutes selfV4 selfV6 = [masked (prefix_from (prefix_addr selfV4) 11), masked (prefix_from (prefix_addr selfV6) 48)]"

definition inOverlayRange :: "Addr \<Rightarrow> bool" where
  "inOverlayRange a \<longleftrightarrow> prefix_contains (Pfx (V4 0x64400000) 10) a \<or>
     prefix_contains (Pfx (V6 0xfc000000000000000000000000000000 []) 7) a"

definition localEndpoints :: "net_iface list option \<Rightarrow> 16 word \<Rightarrow> string list" where
  "localEndpoints ifaces port = (case ifaces of
     None \<Rightarrow> []
   | Some is \<Rightarrow> order_by (\<lambda>s. s) (map (\<lambda>a. addr_port_text (a, port))
       (filter (\<lambda>a. addr_is_global_unicast a \<and> \<not> inOverlayRange a) (concat (map iface_addrs is)))))"

definition server_host :: "string \<Rightarrow> string" where
  "server_host server = (case SplitHostPort server of Inr (h, _) \<Rightarrow> h | Inl _ \<Rightarrow> server)"

definition resolveStunServers :: "string \<Rightarrow> string list \<Rightarrow> string list" where
  "resolveStunServers server servers = List.map_filter (\<lambda>s. case SplitHostPort s of
     Inl _ \<Rightarrow> None
   | Inr (host, port) \<Rightarrow> Some (JoinHostPort (if host = [] then server_host server else host) port)) servers"

definition resolveRelayURLs :: "('e, 'os) dm_lib \<Rightarrow> string \<Rightarrow> string list \<Rightarrow> string list" where
  "resolveRelayURLs lib server relays = List.map_filter (\<lambda>r. case ml_urlParse lib r of
     None \<Rightarrow> None
   | Some u \<Rightarrow> Some (ml_urlString lib
       (if url_Hostname u = [] then
          (if url_Port u \<noteq> [] then u\<lparr>url_Host := JoinHostPort (server_host server) (url_Port u)\<rparr>
           else u\<lparr>url_Host := server_host server\<rparr>)
        else u))) relays"

definition bypass_names :: "('e, 'os) dm_lib \<Rightarrow> ('e, 'os, 'c) Daemon \<Rightarrow> string list" where
  "bypass_names lib d =
     (case SplitHostPort (sj_Server (d_state d)) of Inr (h, _) \<Rightarrow> [h] | Inl _ \<Rightarrow> []) @
     List.map_filter (\<lambda>r. case ml_urlParse lib r of
        None \<Rightarrow> None | Some u \<Rightarrow> if url_Hostname u = [] then None else Some (url_Hostname u)) (d_lastRelays d)"

definition peer_underlay :: "peerInfo \<Rightarrow> Addr list" where
  "peer_underlay pi = (if ap_valid (pi_pathEP pi) then [fst (pi_pathEP pi)] else []) @
     List.map_filter (\<lambda>ep. case SplitHostPort ep of Inl _ \<Rightarrow> None | Inr (h, _) \<Rightarrow> parse_addr h) (pi_staticEPs pi)"

definition add_addr :: "Addr \<Rightarrow> Addr list \<Rightarrow> Addr list" where
  "add_addr a out = (let u = addr_unmap a in if u \<in> set out then out else out @ [u])"

definition exitBypassHosts :: "('e, 'os) dm_lib \<Rightarrow> u64 list \<Rightarrow> ('e, 'os, 'c) Daemon \<Rightarrow> Addr list" where
  "exitBypassHosts lib ks d =
     (let named = concat (map (\<lambda>h. case parse_addr h of
            Some ip \<Rightarrow> [ip]
          | None \<Rightarrow> (case ml_LookupIP lib h of None \<Rightarrow> [] | Some ips \<Rightarrow> List.map_filter addr_from_slice ips)) (bypass_names lib d));
          addrs = concat (map peer_underlay (ranged ks (d_peers d)))
      in fold add_addr (named @ addrs) [])"

section \<open>The relay link\<close>

definition relay_NewClient :: "('e, 'os) dm_lib \<Rightarrow> string \<Rightarrow> NodePrivate \<Rightarrow> relay_link" where
  "relay_NewClient lib home nk = \<lparr>rl_URL = home, rl_cli = \<lparr>rc_priv = npriv_k nk, rc_pub = ml_public lib (npriv_k nk),
     rc_conn = None, rc_up = False, rc_closed = False\<rparr>\<rparr>"

definition ensureRelay :: "('e, 'os) dm_lib \<Rightarrow> (nat \<Rightarrow> u64 list) \<Rightarrow> string list \<Rightarrow> ('e, 'os, 'c) Daemon \<Rightarrow> ('e, 'os, 'c) Daemon" where
  "ensureRelay lib ord urls d =
     (let d1 = d\<lparr>d_lastRelays := urls\<rparr> in
      case d_bind d1 of
        None \<Rightarrow> d1
      | Some b \<Rightarrow> (case urls of
          [] \<Rightarrow> if d_relayCli d1 = None then d1
                else syncPeers lib ord (d1\<lparr>d_bind := Some (SetRelaySender False b), d_relayCli := None\<rparr>)
        | home # _ \<Rightarrow>
            if (case d_relayCli d1 of Some rl \<Rightarrow> rl_URL rl = home | None \<Rightarrow> False) then d1
            else d1\<lparr>d_bind := Some (SetRelaySender True b), d_relayCli := Some (relay_NewClient lib home (sj_nodePriv (d_state d1)))\<rparr>))"

text \<open>The relay's connection comes up, and the goroutine that waits for it programs the peers again.\<close>

definition relay_connected :: "('e, 'os) dm_lib \<Rightarrow> (nat \<Rightarrow> u64 list) \<Rightarrow> writer \<Rightarrow> ('e, 'os, 'c) Daemon \<Rightarrow> ('e, 'os, 'c) Daemon" where
  "relay_connected lib ord w d = (case d_relayCli d of
     None \<Rightarrow> d
   | Some rl \<Rightarrow> (let d1 = d\<lparr>d_relayCli := Some (rl\<lparr>rl_cli := fst (session_up w (rl_cli rl))\<rparr>)\<rparr>
       in if relay_up d1 then syncPeers lib ord d1 else d1))"

section \<open>Path updates\<close>

definition onPathUpdate :: "('e, 'os) dm_lib \<Rightarrow> (nat \<Rightarrow> u64 list) \<Rightarrow> PathUpdate \<Rightarrow> ('e, 'os, 'c) Daemon \<Rightarrow> ('e, 'os, 'c) Daemon" where
  "onPathUpdate lib ord u d = (case d_peers d (pu_NodeID u) of
     None \<Rightarrow> d
   | Some pi \<Rightarrow>
      (let changed = (pi_path pi \<noteq> pu_State u \<or> pi_pathEP pi \<noteq> pu_Endpoint u);
           d1 = d\<lparr>d_peers := (d_peers d)(pu_NodeID u \<mapsto> pi\<lparr>pi_path := pu_State u, pi_pathEP := pu_Endpoint u, pi_rtt := pu_RTT u\<rparr>)\<rparr>
       in if \<not> changed then d1
          else (let d2 = syncPeers lib ord d1
                in if d_exitPeerID d2 \<noteq> 0 then d2\<lparr>d_exitCli := map_option (ec_SetBypassHosts (exitBypassHosts lib (ord 2) d2)) (d_exitCli d2)\<rparr>
                   else d2)))"

section \<open>Applying a netmap\<close>

definition applyFilter :: "('e, 'os) dm_lib \<Rightarrow> NetMap \<Rightarrow> 'e \<Rightarrow> ('e, 'os, 'c) Daemon \<Rightarrow> ('e, 'os, 'c) Daemon" where
  "applyFilter lib nm e d =
     (let e1 = eo_SetFilter (ml_eng lib) (FromProto (nm_Filter nm) (nm_FilterEnabled nm)) e;
          d1 = d\<lparr>d_engine := Some e1\<rparr>
      in if nm_FilterEnabled nm \<and> eo_Kind (ml_eng lib) e1 = ''kernel'' then d1\<lparr>d_kernWarn := True\<rparr> else d1)"

definition dns_addrs :: "string list \<Rightarrow> Addr list" where
  "dns_addrs ips = List.map_filter (\<lambda>s. case parse_prefix s of Some p \<Rightarrow> Some (prefix_addr p) | None \<Rightarrow> parse_addr s) ips"

definition dns_add :: "string \<times> string list \<Rightarrow> (string \<times> Addr list) list \<Rightarrow> (string \<times> Addr list) list" where
  "dns_add e recs = (if fst e \<noteq> [] \<and> dns_addrs (snd e) \<noteq> [] then AList.update (fst e) (dns_addrs (snd e)) recs else recs)"

definition dns_records :: "NetMap \<Rightarrow> (string \<times> Addr list) list" where
  "dns_records nm = fold dns_add ((pbn_Hostname (nm_Self nm), pbn_OverlayIps (nm_Self nm)) #
     map (\<lambda>p. (pbp_Hostname p, pbp_OverlayIps p)) (nm_Peers nm)) []"

definition applyDNS :: "('e, 'os) dm_lib \<Rightarrow> NetMap \<Rightarrow> ('e, 'os, 'c) Daemon \<Rightarrow> ('e, 'os, 'c) Daemon" where
  "applyDNS lib nm d =
     (let domain = (case nm_Dns nm of None \<Rightarrow> [] | Some s \<Rightarrow> s) in
      if domain = [] then d
      else (let needStart = (d_dnsSrv d = None \<and> addr_is_valid (d_selfV4 d));
                d1 = d\<lparr>d_dnsSrv := (if needStart then Some meshdns_NewServer else d_dnsSrv d),
                       d_status := (d_status d)\<lparr>ss_Domain := domain\<rparr>\<rparr>
            in case d_dnsSrv d1 of
                 None \<Rightarrow> d1\<lparr>d_panic := True\<rparr>
               | Some srv \<Rightarrow>
                  (let d2 = d1\<lparr>d_dnsSrv := Some (SetRecords (ml_dns lib) domain (map (map_prod (\<lambda>h. h) Some) (dns_records nm)) srv)\<rparr>
                   in if needStart \<and> ml_dnsStart lib \<and> ml_ConfigureOS lib then d2\<lparr>d_dnsOSDone := True\<rparr> else d2)))"

definition exit_v6 :: "u64 \<Rightarrow> peerInfo list \<Rightarrow> bool" where
  "exit_v6 exitID pis \<longleftrightarrow> list_ex (\<lambda>pi. pi_nodeID pi = exitID \<and> list_ex (\<lambda>r. addr_is6 (prefix_addr r)) (pi_exitRoutes pi)) pis"

definition apply_adv :: "('e, 'os) dm_lib \<Rightarrow> string \<Rightarrow> Prefix list \<Rightarrow> ('e, 'os, 'c) Daemon \<Rightarrow> ('e, 'os, 'c) Daemon" where
  "apply_adv lib ifname approved d = (case d_adv d of
     None \<Rightarrow> d
   | Some a \<Rightarrow> (case adv_Apply (ml_lx lib) ifname approved a (d_os d) of (a1, os1, _) \<Rightarrow> d\<lparr>d_adv := Some a1, d_os := os1\<rparr>))"

definition apply_sync :: "('e, 'os) dm_lib \<Rightarrow> string \<Rightarrow> Prefix list \<Rightarrow> ('e, 'os, 'c) Daemon \<Rightarrow> ('e, 'os, 'c) Daemon" where
  "apply_sync lib ifname subnets d = (case d_routeSync d of
     None \<Rightarrow> d
   | Some r \<Rightarrow> (case rs_Sync (ml_lx lib) ifname subnets r (d_os d) of (r1, os1) \<Rightarrow> d\<lparr>d_routeSync := Some r1, d_os := os1\<rparr>))"

definition apply_exit :: "('e, 'os) dm_lib \<Rightarrow> string \<Rightarrow> u64 \<Rightarrow> bool \<Rightarrow> Addr list \<Rightarrow> ('e, 'os, 'c) Daemon \<Rightarrow> ('e, 'os, 'c) Daemon \<times> unit res" where
  "apply_exit lib ifname exitID v6 hosts d = (case d_exitCli d of
     None \<Rightarrow> (d, Inr ())
   | Some ec \<Rightarrow>
      if exitID \<noteq> 0 then
        (case ec_Apply (ml_lx lib) ifname v6 (ec_SetBypassHosts hosts ec) (d_os d) of (ec1, os1, r) \<Rightarrow> (d\<lparr>d_exitCli := Some ec1, d_os := os1\<rparr>, r))
      else (case ec_Remove (ml_lx lib) ec (d_os d) of (ec1, os1) \<Rightarrow> (d\<lparr>d_exitCli := Some ec1, d_os := os1\<rparr>, Inr ())))"

definition applyRoutes :: "('e, 'os) dm_lib \<Rightarrow> (nat \<Rightarrow> u64 list) \<Rightarrow> NetMap \<Rightarrow> ('e, 'os, 'c) Daemon \<Rightarrow> ('e, 'os, 'c) Daemon" where
  "applyRoutes lib ord nm d = (case d_engine d of
     None \<Rightarrow> d
   | Some e \<Rightarrow>
     (let approved = List.map_filter parse_prefix (pbn_ApprovedRoutes (nm_Self nm));
          pis = ranged (ord 3) (d_peers d);
          subnets = concat (map pi_subnetRoutes pis);
          exitID = d_exitPeerID d;
          ifname = eo_IfName (ml_eng lib) e;
          d1 = d\<lparr>d_status := (d_status d)\<lparr>ss_ApprovedRoutes := map prefix_text approved, ss_ExitNodeActive := (exitID \<noteq> 0)\<rparr>\<rparr>;
          d2 = apply_adv lib ifname approved d1;
          d3 = (if approved \<noteq> [] \<and> eo_Kind (ml_eng lib) e = ''userspace'' \<and> ml_GOOS lib = ''linux'' then d2\<lparr>d_speedHint := True\<rparr> else d2);
          d4 = apply_sync lib ifname subnets d3
      in fst (apply_exit lib ifname exitID (exit_v6 exitID pis) (exitBypassHosts lib (ord 4) d4) d4)))"

definition applyOverdrop :: "('e, 'os) dm_lib \<Rightarrow> ('e, 'os, 'c) Daemon \<Rightarrow> ('e, 'os, 'c) Daemon" where
  "applyOverdrop lib d =
     (if op_OverdropOff (d_opts d) \<or> d_dropSrv d \<or> \<not> addr_is_valid (d_selfV4 d) \<or> \<not> ml_dropStart lib then d
      else d\<lparr>d_dropSrv := True, d_status := (d_status d)\<lparr>ss_OverdropDir := overdropDir (d_opts d)\<rparr>\<rparr>)"

definition apply_paths :: "('e, 'os) dm_lib \<Rightarrow> (nat \<Rightarrow> u64 list) \<Rightarrow> string list \<Rightarrow> (u64 \<times> int) list \<Rightarrow> ('e, 'os, 'c) Daemon \<Rightarrow> ('e, 'os, 'c) Daemon" where
  "apply_paths lib ord stunHosts online d = (case d_connmgr d of
     None \<Rightarrow> d
   | Some cm \<Rightarrow>
      (let cm1 = SetPeers (ord 5) online (SetStunServers (ml_stun lib) stunHosts cm)
       in fold (onPathUpdate lib ord) (drop (length (cm_paths cm)) (cm_paths cm1)) (d\<lparr>d_connmgr := Some cm1\<rparr>)))"

definition applyNetMap :: "('e, 'os) dm_lib \<Rightarrow> (nat \<Rightarrow> u64 list) \<Rightarrow> (nat \<Rightarrow> u64 list) \<Rightarrow> (u64 \<Rightarrow> int) \<Rightarrow> NetMap \<Rightarrow>
    ('e, 'os, 'c) Daemon \<Rightarrow> ('e, 'os, 'c) Daemon \<times> unit res" where
  "applyNetMap lib ord0 ord now nm d =
     (let server = sj_Server (d_state d);
          stunHosts = resolveStunServers server (nm_StunServers nm);
          d1 = (if d_connmgr d = None then d else ensureRelay lib ord0 (resolveRelayURLs lib server (nm_Relays nm)) d);
          d2 = d1\<lparr>d_lastStun := stunHosts, d_peers := merge_netmap nm (d_peers d1)\<rparr>;
          d3 = selectExitPeerLocked (ord 0) d2;
          cfgs = buildPeerConfigsLocked (ord 1) d3;
          d4 = refreshPeerStatusLocked (ord 2) d3
      in case d_engine d4 of
           None \<Rightarrow> (d4, Inr ())
         | Some e \<Rightarrow> (case eo_SetPeers (ml_eng lib) cfgs e of
             (e1, Inl err) \<Rightarrow> (d4\<lparr>d_engine := Some e1\<rparr>, Inl err)
           | (e1, Inr _) \<Rightarrow>
              (let d5 = applyFilter lib nm e1 d4;
                   d6 = applyDNS lib nm d5;
                   d7 = applyRoutes lib ord nm d6;
                   d8 = applyOverdrop lib d7;
                   d9 = apply_paths lib ord stunHosts (map (\<lambda>n. (n, now n)) (online_peers nm)) d8
               in (d9, Inr ()))))"

section \<open>Changing the exit node and the key\<close>

definition exit_supported :: "('e, 'os) dm_lib \<Rightarrow> bool" where
  "exit_supported lib \<longleftrightarrow> ml_GOOS lib = ''linux'' \<or> ml_GOOS lib = ''darwin''"

definition exit_now :: "('e, 'os) dm_lib \<Rightarrow> u64 \<Rightarrow> bool \<Rightarrow> ('e, 'os, 'c) Daemon \<Rightarrow> ('e, 'os, 'c) Daemon \<times> unit res" where
  "exit_now lib exitID v6 d = (case d_exitCli d of
     None \<Rightarrow> (d, Inr ())
   | Some ec \<Rightarrow>
      if exitID \<noteq> 0 then (case d_engine d of
          None \<Rightarrow> (d\<lparr>d_panic := True\<rparr>, Inr ())
        | Some e \<Rightarrow> (case ec_Apply (ml_lx lib) (eo_IfName (ml_eng lib) e) v6 ec (d_os d) of
            (ec1, os1, r) \<Rightarrow> (d\<lparr>d_exitCli := Some ec1, d_os := os1\<rparr>, r)))
      else (case ec_Remove (ml_lx lib) ec (d_os d) of (ec1, os1) \<Rightarrow> (d\<lparr>d_exitCli := Some ec1, d_os := os1\<rparr>, Inr ())))"

definition SetExitNode :: "('e, 'os) dm_lib \<Rightarrow> state_io \<Rightarrow> (nat \<Rightarrow> u64 list) \<Rightarrow> string \<Rightarrow> ('e, 'os, 'c) Daemon \<Rightarrow> ('e, 'os, 'c) Daemon \<times> unit res" where
  "SetExitNode lib io ord name d =
     (if name \<noteq> [] \<and> \<not> exit_supported lib then (d, Inl (ErrMsg ''using an exit node is only supported on Linux and macOS for now''))
      else if \<not> d_running d then (d, Inl (ErrMsg ''not up''))
      else
        let d1 = fst (save_state io (d\<lparr>d_exitNode := name, d_state := (d_state d)\<lparr>sj_ExitNode := name\<rparr>\<rparr>));
            d2 = selectExitPeerLocked (ord 0) (d1\<lparr>d_status := (d_status d1)\<lparr>ss_ExitNode := name\<rparr>\<rparr>);
            exitID = d_exitPeerID d2;
            v6 = (case d_peers d2 exitID of None \<Rightarrow> False | Some pi \<Rightarrow> list_ex (\<lambda>r. addr_is6 (prefix_addr r)) (pi_exitRoutes pi));
            d3 = d2\<lparr>d_status := (d_status d2)\<lparr>ss_ExitNodeActive := (exitID \<noteq> 0)\<rparr>\<rparr>;
            cfgs = buildPeerConfigsLocked (ord 1) d3;
            d4 = refreshPeerStatusLocked (ord 2) d3
        in if name \<noteq> [] \<and> exitID = 0 then (d4, Inl (ErrMsg ''no approved exit node named %q in the netmap (approve its exit route in the web UI first)''))
           else (case d_engine d4 of
              None \<Rightarrow> exit_now lib exitID v6 d4
            | Some e \<Rightarrow> (case eo_SetPeers (ml_eng lib) cfgs e of
                (e1, Inl err) \<Rightarrow> (d4\<lparr>d_engine := Some e1\<rparr>, Inl err)
              | (e1, Inr _) \<Rightarrow> exit_now lib exitID v6 (d4\<lparr>d_engine := Some e1\<rparr>))))"

text \<open>The request of a registration; \<open>pub\<close> is the public key of a private one.\<close>

definition register_request :: "('e, 'os) dm_lib \<Rightarrow> string \<Rightarrow> string \<Rightarrow> string list \<Rightarrow> NodePrivate \<Rightarrow> ('e, 'os, 'c) Daemon \<Rightarrow> RegisterNodeRequest" where
  "register_request lib hostname setupKey routes nk d =
     \<lparr>rq_MachineKey = MachinePublic_Bytes (MachinePrivate_Public (ml_public lib) (sj_machinePriv (d_state d))),
      rq_NodeKey = NodePublic_Bytes (NodePrivate_Public (ml_public lib) nk), rq_SetupKey = setupKey, rq_Hostname = hostname,
      rq_Os = ml_GOOS lib, rq_AdvertisedRoutes = routes\<rparr>"

text \<open>\<open>reg\<close> is the control plane: dialling it and \<^verbatim>\<open>RegisterNode\<close>.\<close>

definition rotated :: "('e, 'os) dm_lib \<Rightarrow> state_io \<Rightarrow> int \<Rightarrow> (nat \<Rightarrow> u64 list) \<Rightarrow> NodePrivate \<Rightarrow> ('e, 'os, 'c) Daemon \<Rightarrow> ('e, 'os, 'c) Daemon \<times> unit res" where
  "rotated lib io now ord newKey d =
     (case save_state io (d\<lparr>d_state := SetNodeKey newKey now (d_state d)\<rparr>) of
        (d1, saved) \<Rightarrow>
          (let relays = d_lastRelays d1; d2 = d1\<lparr>d_relayCli := None\<rparr> in
           case saved of
             Inl e \<Rightarrow> (d2, Inl (ErrWrap ''key rotated but state save failed: %w'' e))
           | Inr _ \<Rightarrow> (if d_relayCli d1 = None then d2 else ensureRelay lib ord relays d2, Inr ())))"

definition RotateNodeKey :: "('e, 'os) dm_lib \<Rightarrow> state_io \<Rightarrow> byte list option \<Rightarrow> (RegisterNodeRequest \<Rightarrow> unit res) \<Rightarrow> string \<Rightarrow> int \<Rightarrow>
    (nat \<Rightarrow> u64 list) \<Rightarrow> ('e, 'os, 'c) Daemon \<Rightarrow> ('e, 'os, 'c) Daemon \<times> unit res" where
  "RotateNodeKey lib io rnd reg hostname now ord d =
     (if \<not> d_running d then (d, Inl (ErrMsg ''not up''))
      else (case d_engine d of
        None \<Rightarrow> (d, Inl (ErrMsg ''not up''))
      | Some e \<Rightarrow> (case NewNode rnd of
          Inl err \<Rightarrow> (d, Inl err)
        | Inr newKey \<Rightarrow> (case eo_SetPrivateKey (ml_eng lib) (npriv_k newKey) e of
            (e1, Inl err) \<Rightarrow> (d\<lparr>d_engine := Some e1\<rparr>, Inl (ErrWrap ''engine key swap: %w'' err))
          | (e1, Inr _) \<Rightarrow> (case reg (register_request lib hostname [] (sj_AdvertiseRoutes (d_state d)) newKey d) of
              Inl err \<Rightarrow> (d\<lparr>d_engine := Some (fst (eo_SetPrivateKey (ml_eng lib) (npriv_k (sj_nodePriv (d_state d))) e1))\<rparr>,
                Inl (ErrWrap ''control plane rejected the new key (rolled back): %w'' err))
            | Inr _ \<Rightarrow> rotated lib io now ord newKey (d\<lparr>d_engine := Some e1\<rparr>))))))"

section \<open>Up, the session, and Down\<close>

record UpConfig =
  uc_Server :: string
  uc_SetupKey :: string
  uc_AdvertiseRoutes :: "string list"
  uc_ExitNode :: string
  uc_UseTLS :: "bool option"

definition with_port :: "string \<Rightarrow> string" where
  "with_port server = (case SplitHostPort server of
     Inr _ \<Rightarrow> server | Inl _ \<Rightarrow> if CHR '':'' \<in> set server then server else JoinHostPort server ''41641'')"

definition effective_tls :: "UpConfig \<Rightarrow> ('e, 'os, 'c) Daemon \<Rightarrow> bool" where
  "effective_tls cfg d = (case uc_UseTLS cfg of
     Some b \<Rightarrow> b
   | None \<Rightarrow> if with_port (uc_Server cfg) \<noteq> sj_Server (d_state d) then op_UseTLS (d_opts d)
             else sj_UseTLS (d_state d) \<or> op_UseTLS (d_opts d))"

text \<open>What \<^verbatim>\<open>Up\<close> changes once the node is registered.\<close>

definition up_registered :: "state_io \<Rightarrow> UpConfig \<Rightarrow> RegisterNodeResponse \<Rightarrow> Prefix \<Rightarrow> Prefix \<Rightarrow> ('e, 'os, 'c) Daemon \<Rightarrow> ('e, 'os, 'c) Daemon \<times> unit res" where
  "up_registered io cfg resp selfV4 selfV6 d =
     (let server = with_port (uc_Server cfg) in
      case save_state io (d\<lparr>d_state := (d_state d)\<lparr>sj_Server := server, sj_DesiredUp := True, sj_AdvertiseRoutes := uc_AdvertiseRoutes cfg,
             sj_ExitNode := uc_ExitNode cfg\<rparr>\<rparr>) of
        (d1, Inl e) \<Rightarrow> (d1, Inl e)
      | (d1, Inr _) \<Rightarrow>
         (d1\<lparr>d_peers := Map.empty, d_selfV4 := prefix_addr selfV4, d_exitNode := uc_ExitNode cfg, d_exitPeerID := 0,
            d_status := empty_Status\<lparr>ss_Running := True, ss_Server := server, ss_Network := rs_NetworkId resp, ss_Hostname := rs_Hostname resp,
              ss_IPv4 := addr_text (prefix_addr selfV4), ss_IPv6 := addr_text (prefix_addr selfV6), ss_Conn := ''connecting'',
              ss_AdvertisedRoutes := uc_AdvertiseRoutes cfg, ss_ExitNode := uc_ExitNode cfg\<rparr>,
            d_running := True\<rparr>, Inr ()))"

definition daemon_Up :: "('e, 'os) dm_lib \<Rightarrow> state_io \<Rightarrow> (RegisterNodeRequest \<Rightarrow> RegisterNodeResponse res) \<Rightarrow> string \<Rightarrow> UpConfig \<Rightarrow>
    ('e, 'os, 'c) Daemon \<Rightarrow> ('e, 'os, 'c) Daemon \<times> unit res" where
  "daemon_Up lib io reg hostname cfg d =
     (if d_running d then (d, Inl (ErrMsg ''already up (overmesh down first)''))
      else if uc_ExitNode cfg \<noteq> [] \<and> \<not> exit_supported lib then (d, Inl (ErrMsg ''using an exit node is only supported on Linux and macOS for now''))
      else
        let d1 = d\<lparr>d_state := (d_state d)\<lparr>sj_UseTLS := effective_tls cfg d\<rparr>\<rparr> in
        case reg (register_request lib hostname (uc_SetupKey cfg) (uc_AdvertiseRoutes cfg) (sj_nodePriv (d_state d1)) d1) of
          Inl e \<Rightarrow> (d1, Inl (ErrWrap ''registration failed: %w'' e))
        | Inr resp \<Rightarrow> (case parse_prefix (rs_OverlayIpv4 resp) of
            None \<Rightarrow> (d1, Inl (ErrWrap ''bad overlay ipv4 from server: %w'' ErrDriver))
          | Some selfV4 \<Rightarrow> (case parse_prefix (rs_OverlayIpv6 resp) of
              None \<Rightarrow> (d1, Inl (ErrWrap ''bad overlay ipv6 from server: %w'' ErrDriver))
            | Some selfV6 \<Rightarrow> up_registered io cfg resp selfV4 selfV6 d1)))"

definition MaybeAutoUp :: "('e, 'os) dm_lib \<Rightarrow> state_io \<Rightarrow> (RegisterNodeRequest \<Rightarrow> RegisterNodeResponse res) \<Rightarrow> string \<Rightarrow>
    ('e, 'os, 'c) Daemon \<Rightarrow> ('e, 'os, 'c) Daemon" where
  "MaybeAutoUp lib io reg hostname d =
     (if sj_DesiredUp (d_state d) \<and> sj_Server (d_state d) \<noteq> [] then
        fst (daemon_Up lib io reg hostname \<lparr>uc_Server = sj_Server (d_state d), uc_SetupKey = [],
          uc_AdvertiseRoutes = sj_AdvertiseRoutes (d_state d), uc_ExitNode = sj_ExitNode (d_state d), uc_UseTLS = None\<rparr> d)
      else d)"

definition setConn :: "string \<Rightarrow> ('e, 'os, 'c) Daemon \<Rightarrow> ('e, 'os, 'c) Daemon" where
  "setConn s d = d\<lparr>d_status := (d_status d)\<lparr>ss_Conn := s\<rparr>\<rparr>"

text \<open>The start of the session goroutine, with the engine that \<^verbatim>\<open>wgengine.New\<close> made and the bind it opened, and
  its end.\<close>

definition session_start :: "('e, 'os) dm_lib \<Rightarrow> 'e res \<Rightarrow> Bind \<Rightarrow> u64 \<Rightarrow> ('e, 'os, 'c) Daemon \<Rightarrow> ('e, 'os, 'c) Daemon" where
  "session_start lib eng b selfNode d = (case eng of
     Inl _ \<Rightarrow> setConn ''error: '' d
   | Inr e \<Rightarrow>
      (let kernel = (op_WGMode (d_opts d) = ''kernel'') in
       d\<lparr>d_engine := Some e, d_connmgr := (if kernel then None else Some (NewConnMgr selfNode)),
         d_bind := (if kernel then None else Some b), d_adv := Some NewAdvertiser, d_exitCli := Some NewExitClient,
         d_routeSync := Some NewRouteSync,
         d_status := (d_status d)\<lparr>ss_Iface := eo_IfName (ml_eng lib) e, ss_Engine := eo_Kind (ml_eng lib) e\<rparr>\<rparr>))"

definition session_end :: "('e, 'os) dm_lib \<Rightarrow> u64 list \<Rightarrow> ('e, 'os, 'c) Daemon \<Rightarrow> ('e, 'os, 'c) Daemon" where
  "session_end lib cmord d =
     (let os1 = (case d_exitCli d of None \<Rightarrow> d_os d | Some ec \<Rightarrow> snd (ec_Remove (ml_lx lib) ec (d_os d)));
          os2 = (case d_routeSync d of None \<Rightarrow> os1 | Some r \<Rightarrow> snd (rs_Close (ml_lx lib) r os1));
          os3 = (case d_adv d of None \<Rightarrow> os2 | Some a \<Rightarrow> snd (adv_Close (ml_lx lib) a os2))
      in d\<lparr>d_relayCli := None, d_dnsSrv := None, d_dnsOSDone := False, d_adv := None, d_exitCli := None, d_routeSync := None,
           d_dropSrv := False, d_exitPeerID := 0, d_os := os3, d_connmgr := map_option (cm_Close cmord) (d_connmgr d)\<rparr>)"

definition daemon_Down :: "('e, 'os) dm_lib \<Rightarrow> state_io \<Rightarrow> u64 list \<Rightarrow> ('e, 'os, 'c) Daemon \<Rightarrow> ('e, 'os, 'c) Daemon \<times> unit res" where
  "daemon_Down lib io cmord d =
     (if \<not> d_running d then (d, Inl (ErrMsg ''not up''))
      else (let d1 = session_end lib cmord (d\<lparr>d_running := False\<rparr>);
                d2 = d1\<lparr>d_engine := None, d_connmgr := None, d_peers := Map.empty, d_state := (d_state d1)\<lparr>sj_DesiredUp := False\<rparr>\<rparr>;
                d3 = fst (save_state io d2)
            in (d3\<lparr>d_status := empty_Status\<rparr>, Inr ())))"

text \<open>\<^verbatim>\<open>runNetMapStream\<close>: the endpoints are reported, the stream is opened, and each netmap is applied whatever
  became of the one before; a stream always ends with an error.\<close>

definition runNetMapStream :: "('e, 'os) dm_lib \<Rightarrow> unit res \<Rightarrow> unit res \<Rightarrow>
    (NetMap \<times> (nat \<Rightarrow> u64 list) \<times> (nat \<Rightarrow> u64 list) \<times> (u64 \<Rightarrow> int)) list \<Rightarrow> goerr \<Rightarrow> ('e, 'os, 'c) Daemon \<Rightarrow> ('e, 'os, 'c) Daemon \<times> goerr" where
  "runNetMapStream lib endpoints stream nms last_err d = (case endpoints of
     Inl e \<Rightarrow> (d, ErrWrap ''update endpoints: %w'' e)
   | Inr _ \<Rightarrow> (case stream of
       Inl e \<Rightarrow> (d, e)
     | Inr _ \<Rightarrow> (fold (\<lambda>(nm, ord0, ord, now) d. fst (applyNetMap lib ord0 ord now nm d)) nms (setConn ''connected'' d), last_err)))"

definition session_backoff :: "int \<Rightarrow> int" where
  "session_backoff b = (if b * 2 > 30 then 30 else b * 2)"

section \<open>Signalling\<close>

definition creds_payload :: "string \<Rightarrow> string \<Rightarrow> string" where
  "creds_payload ufrag pwd = ufrag @ nl @ pwd"

text \<open>The envelope for a message of the connection manager, and sending it on the current stream, if there is one.\<close>

fun envelope_of :: "signal \<Rightarrow> SignalEnvelope" where
  "envelope_of (SigOffer to session ufrag pwd) = \<lparr>se_MachineKey = [], se_ToNodeId = to, se_FromNodeId = 0, se_Kind = SK_OFFER,
     se_Payload = creds_payload ufrag pwd, se_Session = session\<rparr>"
| "envelope_of (SigAnswer to session ufrag pwd) = \<lparr>se_MachineKey = [], se_ToNodeId = to, se_FromNodeId = 0, se_Kind = SK_ANSWER,
     se_Payload = creds_payload ufrag pwd, se_Session = session\<rparr>"
| "envelope_of (SigCandidate to session c) = \<lparr>se_MachineKey = [], se_ToNodeId = to, se_FromNodeId = 0, se_Kind = SK_CANDIDATE,
     se_Payload = c, se_Session = session\<rparr>"

definition signaler_send :: "(SignalEnvelope \<Rightarrow> 'w \<Rightarrow> 'w \<times> unit res) option \<Rightarrow> SignalEnvelope \<Rightarrow> 'w \<Rightarrow> 'w \<times> unit res" where
  "signaler_send stream env w = (case stream of None \<Rightarrow> (w, Inl (ErrMsg ''signal stream not connected'')) | Some send \<Rightarrow> send env w)"

definition splitCreds :: "string \<Rightarrow> (string \<times> string) option" where
  "splitCreds payload = (case cut payload CHR 0x0A of
     (ufrag, pwd, found) \<Rightarrow> if \<not> found \<or> ufrag = [] \<or> pwd = [] then None else Some (ufrag, pwd))"

text \<open>One turn of \<^verbatim>\<open>receiveSignals\<close>: the call of the manager, if any.\<close>

definition receive_signal :: "SignalEnvelope \<Rightarrow> 'c cm_event option" where
  "receive_signal env = (let from = se_FromNodeId env; session = se_Session env in
     case se_Kind env of
       SK_OFFER \<Rightarrow> map_option (\<lambda>(u, w). EvOffer from session u w) (splitCreds (se_Payload env))
     | SK_ANSWER \<Rightarrow> map_option (\<lambda>(u, w). EvAnswer from session u w) (splitCreds (se_Payload env))
     | SK_CANDIDATE \<Rightarrow> Some (EvCandidate from session (se_Payload env))
     | _ \<Rightarrow> None)"

definition receiveSignals :: "'c ice_lib \<Rightarrow> SignalEnvelope list \<Rightarrow> 'c ConnMgr \<Rightarrow> 'c ConnMgr" where
  "receiveSignals il envs cm = cm_run il (List.map_filter receive_signal envs) cm"

text \<open>One tick of \<^verbatim>\<open>watchRoaming\<close>.\<close>

definition watchRoaming_tick :: "(u64 \<times> int) list \<Rightarrow> string \<Rightarrow> string \<times> 'c ConnMgr \<Rightarrow> string \<times> 'c ConnMgr" where
  "watchRoaming_tick visits cur lc = (if cur \<noteq> fst lc then (cur, cm_Restart visits (snd lc)) else lc)"

section \<open>Outbound files\<close>

text \<open>\<open>stat\<close> is whether the file is there, \<open>now\<close> the time. The result is the transfer and where it goes.\<close>

definition StartDrop :: "bool \<Rightarrow> int \<Rightarrow> string \<Rightarrow> string \<Rightarrow> 16 word \<Rightarrow> ('e, 'os, 'c) Daemon \<Rightarrow> ('e, 'os, 'c) Daemon \<times> (int \<times> AddrPort) res" where
  "StartDrop stat now file peer port d =
     (let port1 = (if port = 0 then 41645 else port) in
      if \<not> stat then (d, Inl ErrDriver)
      else if \<not> ss_Running (d_status d) then (d, Inl (ErrMsg ''not connected''))
      else (case List.find (\<lambda>p. equal_fold (ps_Hostname p) peer) (ss_Peers (d_status d)) of
         None \<Rightarrow> (d, Inl (ErrMsg ''no peer named %q''))
       | Some p \<Rightarrow>
          if \<not> ps_Online p then (d, Inl (ErrMsg ''%s is offline''))
          else if ps_IPv4 p = [] then (d, Inl (ErrMsg ''no peer named %q''))
          else (case parse_addr (ps_IPv4 p) of
             None \<Rightarrow> (d, Inl ErrDriver)
           | Some dst \<Rightarrow> (let i = d_nextXfer d + 1 in
               (d\<lparr>d_nextXfer := i, d_xfers := (d_xfers d)(i \<mapsto> \<lparr>tf_ID = i, tf_File = file, tf_Peer = peer, tf_Sent = 0, tf_Total = 0,
                  tf_State = ''sending'', tf_Error = False, tf_StartedAt = now\<rparr>)\<rparr>, Inr (i, (dst, port1)))))))"

definition xfer_progress :: "int \<Rightarrow> int \<Rightarrow> int \<Rightarrow> ('e, 'os, 'c) Daemon \<Rightarrow> ('e, 'os, 'c) Daemon" where
  "xfer_progress i sent tot d =
     d\<lparr>d_xfers := (d_xfers d)(i := map_option (\<lambda>t. t\<lparr>tf_Sent := sent, tf_Total := tot\<rparr>) (d_xfers d i))\<rparr>"

definition xfer_finish :: "int \<Rightarrow> unit res \<Rightarrow> ('e, 'os, 'c) Daemon \<Rightarrow> ('e, 'os, 'c) Daemon" where
  "xfer_finish i r d =
     d\<lparr>d_xfers := (d_xfers d)(i := map_option (\<lambda>t. case r of
        Inl _ \<Rightarrow> t\<lparr>tf_State := ''error'', tf_Error := True\<rparr>
      | Inr _ \<Rightarrow> t\<lparr>tf_State := ''done'', tf_Sent := tf_Total t\<rparr>) (d_xfers d i))\<rparr>"

definition Transfers :: "int list \<Rightarrow> ('e, 'os, 'c) Daemon \<Rightarrow> Transfer list" where
  "Transfers ks d = rev (sort_key tf_ID (List.map_filter (d_xfers d) ks))"

end
