(* ===== verification/Mobile.thy ===== *)
theory Mobile
  imports Daemon
begin

text \<open>
  The engine for mobile apps, \<^verbatim>\<open>src/mobilecore\<close>: \<^verbatim>\<open>mobilecore.go\<close> (lifecycle and status),
  \<^verbatim>\<open>session.go\<close> (netmaps, peers, relay, services in the tunnel, signalling) and \<^verbatim>\<open>state.go\<close> (the
  identity). The platform owns the tunnel: what the core tells it, \<^verbatim>\<open>OnState\<close> and \<^verbatim>\<open>OnNetMap\<close>, is
  the list \<open>mc_told\<close>. JSON that the core writes is kept as the value it encodes. Libraries are those of the daemon,
  \<open>dm_lib\<close>, and a range over the map of peers takes its order from an argument, as in \<open>Daemon\<close>. \<open>mc_dnsLive\<close>
  records that the current resolver was started.
\<close>

section \<open>Identity\<close>

record mc_state =
  ms_machine :: MachinePrivate
  ms_node :: NodePrivate

datatype mc_file = McAbsent | McCorrupt | McFile string string

record mc_io =
  mio_mkdir :: bool
  mio_read :: bool
  mio_write :: "mc_file option"
  mio_random1 :: "byte list option"
  mio_random2 :: "byte list option"

definition mc_parse_keys :: "string \<Rightarrow> string \<Rightarrow> mc_state res" where
  "mc_parse_keys mhex nhex = (case MachinePrivateFromHex mhex of
     Inl e \<Rightarrow> Inl e
   | Inr m \<Rightarrow> (case NodePrivateFromHex nhex of Inl e \<Rightarrow> Inl e | Inr n \<Rightarrow> Inr \<lparr>ms_machine = m, ms_node = n\<rparr>))"

definition mc_loadOrCreateState :: "mc_io \<Rightarrow> mc_file \<Rightarrow> mc_file \<times> mc_state res" where
  "mc_loadOrCreateState io f =
     (if mio_mkdir io then (f, Inl ErrDriver)
      else if mio_read io then (f, Inl ErrDriver)
      else (case f of
        McFile mhex nhex \<Rightarrow> (f, mc_parse_keys mhex nhex)
      | McCorrupt \<Rightarrow> (f, Inl (ErrWrap ''corrupt state %s: %w'' ErrDriver))
      | McAbsent \<Rightarrow> (case NewMachine (mio_random1 io) of
          Inl e \<Rightarrow> (f, Inl e)
        | Inr mk \<Rightarrow> (case NewNode (mio_random2 io) of
            Inl e \<Rightarrow> (f, Inl e)
          | Inr nk \<Rightarrow> (case mio_write io of
              Some junk \<Rightarrow> (junk, Inl ErrDriver)
            | None \<Rightarrow> (McFile (MachinePrivate_Hex mk) (NodePrivate_Hex nk), mc_parse_keys (MachinePrivate_Hex mk) (NodePrivate_Hex nk)))))))"

section \<open>State\<close>

record mc_config =
  mcf_Server :: string
  mcf_SetupKey :: string
  mcf_Hostname :: string
  mcf_TLS :: bool

record mc_peerInfo =
  mp_nodeID :: u64
  mp_hostname :: string
  mp_pubKey :: "byte list"
  mp_allowed :: "Prefix list"
  mp_subnetRoutes :: "Prefix list"
  mp_ipv4 :: string
  mp_ipv6 :: string
  mp_online :: bool
  mp_staticEPs :: "string list"
  mp_path :: PathState
  mp_pathEP :: AddrPort
  mp_rtt :: int

text \<open>The settings that the platform programs, and what it is told.\<close>

record tunnel_settings =
  ts_ipv4 :: string
  ts_ipv4_prefix :: nat
  ts_ipv6 :: string
  ts_ipv6_prefix :: nat
  ts_routes :: "string list"
  ts_dns_server :: string
  ts_dns_domain :: string
  ts_mtu :: int

datatype told = OnState string | OnNetMap tunnel_settings

record ('e, 'c) Core =
  mc_stateDir :: string
  mc_st :: mc_state
  mc_running :: bool
  mc_events :: bool
  mc_engine :: "'e option"
  mc_bind :: "Bind option"
  mc_connmgr :: "'c ConnMgr option"
  mc_relayCli :: "relay_link option"
  mc_dnsSrv :: "meshdns_Server option"
  mc_dnsStarted :: bool
  mc_dropSrv :: bool
  mc_server :: string
  mc_selfV4 :: Prefix
  mc_selfV6 :: Prefix
  mc_selfID :: u64
  mc_hostname :: string
  mc_network :: string
  mc_domain :: string
  mc_conn :: string
  mc_peers :: "u64 \<rightharpoonup> mc_peerInfo"
  mc_lastRelays :: "string list"
  mc_lastNetMap :: "tunnel_settings option"
  mc_inTunnelUp :: bool
  mc_foreground :: bool
  mc_told :: "told list"
  mc_dnsLive :: bool

definition NewCore :: "string \<Rightarrow> mc_io \<Rightarrow> mc_file \<Rightarrow> mc_file \<times> ('e, 'c) Core res" where
  "NewCore dir io f = (case mc_loadOrCreateState io f of
     (f1, Inl e) \<Rightarrow> (f1, Inl e)
   | (f1, Inr st) \<Rightarrow> (f1, Inr \<lparr>mc_stateDir = dir, mc_st = st, mc_running = False, mc_events = False, mc_engine = None, mc_bind = None,
       mc_connmgr = None, mc_relayCli = None, mc_dnsSrv = None, mc_dnsStarted = False, mc_dropSrv = False, mc_server = [],
       mc_selfV4 = NoPrefix, mc_selfV6 = NoPrefix, mc_selfID = 0, mc_hostname = [], mc_network = [], mc_domain = [], mc_conn = [],
       mc_peers = Map.empty, mc_lastRelays = [], mc_lastNetMap = None, mc_inTunnelUp = False, mc_foreground = False, mc_told = [],
       mc_dnsLive = False\<rparr>))"

definition mc_emit :: "string \<Rightarrow> ('e, 'c) Core \<Rightarrow> ('e, 'c) Core" where
  "mc_emit s c = (if mc_events c then c\<lparr>mc_told := mc_told c @ [OnState s]\<rparr> else c)"

definition mc_setConn :: "string \<Rightarrow> ('e, 'c) Core \<Rightarrow> ('e, 'c) Core" where
  "mc_setConn s c = (let c1 = c\<lparr>mc_conn := s\<rparr> in if mc_conn c \<noteq> s then mc_emit s c1 else c1)"

section \<open>Peers\<close>

definition mc_new_peer :: "u64 \<Rightarrow> mc_peerInfo" where
  "mc_new_peer n = \<lparr>mp_nodeID = n, mp_hostname = [], mp_pubKey = zero_key, mp_allowed = [], mp_subnetRoutes = [], mp_ipv4 = [], mp_ipv6 = [],
     mp_online = False, mp_staticEPs = [], mp_path = PathNone, mp_pathEP = no_addr_port, mp_rtt = 0\<rparr>"

text \<open>The two overlay addresses, each from the last prefix of its kind.\<close>

definition mc_overlay :: "Prefix list \<Rightarrow> mc_peerInfo \<Rightarrow> mc_peerInfo" where
  "mc_overlay ps pi = fold (\<lambda>p pi. let pi1 = pi\<lparr>mp_allowed := mp_allowed pi @ [p]\<rparr> in
     if addr_is4 (prefix_addr p) then pi1\<lparr>mp_ipv4 := addr_text (prefix_addr p)\<rparr> else pi1\<lparr>mp_ipv6 := addr_text (prefix_addr p)\<rparr>) ps pi"

definition mc_merge_peer :: "pb_Peer \<Rightarrow> (u64 \<rightharpoonup> mc_peerInfo) \<Rightarrow> (u64 \<rightharpoonup> mc_peerInfo)" where
  "mc_merge_peer p peers =
     (if length (pbp_NodeKey p) \<noteq> 32 then peers
      else (let n = pbp_NodeId p;
                pi = (case peers n of None \<Rightarrow> mc_new_peer n | Some pi \<Rightarrow> pi);
                pi1 = pi\<lparr>mp_pubKey := pbp_NodeKey p, mp_hostname := pbp_Hostname p, mp_online := pbp_Online p, mp_staticEPs := pbp_Endpoints p,
                   mp_allowed := [], mp_subnetRoutes := [], mp_ipv4 := [], mp_ipv6 := []\<rparr>;
                pi2 = mc_overlay (List.map_filter parse_prefix (pbp_OverlayIps p)) pi1
            in peers(n \<mapsto> pi2\<lparr>mp_subnetRoutes := filter (\<lambda>r. prefix_bits r \<noteq> 0) (List.map_filter parse_prefix (pbp_AllowedRoutes p))\<rparr>)))"

definition mc_merge_netmap :: "NetMap \<Rightarrow> (u64 \<rightharpoonup> mc_peerInfo) \<Rightarrow> (u64 \<rightharpoonup> mc_peerInfo)" where
  "mc_merge_netmap nm peers = (fold mc_merge_peer (nm_Peers nm) peers) |` set (seen_peers nm)"

definition mc_relay_up :: "('e, 'c) Core \<Rightarrow> bool" where
  "mc_relay_up c = (case mc_relayCli c of None \<Rightarrow> False | Some rl \<Rightarrow> Connected (rl_cli rl))"

definition mc_peer_config :: "bool \<Rightarrow> mc_peerInfo \<Rightarrow> PeerConfig" where
  "mc_peer_config relayUp pi =
     (let pc = \<lparr>pc_PublicKey = mp_pubKey pi, pc_AllowedIPs = mp_allowed pi @ mp_subnetRoutes pi, pc_Endpoint = no_addr_port, pc_RelayEndpoint = []\<rparr>
      in if mp_path pi = PathDirect \<and> ap_valid (mp_pathEP pi) then pc\<lparr>pc_Endpoint := mp_pathEP pi\<rparr>
         else if relayUp \<and> mp_online pi then pc\<lparr>pc_RelayEndpoint := RelayEndpointString (mp_pubKey pi)\<rparr>
         else (case List.map_filter parse_addr_port (mp_staticEPs pi) of [] \<Rightarrow> pc | ap # _ \<Rightarrow> pc\<lparr>pc_Endpoint := ap\<rparr>))"

definition mc_buildPeerConfigsLocked :: "u64 list \<Rightarrow> ('e, 'c) Core \<Rightarrow> PeerConfig list" where
  "mc_buildPeerConfigsLocked ks c =
     filter (\<lambda>pc. ap_valid (pc_Endpoint pc) \<or> pc_RelayEndpoint pc \<noteq> [])
       (map (mc_peer_config (mc_relay_up c)) (List.map_filter (mc_peers c) ks))"

definition mc_syncPeers :: "('e, 'os) dm_lib \<Rightarrow> (nat \<Rightarrow> u64 list) \<Rightarrow> ('e, 'c) Core \<Rightarrow> ('e, 'c) Core" where
  "mc_syncPeers lib ord c = (case mc_engine c of
     None \<Rightarrow> c
   | Some e \<Rightarrow> c\<lparr>mc_engine := Some (fst (eo_SetPeers (ml_eng lib) (mc_buildPeerConfigsLocked (ord 0) c) e))\<rparr>)"

definition mc_onPathUpdate :: "('e, 'os) dm_lib \<Rightarrow> (nat \<Rightarrow> u64 list) \<Rightarrow> PathUpdate \<Rightarrow> ('e, 'c) Core \<Rightarrow> ('e, 'c) Core" where
  "mc_onPathUpdate lib ord u c = (case mc_peers c (pu_NodeID u) of
     None \<Rightarrow> c
   | Some pi \<Rightarrow>
      (let changed = (mp_path pi \<noteq> pu_State u \<or> mp_pathEP pi \<noteq> pu_Endpoint u);
           c1 = c\<lparr>mc_peers := (mc_peers c)(pu_NodeID u \<mapsto> pi\<lparr>mp_path := pu_State u, mp_pathEP := pu_Endpoint u, mp_rtt := pu_RTT u\<rparr>)\<rparr>
       in if changed then mc_syncPeers lib ord c1 else c1))"

definition mc_peerNameByAddr :: "u64 list \<Rightarrow> ('e, 'c) Core \<Rightarrow> Addr \<Rightarrow> string" where
  "mc_peerNameByAddr ks c a =
     (case List.find (\<lambda>pi. mp_ipv4 pi = addr_text a \<or> mp_ipv6 pi = addr_text a) (List.map_filter (mc_peers c) ks) of
        None \<Rightarrow> [] | Some pi \<Rightarrow> mp_hostname pi)"

section \<open>Tunnel settings\<close>

definition mc_extra_routes :: "string list \<Rightarrow> mc_peerInfo list \<Rightarrow> string list" where
  "mc_extra_routes base pis =
     fold (\<lambda>r out. let s = prefix_text r in if s \<in> set base \<or> s \<in> set out then out else out @ [s]) (concat (map mp_subnetRoutes pis)) []"

definition tunnelSettingsLocked :: "u64 list \<Rightarrow> ('e, 'c) Core \<Rightarrow> tunnel_settings" where
  "tunnelSettingsLocked ks c =
     (let v4 = prefix_addr (mc_selfV4 c); v6 = prefix_addr (mc_selfV6 c);
          base = [prefix_text (masked (prefix_from v4 11)), prefix_text (masked (prefix_from v6 48))]
      in \<lparr>ts_ipv4 = addr_text v4, ts_ipv4_prefix = 11, ts_ipv6 = addr_text v6, ts_ipv6_prefix = 48,
          ts_routes = base @ order_by (\<lambda>s. s) (mc_extra_routes base (List.map_filter (mc_peers c) ks)),
          ts_dns_server = addr_text v4, ts_dns_domain = mc_domain c, ts_mtu = DefaultMTU\<rparr>)"

section \<open>Relay\<close>

definition mc_server_host :: "('e, 'c) Core \<Rightarrow> string" where
  "mc_server_host c = (case SplitHostPort (mc_server c) of Inr (h, _) \<Rightarrow> h | Inl _ \<Rightarrow> mc_server c)"

definition mc_resolveHosts :: "string list \<Rightarrow> ('e, 'c) Core \<Rightarrow> string list" where
  "mc_resolveHosts servers c = List.map_filter (\<lambda>s. case SplitHostPort s of
     Inl _ \<Rightarrow> None
   | Inr (host, port) \<Rightarrow> Some (JoinHostPort (if host = [] then mc_server_host c else host) port)) servers"

definition mc_resolveRelayURLs :: "('e, 'os) dm_lib \<Rightarrow> string list \<Rightarrow> ('e, 'c) Core \<Rightarrow> string list" where
  "mc_resolveRelayURLs lib relays c = List.map_filter (\<lambda>r. case ml_urlParse lib r of
     None \<Rightarrow> None
   | Some u \<Rightarrow> Some (ml_urlString lib
       (if url_Hostname u = [] then
          (if url_Port u \<noteq> [] then u\<lparr>url_Host := JoinHostPort (mc_server_host c) (url_Port u)\<rparr>
           else u\<lparr>url_Host := mc_server_host c\<rparr>)
        else u))) relays"

definition mc_ensureRelay :: "('e, 'os) dm_lib \<Rightarrow> (nat \<Rightarrow> u64 list) \<Rightarrow> string list \<Rightarrow> ('e, 'c) Core \<Rightarrow> ('e, 'c) Core" where
  "mc_ensureRelay lib ord urls c =
     (let c1 = c\<lparr>mc_lastRelays := urls\<rparr> in
      case mc_bind c1 of
        None \<Rightarrow> c1
      | Some b \<Rightarrow> (case urls of
          [] \<Rightarrow> if mc_relayCli c1 = None then c1
                else mc_syncPeers lib ord (c1\<lparr>mc_bind := Some (SetRelaySender False b), mc_relayCli := None\<rparr>)
        | home # _ \<Rightarrow>
            if (case mc_relayCli c1 of Some rl \<Rightarrow> rl_URL rl = home | None \<Rightarrow> False) then c1
            else c1\<lparr>mc_bind := Some (SetRelaySender True b), mc_relayCli := Some (relay_NewClient lib home (ms_node (mc_st c1)))\<rparr>))"

text \<open>The goroutine that waits for the relay programs the peers once it is connected.\<close>

definition mc_relay_connected :: "('e, 'os) dm_lib \<Rightarrow> (nat \<Rightarrow> u64 list) \<Rightarrow> writer \<Rightarrow> ('e, 'c) Core \<Rightarrow> ('e, 'c) Core" where
  "mc_relay_connected lib ord w c = (case mc_relayCli c of
     None \<Rightarrow> c
   | Some rl \<Rightarrow> (let c1 = c\<lparr>mc_relayCli := Some (rl\<lparr>rl_cli := fst (session_up w (rl_cli rl))\<rparr>)\<rparr>
       in if mc_relay_up c1 then mc_syncPeers lib ord c1 else c1))"

section \<open>Services in the tunnel\<close>

definition startInTunnelServices :: "('e, 'os) dm_lib \<Rightarrow> ('e, 'c) Core \<Rightarrow> ('e, 'c) Core" where
  "startInTunnelServices lib c =
     (let startDNS = (mc_dnsSrv c \<noteq> None \<and> \<not> mc_dnsStarted c \<and> prefix_is_valid (mc_selfV4 c));
          needDrop = (\<not> mc_dropSrv c \<and> prefix_is_valid (mc_selfV4 c));
          c1 = (if startDNS then c\<lparr>mc_dnsStarted := ml_dnsStart lib, mc_dnsLive := ml_dnsStart lib\<rparr> else c)
      in if needDrop then c1\<lparr>mc_dropSrv := ml_dropStart lib\<rparr> else c1)"

definition NetworkSettingsApplied :: "('e, 'os) dm_lib \<Rightarrow> ('e, 'c) Core \<Rightarrow> ('e, 'c) Core" where
  "NetworkSettingsApplied lib c =
     (if mc_inTunnelUp c \<or> \<not> prefix_is_valid (mc_selfV4 c) then c
      else startInTunnelServices lib (c\<lparr>mc_inTunnelUp := True\<rparr>))"

definition mc_dns_add :: "string \<times> string list \<Rightarrow> (string \<times> Addr list) list \<Rightarrow> (string \<times> Addr list) list" where
  "mc_dns_add e recs =
     (let addrs = map prefix_addr (List.map_filter parse_prefix (snd e))
      in if fst e \<noteq> [] \<and> addrs \<noteq> [] then AList.update (fst e) addrs recs else recs)"

definition updateDNSRecords :: "('e, 'os) dm_lib \<Rightarrow> NetMap \<Rightarrow> ('e, 'c) Core \<Rightarrow> ('e, 'c) Core" where
  "updateDNSRecords lib nm c =
     (let domain = (case nm_Dns nm of None \<Rightarrow> [] | Some s \<Rightarrow> s) in
      if domain = [] then c
      else (let records = fold mc_dns_add ((pbn_Hostname (nm_Self nm), pbn_OverlayIps (nm_Self nm)) #
                  map (\<lambda>p. (pbp_Hostname p, pbp_OverlayIps p)) (nm_Peers nm)) [];
                srv = (case mc_dnsSrv c of None \<Rightarrow> meshdns_NewServer | Some s \<Rightarrow> s);
                c1 = (if mc_dnsSrv c = None then c\<lparr>mc_dnsLive := False\<rparr> else c);
                c2 = c1\<lparr>mc_dnsSrv := Some (SetRecords (ml_dns lib) domain (map (map_prod (\<lambda>h. h) Some) records) srv)\<rparr>
            in if mc_inTunnelUp c2 then startInTunnelServices lib c2 else c2))"

section \<open>Applying a netmap\<close>

definition mc_apply_paths :: "('e, 'os) dm_lib \<Rightarrow> (nat \<Rightarrow> u64 list) \<Rightarrow> string list \<Rightarrow> (u64 \<times> int) list \<Rightarrow> ('e, 'c) Core \<Rightarrow> ('e, 'c) Core" where
  "mc_apply_paths lib ord stun online c = (case mc_connmgr c of
     None \<Rightarrow> c
   | Some cm \<Rightarrow>
      (let cm1 = SetPeers (ord 5) online (SetStunServers (ml_stun lib) stun cm)
       in fold (mc_onPathUpdate lib ord) (drop (length (cm_paths cm)) (cm_paths cm1)) (c\<lparr>mc_connmgr := Some cm1\<rparr>)))"

definition mc_program :: "('e, 'os) dm_lib \<Rightarrow> NetMap \<Rightarrow> PeerConfig list \<Rightarrow> ('e, 'c) Core \<Rightarrow> ('e, 'c) Core" where
  "mc_program lib nm cfgs c = (case mc_engine c of
     None \<Rightarrow> c
   | Some e \<Rightarrow> c\<lparr>mc_engine := Some (eo_SetFilter (ml_eng lib) (FromProto (nm_Filter nm) (nm_FilterEnabled nm))
       (fst (eo_SetPeers (ml_eng lib) cfgs e)))\<rparr>)"

definition mc_applyNetMap :: "('e, 'os) dm_lib \<Rightarrow> (nat \<Rightarrow> u64 list) \<Rightarrow> (u64 \<Rightarrow> int) \<Rightarrow> NetMap \<Rightarrow> ('e, 'c) Core \<Rightarrow> ('e, 'c) Core" where
  "mc_applyNetMap lib ord now nm c =
     (let stun = mc_resolveHosts (nm_StunServers nm) c;
          relays = mc_resolveRelayURLs lib (nm_Relays nm) c;
          c1 = c\<lparr>mc_peers := mc_merge_netmap nm (mc_peers c), mc_domain := (case nm_Dns nm of None \<Rightarrow> [] | Some s \<Rightarrow> s)\<rparr>;
          cfgs = mc_buildPeerConfigsLocked (ord 1) c1;
          settings = tunnelSettingsLocked (ord 6) c1;
          changed = (Some settings \<noteq> mc_lastNetMap c1);
          c2 = mc_program lib nm cfgs (c1\<lparr>mc_lastNetMap := Some settings\<rparr>);
          c3 = mc_ensureRelay lib ord relays c2;
          c4 = mc_apply_paths lib ord stun (map (\<lambda>n. (n, now n)) (online_peers nm)) c3;
          c5 = updateDNSRecords lib nm c4
      in if changed \<and> mc_events c5 then c5\<lparr>mc_told := mc_told c5 @ [OnNetMap settings]\<rparr> else c5)"

section \<open>Lifecycle\<close>

definition mc_register_request :: "('e, 'os) dm_lib \<Rightarrow> mc_config \<Rightarrow> mc_state \<Rightarrow> RegisterNodeRequest" where
  "mc_register_request lib cfg st =
     \<lparr>rq_MachineKey = MachinePublic_Bytes (MachinePrivate_Public (ml_public lib) (ms_machine st)),
      rq_NodeKey = NodePublic_Bytes (NodePrivate_Public (ml_public lib) (ms_node st)), rq_SetupKey = mcf_SetupKey cfg,
      rq_Hostname = (if mcf_Hostname cfg = [] then ''mobile'' else mcf_Hostname cfg), rq_Os = ml_GOOS lib, rq_AdvertisedRoutes = []\<rparr>"

text \<open>\<open>cfg\<close> is the parsed configuration, \<open>dial\<close> and \<open>reg\<close> the control plane, \<open>mk\<close> is \<^verbatim>\<open>wgengine.New\<close> on the
  platform's descriptor and \<open>b\<close> the bind it opened.\<close>

definition mc_Start :: "('e, 'os) dm_lib \<Rightarrow> unit res \<Rightarrow> (RegisterNodeRequest \<Rightarrow> RegisterNodeResponse res) \<Rightarrow> (byte list \<Rightarrow> Prefix list \<Rightarrow> 'e res) \<Rightarrow>
    Bind \<Rightarrow> mc_config option \<Rightarrow> int \<Rightarrow> bool \<Rightarrow> ('e, 'c) Core \<Rightarrow> ('e, 'c) Core \<times> unit res" where
  "mc_Start lib dial reg mk b cfg0 tunFD ev c = (case cfg0 of
     None \<Rightarrow> (c, Inl (ErrWrap ''bad config: %w'' ErrDriver))
   | Some cfg \<Rightarrow>
      if mcf_Server cfg = [] then (c, Inl (ErrMsg ''config needs server''))
      else if tunFD \<le> 0 then (c, Inl (ErrMsg ''tunFD must be an open tunnel descriptor''))
      else if mc_running c then (c, Inl (ErrMsg ''already started''))
      else
        let c1 = mc_emit ''registering'' (c\<lparr>mc_events := ev, mc_server := mcf_Server cfg, mc_conn := ''connecting'', mc_peers := Map.empty,
              mc_lastNetMap := None, mc_inTunnelUp := False\<rparr>)
        in case dial of
             Inl e \<Rightarrow> (c1, Inl (ErrWrap ''dial %s: %w'' e))
           | Inr _ \<Rightarrow> (case reg (mc_register_request lib cfg (mc_st c1)) of
               Inl e \<Rightarrow> (c1, Inl (ErrWrap ''registration failed: %w'' e))
             | Inr resp \<Rightarrow> (case parse_prefix (rs_OverlayIpv4 resp) of
                 None \<Rightarrow> (c1, Inl (ErrWrap ''bad overlay ipv4: %w'' ErrDriver))
               | Some v4 \<Rightarrow> (case parse_prefix (rs_OverlayIpv6 resp) of
                   None \<Rightarrow> (c1, Inl (ErrWrap ''bad overlay ipv6: %w'' ErrDriver))
                 | Some v6 \<Rightarrow>
                    (let c2 = c1\<lparr>mc_selfV4 := v4, mc_selfV6 := v6, mc_selfID := rs_NodeId resp, mc_hostname := rs_Hostname resp,
                           mc_network := rs_NetworkId resp\<rparr>
                     in case mk (npriv_k (ms_node (mc_st c2))) [v4, v6] of
                          Inl e \<Rightarrow> (c2, Inl (ErrWrap ''engine: %w'' e))
                        | Inr e \<Rightarrow> (c2\<lparr>mc_engine := Some e, mc_bind := Some b, mc_connmgr := Some (NewConnMgr (mc_selfID c2)),
                            mc_running := True\<rparr>, Inr ()))))))"

definition mc_Stop :: "('e, 'c) Core \<Rightarrow> ('e, 'c) Core" where
  "mc_Stop c =
     (if \<not> mc_running c then c
      else (let c1 = c\<lparr>mc_running := False, mc_engine := None, mc_connmgr := None, mc_relayCli := None, mc_dnsSrv := None, mc_dropSrv := False,
                  mc_conn := [], mc_peers := Map.empty, mc_dnsLive := False\<rparr>
            in if mc_events c1 then c1\<lparr>mc_told := mc_told c1 @ [OnState ''stopped'']\<rparr> else c1))"

definition SetForeground :: "bool \<Rightarrow> ('e, 'c) Core \<Rightarrow> ('e, 'c) Core" where
  "SetForeground fg c = c\<lparr>mc_foreground := fg\<rparr>"

section \<open>Status\<close>

record mc_peerStatus =
  mst_Hostname :: string
  mst_IPv4 :: string
  mst_IPv6 :: string
  mst_Online :: bool
  mst_Path :: string
  mst_RTTms :: int

record mc_status =
  mss_running :: bool
  mss_hostname :: string
  mss_network :: string
  mss_conn :: string
  mss_domain :: string
  mss_peers :: "mc_peerStatus list"
  mss_addrs :: "(string \<times> string) option"
  mss_relay :: "string option"

definition mc_peer_status :: "bool \<Rightarrow> mc_peerInfo \<Rightarrow> mc_peerStatus" where
  "mc_peer_status relayUp pi =
     (let s = \<lparr>mst_Hostname = mp_hostname pi, mst_IPv4 = mp_ipv4 pi, mst_IPv6 = mp_ipv6 pi, mst_Online = mp_online pi, mst_Path = [], mst_RTTms = 0\<rparr>;
          s1 = (if mp_path pi = PathDirect then s\<lparr>mst_Path := ''direct'', mst_RTTms := mp_rtt pi div 1000000\<rparr>
                else if relayUp \<and> mp_online pi then s\<lparr>mst_Path := ''relay''\<rparr>
                else if mp_path pi = PathConnecting then s\<lparr>mst_Path := ''connecting''\<rparr>
                else s\<lparr>mst_Path := ''none''\<rparr>)
      in if mp_online pi then s1 else s1\<lparr>mst_Path := ''none''\<rparr>)"

definition StatusJSON :: "u64 list \<Rightarrow> ('e, 'c) Core \<Rightarrow> mc_status" where
  "StatusJSON ks c = \<lparr>mss_running = mc_running c, mss_hostname = mc_hostname c, mss_network = mc_network c, mss_conn = mc_conn c,
     mss_domain = mc_domain c,
     mss_peers = order_by mst_Hostname (map (mc_peer_status (mc_relay_up c)) (List.map_filter (mc_peers c) ks)),
     mss_addrs = (if prefix_is_valid (mc_selfV4 c) then Some (addr_text (prefix_addr (mc_selfV4 c)), addr_text (prefix_addr (mc_selfV6 c))) else None),
     mss_relay = (if mc_relay_up c then map_option rl_URL (mc_relayCli c) else None)\<rparr>"

section \<open>Session and signalling\<close>

record mc_attempt =
  at_stream :: "unit res"
  at_netmaps :: "(NetMap \<times> (nat \<Rightarrow> u64 list) \<times> (u64 \<Rightarrow> int)) list"
  at_cancelled :: bool

definition mc_runNetMapStream :: "('e, 'os) dm_lib \<Rightarrow> mc_attempt \<Rightarrow> ('e, 'c) Core \<Rightarrow> ('e, 'c) Core" where
  "mc_runNetMapStream lib at c = (case at_stream at of
     Inl _ \<Rightarrow> c
   | Inr _ \<Rightarrow> fold (\<lambda>(nm, ord, now). mc_applyNetMap lib ord now nm) (at_netmaps at) (mc_setConn ''connected'' c))"

text \<open>The reconnect loop: every stream ends with an error, and the loop with the first one that ends after a cancellation.
  The second component is the pause before the next attempt, in seconds.\<close>

fun mc_session :: "('e, 'os) dm_lib \<Rightarrow> mc_attempt list \<Rightarrow> int \<Rightarrow> ('e, 'c) Core \<Rightarrow> ('e, 'c) Core \<times> int" where
  "mc_session lib [] backoff c = (c, backoff)"
| "mc_session lib (at # ats) backoff c =
     (let c1 = mc_runNetMapStream lib at c in
      if at_cancelled at then (c1, 1)
      else mc_session lib ats (if backoff * 2 > 30 then 30 else backoff * 2) (mc_setConn ''reconnecting'' c1))"

definition mc_splitCreds :: "string \<Rightarrow> (string \<times> string) option" where
  "mc_splitCreds payload =
     (let parts = (case cut payload CHR 0x0A of (a, b, found) \<Rightarrow> if found then [a, b] else [a])
      in if length parts \<noteq> 2 \<or> parts ! 0 = [] \<or> parts ! 1 = [] then None else Some (parts ! 0, parts ! 1))"

definition mc_receive_signal :: "SignalEnvelope \<Rightarrow> 'c cm_event option" where
  "mc_receive_signal env = (case se_Kind env of
     SK_OFFER \<Rightarrow> map_option (\<lambda>(u, w). EvOffer (se_FromNodeId env) (se_Session env) u w) (mc_splitCreds (se_Payload env))
   | SK_ANSWER \<Rightarrow> map_option (\<lambda>(u, w). EvAnswer (se_FromNodeId env) (se_Session env) u w) (mc_splitCreds (se_Payload env))
   | SK_CANDIDATE \<Rightarrow> Some (EvCandidate (se_FromNodeId env) (se_Session env) (se_Payload env))
   | _ \<Rightarrow> None)"

definition mc_receiveSignals :: "'c ice_lib \<Rightarrow> SignalEnvelope list \<Rightarrow> ('e, 'c) Core \<Rightarrow> ('e, 'c) Core" where
  "mc_receiveSignals il envs c = c\<lparr>mc_connmgr := map_option (cm_run il (List.map_filter mc_receive_signal envs)) (mc_connmgr c)\<rparr>"

fun mc_envelope :: "signal \<Rightarrow> SignalEnvelope" where
  "mc_envelope (SigOffer to session ufrag pwd) = \<lparr>se_MachineKey = [], se_ToNodeId = to, se_FromNodeId = 0, se_Kind = SK_OFFER,
     se_Payload = ufrag @ nl @ pwd, se_Session = session\<rparr>"
| "mc_envelope (SigAnswer to session ufrag pwd) = \<lparr>se_MachineKey = [], se_ToNodeId = to, se_FromNodeId = 0, se_Kind = SK_ANSWER,
     se_Payload = ufrag @ nl @ pwd, se_Session = session\<rparr>"
| "mc_envelope (SigCandidate to session c) = \<lparr>se_MachineKey = [], se_ToNodeId = to, se_FromNodeId = 0, se_Kind = SK_CANDIDATE,
     se_Payload = c, se_Session = session\<rparr>"

end
