(* ===== verification/Coord_Inv.thy ===== *)
theory Coord_Inv
  imports Coord
begin

text \<open>
  The invariant of the coordinator. \<open>coord_step\<close> lists every way the state changes: the methods of
  the coordinator, the readers of its channels, and the writes the admin API makes to the database
  directly, each with arbitrary arguments, driver failures and time. \<open>coord_inv\<close> says that the
  database is consistent, that the channels were never misused, and that addresses are unique: in
  every network the nodes have pairwise distinct assignable IPv4 addresses, all of them marked in
  the network's allocator. The properties follow for every reachable state.
\<close>

section \<open>What a notification changes\<close>

lemma push_netmap_frame [simp]:
  "c_st (push_netmap flt n c) = c_st c" "c_ipams (push_netmap flt n c) = c_ipams c"
  "c_subs (push_netmap flt n c) = c_subs c" "c_sigSubs (push_netmap flt n c) = c_sigSubs c"
  "c_online (push_netmap flt n c) = c_online c" "c_sigch (push_netmap flt n c) = c_sigch c"
  "c_seq (push_netmap flt n c) = c_seq c"
  by (simp_all add: push_netmap_def split: option.splits sum.splits prod.splits)

lemma fold_push_frame [simp]:
  "c_st (fold (push_netmap flt) ns c) = c_st c" "c_ipams (fold (push_netmap flt) ns c) = c_ipams c"
  "c_subs (fold (push_netmap flt) ns c) = c_subs c" "c_sigSubs (fold (push_netmap flt) ns c) = c_sigSubs c"
  "c_online (fold (push_netmap flt) ns c) = c_online c" "c_sigch (fold (push_netmap flt) ns c) = c_sigch c"
  "c_seq (fold (push_netmap flt) ns c) = c_seq c"
  by (induction ns arbitrary: c) simp_all

lemma notify_frame [simp]:
  "c_st (notifyNetworkLocked flt c i) = c_st c" "c_ipams (notifyNetworkLocked flt c i) = c_ipams c"
  "c_subs (notifyNetworkLocked flt c i) = c_subs c" "c_sigSubs (notifyNetworkLocked flt c i) = c_sigSubs c"
  "c_online (notifyNetworkLocked flt c i) = c_online c" "c_sigch (notifyNetworkLocked flt c i) = c_sigch c"
  "c_seq (notifyNetworkLocked flt c i) = (c_seq c)(i := c_seq c i + 1)"
  by (simp_all add: notifyNetworkLocked_def Let_def split: sum.splits)

lemma push_netmap_registry:
  "registry_ok (c_subs c) (c_nmch c) \<Longrightarrow> registry_ok (c_subs (push_netmap flt n c)) (c_nmch (push_netmap flt n c))"
  by (auto simp: push_netmap_def split: option.splits sum.splits prod.splits intro: registry_select_send)

lemma fold_push_registry:
  "registry_ok (c_subs c) (c_nmch c) \<Longrightarrow> registry_ok (c_subs c) (c_nmch (fold (push_netmap flt) ns c))"
proof (induction ns arbitrary: c)
  case (Cons n ns)
  from Cons.IH [OF push_netmap_registry [OF Cons.prems]] show ?case by simp
qed simp

lemma notify_registry:
  "registry_ok (c_subs c) (c_nmch c) \<Longrightarrow> registry_ok (c_subs c) (c_nmch (notifyNetworkLocked flt c i))"
  using fold_push_registry [of "c\<lparr>c_seq := (c_seq c)(i := c_seq c i + 1)\<rparr>" flt]
  by (simp add: notifyNetworkLocked_def Let_def split: sum.splits)

section \<open>Address uniqueness\<close>

text \<open>The text of the IPv4 column by network, and the prefix of a network.\<close>

definition assigned :: "Store \<Rightarrow> int \<Rightarrow> string list" where
  "assigned s nid = map nr_ipv4 (filter (\<lambda>r. nr_network_id r = nid) (tbl_rows (st_nodes s)))"

definition net_prefixes :: "Store \<Rightarrow> int \<Rightarrow> (Prefix \<times> Prefix) option" where
  "net_prefixes s nid = (case tbl_find (\<lambda>r. nwr_id r = nid) (st_networks s) of
     None \<Rightarrow> None
   | Some r \<Rightarrow> (case (parse_prefix (nwr_v4_prefix r), parse_prefix (nwr_v6_prefix r)) of
       (Some p4, Some p6) \<Rightarrow> Some (p4, p6) | _ \<Rightarrow> None))"

definition prefix_assignable :: "Prefix \<Rightarrow> Addr set" where
  "prefix_assignable p = {a. prefix_contains p a \<and> a \<noteq> prefix_addr p \<and> a \<noteq> lastAddr p}"

text \<open>The nodes of a network have distinct assignable addresses.\<close>

definition addrs_ok :: "Store \<Rightarrow> bool" where
  "addrs_ok s \<longleftrightarrow> (\<forall>nid. distinct (assigned s nid) \<and>
     (\<forall>t \<in> set (assigned s nid). \<exists>p4 p6 x. net_prefixes s nid = Some (p4, p6) \<and> t = addr_text (V4 x) \<and>
        V4 x \<in> prefix_assignable (masked p4)))"

text \<open>An allocator is that of its network and has every assigned address marked.\<close>

definition alloc_ok :: "Store \<Rightarrow> int \<Rightarrow> Allocator \<Rightarrow> bool" where
  "alloc_ok s nid a \<longleftrightarrow> ipam_inv a \<and> (\<exists>p4 p6. net_prefixes s nid = Some (p4, p6) \<and> al_v4 a = masked p4 \<and> al_v6 a = masked p6) \<and>
     (\<forall>x. addr_text (V4 x) \<in> set (assigned s nid) \<longrightarrow> V4 x \<in> al_used a)"

definition ipams_ok :: "Store \<Rightarrow> (int \<rightharpoonup> Allocator) \<Rightarrow> bool" where
  "ipams_ok s ipams \<longleftrightarrow> (\<forall>nid a. ipams nid = Some a \<longrightarrow> alloc_ok s nid a)"

definition coord_inv :: "Coordinator \<Rightarrow> bool" where
  "coord_inv c \<longleftrightarrow> store_ok (c_st c) \<and> addrs_ok (c_st c) \<and> ipams_ok (c_st c) (c_ipams c) \<and>
     registry_ok (c_subs c) (c_nmch c) \<and> registry_ok (c_sigSubs c) (c_sigch c) \<and> distinct (map fst (c_online c))"

lemma coord_invD:
  "coord_inv c \<Longrightarrow> store_ok (c_st c)" "coord_inv c \<Longrightarrow> addrs_ok (c_st c)" "coord_inv c \<Longrightarrow> ipams_ok (c_st c) (c_ipams c)"
  "coord_inv c \<Longrightarrow> registry_ok (c_subs c) (c_nmch c)" "coord_inv c \<Longrightarrow> registry_ok (c_sigSubs c) (c_sigch c)"
  "coord_inv c \<Longrightarrow> distinct (map fst (c_online c))"
  by (simp_all add: coord_inv_def)

text \<open>Two databases with the same networks and the same node addresses.\<close>

definition same_addrs :: "Store \<Rightarrow> Store \<Rightarrow> bool" where
  "same_addrs s s' \<longleftrightarrow> st_networks s' = st_networks s \<and>
     map (\<lambda>r. (nr_network_id r, nr_ipv4 r)) (tbl_rows (st_nodes s')) = map (\<lambda>r. (nr_network_id r, nr_ipv4 r)) (tbl_rows (st_nodes s))"

lemma assigned_pairs:
  "assigned s nid = map snd (filter (\<lambda>p. fst p = nid) (map (\<lambda>r. (nr_network_id r, nr_ipv4 r)) (tbl_rows (st_nodes s))))"
  by (simp add: assigned_def filter_map comp_def)

lemma same_addrs_assigned: "same_addrs s s' \<Longrightarrow> assigned s' nid = assigned s nid \<and> net_prefixes s' nid = net_prefixes s nid"
  by (simp add: same_addrs_def assigned_pairs net_prefixes_def)

lemma same_addrs_refl [simp]: "same_addrs s s"
  by (simp add: same_addrs_def)

lemma same_addrs_trans [trans]: "same_addrs s s' \<Longrightarrow> same_addrs s' s'' \<Longrightarrow> same_addrs s s''"
  by (simp add: same_addrs_def)

lemma same_addrs_keeps:
  assumes "same_addrs s s'"
  shows "addrs_ok s' = addrs_ok s" "ipams_ok s' ipams = ipams_ok s ipams" "alloc_ok s' nid a = alloc_ok s nid a"
  using same_addrs_assigned [OF assms] by (simp_all add: addrs_ok_def ipams_ok_def alloc_ok_def)

named_theorems same_addrs_intro \<open>writes that keep networks and node addresses\<close>

lemma update_node_same_addrs:
  "(\<And>r. nr_network_id (f r) = nr_network_id r \<and> nr_ipv4 (f r) = nr_ipv4 r) \<Longrightarrow> same_addrs s (fst (update_node fails s i f))"
  by (simp add: update_node_def same_addrs_def comp_def if_distrib cong: map_cong)

lemma node_updates_same_addrs [same_addrs_intro]:
  "same_addrs s (fst (UpdateNodeEndpoints flt s i eps))" "same_addrs s (fst (UpdateNodeIPv6 flt s i a))"
  "same_addrs s (fst (UpdateNodeOnRegister flt s i k h os))" "same_addrs s (fst (TouchNode flt now s i))"
  unfolding UpdateNodeEndpoints_def UpdateNodeIPv6_def UpdateNodeOnRegister_def TouchNode_def
  by (rule update_node_same_addrs; simp)+

lemma same_tables: "st_nodes s' = st_nodes s \<Longrightarrow> st_networks s' = st_networks s \<Longrightarrow> same_addrs s s'"
  by (simp add: same_addrs_def)

lemma other_writes_same_addrs [same_addrs_intro]:
  "same_addrs s (fst (SetAdvertisedRoutes flt s i rs))" "same_addrs s (fst (store_SetRouteApproved flt s i r b))"
  "same_addrs s (fst (Audit flt now s u ac t d))" "same_addrs s (fst (SetACL flt now s nid rules))"
  "same_addrs s (fst (UseSetupKey flt now s k))" "same_addrs s (fst (NewSetupKey flt raw now s nid ru ex ow))"
  "same_addrs s (fst (RevokeSetupKey flt s i))" "same_addrs s (fst (SetSetting flt s k v))"
  by (rule same_tables; simp add: SetAdvertisedRoutes_def store_SetRouteApproved_def SetACL_def NewSetupKey_def
      RevokeSetupKey_def SetSetting_def UseSetupKey_frame Let_def split: sum.splits option.splits)+

lemma user_writes_same_addrs [same_addrs_intro]:
  "same_addrs s (fst (CreateUser gen flt now s u pw role))" "same_addrs s (fst (SetUserDisabled flt s i b))"
  "same_addrs s (fst (SetUserRole flt s i role))" "same_addrs s (fst (SetUserPassword gen flt s i pw))"
  "same_addrs s (fst (DeleteUser flt s i))"
proof -
  show "same_addrs s (fst (CreateUser gen flt now s u pw role))"
    using CreateUser_state [of gen flt now s u pw role] by (auto simp: insert_user_def intro: same_tables)
qed (rule same_tables; simp add: SetUserDisabled_def SetUserRole_def SetUserPassword_def DeleteUser_def update_user_def split: sum.splits)+


section \<open>The pool: allocators and the node table\<close>

definition pool_ok :: "Store \<Rightarrow> (int \<rightharpoonup> Allocator) \<Rightarrow> bool" where
  "pool_ok s ipams \<longleftrightarrow> store_ok s \<and> addrs_ok s \<and> ipams_ok s ipams"

lemma pool_okD: "pool_ok s ipams \<Longrightarrow> store_ok s" "pool_ok s ipams \<Longrightarrow> addrs_ok s" "pool_ok s ipams \<Longrightarrow> ipams_ok s ipams"
  by (simp_all add: pool_ok_def)

lemma pool_ok_same: "pool_ok s ipams \<Longrightarrow> store_ok s' \<Longrightarrow> same_addrs s s' \<Longrightarrow> pool_ok s' ipams"
  by (simp add: pool_ok_def same_addrs_keeps)

declare addr_text.simps [simp del]

lemma v4_text_parses [simp]: "parse_addr (addr_text (V4 x)) = Some (V4 x)"
  by (rule parse_addr_text) (auto simp: no_zone_def)

lemma v4_text_inj [simp]: "addr_text (V4 x) = addr_text (V4 y) \<longleftrightarrow> x = y"
  using v4_text_parses by (metis Addr.inject(1) option.inject)

lemma assigned_iff: "t \<in> set (assigned s nid) \<longleftrightarrow> (\<exists>r \<in> set (tbl_rows (st_nodes s)). nr_network_id r = nid \<and> nr_ipv4 r = t)"
  by (auto simp: assigned_def)

lemma assigned_v4: "addrs_ok s \<Longrightarrow> t \<in> set (assigned s nid) \<Longrightarrow> \<exists>x. t = addr_text (V4 x)"
  unfolding addrs_ok_def by blast

lemma NetworkByID_prefixes: "NetworkByID flt s i = Inr nw \<Longrightarrow> net_prefixes s (nw_ID nw) = Some (nw_V4Prefix nw, nw_V6Prefix nw)"
proof -
  assume *: "NetworkByID flt s i = Inr nw"
  then obtain r where r: "tbl_find (\<lambda>r. nwr_id r = i) (st_networks s) = Some r" "parsePrefixes r = Inr nw"
    by (auto simp: NetworkByID_def split: if_splits option.splits)
  with parsePrefixes_fields [OF r(2)] tbl_find_Some [OF r(1)] show ?thesis by (simp add: net_prefixes_def)
qed

lemma net_prefixes_ok: "net_prefixes s nid = Some (p4, p6) \<Longrightarrow> prefix_ok p4 \<and> prefix_ok p6"
  by (auto simp: net_prefixes_def parse_prefix_ok split: option.splits)

lemma prefix_ok_valid: "prefix_ok p \<Longrightarrow> prefix_is_valid p"
  by (cases p) auto

lemma ipam_New_prefixes:
  assumes "ipam_New p4 p6 = Inr a" and "prefix_ok p4" and "prefix_ok p6"
  shows "ipam_inv a \<and> al_used a = {} \<and> al_v4 a = masked p4 \<and> al_v6 a = masked p6"
  using ipam_New_inv [OF assms(1)] assms by (auto simp: ipam_New_def prefix_ok_valid Let_def split: if_splits)

lemma MarkUsed_fold:
  "al_v4 (fold (\<lambda>n a. MarkUsed a [f n]) ns a) = al_v4 a \<and> al_v6 (fold (\<lambda>n a. MarkUsed a [f n]) ns a) = al_v6 a \<and>
   ipam_inv (fold (\<lambda>n a. MarkUsed a [f n]) ns a) = ipam_inv a \<and>
   al_used (fold (\<lambda>n a. MarkUsed a [f n]) ns a) = al_used a \<union> (\<lambda>n. addr_unmap (f n)) ` set ns"
proof (induction ns arbitrary: a)
  case (Cons n ns)
  from Cons [of "MarkUsed a [f n]"] show ?case by (auto simp: MarkUsed_keeps) (auto simp: MarkUsed_def)
qed simp

lemma assignable_eq: "assignable a = prefix_assignable (al_v4 a)"
  by (auto simp: assignable_def prefix_assignable_def isReservedV4_def Let_def)

lemma fresh_allocator_ok:
  assumes s: "store_ok s" "addrs_ok s" and p: "net_prefixes s nid = Some (p4, p6)" and a: "ipam_New p4 p6 = Inr a"
    and ns: "NodesInNetwork flt s nid = Inr ns"
  shows "alloc_ok s nid (fold (\<lambda>n a. MarkUsed a [n_IPv4 n]) ns a)"
proof -
  have N: "ipam_inv a \<and> al_used a = {} \<and> al_v4 a = masked p4 \<and> al_v6 a = masked p6"
    using ipam_New_prefixes [OF a] net_prefixes_ok [OF p] by blast
  have "V4 x \<in> (\<lambda>n. addr_unmap (n_IPv4 n)) ` set ns" if x: "addr_text (V4 x) \<in> set (assigned s nid)" for x
  proof -
    from x obtain r where r: "r \<in> set (tbl_rows (st_nodes s))" "nr_network_id r = nid" "nr_ipv4 r = addr_text (V4 x)"
      by (auto simp: assigned_iff)
    with s obtain n where n: "hydrateNode r = Inr n" by (auto simp: store_ok_def nodes_ok_def)
    with r have "n \<in> set ns" unfolding NodesInNetwork_set [OF ns] by blast
    moreover have "n_IPv4 n = V4 x" using hydrateNode_fields [OF n] r(3) by simp
    ultimately show ?thesis by force
  qed
  with N p MarkUsed_fold [of n_IPv4 ns a] show ?thesis by (auto simp: alloc_ok_def)
qed

lemma ipams_ok_upd: "ipams_ok s ipams \<Longrightarrow> alloc_ok s nid a \<Longrightarrow> ipams_ok s (ipams(nid \<mapsto> a))"
  by (simp add: ipams_ok_def)

lemma allocatorFor_ok:
  assumes "pool_ok (c_st c) (c_ipams c)" and p: "net_prefixes (c_st c) (nw_ID nw) = Some (nw_V4Prefix nw, nw_V6Prefix nw)"
    and "allocatorFor flt c nw = (c', r)"
  shows "\<exists>ipams. c' = c\<lparr>c_ipams := ipams\<rparr> \<and> pool_ok (c_st c) ipams \<and>
     (case r of Inl _ \<Rightarrow> ipams = c_ipams c | Inr a \<Rightarrow> ipams (nw_ID nw) = Some a \<and> alloc_ok (c_st c) (nw_ID nw) a)"
proof (cases "c_ipams c (nw_ID nw)")
  case (Some a)
  with assms have "c' = c\<lparr>c_ipams := c_ipams c\<rparr>" "r = Inr a" by (auto simp: allocatorFor_def)
  with Some assms(1) show ?thesis by (intro exI [of _ "c_ipams c"]) (auto simp: pool_ok_def ipams_ok_def)
next
  case None
  note ok = pool_okD [OF assms(1)]
  show ?thesis
  proof (cases r)
    case (Inl e)
    with None assms(3) have "c' = c\<lparr>c_ipams := c_ipams c\<rparr>"
      by (auto simp: allocatorFor_def Let_def split: sum.splits)
    with Inl assms(1) show ?thesis by auto
  next
    case (Inr a)
    with None assms(3) obtain a0 ns where a0: "ipam_New (nw_V4Prefix nw) (nw_V6Prefix nw) = Inr a0"
      and ns: "NodesInNetwork flt (c_st c) (nw_ID nw) = Inr ns" and a: "a = fold (\<lambda>n a. MarkUsed a [n_IPv4 n]) ns a0"
      and c': "c' = c\<lparr>c_ipams := (c_ipams c)(nw_ID nw \<mapsto> a)\<rparr>"
      by (auto simp: allocatorFor_def Let_def split: sum.splits)
    have "alloc_ok (c_st c) (nw_ID nw) a"
      unfolding a by (rule fresh_allocator_ok [OF ok(1,2) p a0 ns])
    with c' Inr ok show ?thesis by (auto simp: pool_ok_def intro: ipams_ok_upd)
  qed
qed

lemma AllocateV4_ok:
  assumes "alloc_ok s nid a"
  shows "\<exists>a' r. AllocateV4 a = Some (a', r) \<and> alloc_ok s nid a' \<and>
     (case r of Inl _ \<Rightarrow> True
      | Inr v4 \<Rightarrow> \<exists>x p4 p6. v4 = V4 x \<and> net_prefixes s nid = Some (p4, p6) \<and> V4 x \<in> prefix_assignable (masked p4) \<and>
          addr_text v4 \<notin> set (assigned s nid) \<and> v4 \<in> al_used a' \<and> alloc_ok s nid (Release a' v4))"
proof -
  from assms obtain p4 p6 where a: "ipam_inv a" "net_prefixes s nid = Some (p4, p6)" "al_v4 a = masked p4" "al_v6 a = masked p6"
    and u: "\<And>x. addr_text (V4 x) \<in> set (assigned s nid) \<Longrightarrow> V4 x \<in> al_used a"
    by (auto simp: alloc_ok_def)
  from AllocateV4_spec [OF a(1)] obtain a' r where r: "AllocateV4 a = Some (a', r)" "al_v4 a' = al_v4 a" "al_v6 a' = al_v6 a"
    "ipam_inv a'" and c: "case r of Inr c \<Rightarrow> c \<in> assignable a \<and> c \<notin> al_used a \<and> al_used a' = insert c (al_used a)
      | Inl e \<Rightarrow> al_used a' = al_used a \<and> assignable a \<subseteq> al_used a" by blast
  have sub: "al_used a \<subseteq> al_used a'" using c by (auto split: sum.splits)
  have ok: "alloc_ok s nid a'" using r a u sub by (auto simp: alloc_ok_def)
  show ?thesis
  proof (cases r)
    case (Inr v4)
    then have v: "v4 \<in> assignable a" "v4 \<notin> al_used a" "al_used a' = insert v4 (al_used a)" using c by auto
    obtain x where x: "v4 = V4 x" using assignable_v4 [OF a(1) v(1)] by (cases v4) auto
    have "al_used (Release a' v4) = al_used a" using v x by (simp add: Release_def)
    then have "alloc_ok s nid (Release a' v4)" using r a u by (simp add: alloc_ok_def Release_keeps)
    with Inr r(1) ok x a v u show ?thesis by (auto simp: assignable_eq)
  qed (use r(1) ok in auto)
qed

section \<open>Writes that change addresses\<close>

lemma CreateNode_cases:
  obtains e where "CreateNode flt now s n = (s, Inl e)"
  | "CreateNode flt now s n = (s\<lparr>st_nodes := tbl_insert (node_row (n, now)) (st_nodes s)\<rparr>,
        Inr (n\<lparr>n_ID := tbl_seq (st_nodes s) + 1, n_CreatedAt := Some now\<rparr>))"
  unfolding CreateNode_def by metis

lemma assigned_insert:
  "assigned (s\<lparr>st_nodes := tbl_insert (node_row (n, now)) (st_nodes s)\<rparr>) nid =
     assigned s nid @ (if n_NetworkID n = nid then [addr_text (n_IPv4 n)] else [])"
  by (simp add: assigned_def tbl_insert_def node_row_def)

lemma CreateNode_pool:
  assumes "pool_ok s ipams" and "n_IPv4 n = V4 x" and "n_IPv6 n = V4 x" and "n_NetworkID n = nid"
    and p: "net_prefixes s nid = Some (p4, p6)" and x: "V4 x \<in> prefix_assignable (masked p4)" "addr_text (V4 x) \<notin> set (assigned s nid)"
    and a: "ipams nid = Some a" "V4 x \<in> al_used a"
  shows "pool_ok (fst (CreateNode flt now s n)) ipams"
proof (cases rule: CreateNode_cases [of flt now s n])
  case 2
  let ?s = "s\<lparr>st_nodes := tbl_insert (node_row (n, now)) (st_nodes s)\<rparr>"
  note ok = pool_okD [OF assms(1)]
  have 1: "store_ok ?s" using CreateNode_ok [OF ok(1), of n flt now] assms(2,3) 2 by (simp add: no_zone_def)
  have np: "net_prefixes ?s i = net_prefixes s i" for i by (simp add: net_prefixes_def)
  have as: "assigned ?s i = assigned s i @ (if nid = i then [addr_text (V4 x)] else [])" for i
    using assms(2,4) by (simp add: assigned_insert)
  have 2: "addrs_ok ?s" using ok(2) p x unfolding addrs_ok_def np as by auto
  have 3: "ipams_ok ?s ipams" using ok(3) a unfolding ipams_ok_def alloc_ok_def np as by auto
  from 1 2 3 show ?thesis using \<open>CreateNode flt now s n = _\<close> by (simp add: pool_ok_def)
qed (use assms(1) in auto)

lemma AllocateV6For_valid: "AllocateV6For a i = Inr v6 \<Longrightarrow> addr_is_valid v6 \<and> no_zone v6"
  by (auto simp: AllocateV6For_def addr_from16_def no_zone_def Let_def split: if_splits)

lemma distinct_map_delete:
  "distinct (map k (filter q rows)) \<Longrightarrow> distinct (map k (filter q (filter p rows)))"
  by (induction rows) auto

lemma delete_pool:
  assumes "pool_ok s ipams"
  shows "pool_ok (fst (store_DeleteNode flt s i)) ipams"
proof -
  note ok = pool_okD [OF assms]
  let ?s = "fst (store_DeleteNode flt s i)"
  have np: "net_prefixes ?s j = net_prefixes s j" for j by (simp add: net_prefixes_def store_DeleteNode_def)
  have sub: "set (assigned ?s j) \<subseteq> set (assigned s j)" for j
    by (auto simp: assigned_iff store_DeleteNode_def tbl_delete_def)
  have d: "distinct (assigned ?s j)" for j
    using ok(2) distinct_map_delete [of nr_ipv4 "\<lambda>r. nr_network_id r = j" "tbl_rows (st_nodes s)" "\<lambda>r. nr_id r \<noteq> i"]
    by (simp add: addrs_ok_def assigned_def store_DeleteNode_def tbl_delete_def)
  have "addrs_ok ?s" using ok(2) d sub unfolding addrs_ok_def np by blast
  moreover have "ipams_ok ?s ipams" using ok(3) sub unfolding ipams_ok_def alloc_ok_def np by blast
  ultimately show ?thesis using store_DeleteNode_ok [OF ok(1)] by (simp add: pool_ok_def)
qed

text \<open>After the delete no node of the network has the address, so it may be released.\<close>

lemma deleted_address_free:
  assumes "pool_ok s ipams" and n: "NodeByID flt s i = Inr n" and d: "store_DeleteNode flt s i = (s', Inr ())"
  shows "addr_text (n_IPv4 n) \<notin> set (assigned s' (n_NetworkID n))"
proof
  assume "addr_text (n_IPv4 n) \<in> set (assigned s' (n_NetworkID n))"
  then obtain q where q: "q \<in> set (tbl_rows (st_nodes s))" "nr_id q \<noteq> i" "nr_network_id q = n_NetworkID n" "nr_ipv4 q = addr_text (n_IPv4 n)"
    using d by (auto simp: assigned_iff store_DeleteNode_def tbl_delete_def split: if_splits)
  obtain r where r: "r \<in> set (tbl_rows (st_nodes s))" "nr_id r = i" "hydrateNode r = Inr n" using NodeByID_Inr [OF n] by blast
  note h = hydrateNode_fields [OF r(3)]
  have "nr_ipv4 r \<in> set (assigned s (n_NetworkID n))" using r h by (auto simp: assigned_iff)
  then obtain x where x: "nr_ipv4 r = addr_text (V4 x)" using assigned_v4 pool_okD(2) [OF assms(1)] by blast
  with h q have "nr_ipv4 q = nr_ipv4 r" by simp
  moreover have "distinct (map nr_ipv4 (filter (\<lambda>q. nr_network_id q = n_NetworkID n) (tbl_rows (st_nodes s))))"
    using pool_okD(2) [OF assms(1)] by (simp add: addrs_ok_def assigned_def)
  ultimately have "q = r" using q r h by (auto simp: distinct_map inj_on_def)
  with q r show False by simp
qed

lemma Release_ok:
  assumes "alloc_ok s nid a" and "addr_text x \<notin> set (assigned s nid)" and "addr_is4 x"
  shows "alloc_ok s nid (Release a x)"
  using assms by (auto simp: alloc_ok_def Release_keeps) (auto simp: Release_def)

lemma find_append: "List.find p (xs @ ys) = (case List.find p xs of None \<Rightarrow> List.find p ys | Some x \<Rightarrow> Some x)"
  by (induction xs) auto

lemma EnsureNetwork_pool:
  assumes "pool_ok s ipams" and "prefix_ok v4" and "prefix_ok v6"
  shows "pool_ok (fst (EnsureNetwork flt now s name v4 v6)) ipams"
proof -
  note ok = pool_okD [OF assms(1)]
  let ?s = "fst (EnsureNetwork flt now s name v4 v6)"
  have "tbl_find p (st_networks ?s) = Some r" if "tbl_find p (st_networks s) = Some r" for p r
    using that by (simp add: EnsureNetwork_def tbl_find_def tbl_insert_def Let_def find_append)
  then have np: "net_prefixes s j = Some x \<Longrightarrow> net_prefixes ?s j = Some x" for j x
    by (auto simp: net_prefixes_def split: option.splits)
  have as: "assigned ?s j = assigned s j" for j by (simp add: assigned_def EnsureNetwork_def Let_def)
  have "addrs_ok ?s" using ok(2) np unfolding addrs_ok_def as by blast
  moreover have "ipams_ok ?s ipams" using ok(3) np unfolding ipams_ok_def alloc_ok_def as by blast
  ultimately show ?thesis using EnsureNetwork_ok [OF ok(1) assms(2,3)] by (simp add: pool_ok_def)
qed

section \<open>Every method keeps the invariant\<close>

lemma coord_inv_iff:
  "coord_inv c \<longleftrightarrow> pool_ok (c_st c) (c_ipams c) \<and> registry_ok (c_subs c) (c_nmch c) \<and> registry_ok (c_sigSubs c) (c_sigch c) \<and>
     distinct (map fst (c_online c))"
  by (auto simp: coord_inv_def pool_ok_def)

lemma coord_inv_pool: "coord_inv c \<Longrightarrow> pool_ok s ipams \<Longrightarrow> coord_inv (c\<lparr>c_st := s, c_ipams := ipams\<rparr>)"
  by (simp add: coord_inv_iff)

lemma coord_inv_st: "coord_inv c \<Longrightarrow> pool_ok s (c_ipams c) \<Longrightarrow> coord_inv (c\<lparr>c_st := s\<rparr>)"
  by (simp add: coord_inv_iff)

lemma coord_inv_write: "coord_inv c \<Longrightarrow> store_ok s \<Longrightarrow> same_addrs (c_st c) s \<Longrightarrow> coord_inv (c\<lparr>c_st := s\<rparr>)"
  by (rule coord_inv_st) (auto simp: coord_inv_iff intro: pool_ok_same)

lemma notify_inv: "coord_inv c \<Longrightarrow> coord_inv (notifyNetworkLocked flt c i)"
  by (simp add: coord_inv_iff notify_registry)

text \<open>A database write of a method: the result of a store operation that keeps addresses.\<close>

lemma write_pool:
  assumes "pool_ok s ipams" and "op = (s', r)" and "store_ok s \<Longrightarrow> store_ok (fst op)" and "same_addrs s (fst op)"
  shows "pool_ok s' ipams"
  using assms pool_ok_same [OF assms(1), of s'] pool_okD(1) [OF assms(1)] by auto

named_theorems pool_inv \<open>database operations keep the pool\<close>

lemma writes_pool [pool_inv]:
  assumes "pool_ok s ipams"
  shows "pool_ok (fst (UpdateNodeEndpoints flt s i eps)) ipams" "pool_ok (fst (UpdateNodeOnRegister flt s i k h os)) ipams"
    "pool_ok (fst (TouchNode flt now s i)) ipams" "pool_ok (fst (SetAdvertisedRoutes flt s i rs)) ipams"
    "pool_ok (fst (store_SetRouteApproved flt s i rt b)) ipams" "pool_ok (fst (Audit flt now s u ac t d)) ipams"
    "pool_ok (fst (SetACL flt now s nid rules)) ipams" "pool_ok (fst (UseSetupKey flt now s key)) ipams"
    "pool_ok (fst (NewSetupKey flt raw now s nid ru ex ow)) ipams" "pool_ok (fst (RevokeSetupKey flt s i)) ipams"
    "pool_ok (fst (SetSetting flt s key v)) ipams" "pool_ok (fst (CreateUser gen flt now s u pw role)) ipams"
    "pool_ok (fst (SetUserDisabled flt s i b)) ipams" "pool_ok (fst (SetUserRole flt s i role)) ipams"
    "pool_ok (fst (SetUserPassword gen flt s i pw)) ipams" "pool_ok (fst (DeleteUser flt s i)) ipams"
    "addr_is_valid v6 \<Longrightarrow> no_zone v6 \<Longrightarrow> pool_ok (fst (UpdateNodeIPv6 flt s i v6)) ipams"
  using pool_okD(1) [OF assms] by (simp_all add: pool_ok_same [OF assms] store_inv same_addrs_intro)

lemma pool_of_write: "op = (s', r) \<Longrightarrow> pool_ok (fst op) ipams \<Longrightarrow> pool_ok s' ipams"
  by simp

lemma coord_inv_ipams: "coord_inv c \<Longrightarrow> pool_ok (c_st c) ipams \<Longrightarrow> coord_inv (c\<lparr>c_ipams := ipams\<rparr>)"
  by (simp add: coord_inv_iff)

lemma coord_inv_stE: "coord_inv (c\<lparr>c_st := s\<rparr>) \<Longrightarrow> pool_ok s (c_ipams c)"
  by (simp add: coord_inv_iff)

lemma register_again_inv:
  assumes "coord_inv c"
  shows "coord_inv (fst (register_again flt now c n nkey hostname osName routes))"
proof -
  define newName where "newName = (if hostname \<noteq> [] \<and> hostname \<noteq> n_Hostname n \<and> \<not> fst (HostnameTaken flt (c_st c) (n_NetworkID n) hostname)
                     then hostname else n_Hostname n)"
  define s1 where "s1 = (if n_NodeKey n \<noteq> NodePublic_String nkey
                then fst (Audit flt now (c_st c) (ownerName flt (c_st c) (n_OwnerUserID n)) ''device.key-rotated'' (n_Hostname n) [])
                else c_st c)"
  obtain s2 r2 where 2: "UpdateNodeOnRegister flt s1 (n_ID n) (NodePublic_String nkey) newName osName = (s2, r2)" by fastforce
  obtain s3 r3 where 3: "SetAdvertisedRoutes flt s2 (n_ID n) routes = (s3, r3)" by fastforce
  have p: "pool_ok s1 (c_ipams c)" using assms by (auto simp: s1_def coord_inv_iff pool_inv)
  have p2: "pool_ok s2 (c_ipams c)" by (rule pool_of_write [OF 2 writes_pool(2) [OF p]])
  have p3: "pool_ok s3 (c_ipams c)" by (rule pool_of_write [OF 3 writes_pool(4) [OF p2]])
  note q = coord_inv_st [OF assms p2] coord_inv_st [OF assms p3]
  show ?thesis
    using 2 3 q notify_inv [OF q(2)]
    by (simp add: register_again_def Let_def newName_def [symmetric] s1_def [symmetric] split: sum.split)
qed

lemma register_create_inv:
  assumes "coord_inv c" and "c_ipams c (nw_ID nw) = Some a" and x: "v4 = V4 x" and "net_prefixes (c_st c) (nw_ID nw) = Some (p4, p6)"
    and "V4 x \<in> prefix_assignable (masked p4)" and "addr_text v4 \<notin> set (assigned (c_st c) (nw_ID nw))" and "v4 \<in> al_used a"
    and "alloc_ok (c_st c) (nw_ID nw) (Release a v4)"
  shows "coord_inv (fst (register_create flt now c nw ownerID a v4 mkey nkey hostname0 osName routes))"
proof -
  define hostname where "hostname = dedupeHostname flt (c_st c) (nw_ID nw) (if hostname0 = [] then ''node'' else hostname0)"
  define n where "n = \<lparr>n_ID = 0, n_NetworkID = nw_ID nw, n_Hostname = hostname, n_MachineKey = MachinePublic_String mkey,
              n_NodeKey = NodePublic_String nkey, n_IPv4 = v4, n_IPv6 = v4, n_OS = osName, n_Endpoints = [],
              n_CreatedAt = None, n_LastSeen = None, n_OwnerUserID = ownerID\<rparr>"
  have P: "pool_ok (c_st c) (c_ipams c)" using assms(1) by (simp add: coord_inv_iff)
  have p1: "pool_ok (fst (CreateNode flt now (c_st c) n)) (c_ipams c)"
    by (rule CreateNode_pool [OF P]) (use assms in \<open>auto simp: n_def\<close>)
  show ?thesis
  proof (cases rule: CreateNode_cases [of flt now "c_st c" n])
    case (1 e)
    have "pool_ok (c_st c) ((c_ipams c)(nw_ID nw \<mapsto> Release a v4))"
      using P assms(8) by (auto simp: pool_ok_def intro: ipams_ok_upd)
    with 1 assms(1) show ?thesis
      by (simp add: register_create_def Let_def hostname_def [symmetric] n_def [symmetric] coord_inv_ipams)
  next
    case 2
    define s1 where "s1 = (c_st c)\<lparr>st_nodes := tbl_insert (node_row (n, now)) (st_nodes (c_st c))\<rparr>"
    define m where "m = n\<lparr>n_ID := tbl_seq (st_nodes (c_st c)) + 1, n_CreatedAt := Some now\<rparr>"
    have c: "CreateNode flt now (c_st c) n = (s1, Inr m)" using 2 by (simp add: s1_def m_def)
    have p1: "pool_ok s1 (c_ipams c)" using p1 c by simp
    show ?thesis
    proof (cases "AllocateV6For a (u64_of_int64 (n_ID m))")
      case (Inl e)
      with c coord_inv_st [OF assms(1) p1] show ?thesis
        by (simp add: register_create_def Let_def hostname_def [symmetric] n_def [symmetric])
    next
      case (Inr v6)
      obtain s2 r2 where 2: "UpdateNodeIPv6 flt s1 (n_ID m) v6 = (s2, r2)" by fastforce
      obtain s3 r3 where 3: "(if length routes > 0 then SetAdvertisedRoutes flt s2 (n_ID m) routes else (s2, Inr ())) = (s3, r3)" by fastforce
      obtain s4 r4 where 4: "Audit flt now s3 (ownerName flt s3 ownerID) ''device.register'' (n_Hostname m)
                              (''os='' @ osName @ '' ip='' @ addr_text (n_IPv4 m)) = (s4, r4)" by fastforce
      have p2: "pool_ok s2 (c_ipams c)"
        by (rule pool_of_write [OF 2 writes_pool(17) [OF p1]]) (use AllocateV6For_valid [OF Inr] in auto)
      have p3: "pool_ok s3 (c_ipams c)"
        using 3 p2 pool_of_write [OF _ writes_pool(4) [OF p2]] by (auto split: if_splits)
      have p4: "pool_ok s4 (c_ipams c)" by (rule pool_of_write [OF 4 writes_pool(6) [OF p3]])
      note q = coord_inv_st [OF assms(1) p2] coord_inv_st [OF assms(1) p3] notify_inv [OF coord_inv_st [OF assms(1) p4], of flt]
      show ?thesis
        using c Inr 2 3 4 q
        by (simp add: register_create_def Let_def hostname_def [symmetric] n_def [symmetric] split: sum.split)
    qed
  qed
qed

lemma UseSetupKey_network:
  "UseSetupKey flt now s k = (s', Inr (nw, ow)) \<Longrightarrow> \<exists>i. NetworkByID flt s' i = Inr nw"
  by (auto simp: UseSetupKey_def Let_def split: if_splits option.splits sum.splits)

lemma register_new_inv:
  assumes "coord_inv c"
  shows "\<exists>c' r. register_new flt now c mkey nkey setupKey hostname osName routes = Some (c', r) \<and> coord_inv c'"
proof -
  obtain s1 r1 where 1: "UseSetupKey flt now (c_st c) setupKey = (s1, r1)" by fastforce
  have P: "pool_ok (c_st c) (c_ipams c)" using assms by (simp add: coord_inv_iff)
  have p1: "pool_ok s1 (c_ipams c)" by (rule pool_of_write [OF 1 writes_pool(8) [OF P]])
  note i1 = coord_inv_st [OF assms p1]
  show ?thesis
  proof (cases r1)
    case (Inl e)
    with 1 i1 assms show ?thesis by (simp add: register_new_def)
  next
    case (Inr y)
    then obtain nw ow where y: "r1 = Inr (nw, ow)" by (cases y) auto
    with UseSetupKey_network 1 have np: "net_prefixes s1 (nw_ID nw) = Some (nw_V4Prefix nw, nw_V6Prefix nw)"
      using NetworkByID_prefixes by blast
    obtain c1 ra where a: "allocatorFor flt (c\<lparr>c_st := s1\<rparr>) nw = (c1, ra)" by fastforce
    from allocatorFor_ok [OF _ _ a] p1 np obtain ipams where c1: "c1 = c\<lparr>c_st := s1, c_ipams := ipams\<rparr>" and ip: "pool_ok s1 ipams"
      and r: "case ra of Inl _ \<Rightarrow> ipams = c_ipams c | Inr al \<Rightarrow> ipams (nw_ID nw) = Some al \<and> alloc_ok s1 (nw_ID nw) al"
      by (auto cong: sum.case_cong)
    note i2 = coord_inv_pool [OF assms ip]
    show ?thesis
    proof (cases ra)
      case (Inl e)
      with 1 y a c1 i2 assms show ?thesis by (simp add: register_new_def)
    next
      case (Inr al)
      with r have al: "alloc_ok s1 (nw_ID nw) al" by simp
      from AllocateV4_ok [OF al] obtain al' rv where A: "AllocateV4 al = Some (al', rv)" and al': "alloc_ok s1 (nw_ID nw) al'"
        and v: "case rv of Inl _ \<Rightarrow> True
          | Inr v4 \<Rightarrow> \<exists>x p4 p6. v4 = V4 x \<and> net_prefixes s1 (nw_ID nw) = Some (p4, p6) \<and> V4 x \<in> prefix_assignable (masked p4) \<and>
              addr_text v4 \<notin> set (assigned s1 (nw_ID nw)) \<and> v4 \<in> al_used al' \<and> alloc_ok s1 (nw_ID nw) (Release al' v4)" by blast
      let ?c = "c\<lparr>c_st := s1, c_ipams := ipams(nw_ID nw \<mapsto> al')\<rparr>"
      have i3: "coord_inv ?c"
        using ip al' by (intro coord_inv_pool [OF assms]) (auto simp: pool_ok_def intro: ipams_ok_upd)
      show ?thesis
      proof (cases rv)
        case (Inl e)
        with 1 y a c1 \<open>ra = Inr al\<close> A i3 assms show ?thesis by (simp add: register_new_def)
      next
        case (Inr v4)
        with v obtain x p4 p6 where x: "v4 = V4 x" "net_prefixes s1 (nw_ID nw) = Some (p4, p6)" "V4 x \<in> prefix_assignable (masked p4)"
          "addr_text v4 \<notin> set (assigned s1 (nw_ID nw))" "v4 \<in> al_used al'" "alloc_ok s1 (nw_ID nw) (Release al' v4)" by auto
        have "coord_inv (fst (register_create flt now ?c nw ow al' v4 mkey nkey hostname osName routes))"
          by (rule register_create_inv [OF i3 _ x(1) _ x(3)]) (use x in auto)
        with 1 y a c1 \<open>ra = Inr al\<close> A Inr assms show ?thesis
          by (cases "register_create flt now ?c nw ow al' v4 mkey nkey hostname osName routes") (simp add: register_new_def)
      qed
    qed
  qed
qed

lemma Register_inv:
  assumes "coord_inv c"
  shows "\<exists>c' r. Register flt now c mkey nkey setupKey hostname osName routes = Some (c', r) \<and> coord_inv c'"
  using assms register_new_inv [OF assms] register_again_inv [OF assms]
  by (auto simp: Register_def Let_def split: sum.split) (metis prod.collapse)

lemma coord_UpdateEndpoints_inv: "coord_inv c \<Longrightarrow> coord_inv (fst (coord_UpdateEndpoints flt c mkey eps))"
proof -
  assume c: "coord_inv c"
  have w: "coord_inv (c\<lparr>c_st := fst (UpdateNodeEndpoints flt (c_st c) i eps)\<rparr>)" for i
    using c by (intro coord_inv_st [OF c]) (simp add: coord_inv_iff pool_inv)
  then have "coord_inv (c\<lparr>c_st := s\<rparr>)" if "UpdateNodeEndpoints flt (c_st c) i eps = (s, r)" for i s r
    using that by (metis fst_conv)
  with c show ?thesis
    by (auto simp: coord_UpdateEndpoints_def split: sum.split prod.split intro: notify_inv)
qed

lemma registry_replace:
  assumes "registry_ok subs h" and "h1 = (case subs i of None \<Rightarrow> h | Some old \<Rightarrow> close_chan old h)" and "make_chan cap h1 = (h2, ch)"
  shows "registry_ok (subs(i \<mapsto> ch)) h2" and "chh_chans h2 ch = Some \<lparr>ch_buf = [], ch_cap = cap, ch_closed = False\<rparr>"
proof -
  have "registry_ok (subs(i := None)) h1"
    using assms(1,2) registry_close [OF assms(1)] registry_unregister [OF assms(1), of i] by (auto split: option.splits)
  from registry_make [OF this _ assms(3), of i]
  show "registry_ok (subs(i \<mapsto> ch)) h2" "chh_chans h2 ch = Some \<lparr>ch_buf = [], ch_cap = cap, ch_closed = False\<rparr>" by simp_all
qed

lemma coord_inv_chans:
  "coord_inv c \<Longrightarrow> registry_ok subs h \<Longrightarrow> distinct (map fst onl) \<Longrightarrow> coord_inv (c\<lparr>c_nmch := h, c_subs := subs, c_online := onl\<rparr>)"
  by (simp add: coord_inv_iff)

lemma Subscribe_inv:
  assumes c: "coord_inv c"
  shows "coord_inv (fst (Subscribe flt now c mkey))"
proof (cases "NodeByMachineKey flt (c_st c) (MachinePublic_String mkey)")
  case (Inr n)
  define h1 where "h1 = (case c_subs c (n_ID n) of None \<Rightarrow> c_nmch c | Some old \<Rightarrow> close_chan old (c_nmch c))"
  obtain h2 ch where m: "make_chan 8 h1 = (h2, ch)" by fastforce
  define c1 where "c1 = c\<lparr>c_nmch := h2, c_subs := (c_subs c)(n_ID n \<mapsto> ch), c_online := AList.update (n_ID n) True (c_online c)\<rparr>"
  define c2 where "c2 = c1\<lparr>c_st := fst (TouchNode flt now (c_st c1) (n_ID n))\<rparr>"
  define c3 where "c3 = (case buildNetMapLocked flt c2 n of Inl _ \<Rightarrow> c2 | Inr nm \<Rightarrow> c2\<lparr>c_nmch := plain_send ch nm (c_nmch c2)\<rparr>)"
  note r = registry_replace [OF coord_invD(4) [OF c] h1_def m]
  have i1: "coord_inv c1"
    unfolding c1_def by (rule coord_inv_chans [OF c r(1)]) (use coord_invD(6) [OF c] in \<open>simp add: distinct_update\<close>)
  then have i2: "coord_inv c2" unfolding c2_def by (intro coord_inv_st) (simp_all add: coord_inv_iff pool_inv)
  have "registry_ok (c_subs c2) (plain_send ch nm (c_nmch c2))" for nm
    by (rule plain_send_fresh [where i = "n_ID n" and c = "\<lparr>ch_buf = [], ch_cap = 8, ch_closed = False\<rparr>"])
      (use r in \<open>auto simp: c2_def c1_def\<close>)
  with i2 have i3: "coord_inv c3" by (auto simp: c3_def coord_inv_iff split: sum.split)
  have "fst (Subscribe flt now c mkey) = notifyNetworkLocked flt c3 (n_NetworkID n)"
    using Inr m unfolding c3_def c2_def c1_def h1_def by (simp add: Subscribe_def Let_def)
  with notify_inv [OF i3] show ?thesis by simp
qed (simp add: Subscribe_def c)

lemma Unsubscribe_inv:
  assumes c: "coord_inv c"
  shows "coord_inv (Unsubscribe flt now c n ch)"
proof -
  let ?c1 = "c\<lparr>c_subs := (c_subs c)(n_ID n := None), c_online := AList.update (n_ID n) False (c_online c)\<rparr>"
  have "coord_inv ?c1" using c by (simp add: coord_inv_iff registry_unregister distinct_update)
  then have "coord_inv (?c1\<lparr>c_st := fst (TouchNode flt now (c_st ?c1) (n_ID n))\<rparr>)"
    by (intro coord_inv_st) (simp_all add: coord_inv_iff pool_inv)
  from notify_inv [OF this, of flt "n_NetworkID n"] c show ?thesis by (simp add: Unsubscribe_def Let_def)
qed

lemma release_deleted:
  assumes c: "coord_inv c" and "addr_text (n_IPv4 n) \<notin> set (assigned (c_st c) (n_NetworkID n))" and "addr_is4 (n_IPv4 n)"
  shows "coord_inv (release_address flt c n)"
proof (cases "NetworkByID flt (c_st c) (n_NetworkID n)")
  case (Inr nw)
  obtain c' r where a: "allocatorFor flt c nw = (c', r)" by fastforce
  have P: "pool_ok (c_st c) (c_ipams c)" using c by (simp add: coord_inv_iff)
  have id: "nw_ID nw = n_NetworkID n" using NetworkByID_prefix_ok [OF Inr] by simp
  from allocatorFor_ok [OF P NetworkByID_prefixes [OF Inr] a] obtain ipams where c': "c' = c\<lparr>c_ipams := ipams\<rparr>" "pool_ok (c_st c) ipams"
    and al: "case r of Inl _ \<Rightarrow> ipams = c_ipams c | Inr a \<Rightarrow> ipams (nw_ID nw) = Some a \<and> alloc_ok (c_st c) (nw_ID nw) a" by blast
  show ?thesis
  proof (cases r)
    case (Inr alloc)
    with al have "alloc_ok (c_st c) (nw_ID nw) (Release alloc (n_IPv4 n))"
      using assms(2,3) id by (intro Release_ok) auto
    with c' have "pool_ok (c_st c) (ipams(nw_ID nw \<mapsto> Release alloc (n_IPv4 n)))"
      by (auto simp: pool_ok_def intro: ipams_ok_upd)
    with coord_inv_ipams [OF c this] Inr \<open>NetworkByID flt _ _ = _\<close> a c' show ?thesis by (simp add: release_address_def)
  qed (use \<open>NetworkByID flt _ _ = _\<close> a c' coord_inv_ipams [OF c] in \<open>simp add: release_address_def\<close>)
qed (simp add: release_address_def c)

lemma drop_node_st [simp]: "c_st (drop_node c i) = c_st c" "c_ipams (drop_node c i) = c_ipams c"
  by (simp_all add: drop_node_def Let_def split: option.split)

lemma drop_node_inv: "coord_inv c \<Longrightarrow> coord_inv (drop_node c i)"
proof -
  assume c: "coord_inv c"
  let ?c1 = "case c_subs c i of None \<Rightarrow> c | Some ch \<Rightarrow> c\<lparr>c_nmch := close_chan ch (c_nmch c), c_subs := (c_subs c)(i := None)\<rparr>"
  let ?c2 = "case c_sigSubs ?c1 i of None \<Rightarrow> ?c1 | Some ch \<Rightarrow> ?c1\<lparr>c_sigch := close_chan ch (c_sigch ?c1), c_sigSubs := (c_sigSubs ?c1)(i := None)\<rparr>"
  have "coord_inv ?c1" using c registry_close [of "c_subs c" "c_nmch c" i] by (auto simp: coord_inv_iff split: option.split)
  then have "coord_inv ?c2" using registry_close [of "c_sigSubs ?c1" "c_sigch ?c1" i] by (auto simp: coord_inv_iff split: option.split)
  then show ?thesis by (simp add: drop_node_def Let_def coord_inv_iff distinct_delete)
qed

lemma node_v4:
  assumes "addrs_ok s" and "NodeByID flt s i = Inr n"
  shows "addr_is4 (n_IPv4 n)"
proof -
  obtain q where q: "q \<in> set (tbl_rows (st_nodes s))" "hydrateNode q = Inr n" using NodeByID_Inr [OF assms(2)] by blast
  then have "nr_ipv4 q \<in> set (assigned s (n_NetworkID n))" using hydrateNode_fields [OF q(2)] by (auto simp: assigned_iff)
  then obtain x where "nr_ipv4 q = addr_text (V4 x)" using assigned_v4 assms(1) by blast
  with hydrateNode_fields [OF q(2)] have "n_IPv4 n = V4 x" by simp
  then show ?thesis by simp
qed

lemma coord_DeleteNode_inv:
  assumes c: "coord_inv c"
  shows "coord_inv (fst (coord_DeleteNode flt c i))"
proof (cases "NodeByID flt (c_st c) i")
  case n: (Inr n)
  obtain s1 r where d: "store_DeleteNode flt (c_st c) i = (s1, r)" by fastforce
  have P: "pool_ok (c_st c) (c_ipams c)" using c by (simp add: coord_inv_iff)
  have p1: "pool_ok s1 (c_ipams c)" by (rule pool_of_write [OF d delete_pool [OF P]])
  note i1 = coord_inv_st [OF c p1]
  show ?thesis
  proof (cases r)
    case (Inr u)
    have f: "addr_text (n_IPv4 n) \<notin> set (assigned (c_st (drop_node (c\<lparr>c_st := s1\<rparr>) i)) (n_NetworkID n))"
      using deleted_address_free [OF P n] d Inr by simp
    from notify_inv [OF release_deleted [OF drop_node_inv [OF i1] f node_v4 [OF pool_okD(2) [OF P] n]]] n d Inr show ?thesis
      by (simp add: coord_DeleteNode_def)
  qed (use n d i1 in \<open>simp add: coord_DeleteNode_def\<close>)
qed (simp add: coord_DeleteNode_def c)

lemma coord_SetRouteApproved_inv: "coord_inv c \<Longrightarrow> coord_inv (fst (coord_SetRouteApproved flt c i rt b))"
proof -
  assume c: "coord_inv c"
  have "coord_inv (c\<lparr>c_st := fst (store_SetRouteApproved flt (c_st c) i t b)\<rparr>)" for t
    using c by (intro coord_inv_st [OF c]) (simp add: coord_inv_iff pool_inv)
  then have "coord_inv (c\<lparr>c_st := s\<rparr>)" if "store_SetRouteApproved flt (c_st c) i t b = (s, r)" for t s r
    using that by (metis fst_conv)
  with c show ?thesis
    by (auto simp: coord_SetRouteApproved_def split: sum.split prod.split intro: notify_inv)
qed

lemma signal_inv:
  assumes c: "coord_inv c"
  shows "coord_inv (fst (signalSubscribe flt c mkey))" "coord_inv (signalUnsubscribe c n ch)" "coord_inv (routeSignal flt c n env)"
proof -
  show "coord_inv (fst (signalSubscribe flt c mkey))"
  proof (cases "NodeByMachineKey flt (c_st c) (MachinePublic_String mkey)")
    case (Inr m)
    obtain h2 ch where h2: "make_chan 32 (case c_sigSubs c (n_ID m) of None \<Rightarrow> c_sigch c | Some old \<Rightarrow> close_chan old (c_sigch c)) = (h2, ch)"
      by fastforce
    from registry_replace(1) [OF coord_invD(5) [OF c] refl h2] Inr h2 c show ?thesis
      by (simp add: signalSubscribe_def Let_def coord_inv_iff)
  qed (simp add: signalSubscribe_def c)
  show "coord_inv (signalUnsubscribe c n ch)" using c by (simp add: signalUnsubscribe_def coord_inv_iff registry_unregister)
  have "registry_ok (c_sigSubs c) (fst (select_send ch out (c_sigch c)))" if "c_sigSubs c j = Some ch" for j ch out
    using registry_select_send [OF coord_invD(5) [OF c] that] by (metis prod.collapse)
  with c show "coord_inv (routeSignal flt c n env)"
    by (auto simp: routeSignal_def Let_def coord_inv_iff split: sum.split option.split)
qed

section \<open>The transition system\<close>

text \<open>A server starts on a consistent database, with whatever configuration; starting it again on
  the database it left is a step. The admin API's own writes are steps too.\<close>

definition coord_start :: "Store \<Rightarrow> string list \<Rightarrow> string list \<Rightarrow> string \<Rightarrow> Coordinator" where
  "coord_start s stuns relays dns = (case coord_New s of
     Inr c \<Rightarrow> c\<lparr>c_StunServers := stuns, c_Relays := relays, c_DNSBase := dns\<rparr>)"

definition coord_init :: "Coordinator \<Rightarrow> bool" where
  "coord_init c \<longleftrightarrow> (\<exists>s stuns relays dns. store_ok s \<and> addrs_ok s \<and> c = coord_start s stuns relays dns)"

inductive admin_write :: "Store \<Rightarrow> Store \<Rightarrow> bool" where
  write_NewSetupKey: "admin_write s (fst (NewSetupKey flt raw now s nid ru ex ow))"
| write_RevokeSetupKey: "admin_write s (fst (RevokeSetupKey flt s i))"
| write_SetACL: "admin_write s (fst (SetACL flt now s nid rules))"
| write_Audit: "admin_write s (fst (Audit flt now s u ac t d))"
| write_SetSetting: "admin_write s (fst (SetSetting flt s k v))"
| write_CreateUser: "admin_write s (fst (CreateUser gen flt now s u pw role))"
| write_SetUserDisabled: "admin_write s (fst (SetUserDisabled flt s i b))"
| write_SetUserRole: "admin_write s (fst (SetUserRole flt s i role))"
| write_SetUserPassword: "admin_write s (fst (SetUserPassword gen flt s i pw))"
| write_DeleteUser: "admin_write s (fst (DeleteUser flt s i))"
| write_EnsureNetwork: "prefix_ok v4 \<Longrightarrow> prefix_ok v6 \<Longrightarrow> admin_write s (fst (EnsureNetwork flt now s name v4 v6))"

inductive coord_step :: "Coordinator \<Rightarrow> Coordinator \<Rightarrow> bool" where
  step_Register: "Register flt now c mkey nkey setupKey hostname osName routes = Some (c', r) \<Longrightarrow> coord_step c c'"
| step_UpdateEndpoints: "coord_step c (fst (coord_UpdateEndpoints flt c mkey eps))"
| step_Subscribe: "coord_step c (fst (Subscribe flt now c mkey))"
| step_Unsubscribe: "coord_step c (Unsubscribe flt now c n ch)"
| step_DeleteNode: "coord_step c (fst (coord_DeleteNode flt c i))"
| step_SetRouteApproved: "coord_step c (fst (coord_SetRouteApproved flt c i route b))"
| step_ACLChanged: "coord_step c (ACLChanged flt c nid)"
| step_signalSubscribe: "coord_step c (fst (signalSubscribe flt c mkey))"
| step_signalUnsubscribe: "coord_step c (signalUnsubscribe c n ch)"
| step_routeSignal: "coord_step c (routeSignal flt c n env)"
| step_read_netmap: "recv_chan ch (c_nmch c) = (h, v) \<Longrightarrow> coord_step c (c\<lparr>c_nmch := h\<rparr>)"
| step_read_signal: "recv_chan ch (c_sigch c) = (hs, vs) \<Longrightarrow> coord_step c (c\<lparr>c_sigch := hs\<rparr>)"
| step_admin: "admin_write (c_st c) s \<Longrightarrow> coord_step c (c\<lparr>c_st := s\<rparr>)"
| step_restart: "coord_step c (coord_start (c_st c) stuns relays dns)"

lemma coord_start_inv: "store_ok s \<Longrightarrow> addrs_ok s \<Longrightarrow> coord_inv (coord_start s stuns relays dns)"
  by (simp add: coord_start_def coord_New_def coord_inv_def ipams_ok_def)

lemma admin_writes_pool: "admin_write s s' \<Longrightarrow> pool_ok s ipams \<Longrightarrow> pool_ok s' ipams"
  by (induction rule: admin_write.induct) (auto intro: pool_inv EnsureNetwork_pool)

lemma coord_step_inv:
  assumes "coord_inv c" and "coord_step c c'"
  shows "coord_inv c'"
  using assms(2,1)
proof (cases rule: coord_step.cases)
  case (step_Register flt now mkey nkey setupKey hostname osName routes r)
  with Register_inv [OF assms(1)] show ?thesis by (metis option.inject prod.inject)
next
  case (step_read_netmap ch h v)
  with registry_recv [OF coord_invD(4) [OF assms(1)]] assms(1) show ?thesis by (simp add: coord_inv_iff)
next
  case (step_read_signal ch h v)
  with registry_recv [OF coord_invD(5) [OF assms(1)]] assms(1) show ?thesis by (simp add: coord_inv_iff)
next
  case (step_admin s)
  with admin_writes_pool assms(1) show ?thesis by (auto simp: coord_inv_iff)
next
  case (step_restart stuns relays dns)
  with coord_start_inv coord_invD(1,2) [OF assms(1)] show ?thesis by simp
qed (simp_all add: coord_UpdateEndpoints_inv Subscribe_inv Unsubscribe_inv coord_DeleteNode_inv coord_SetRouteApproved_inv
    ACLChanged_def notify_inv signal_inv)

interpretation coord_sys: inductive_invariant coord_init coord_step coord_inv
  by unfold_locales (auto simp: coord_init_def intro: coord_start_inv coord_step_inv)

end
