(* ===== verification/Coord_Props.thy ===== *)
theory Coord_Props
  imports Coord_Inv
begin

text \<open>
  The properties of the coordinator: in every reachable state addresses are unique, no channel
  operation panics or blocks, and registration returns; what registration, netmaps, signalling and
  deletion do.
\<close>

section \<open>A sample server\<close>

definition sample_coord :: Coordinator where
  "sample_coord = coord_start sample_store [''stun.example:3478''] [] ''mesh.example''"

lemma sample_node_assignable: "V4 0x64600001 \<in> prefix_assignable (masked (Pfx (V4 0x64600000) 11))"
proof -
  have "prefix_contains (masked (Pfx (V4 0x64600000) 11)) (V4 0x64600001)" by code_simp
  moreover have "V4 0x64600001 \<noteq> prefix_addr (masked (Pfx (V4 0x64600000) 11))" by code_simp
  moreover have "V4 0x64600001 \<noteq> lastAddr (masked (Pfx (V4 0x64600000) 11))" by code_simp
  ultimately show ?thesis by (simp add: prefix_assignable_def)
qed

lemma sample_prefixes:
  "net_prefixes sample_store 1 = Some (Pfx (V4 0x64600000) 11, Pfx (V6 0xfdab3f19000000000000000000000000 []) 48)"
  by (simp add: net_prefixes_def sample_store_def tbl_find_def network_row_def parse_prefix_text no_zone_def del: prefix_text.simps)

lemma sample_addrs_ok: "addrs_ok sample_store"
proof -
  have "assigned sample_store i = (if i = 1 then [addr_text (V4 0x64600001)] else [])" for i
    by (simp add: assigned_def sample_store_def)
  then show ?thesis using sample_prefixes sample_node_assignable by (auto simp: addrs_ok_def)
qed

lemma sample_reachable: "reachable coord_init coord_step sample_coord"
  by (rule reachable_init) (use sample_store_ok sample_addrs_ok in \<open>auto simp: coord_init_def sample_coord_def\<close>)

section \<open>Reachable states\<close>

lemma NodesInNetwork_ipv4:
  assumes "store_ok s" and "addrs_ok s" and "NodesInNetwork flt s nid = Inr ns"
  shows "distinct (map n_IPv4 ns)" and "n \<in> set ns \<Longrightarrow> \<exists>p4 p6. net_prefixes s nid = Some (p4, p6) \<and> n_IPv4 n \<in> prefix_assignable (masked p4)"
proof -
  have mem: "\<exists>r x p4 p6. r \<in> set (tbl_rows (st_nodes s)) \<and> nr_network_id r = nid \<and> hydrateNode r = Inr n \<and> nr_id r = n_ID n \<and>
      nr_ipv4 r = addr_text (V4 x) \<and> n_IPv4 n = V4 x \<and> net_prefixes s nid = Some (p4, p6) \<and> V4 x \<in> prefix_assignable (masked p4)"
    if n: "n \<in> set ns" for n
  proof -
    from n NodesInNetwork_set [OF assms(3)] obtain r where r: "r \<in> set (tbl_rows (st_nodes s))" "nr_network_id r = nid" "hydrateNode r = Inr n"
      by blast
    then have "nr_ipv4 r \<in> set (assigned s nid)" by (auto simp: assigned_iff)
    with assms(2) obtain x p4 p6 where x: "nr_ipv4 r = addr_text (V4 x)" "net_prefixes s nid = Some (p4, p6)" "V4 x \<in> prefix_assignable (masked p4)"
      unfolding addrs_ok_def by blast
    have "n_IPv4 n = V4 x" using hydrateNode_fields [OF r(3)] x(1) by simp
    with r x hydrateNode_fields [OF r(3)] show ?thesis
      by (intro exI [of _ r] exI [of _ x] exI [of _ p4] exI [of _ p6]) simp
  qed
  show "n \<in> set ns \<Longrightarrow> \<exists>p4 p6. net_prefixes s nid = Some (p4, p6) \<and> n_IPv4 n \<in> prefix_assignable (masked p4)"
    using mem [of n] by auto
  have "n = m" if nm: "n \<in> set ns" "m \<in> set ns" "n_IPv4 n = n_IPv4 m" for n m
  proof -
    from mem [OF nm(1)] mem [OF nm(2)] nm(3) obtain r q where
      r: "r \<in> set (tbl_rows (st_nodes s))" "nr_network_id r = nid" "hydrateNode r = Inr n" and
      q: "q \<in> set (tbl_rows (st_nodes s))" "nr_network_id q = nid" "hydrateNode q = Inr m" and e: "nr_ipv4 r = nr_ipv4 q" by force
    have "distinct (map nr_ipv4 (filter (\<lambda>r. nr_network_id r = nid) (tbl_rows (st_nodes s))))"
      using assms(2) by (simp add: addrs_ok_def assigned_def)
    with r q e have "r = q" by (auto simp: distinct_map inj_on_def)
    with r q show ?thesis by simp
  qed
  moreover have "distinct ns" using NodesInNetwork_ids(2) [OF assms(1,3)] by (simp add: distinct_map)
  ultimately show "distinct (map n_IPv4 ns)" by (simp add: distinct_map inj_on_def)
qed

text \<open>
  Claim C3. Whatever the clients and the admin do, in whatever order, with any driver failures and
  restarts of the server: the database stays consistent, and in every network the nodes have
  pairwise distinct IPv4 addresses, each inside the network's prefix and neither its network nor
  its broadcast address.
\<close>
theorem reachable_addresses_unique:
  assumes "reachable coord_init coord_step c"
    and "NodesInNetwork flt (c_st c) nid = Inr ns" and "NetworkByID flt (c_st c) nid = Inr nw"
  shows "store_ok (c_st c) \<and> distinct (map n_IPv4 ns) \<and> distinct (map n_ID ns) \<and>
    n_IPv4 ` set ns \<subseteq> {a. prefix_contains (nw_V4Prefix nw) a \<and> a \<noteq> prefix_addr (masked (nw_V4Prefix nw)) \<and>
       a \<noteq> lastAddr (masked (nw_V4Prefix nw))}"
proof -
  note inv = coord_invD(1,2) [OF coord_sys.reachable_inv [OF assms(1)]]
  have np: "net_prefixes (c_st c) nid = Some (nw_V4Prefix nw, nw_V6Prefix nw)"
    using NetworkByID_prefixes [OF assms(3)] NetworkByID_prefix_ok [OF assms(3)] by simp
  have "prefix_contains (masked (nw_V4Prefix nw)) a \<longleftrightarrow> prefix_contains (nw_V4Prefix nw) a" for a
    using contains_masked NetworkByID_prefix_ok [OF assms(3)] by blast
  then show ?thesis
    using inv NodesInNetwork_ipv4 [OF inv assms(2)] NodesInNetwork_ids(2) [OF inv(1) assms(2)] np
    by (auto simp: prefix_assignable_def)
qed

theorem reachable_addresses_unique_witness:
  "\<exists>ns nw. NodesInNetwork no_faults (c_st sample_coord) 1 = Inr ns \<and> NetworkByID no_faults (c_st sample_coord) 1 = Inr nw \<and>
     store_ok (c_st sample_coord) \<and> distinct (map n_IPv4 ns)"
proof -
  have st: "c_st sample_coord = sample_store" by (simp add: sample_coord_def coord_start_def coord_New_def)
  obtain ns where ns: "NodesInNetwork no_faults (c_st sample_coord) 1 = Inr ns"
    using NodesInNetwork_returns [OF sample_store_ok, of no_faults 1] st by (auto simp: no_faults_def)
  obtain nw where nw: "NetworkByID no_faults (c_st sample_coord) 1 = Inr nw"
    using NetworkByID_found [OF sample_store_ok, of "hd (tbl_rows (st_networks sample_store))" no_faults] st
    by (auto simp: no_faults_def sample_store_def network_row_def)
  from reachable_addresses_unique [OF sample_reachable ns nw] ns nw show ?thesis by blast
qed

text \<open>
  Claim C23. No sequence of operations makes the server panic on a channel or block while it holds its
  mutex: it never sends on or closes a closed channel and never waits for a full one, and the
  buffers keep their capacity. Each registered channel is open and belongs to one node.
\<close>
theorem channels_never_misused:
  assumes "reachable coord_init coord_step c"
  shows "\<not> chh_panic (c_nmch c) \<and> \<not> chh_stuck (c_nmch c) \<and> \<not> chh_panic (c_sigch c) \<and> \<not> chh_stuck (c_sigch c) \<and>
    inj_on (c_subs c) (dom (c_subs c)) \<and> inj_on (c_sigSubs c) (dom (c_sigSubs c)) \<and>
    ran (c_subs c) \<subseteq> {r. open_chan (c_nmch c) r} \<and> ran (c_sigSubs c) \<subseteq> {r. open_chan (c_sigch c) r} \<and>
    (chh_chans (c_nmch c) r = Some ch \<longrightarrow> length (ch_buf ch) \<le> ch_cap ch)"
  using coord_invD(4,5) [OF coord_sys.reachable_inv [OF assms]]
  by (auto simp: registry_ok_def heap_ok_def inj_on_def ran_def)

theorem channels_never_misused_witness:
  "\<not> chh_panic (c_nmch sample_coord) \<and> \<not> chh_stuck (c_sigch sample_coord)"
  using channels_never_misused [OF sample_reachable] by blast

text \<open>
  Claim C25. Registration always returns: in every reachable state, for all requests, driver
  failures and times, the call ends, also when the network has no address left or the hostname is
  taken many times over.
\<close>
theorem RegisterNode_returns:
  assumes "reachable coord_init coord_step c"
  shows "\<exists>c' r. RegisterNode flt now c req = Some (c', r)"
proof -
  note inv = coord_sys.reachable_inv [OF assms]
  have "Register flt now c mkey nkey sk hn os rts \<noteq> None" for mkey nkey sk hn os rts
    using Register_inv [OF inv, of flt now mkey nkey sk hn os rts] by auto
  then show ?thesis by (auto simp: RegisterNode_def split: sum.split)
qed

theorem RegisterNode_returns_witness:
  "\<exists>c' r. RegisterNode no_faults 7 sample_coord \<lparr>rq_MachineKey = replicate 32 1, rq_NodeKey = replicate 32 2, rq_SetupKey = ''sk-1'',
     rq_Hostname = ''Laptop'', rq_Os = ''linux'', rq_AdvertisedRoutes = []\<rparr> = Some (c', r)"
  by (rule RegisterNode_returns [OF sample_reachable])

section \<open>Hostnames\<close>

interpretation host_search: free_search "suffixed base" "taken_names no_faults s nid" "dedupe_loop no_faults s nid base"
  for base s nid
proof unfold_locales
  fix x i
  have e: "snd (HostnameTaken no_faults s nid x) = None" by (simp add: HostnameTaken_def no_faults_def)
  show "dedupe_loop no_faults s nid base i x = dedupe_loop no_faults s nid base (Suc i) (suffixed base i)"
    if "x \<in> taken_names no_faults s nid"
    using that by (subst dedupe_loop.simps) (simp add: taken_names_def)
  show "dedupe_loop no_faults s nid base i x = x" if "x \<notin> taken_names no_faults s nid"
    using that e by (subst dedupe_loop.simps) (cases "HostnameTaken no_faults s nid x", auto simp: taken_names_def)
qed (simp_all add: finite_taken_names suffixed_inj)

lemma taken_names_iff:
  "h \<in> taken_names no_faults s nid \<longleftrightarrow> h \<in> nr_hostname ` {r \<in> set (tbl_rows (st_nodes s)). nr_network_id r = nid}"
  by (auto simp: taken_names_def HostnameTaken_def no_faults_def filter_empty_conv)

text \<open>The name a new device gets is free in its network: it is the requested one, or the
  requested one with the least number from 2 on that makes it free, and the search ends.
\<close>
lemma dedupeHostname_free:
  "dedupeHostname no_faults s nid base \<notin> nr_hostname ` {r \<in> set (tbl_rows (st_nodes s)). nr_network_id r = nid} \<and>
   (dedupeHostname no_faults s nid base = base \<or>
    (\<exists>k. 2 \<le> k \<and> dedupeHostname no_faults s nid base = base @ ''-'' @ itoa k \<and>
       insert base ((\<lambda>j. base @ ''-'' @ itoa j) ` {2..<k}) \<subseteq> nr_hostname ` {r \<in> set (tbl_rows (st_nodes s)). nr_network_id r = nid}))"
  using host_search.search_free [of s nid base 2 base]
  by (simp add: dedupeHostname_def suffixed_def taken_names_iff subset_iff)

section \<open>Netmaps\<close>

definition peer_of :: "faults \<Rightarrow> Coordinator \<Rightarrow> Node \<Rightarrow> byte list \<Rightarrow> pb_Peer" where
  "peer_of flt c p nkey = \<lparr>pbp_NodeId = u64_of_int64 (n_ID p), pbp_Hostname = n_Hostname p, pbp_NodeKey = nkey,
            pbp_OverlayIps = overlayCIDRs p, pbp_Endpoints = n_Endpoints p, pbp_Online = is_online c (n_ID p),
            pbp_AllowedRoutes = approvedRoutesLocked flt c (n_ID p)\<rparr>"

abbreviation key_parses :: "Node \<Rightarrow> bool" where
  "key_parses p \<equiv> \<not> isl (parseNodeKey (n_NodeKey p))"

lemma netmap_peers_eq:
  "netmap_peers flt c self ns =
   map (\<lambda>p. peer_of flt c p (projr (parseNodeKey (n_NodeKey p)))) (filter (\<lambda>p. n_ID p \<noteq> self \<and> key_parses p) ns)"
  by (induction ns) (auto simp: peer_of_def split: sum.splits)

lemma buildNetMap_peers:
  "buildNetMapLocked flt c n = Inr nm \<Longrightarrow> NodesInNetwork flt (c_st c) (n_NetworkID n) = Inr ns \<Longrightarrow>
   nm_Peers nm = netmap_peers flt c (n_ID n) ns \<and> pbn_NodeId (nm_Self nm) = u64_of_int64 (n_ID n) \<and>
   pbn_OverlayIps (nm_Self nm) = overlayCIDRs n"
  by (auto simp: buildNetMapLocked_def split: sum.splits)

lemma node_id_range:
  assumes "store_ok s" and "NodesInNetwork flt s nid = Inr ns" and "p \<in> set ns"
  shows "is_int64 (n_ID p)"
proof -
  from assms(3) NodesInNetwork_set [OF assms(2)] obtain r where r: "r \<in> set (tbl_rows (st_nodes s))" "hydrateNode r = Inr p" by blast
  have "tbl_ok nr_id (st_nodes s)" using assms(1) by (simp add: store_ok_def nodes_ok_def)
  with r(1) have "0 < nr_id r" "nr_id r < 2 ^ 63" unfolding tbl_ok_def by (blast, fastforce)
  with hydrateNode_fields [OF r(2)] show ?thesis by (simp add: is_int64_def)
qed

lemma approvedRoutes_set: "set (approvedRoutesLocked no_faults c i) = approved_routes (c_st c) i"
proof -
  obtain rs where rs: "ApprovedNodeRoutes no_faults (c_st c) i = Inr rs"
    by (auto simp: ApprovedNodeRoutes_def store_NodeRoutes_def scanRoutes_def scan_rows_total no_faults_def)
  with ApprovedNodeRoutes_set [OF rs] show ?thesis by (auto simp: approvedRoutesLocked_def approved_routes_def)
qed

lemma v4_cidr_inj: "inj_on (\<lambda>p. hd (overlayCIDRs p)) {p. addr_is4 (n_IPv4 p) \<and> p \<in> set ns}" if "distinct (map n_IPv4 ns)"
proof (rule inj_onI)
  fix p q assume p: "p \<in> {p. addr_is4 (n_IPv4 p) \<and> p \<in> set ns}" and q: "q \<in> {p. addr_is4 (n_IPv4 p) \<and> p \<in> set ns}"
    and e: "hd (overlayCIDRs p) = hd (overlayCIDRs q)"
  from p q obtain x y where "n_IPv4 p = V4 x" "n_IPv4 q = V4 y" by (cases "n_IPv4 p"; cases "n_IPv4 q") auto
  with e have "n_IPv4 p = n_IPv4 q" by (simp add: overlayCIDRs_def)
  with that p q show "p = q" by (auto simp: distinct_map inj_on_def)
qed

text \<open>
  Claim C22. The netmap of a node lists every other node of its network that has a usable key and
  nobody else: never the node itself, never a node of another network, each once. No two peers, and
  no peer and the node itself, share an overlay IPv4 route, and a peer may be a gateway for exactly
  the routes that were approved for it.
\<close>
theorem netmap_sound:
  assumes "reachable coord_init coord_step c" and "NodesInNetwork no_faults (c_st c) (n_NetworkID n) = Inr ns" and "n \<in> set ns"
    and "buildNetMapLocked no_faults c n = Inr nm"
  shows "pbp_NodeId ` set (nm_Peers nm) = u64_of_int64 ` {n_ID p | p. p \<in> set ns \<and> p \<noteq> n \<and> key_parses p} \<and>
    distinct (pbn_NodeId (nm_Self nm) # map pbp_NodeId (nm_Peers nm)) \<and>
    distinct (hd (pbn_OverlayIps (nm_Self nm)) # map (\<lambda>pr. hd (pbp_OverlayIps pr)) (nm_Peers nm)) \<and>
    (\<forall>pr \<in> set (nm_Peers nm). set (pbp_AllowedRoutes pr) = approved_routes (c_st c) (int64_of_u64 (pbp_NodeId pr)))"
proof -
  note inv = coord_invD(1,2) [OF coord_sys.reachable_inv [OF assms(1)]]
  note pe = buildNetMap_peers [OF assms(4,2), unfolded netmap_peers_eq]
  define us where "us = filter (\<lambda>p. n_ID p \<noteq> n_ID n \<and> key_parses p) ns"
  have ids: "distinct (map n_ID ns)" by (rule NodesInNetwork_ids(2) [OF inv(1) assms(2)])
  have r: "p \<in> set ns \<Longrightarrow> is_int64 (n_ID p)" for p by (rule node_id_range [OF inv(1) assms(2)])
  have dns: "distinct ns" using ids by (simp add: distinct_map)
  have us: "set us = {p \<in> set ns. p \<noteq> n \<and> key_parses p}"
    using ids assms(3) by (auto simp: us_def distinct_map inj_on_def)
  have d: "distinct (n # us)" using us dns by (auto simp: us_def)
  have v4: "addr_is4 (n_IPv4 p)" if p: "p \<in> set ns" for p
  proof -
    from NodesInNetwork_set [OF assms(2)] p obtain q where q: "q \<in> set (tbl_rows (st_nodes (c_st c)))" "nr_network_id q = n_NetworkID n"
      "hydrateNode q = Inr p" by blast
    then have "nr_ipv4 q \<in> set (assigned (c_st c) (n_NetworkID n))" by (auto simp: assigned_iff)
    then obtain x where "nr_ipv4 q = addr_text (V4 x)" using assigned_v4 inv(2) by blast
    with hydrateNode_fields [OF q(3)] have "n_IPv4 p = V4 x" by simp
    then show ?thesis by simp
  qed
  have sub: "set (n # us) \<subseteq> set ns" using us assms(3) by auto
  have "inj_on (\<lambda>p. u64_of_int64 (n_ID p)) (set ns)"
    using ids r by (auto simp: inj_on_def distinct_map) (metis int64_u64_id)
  then have 1: "distinct (map (\<lambda>p. u64_of_int64 (n_ID p)) (n # us))"
    unfolding distinct_map using d sub inj_on_subset by blast
  have "inj_on (\<lambda>p. hd (overlayCIDRs p)) (set ns)"
    by (rule inj_on_subset [OF v4_cidr_inj [OF NodesInNetwork_ipv4(1) [OF inv assms(2)]]]) (use v4 in auto)
  then have 2: "distinct (map (\<lambda>p. hd (overlayCIDRs p)) (n # us))"
    unfolding distinct_map using d sub inj_on_subset by blast
  have 3: "set (pbp_AllowedRoutes (peer_of no_faults c p k)) = approved_routes (c_st c) (int64_of_u64 (pbp_NodeId (peer_of no_faults c p k)))"
    if "p \<in> set us" for p k
    using that us r by (simp add: peer_of_def approvedRoutes_set int64_u64_id)
  have P: "nm_Peers nm = map (\<lambda>p. peer_of no_faults c p (projr (parseNodeKey (n_NodeKey p)))) us" using pe by (simp add: us_def)
  have I: "map pbp_NodeId (nm_Peers nm) = map (\<lambda>p. u64_of_int64 (n_ID p)) us"
    and V: "map (\<lambda>pr. hd (pbp_OverlayIps pr)) (nm_Peers nm) = map (\<lambda>p. hd (overlayCIDRs p)) us"
    unfolding P by (simp_all add: peer_of_def)
  have A: "pbp_NodeId ` set (nm_Peers nm) = u64_of_int64 ` {n_ID p | p. p \<in> set ns \<and> p \<noteq> n \<and> key_parses p}"
    using arg_cong [OF I, of set] us by auto
  have R: "\<forall>pr \<in> set (nm_Peers nm). set (pbp_AllowedRoutes pr) = approved_routes (c_st c) (int64_of_u64 (pbp_NodeId pr))"
    unfolding P using 3 by simp
  have S: "pbn_NodeId (nm_Self nm) = u64_of_int64 (n_ID n)" "pbn_OverlayIps (nm_Self nm) = overlayCIDRs n" using pe by auto
  from A R 1 2 show ?thesis unfolding I V S by simp
qed

lemma sample_st [simp]: "c_st sample_coord = sample_store"
  by (simp add: sample_coord_def coord_start_def coord_New_def)

lemma sample_network: "NetworkByID no_faults sample_store 1 =
    Inr \<lparr>nw_ID = 1, nw_Name = ''default'', nw_V4Prefix = Pfx (V4 0x64600000) 11, nw_V6Prefix = Pfx (V6 0xfdab3f19000000000000000000000000 []) 48\<rparr>"
  by (simp add: NetworkByID_def no_faults_def sample_store_def tbl_find_def network_tbl.rid_mk parsePrefixes_row no_zone_def)

definition sample_node :: Node where
  "sample_node = \<lparr>n_ID = 1, n_NetworkID = 1, n_Hostname = ''laptop'',
    n_MachineKey = sample_machine, n_NodeKey = ''nodekey:01'', n_IPv4 = V4 0x64600001, n_IPv6 = V6 0xfdab3f19000000000000000000000001 [],
    n_OS = ''linux'', n_Endpoints = [], n_CreatedAt = Some 5000000000, n_LastSeen = None, n_OwnerUserID = 1\<rparr>"

lemma sample_nodes: "NodesInNetwork no_faults sample_store 1 = Inr [sample_node]"
  by (simp add: NodesInNetwork_def no_faults_def sample_store_def hydrateNode_def parse_addr_text no_zone_def time_unix_def
      sample_node_def)

theorem netmap_sound_witness:
  "\<exists>n ns nm. NodesInNetwork no_faults (c_st sample_coord) (n_NetworkID n) = Inr ns \<and> n \<in> set ns \<and>
     buildNetMapLocked no_faults sample_coord n = Inr nm \<and> nm_Peers nm = [] \<and>
     distinct (pbn_NodeId (nm_Self nm) # map pbp_NodeId (nm_Peers nm))"
proof -
  have n: "NodesInNetwork no_faults (c_st sample_coord) (n_NetworkID sample_node) = Inr [sample_node]" by (simp add: sample_nodes sample_node_def)
  have "ACL no_faults sample_store 1 = Inr []"
    by (simp add: ACL_def no_faults_def sample_store_def empty_store_def empty_table_def)
  then obtain nm where nm: "buildNetMapLocked no_faults sample_coord sample_node = Inr nm"
    by (simp add: buildNetMapLocked_def sample_network sample_nodes CompileFilterForNode_def sample_node_def)
  have "nm_Peers nm = []" using buildNetMap_peers [OF nm n] by simp
  with netmap_sound [OF sample_reachable n _ nm] n nm show ?thesis by fastforce
qed

section \<open>Signalling\<close>

text \<open>
  Claim C24. A signal goes only where it may: it is put in the inbox of the addressed node when that
  node exists, is in the sender's network, is subscribed and has room, stamped with the ID the
  server knows the sender by and stripped of the machine key. In all other cases, and everywhere
  else in the state, nothing changes.
\<close>
theorem routeSignal_delivers:
  assumes "reachable coord_init coord_step c"
  shows "routeSignal flt c from env =
    (case NodeByID flt (c_st c) (int64_of_u64 (se_ToNodeId env)) of
       Inl _ \<Rightarrow> c
     | Inr dst \<Rightarrow> (case (if n_NetworkID dst = n_NetworkID from then c_sigSubs c (n_ID dst) else None) of
         None \<Rightarrow> c
       | Some ch \<Rightarrow> (case chh_chans (c_sigch c) ch of
           None \<Rightarrow> c
         | Some b \<Rightarrow>
            if length (ch_buf b) < ch_cap b
            then c\<lparr>c_sigch := (c_sigch c)\<lparr>chh_chans := (chh_chans (c_sigch c))(ch \<mapsto>
                   b\<lparr>ch_buf := ch_buf b @ [env\<lparr>se_MachineKey := [], se_FromNodeId := u64_of_int64 (n_ID from)\<rparr>]\<rparr>)\<rparr>\<rparr>
            else c)))"
proof -
  have o: "\<exists>b. chh_chans (c_sigch c) ch = Some b \<and> \<not> ch_closed b" if "c_sigSubs c i = Some ch" for i ch
    using registry_open [OF coord_invD(5) [OF coord_sys.reachable_inv [OF assms]] that] by blast
  show ?thesis
  proof (cases "NodeByID flt (c_st c) (int64_of_u64 (se_ToNodeId env))")
    case (Inr dst)
    show ?thesis
    proof (cases "c_sigSubs c (n_ID dst)")
      case (Some ch)
      with o [OF Some] Inr show ?thesis
        by (cases env) (auto simp: routeSignal_def select_send_def try_send_def Let_def fun_upd_idem)
    qed (use Inr in \<open>simp add: routeSignal_def\<close>)
  qed (simp add: routeSignal_def)
qed

lemma sample_machine_key: "MachinePublic_String (MachinePublic (replicate 32 1)) = sample_machine"
  by code_simp

definition sample_listening :: Coordinator where
  "sample_listening = fst (signalSubscribe no_faults sample_coord (MachinePublic (replicate 32 1)))"

lemma sample_listening_reachable: "reachable coord_init coord_step sample_listening"
  unfolding sample_listening_def by (rule reachable_step [OF sample_reachable step_signalSubscribe])

lemma sample_node_by_key: "NodeByMachineKey no_faults sample_store sample_machine = Inr sample_node"
  by (simp add: NodeByMachineKey_def scanNode_def no_faults_def sample_store_def tbl_find_def hydrateNode_def parse_addr_text
      no_zone_def time_unix_def sample_node_def)

lemma sample_node_by_id: "NodeByID no_faults sample_store 1 = Inr sample_node"
  by (simp add: NodeByID_def scanNode_def no_faults_def sample_store_def tbl_find_def hydrateNode_def parse_addr_text
      no_zone_def time_unix_def sample_node_def)

lemma sample_listening_eq:
  "sample_listening = sample_coord\<lparr>c_sigch := empty_heap\<lparr>chh_chans := [0 \<mapsto> \<lparr>ch_buf = [], ch_cap = 32, ch_closed = False\<rparr>], chh_next := 1\<rparr>,
     c_sigSubs := [1 \<mapsto> 0]\<rparr>"
  by (simp add: sample_listening_def signalSubscribe_def sample_machine_key sample_node_by_key sample_node_def make_chan_def
      sample_coord_def coord_start_def coord_New_def empty_heap_def)

theorem routeSignal_delivers_witness:
  "chh_chans (c_sigch (routeSignal no_faults sample_listening (sample_node\<lparr>n_ID := 9\<rparr>)
     \<lparr>se_MachineKey = [1], se_ToNodeId = 1, se_FromNodeId = 5, se_Kind = SK_OFFER, se_Payload = ''x'', se_Session = 3\<rparr>)) 0 =
   Some \<lparr>ch_buf = [\<lparr>se_MachineKey = [], se_ToNodeId = 1, se_FromNodeId = 9, se_Kind = SK_OFFER, se_Payload = ''x'', se_Session = 3\<rparr>],
     ch_cap = 32, ch_closed = False\<rparr>"
  by (subst routeSignal_delivers [OF sample_listening_reachable])
    (simp add: sample_listening_eq int64_of_u64_def sample_node_by_id, simp add: sample_node_def u64_of_int64_def)

section \<open>Deleting a node\<close>

abbreviation chan_closed :: "'a chan_heap \<Rightarrow> nat \<Rightarrow> bool" where
  "chan_closed h r \<equiv> map_option ch_closed (chh_chans h r) = Some True"

lemma select_send_flags: "map_option ch_closed (chh_chans (fst (select_send r v h)) q) = map_option ch_closed (chh_chans h q)"
  by (auto simp: select_send_def try_send_def Let_def split: option.split)

lemma push_netmap_flags: "map_option ch_closed (chh_chans (c_nmch (push_netmap flt n c)) q) = map_option ch_closed (chh_chans (c_nmch c) q)"
  using select_send_flags [of _ _ "c_nmch c" q]
  by (auto simp: push_netmap_def Let_def split: option.split sum.split prod.split) (metis fst_conv option.map)+

lemma notify_flags: "map_option ch_closed (chh_chans (c_nmch (notifyNetworkLocked flt c nid)) q) = map_option ch_closed (chh_chans (c_nmch c) q)"
proof -
  have "map_option ch_closed (chh_chans (c_nmch (fold (push_netmap flt) ns c)) q) = map_option ch_closed (chh_chans (c_nmch c) q)" for ns c
    by (induction ns arbitrary: c) (simp_all add: push_netmap_flags)
  then show ?thesis by (simp add: notifyNetworkLocked_def Let_def split: sum.split)
qed

lemma drop_node_effect:
  assumes "coord_inv c"
  shows "c_subs (drop_node c i) = (c_subs c)(i := None)" "c_sigSubs (drop_node c i) = (c_sigSubs c)(i := None)"
    "c_online (drop_node c i) = AList.delete i (c_online c)"
    "c_subs c i = Some ch \<Longrightarrow> chan_closed (c_nmch (drop_node c i)) ch"
    "c_sigSubs c i = Some sch \<Longrightarrow> chan_closed (c_sigch (drop_node c i)) sch"
  using registry_open [OF coord_invD(4) [OF assms], of i] registry_open [OF coord_invD(5) [OF assms], of i]
  by (auto simp: drop_node_def Let_def close_chan_def fun_upd_idem split: option.split)

lemma release_address_effect:
  "c_subs (release_address flt c n) = c_subs c" "c_sigSubs (release_address flt c n) = c_sigSubs c"
  "c_online (release_address flt c n) = c_online c" "c_nmch (release_address flt c n) = c_nmch c"
  "c_sigch (release_address flt c n) = c_sigch c" "c_st (release_address flt c n) = c_st c"
proof -
  have "\<exists>ipams. release_address flt c n = c\<lparr>c_ipams := ipams\<rparr>"
    by (auto simp: release_address_def allocatorFor_def Let_def split: sum.split option.split intro: exI [of _ "c_ipams c"])
  then show "c_subs (release_address flt c n) = c_subs c" "c_sigSubs (release_address flt c n) = c_sigSubs c"
    "c_online (release_address flt c n) = c_online c" "c_nmch (release_address flt c n) = c_nmch c"
    "c_sigch (release_address flt c n) = c_sigch c" "c_st (release_address flt c n) = c_st c" by auto
qed

lemma release_address_frees:
  assumes "NetworkByID flt (c_st c) (n_NetworkID n) = Inr nw" and "c_ipams (release_address flt c n) (n_NetworkID n) = Some a" and "addr_is4 (n_IPv4 n)"
  shows "n_IPv4 n \<notin> al_used a"
proof -
  have id: "nw_ID nw = n_NetworkID n" using NetworkByID_prefix_ok [OF assms(1)] by simp
  obtain c' r where al: "allocatorFor flt c nw = (c', r)" by fastforce
  show ?thesis
  proof (cases r)
    case (Inl e)
    with al have "c_ipams c' (n_NetworkID n) = None" using id
      by (auto simp: allocatorFor_def Let_def split: option.splits sum.splits)
    with assms(1,2) al Inl show ?thesis by (simp add: release_address_def)
  next
    case (Inr b)
    with assms al id have "a = Release b (n_IPv4 n)" by (simp add: release_address_def)
    with assms(3) show ?thesis by (simp add: Release_def)
  qed
qed

text \<open>
  Claim C29. Deleting a node removes its row and its routes and no other, ends its two streams by
  closing their channels, takes it offline, and frees its address for the next device. It fails,
  changing nothing, only when there is no such node (driver failures aside).
\<close>
theorem DeleteNode_effect:
  assumes "reachable coord_init coord_step c" and "coord_DeleteNode no_faults c i = (c', r)"
  shows "case r of
      Inl _ \<Rightarrow> c' = c \<and> i \<notin> nr_id ` set (tbl_rows (st_nodes (c_st c)))
    | Inr _ \<Rightarrow> \<exists>n. NodeByID no_faults (c_st c) i = Inr n \<and>
        tbl_rows (st_nodes (c_st c')) = filter (\<lambda>r. nr_id r \<noteq> i) (tbl_rows (st_nodes (c_st c))) \<and>
        st_node_routes (c_st c') = filter (\<lambda>r. rr_node_id r \<noteq> i) (st_node_routes (c_st c)) \<and>
        c_subs c' = (c_subs c)(i := None) \<and> c_sigSubs c' = (c_sigSubs c)(i := None) \<and> \<not> Online c' i \<and>
        (c_subs c i = Some ch \<longrightarrow> chan_closed (c_nmch c') ch) \<and> (c_sigSubs c i = Some sch \<longrightarrow> chan_closed (c_sigch c') sch) \<and>
        (c_ipams c' (n_NetworkID n) = Some a \<longrightarrow> n_IPv4 n \<notin> al_used a)"
proof -
  note inv = coord_sys.reachable_inv [OF assms(1)]
  have P: "pool_ok (c_st c) (c_ipams c)" using inv by (simp add: coord_inv_iff)
  show ?thesis
  proof (cases "NodeByID no_faults (c_st c) i")
    case (Inl e)
    have "i \<notin> nr_id ` set (tbl_rows (st_nodes (c_st c)))"
    proof
      assume "i \<in> nr_id ` set (tbl_rows (st_nodes (c_st c)))"
      then obtain q where q: "q \<in> set (tbl_rows (st_nodes (c_st c)))" "nr_id q = i" by blast
      from NodeByID_found [OF coord_invD(1) [OF inv] q(1), of no_faults] q(2) Inl show False by (auto simp: no_faults_def)
    qed
    with assms(2) Inl show ?thesis by (auto simp: coord_DeleteNode_def)
  next
    case (Inr n)
    obtain q where q: "q \<in> set (tbl_rows (st_nodes (c_st c)))" "nr_id q = i" "hydrateNode q = Inr n" using NodeByID_Inr [OF Inr] by blast
    obtain s1 where d: "store_DeleteNode no_faults (c_st c) i = (s1, Inr ())"
      and s1: "tbl_rows (st_nodes s1) = filter (\<lambda>r. nr_id r \<noteq> i) (tbl_rows (st_nodes (c_st c)))"
        "st_node_routes s1 = filter (\<lambda>r. rr_node_id r \<noteq> i) (st_node_routes (c_st c))" "st_networks s1 = st_networks (c_st c)"
    proof -
      have "\<not> (\<forall>r \<in> set (tbl_rows (st_nodes (c_st c))). nr_id r \<noteq> i)" using q by blast
      then show thesis using that by (simp add: store_DeleteNode_def no_faults_def tbl_delete_def)
    qed
    let ?c1 = "drop_node (c\<lparr>c_st := s1\<rparr>) i"
    have p1: "pool_ok s1 (c_ipams c)" by (rule pool_of_write [OF d delete_pool [OF P]])
    note e = drop_node_effect [OF coord_inv_st [OF inv p1], of i]
    have c': "c' = notifyNetworkLocked no_faults (release_address no_faults ?c1 n) (n_NetworkID n)" and r: "r = Inr ()"
      using assms(2) Inr d by (auto simp: coord_DeleteNode_def)
    from coord_invD(1) [OF inv] q hydrateNode_fields [OF q(3)] obtain w where w: "w \<in> set (tbl_rows (st_networks (c_st c)))" "nwr_id w = n_NetworkID n"
      by (auto simp: store_ok_def nodes_ok_def)
    with NetworkByID_found [OF coord_invD(1) [OF coord_inv_st [OF inv p1]], of w no_faults] s1(3)
    obtain nw where nw: "NetworkByID no_faults s1 (n_NetworkID n) = Inr nw" by (auto simp: no_faults_def)
    have a: "n_IPv4 n \<notin> al_used a" if "c_ipams c' (n_NetworkID n) = Some a"
      by (rule release_address_frees [of no_faults ?c1 n nw]) (use nw that c' node_v4 [OF pool_okD(2) [OF P] Inr] in auto)
    have on: "\<not> Online c' i"
      by (simp add: c' Online_def is_online_def release_address_effect e delete_conv split: option.split)
    show ?thesis
      using Inr s1 on a e(4,5) by (auto simp: r c' release_address_effect e(1,2) notify_flags)
  qed
qed

theorem DeleteNode_effect_witness:
  "\<exists>c' r. coord_DeleteNode no_faults sample_coord 1 = (c', Inr r) \<and> tbl_rows (st_nodes (c_st c')) = [] \<and> \<not> Online c' 1"
proof -
  obtain c' r where d: "coord_DeleteNode no_faults sample_coord 1 = (c', r)" by fastforce
  have m: "1 \<in> nr_id ` set (tbl_rows (st_nodes sample_store))" by (simp add: sample_store_def)
  from DeleteNode_effect [OF sample_reachable d] m obtain u where "r = Inr u" by (cases r) auto
  with DeleteNode_effect [OF sample_reachable d] d show ?thesis by (auto simp: sample_store_def)
qed

section \<open>Registering again\<close>

lemma update_node_frame:
  "st_setup_keys (fst (update_node b s i f)) = st_setup_keys s" "st_node_routes (fst (update_node b s i f)) = st_node_routes s"
  "st_networks (fst (update_node b s i f)) = st_networks s"
  by (simp_all add: update_node_def)

lemma Audit_fields:
  "st_setup_keys (fst (Audit flt now s u a t d)) = st_setup_keys s" "st_node_routes (fst (Audit flt now s u a t d)) = st_node_routes s"
  "st_nodes (fst (Audit flt now s u a t d)) = st_nodes s" "st_networks (fst (Audit flt now s u a t d)) = st_networks s"
  by (simp_all add: Audit_def)

definition reregistered :: "faults \<Rightarrow> Store \<Rightarrow> Node \<Rightarrow> string \<Rightarrow> string" where
  "reregistered flt s n hostname = (if hostname \<noteq> [] \<and> hostname \<noteq> n_Hostname n \<and> \<not> fst (HostnameTaken flt s (n_NetworkID n) hostname)
                     then hostname else n_Hostname n)"

lemma register_again_success:
  assumes "register_again flt now c n nkey hostname osName routes = (c', Inr (m, nw))"
  shows "m = n\<lparr>n_NodeKey := NodePublic_String nkey, n_Hostname := reregistered flt (c_st c) n hostname, n_OS := osName\<rparr> \<and>
    same_addrs (c_st c) (c_st c') \<and> st_setup_keys (c_st c') = st_setup_keys (c_st c) \<and> c_ipams c' = c_ipams c \<and>
    map nr_id (tbl_rows (st_nodes (c_st c'))) = map nr_id (tbl_rows (st_nodes (c_st c))) \<and>
    offered_routes (c_st c') (n_ID n) = set routes \<and>
    approved_routes (c_st c') (n_ID n) = approved_routes (c_st c) (n_ID n) \<inter> set routes"
proof -
  define s1 where "s1 = (if n_NodeKey n \<noteq> NodePublic_String nkey
                then fst (Audit flt now (c_st c) (ownerName flt (c_st c) (n_OwnerUserID n)) ''device.key-rotated'' (n_Hostname n) [])
                else c_st c)"
  obtain s2 r2 where 2: "UpdateNodeOnRegister flt s1 (n_ID n) (NodePublic_String nkey) (reregistered flt (c_st c) n hostname) osName = (s2, r2)" by fastforce
  obtain s3 r3 where 3: "SetAdvertisedRoutes flt s2 (n_ID n) routes = (s3, r3)" by fastforce
  from assms 2 3 obtain u :: unit where u: "r3 = Inr ()" and c': "c_st c' = s3" "c_ipams c' = c_ipams c"
    and m: "m = n\<lparr>n_NodeKey := NodePublic_String nkey, n_Hostname := reregistered flt (c_st c) n hostname, n_OS := osName\<rparr>"
    by (auto simp: register_again_def Let_def reregistered_def [symmetric] s1_def [symmetric] split: sum.splits)
  note e = SetAdvertisedRoutes_effect [OF 3 [unfolded u]]
  have f1: "st_setup_keys s1 = st_setup_keys (c_st c)" "st_nodes s1 = st_nodes (c_st c)" "st_node_routes s1 = st_node_routes (c_st c)"
    "st_networks s1 = st_networks (c_st c)" by (simp_all add: s1_def Audit_fields)
  have s2: "s2 = fst (UpdateNodeOnRegister flt s1 (n_ID n) (NodePublic_String nkey) (reregistered flt (c_st c) n hostname) osName)" using 2 by simp
  have f2: "st_setup_keys s2 = st_setup_keys s1" "st_node_routes s2 = st_node_routes s1" "same_addrs s1 s2"
    unfolding s2 by (simp_all add: UpdateNodeOnRegister_def update_node_frame same_addrs_intro [unfolded UpdateNodeOnRegister_def])
  have ids: "map nr_id (tbl_rows (st_nodes s2)) = map nr_id (tbl_rows (st_nodes s1))"
    unfolding s2 UpdateNodeOnRegister_def update_node_def by simp
  have "same_addrs (c_st c) s1" "same_addrs s2 s3" using f1 e by (auto intro: same_tables)
  then have "same_addrs (c_st c) s3" using f2(3) same_addrs_trans by blast
  with m c' e f1 f2 ids show ?thesis by (simp add: approved_routes_def)
qed

text \<open>
  Claim C28. A device that registers again with its machine key needs no setup key and stays the
  same node: same ID, network, owner and addresses, no allocation and no key use. Its node key and
  OS are replaced, its name changes only to a free one, and of its approved routes exactly those
  still advertised stay approved.
\<close>
theorem reregistration_keeps_node:
  assumes "NodeByMachineKey flt (c_st c) (MachinePublic_String mkey) = Inr n"
    and "Register flt now c mkey nkey setupKey hostname osName rts = Some (c', Inr (m, nw))"
  shows "\<exists>h routes. m = n\<lparr>n_NodeKey := NodePublic_String nkey, n_Hostname := h, n_OS := osName\<rparr> \<and>
    (h = n_Hostname n \<or> h = sanitizeHostname hostname \<and> h \<noteq> [] \<and> \<not> fst (HostnameTaken flt (c_st c) (n_NetworkID n) h)) \<and>
    same_addrs (c_st c) (c_st c') \<and> st_setup_keys (c_st c') = st_setup_keys (c_st c) \<and> c_ipams c' = c_ipams c \<and>
    map nr_id (tbl_rows (st_nodes (c_st c'))) = map nr_id (tbl_rows (st_nodes (c_st c))) \<and>
    normalizeRoutes rts = Inr routes \<and> offered_routes (c_st c') (n_ID n) = set routes \<and>
    approved_routes (c_st c') (n_ID n) = approved_routes (c_st c) (n_ID n) \<inter> set routes"
proof -
  from assms obtain routes where r: "normalizeRoutes rts = Inr routes"
    and a: "register_again flt now c n nkey (sanitizeHostname hostname) osName routes = (c', Inr (m, nw))"
    by (auto simp: Register_def Let_def split: sum.splits)
  from register_again_success [OF a] r show ?thesis
    by (intro exI [of _ "reregistered flt (c_st c) n (sanitizeHostname hostname)"] exI [of _ routes]) (simp add: reregistered_def)
qed

lemma no_faults_False [simp]: "no_faults q = False"
  by (simp add: no_faults_def)

lemma sample_register_again:
  "\<exists>c' m. Register no_faults 7 sample_coord (MachinePublic (replicate 32 1)) (NodePublic (replicate 32 2)) [] [] ''linux'' [] = Some (c', Inr (m,
     \<lparr>nw_ID = 1, nw_Name = ''default'', nw_V4Prefix = Pfx (V4 0x64600000) 11, nw_V6Prefix = Pfx (V6 0xfdab3f19000000000000000000000000 []) 48\<rparr>))"
proof -
  have "\<exists>c' m. register_again no_faults 7 sample_coord sample_node (NodePublic (replicate 32 2)) h ''linux'' [] = (c', Inr (m,
     \<lparr>nw_ID = 1, nw_Name = ''default'', nw_V4Prefix = Pfx (V4 0x64600000) 11, nw_V6Prefix = Pfx (V6 0xfdab3f19000000000000000000000000 []) 48\<rparr>))" for h
  proof -
    have r: "SetAdvertisedRoutes no_faults s 1 [] = (s\<lparr>st_node_routes := []\<rparr>, Inr ())" if "st_node_routes s = []" for s
      using that by (simp add: SetAdvertisedRoutes_def no_faults_def)
    have n: "NetworkByID no_faults s 1 = Inr \<lparr>nw_ID = 1, nw_Name = ''default'', nw_V4Prefix = Pfx (V4 0x64600000) 11,
        nw_V6Prefix = Pfx (V6 0xfdab3f19000000000000000000000000 []) 48\<rparr>" if "st_networks s = st_networks sample_store" for s
      using that sample_network by (simp add: NetworkByID_def)
    have "st_node_routes sample_store = []" by (simp add: sample_store_def empty_store_def)
    then show ?thesis
      by (simp add: register_again_def Let_def UpdateNodeOnRegister_def update_node_def r n Audit_fields sample_node_def)
  qed
  then show ?thesis
    by (simp add: Register_def normalizeRoutes_def sample_machine_key sample_node_by_key Let_def)
qed

theorem reregistration_keeps_node_witness:
  "\<exists>c' m nw. Register no_faults 7 sample_coord (MachinePublic (replicate 32 1)) (NodePublic (replicate 32 2)) [] [] ''linux'' [] = Some (c', Inr (m, nw)) \<and>
     n_ID m = 1 \<and> n_IPv4 m = V4 0x64600001 \<and> st_setup_keys (c_st c') = st_setup_keys sample_store"
proof -
  obtain c' m nw where r: "Register no_faults 7 sample_coord (MachinePublic (replicate 32 1)) (NodePublic (replicate 32 2)) [] [] ''linux'' [] = Some (c', Inr (m, nw))"
    using sample_register_again by blast
  have n: "NodeByMachineKey no_faults (c_st sample_coord) (MachinePublic_String (MachinePublic (replicate 32 1))) = Inr sample_node"
    by (simp add: sample_machine_key sample_node_by_key)
  from reregistration_keeps_node [OF n r] r show ?thesis by (auto simp: sample_node_def)
qed

section \<open>Registering a new device\<close>

text \<open>An address is left when the network's allocator has one, or, before it has one, the table.\<close>

definition address_left :: "Coordinator \<Rightarrow> Network \<Rightarrow> bool" where
  "address_left c nw \<longleftrightarrow> (case c_ipams c (nw_ID nw) of
     Some a \<Rightarrow> \<not> assignable a \<subseteq> al_used a
   | None \<Rightarrow> (\<exists>x. V4 x \<in> prefix_assignable (masked (nw_V4Prefix nw)) \<and> addr_text (V4 x) \<notin> set (assigned (c_st c) (nw_ID nw))))"

lemma allocatorFor_returns:
  assumes "pool_ok (c_st c) (c_ipams c)" and p: "net_prefixes (c_st c) (nw_ID nw) = Some (nw_V4Prefix nw, nw_V6Prefix nw)"
    and "ipam_New (nw_V4Prefix nw) (nw_V6Prefix nw) = Inr a0" and "address_left c nw"
  shows "\<exists>ipams a. allocatorFor no_faults c nw = (c\<lparr>c_ipams := ipams\<rparr>, Inr a) \<and> pool_ok (c_st c) ipams \<and> ipams (nw_ID nw) = Some a \<and>
     alloc_ok (c_st c) (nw_ID nw) a \<and> \<not> assignable a \<subseteq> al_used a"
proof -
  obtain c' r where al: "allocatorFor no_faults c nw = (c', r)" by fastforce
  obtain ns where ns: "NodesInNetwork no_faults (c_st c) (nw_ID nw) = Inr ns"
    using NodesInNetwork_returns [OF pool_okD(1) [OF assms(1)], of no_faults] by auto
  from al assms(3) ns obtain a where a: "r = Inr a"
    by (cases r) (auto simp: allocatorFor_def Let_def split: option.splits)
  from allocatorFor_ok [OF assms(1) p al] a obtain ipams where i: "c' = c\<lparr>c_ipams := ipams\<rparr>" "pool_ok (c_st c) ipams"
    "ipams (nw_ID nw) = Some a" "alloc_ok (c_st c) (nw_ID nw) a" by auto
  have "\<not> assignable a \<subseteq> al_used a"
  proof (cases "c_ipams c (nw_ID nw)")
    case None
    with assms(4) obtain x where x: "V4 x \<in> prefix_assignable (masked (nw_V4Prefix nw))" "addr_text (V4 x) \<notin> set (assigned (c_st c) (nw_ID nw))"
      by (auto simp: address_left_def)
    from None al a assms(3) ns have a': "a = fold (\<lambda>n a. MarkUsed a [n_IPv4 n]) ns a0" by (auto simp: allocatorFor_def Let_def)
    have N: "al_used a0 = {}" "al_v4 a0 = masked (nw_V4Prefix nw)"
      using ipam_New_prefixes [OF assms(3)] net_prefixes_ok [OF p] by auto
    have "V4 x \<notin> (\<lambda>n. addr_unmap (n_IPv4 n)) ` set ns"
    proof
      assume "V4 x \<in> (\<lambda>n. addr_unmap (n_IPv4 n)) ` set ns"
      then obtain n where n: "n \<in> set ns" "V4 x = addr_unmap (n_IPv4 n)" by blast
      from n(1) NodesInNetwork_set [OF ns] obtain q where q: "q \<in> set (tbl_rows (st_nodes (c_st c)))" "nr_network_id q = nw_ID nw" "hydrateNode q = Inr n" by blast
      then have m: "nr_ipv4 q \<in> set (assigned (c_st c) (nw_ID nw))" by (auto simp: assigned_iff)
      then obtain y where y: "nr_ipv4 q = addr_text (V4 y)" using assigned_v4 pool_okD(2) [OF assms(1)] by blast
      have "n_IPv4 n = V4 y" using hydrateNode_fields [OF q(3)] y by simp
      with n(2) have "x = y" by simp
      with y m x(2) show False by simp
    qed
    with x(1) N show ?thesis using MarkUsed_fold [of n_IPv4 ns a0] by (auto simp: a' assignable_eq)
  next
    case (Some b)
    with al a assms(4) show ?thesis by (simp add: allocatorFor_def address_left_def)
  qed
  with al a i show ?thesis by auto
qed

lemma offers_return:
  "i \<in> nr_id ` set (tbl_rows (st_nodes s)) \<Longrightarrow> \<exists>rows'. insert_offers no_faults s i rs rows = Inr rows'"
  "\<exists>rows'. delete_offers no_faults i rs rows = Inr rows'"
  by (induction rs arbitrary: rows) auto

lemma SetAdvertisedRoutes_returns:
  assumes "i \<in> nr_id ` set (tbl_rows (st_nodes s))"
  shows "\<exists>s'. SetAdvertisedRoutes no_faults s i rs = (s', Inr ())"
proof -
  from offers_return(1) [OF assms] obtain rows where r: "insert_offers no_faults s i rs (st_node_routes s) = Inr rows" by blast
  obtain rows' where "delete_offers no_faults i (filter (\<lambda>t. t \<notin> set rs) (map rr_route (filter (\<lambda>q. rr_node_id q = i) rows))) rows = Inr rows'"
    using offers_return(2) by blast
  with r show ?thesis by (simp add: SetAdvertisedRoutes_def Let_def)
qed

text \<open>The new row once it has its IPv6 address.\<close>

lemma new_node_row:
  assumes ok: "tbl_ok nr_id (st_nodes s)" and k: "n_MachineKey n \<notin> nr_machine_key ` set (tbl_rows (st_nodes s))"
    and v: "addr_is_valid (n_IPv4 n)" "no_zone (n_IPv4 n)" "addr_is_valid v6" "no_zone v6"
    and "i = tbl_seq (st_nodes s) + 1" and e: "n_LastSeen n = None"
    and "st_nodes s' = tbl_update (\<lambda>r. nr_id r = i) (nr_ipv6_update (\<lambda>_. addr_text v6)) (tbl_insert (node_row (n, now)) (st_nodes s))"
  shows "NodeByMachineKey no_faults s' (n_MachineKey n) = Inr (n\<lparr>n_ID := i, n_IPv6 := v6, n_CreatedAt := Some (time_unix (unix now))\<rparr>)"
proof -
  let ?row = "(node_row (n, now) i)\<lparr>nr_ipv6 := addr_text v6\<rparr>"
  have "nr_id r \<noteq> i" if "r \<in> set (tbl_rows (st_nodes s))" for r using ok that assms(7) by (auto simp: tbl_ok_def)
  then have m: "map (\<lambda>r. if nr_id r = i then nr_ipv6_update (\<lambda>_. addr_text v6) r else r) (tbl_rows (st_nodes s)) = tbl_rows (st_nodes s)"
    by (intro map_idI) auto
  have rows: "tbl_rows (st_nodes s') = tbl_rows (st_nodes s) @ [?row]"
    using assms(7,9) m by (simp add: tbl_insert_def tbl_update_def node_row_def)
  have "List.find (\<lambda>r. nr_machine_key r = n_MachineKey n) (tbl_rows (st_nodes s)) = None"
    using k unfolding find_None_iff by (metis imageI)
  then have "tbl_find (\<lambda>r. nr_machine_key r = n_MachineKey n) (st_nodes s') = Some ?row"
    by (simp add: tbl_find_def rows find_append node_row_def)
  moreover have "hydrateNode ?row = Inr (n\<lparr>n_ID := i, n_IPv6 := v6, n_CreatedAt := Some (time_unix (unix now))\<rparr>)"
    using v e by (cases n) (simp add: hydrateNode_def node_row_def parse_addr_text)
  ultimately show ?thesis by (simp add: NodeByMachineKey_def scanNode_def)
qed

lemma routes_fresh: "store_ok s \<Longrightarrow> q \<in> set (st_node_routes s) \<Longrightarrow> rr_node_id q \<noteq> tbl_seq (st_nodes s) + 1"
  by (fastforce simp: store_ok_def routes_ok_def nodes_ok_def tbl_ok_def)

lemma Audit_routes: "offered_routes (fst (Audit flt now s u a t d)) i = offered_routes s i"
    "approved_routes (fst (Audit flt now s u a t d)) i = approved_routes s i"
  by (simp_all add: offered_routes_def approved_routes_def Audit_fields)

lemma dedupe_loop_cong:
  "st_nodes s' = st_nodes s \<Longrightarrow> dedupe_loop flt s' nid base i name = dedupe_loop flt s nid base i name"
proof (induction flt s nid base i name rule: dedupe_loop.induct)
  case (1 flt s nid base i name)
  have "HostnameTaken flt s' nid name = HostnameTaken flt s nid name" using 1 by (simp add: HostnameTaken_def)
  with 1 show ?case by (subst dedupe_loop.simps, subst (2) dedupe_loop.simps) (auto split: prod.split)
qed

lemma register_create_success:
  assumes inv: "coord_inv c" and a: "alloc_ok (c_st c) (nw_ID nw) alloc" "v4 = V4 x"
    and nw: "NetworkByID no_faults (c_st c) (nw_ID nw) = Inr nw" and w: "masked (nw_V6Prefix nw) = Pfx (V6 w []) b" "b \<le> 64"
    and k: "MachinePublic_String mkey \<notin> nr_machine_key ` set (tbl_rows (st_nodes (c_st c)))" and full: "\<not> tbl_full (st_nodes (c_st c))"
    and i: "i = tbl_seq (st_nodes (c_st c)) + 1"
  shows "\<exists>c' n. register_create no_faults now c nw ow alloc v4 mkey nkey hostname osName routes = (c', Inr (n, nw)) \<and>
    n = \<lparr>n_ID = i, n_NetworkID = nw_ID nw,
      n_Hostname = dedupeHostname no_faults (c_st c) (nw_ID nw) (if hostname = [] then ''node'' else hostname),
      n_MachineKey = MachinePublic_String mkey, n_NodeKey = NodePublic_String nkey, n_IPv4 = v4,
      n_IPv6 = V6 (w + ucast (u64_of_int64 i)) [], n_OS = osName, n_Endpoints = [], n_CreatedAt = Some now, n_LastSeen = None, n_OwnerUserID = ow\<rparr> \<and>
    NodeByMachineKey no_faults (c_st c') (MachinePublic_String mkey) = Inr (n\<lparr>n_CreatedAt := Some (time_unix (unix now))\<rparr>) \<and>
    offered_routes (c_st c') i = set routes \<and> approved_routes (c_st c') i = {} \<and>
    st_setup_keys (c_st c') = st_setup_keys (c_st c)"
proof -
  let ?s = "c_st c"
  define host where "host = dedupeHostname no_faults ?s (nw_ID nw) (if hostname = [] then ''node'' else hostname)"
  define n0 where "n0 = \<lparr>n_ID = 0, n_NetworkID = nw_ID nw, n_Hostname = host, n_MachineKey = MachinePublic_String mkey,
      n_NodeKey = NodePublic_String nkey, n_IPv4 = v4, n_IPv6 = v4, n_OS = osName, n_Endpoints = [],
      n_CreatedAt = None, n_LastSeen = None, n_OwnerUserID = ow\<rparr>"
  have ok: "store_ok ?s" by (rule coord_invD(1) [OF inv])
  have t: "tbl_ok nr_id (st_nodes ?s)" using ok by (simp add: store_ok_def nodes_ok_def)
  from NetworkByID_Inr [OF nw] have ex: "\<exists>r \<in> set (tbl_rows (st_networks ?s)). nwr_id r = nw_ID nw" by blast
  define s1 where "s1 = ?s\<lparr>st_nodes := tbl_insert (node_row (n0, now)) (st_nodes ?s)\<rparr>"
  have k': "\<not> (\<exists>r \<in> set (tbl_rows (st_nodes ?s)). nr_machine_key r = MachinePublic_String mkey)" using k by (metis imageI)
  have c: "CreateNode no_faults now ?s n0 = (s1, Inr (n0\<lparr>n_ID := i, n_CreatedAt := Some now\<rparr>))"
    using k' full ex by (simp add: CreateNode_def s1_def n0_def i)
  from a(1) have ai: "ipam_inv alloc" and v6: "al_v6 alloc = Pfx (V6 w []) b"
    using NetworkByID_prefixes [OF nw] w by (auto simp: alloc_ok_def)
  then have "w AND NOT (mask (128 - b)) = w" by (simp add: ipam_inv_def)
  then have m: "unat w mod 2 ^ (128 - b) = 0" by (metis masked_mod_0)
  have r: "0 < i" "i < 2 ^ 63" using t full i by (auto simp: tbl_ok_def tbl_full_def)
  then have u: "u64_of_int64 i \<noteq> 0" using int64_u64_id [of i] by (auto simp: is_int64_def int64_of_u64_def)
  let ?v6 = "V6 (w + ucast (u64_of_int64 i)) []"
  have al: "AllocateV6For alloc (u64_of_int64 i) = Inr ?v6" by (rule AllocateV6For_eq(1) [OF v6 w(2) m u])
  define s2 where "s2 = s1\<lparr>st_nodes := tbl_update (\<lambda>r. nr_id r = i) (nr_ipv6_update (\<lambda>_. addr_text ?v6)) (st_nodes s1)\<rparr>"
  have u6: "UpdateNodeIPv6 no_faults s1 i ?v6 = (s2, Inr ())" by (simp add: UpdateNodeIPv6_def update_node_def s2_def)
  have "i \<in> nr_id ` set (tbl_rows (st_nodes s2))"
    by (auto simp: s2_def s1_def tbl_update_def tbl_insert_def node_row_def i image_iff)
  then obtain s3 where s3: "(if length routes > 0 then SetAdvertisedRoutes no_faults s2 i routes else (s2, Inr ())) = (s3, Inr ())"
    using SetAdvertisedRoutes_returns by fastforce
  have f2: "offered_routes s2 i = {}" "approved_routes s2 i = {}"
    using routes_fresh [OF ok] by (auto simp: offered_routes_def approved_routes_def s2_def s1_def i)
  have e3: "offered_routes s3 i = set routes" "approved_routes s3 i = {}" "st_setup_keys s3 = st_setup_keys ?s" "st_nodes s3 = st_nodes s2"
    using s3 f2 SetAdvertisedRoutes_effect [of no_faults s2 i routes s3] by (auto simp: s2_def s1_def split: if_splits)
  let ?n = "n0\<lparr>n_ID := i, n_CreatedAt := Some now, n_IPv6 := ?v6\<rparr>"
  let ?s4 = "fst (Audit no_faults now s3 (ownerName no_faults s3 ow) ''device.register'' host (''os='' @ osName @ '' ip='' @ addr_text v4))"
  have nk: "n_MachineKey n0 = MachinePublic_String mkey" "n_IPv4 n0 = V4 x" "n_LastSeen n0 = None" using a(2) by (simp_all add: n0_def)
  have st4: "st_nodes ?s4 = tbl_update (\<lambda>r. nr_id r = i) (nr_ipv6_update (\<lambda>_. addr_text ?v6)) (tbl_insert (node_row (n0, now)) (st_nodes ?s))"
    by (simp add: Audit_fields e3 s2_def s1_def)
  have readback: "NodeByMachineKey no_faults ?s4 (MachinePublic_String mkey) = Inr (n0\<lparr>n_ID := i, n_IPv6 := ?v6, n_CreatedAt := Some (time_unix (unix now))\<rparr>)"
    unfolding nk(1) [symmetric]
    by (rule new_node_row [OF t _ _ _ _ _ i nk(3) st4]) (use k nk in \<open>simp_all add: no_zone_def\<close>)
  have "register_create no_faults now c nw ow alloc v4 mkey nkey hostname osName routes =
      (notifyNetworkLocked no_faults (c\<lparr>c_st := ?s4\<rparr>) (nw_ID nw), Inr (?n, nw))"
    using c al u6 s3
    by (simp add: register_create_def Let_def host_def [symmetric] n0_def [symmetric]) (auto simp: n0_def split: if_splits)
  then show ?thesis using readback e3 by (simp add: Audit_routes Audit_fields n0_def host_def)
qed

text \<open>
  Claim C6. A valid setup key admits a new device whenever an address is left: registration
  succeeds and the device becomes a node of the key's network and owner, readable under its machine
  key, with an assignable IPv4 address nobody had, the IPv6 address derived from its ID, a free
  hostname and its normalised routes offered but none approved. Nothing but that key's counter
  changes in the setup keys.
\<close>
theorem Register_admits_device:
  assumes "reachable coord_init coord_step c" and "normalizeRoutes rts = Inr routes"
    and "MachinePublic_String mkey \<notin> nr_machine_key ` set (tbl_rows (st_nodes (c_st c)))" and "setupKey \<noteq> []"
    and "UseSetupKey no_faults now (c_st c) setupKey = (s1, Inr (nw, ow))"
    and "ipam_New (nw_V4Prefix nw) (nw_V6Prefix nw) = Inr a0" and "address_left c nw"
    and "masked (nw_V6Prefix nw) = Pfx (V6 w []) b" and "b \<le> 64" and "\<not> tbl_full (st_nodes (c_st c))"
  shows "\<exists>c' n x. Register no_faults now c mkey nkey setupKey hostname osName rts = Some (c', Inr (n, nw)) \<and>
    V4 x \<in> prefix_assignable (masked (nw_V4Prefix nw)) \<and> addr_text (V4 x) \<notin> set (assigned (c_st c) (nw_ID nw)) \<and>
    n = \<lparr>n_ID = tbl_seq (st_nodes (c_st c)) + 1, n_NetworkID = nw_ID nw,
      n_Hostname = dedupeHostname no_faults (c_st c) (nw_ID nw) (if sanitizeHostname hostname = [] then ''node'' else sanitizeHostname hostname),
      n_MachineKey = MachinePublic_String mkey, n_NodeKey = NodePublic_String nkey, n_IPv4 = V4 x,
      n_IPv6 = V6 (w + ucast (u64_of_int64 (tbl_seq (st_nodes (c_st c)) + 1))) [], n_OS = osName, n_Endpoints = [],
      n_CreatedAt = Some now, n_LastSeen = None, n_OwnerUserID = ow\<rparr> \<and>
    NodeByMachineKey no_faults (c_st c') (MachinePublic_String mkey) = Inr (n\<lparr>n_CreatedAt := Some (time_unix (unix now))\<rparr>) \<and>
    offered_routes (c_st c') (n_ID n) = set routes \<and> approved_routes (c_st c') (n_ID n) = {} \<and>
    st_setup_keys (c_st c') = st_setup_keys s1"
proof -
  note inv = coord_sys.reachable_inv [OF assms(1)]
  have P: "pool_ok (c_st c) (c_ipams c)" using inv by (simp add: coord_inv_iff)
  have p1: "pool_ok s1 (c_ipams c)" by (rule pool_of_write [OF assms(5) writes_pool(8) [OF P]])
  have f: "st_nodes s1 = st_nodes (c_st c)" "st_networks s1 = st_networks (c_st c)" using UseSetupKey_frame [of no_faults now "c_st c" setupKey] assms(5) by auto
  have as: "assigned s1 i = assigned (c_st c) i" for i by (simp add: assigned_def f)
  obtain i where ni: "NetworkByID no_faults s1 i = Inr nw" using UseSetupKey_network assms(5) by blast
  then have nw: "NetworkByID no_faults s1 (nw_ID nw) = Inr nw" using NetworkByID_prefix_ok by blast
  note np = NetworkByID_prefixes [OF nw]
  have left: "address_left (c\<lparr>c_st := s1\<rparr>) nw" using assms(7) by (simp add: address_left_def as split: option.splits)
  have "pool_ok (c_st (c\<lparr>c_st := s1\<rparr>)) (c_ipams (c\<lparr>c_st := s1\<rparr>))" using p1 by simp
  from allocatorFor_returns [OF this _ assms(6) left] np obtain ipams a where al: "allocatorFor no_faults (c\<lparr>c_st := s1\<rparr>) nw =
      (c\<lparr>c_st := s1, c_ipams := ipams\<rparr>, Inr a)" "pool_ok s1 ipams" "alloc_ok s1 (nw_ID nw) a" "\<not> assignable a \<subseteq> al_used a" by auto
  from al(3) have ai: "ipam_inv a" by (simp add: alloc_ok_def)
  from AllocateV4_ok [OF al(3)] obtain a' r where r: "AllocateV4 a = Some (a', r)" "alloc_ok s1 (nw_ID nw) a'"
    and v: "case r of Inl _ \<Rightarrow> True
      | Inr v4 \<Rightarrow> \<exists>x p4 p6. v4 = V4 x \<and> net_prefixes s1 (nw_ID nw) = Some (p4, p6) \<and> V4 x \<in> prefix_assignable (masked p4) \<and>
          addr_text v4 \<notin> set (assigned s1 (nw_ID nw)) \<and> v4 \<in> al_used a' \<and> alloc_ok s1 (nw_ID nw) (Release a' v4)" by blast
  from AllocateV4_spec [OF ai] r(1) al(4) obtain v4 where rv: "r = Inr v4" by (cases r) auto
  with v np obtain x where x: "v4 = V4 x" "V4 x \<in> prefix_assignable (masked (nw_V4Prefix nw))" "addr_text (V4 x) \<notin> set (assigned (c_st c) (nw_ID nw))"
    by (auto simp: as)
  let ?c = "c\<lparr>c_st := s1, c_ipams := ipams(nw_ID nw \<mapsto> a')\<rparr>"
  have i: "coord_inv ?c" using al(2) r(2) by (intro coord_inv_pool [OF inv]) (auto simp: pool_ok_def intro: ipams_ok_upd)
  have taken: "dedupeHostname no_faults s1 nid base = dedupeHostname no_faults (c_st c) nid base" for nid base
    unfolding dedupeHostname_def by (rule dedupe_loop_cong) (simp add: f)
  from register_create_success [OF i _ x(1), of nw a' w b mkey "tbl_seq (st_nodes (c_st c)) + 1" now ow nkey "sanitizeHostname hostname" osName routes]
  obtain c' n where R: "register_create no_faults now ?c nw ow a' v4 mkey nkey (sanitizeHostname hostname) osName routes = (c', Inr (n, nw))"
    and n: "n = \<lparr>n_ID = tbl_seq (st_nodes (c_st c)) + 1, n_NetworkID = nw_ID nw,
      n_Hostname = dedupeHostname no_faults (c_st c) (nw_ID nw) (if sanitizeHostname hostname = [] then ''node'' else sanitizeHostname hostname),
      n_MachineKey = MachinePublic_String mkey, n_NodeKey = NodePublic_String nkey, n_IPv4 = V4 x,
      n_IPv6 = V6 (w + ucast (u64_of_int64 (tbl_seq (st_nodes (c_st c)) + 1))) [], n_OS = osName, n_Endpoints = [],
      n_CreatedAt = Some now, n_LastSeen = None, n_OwnerUserID = ow\<rparr>"
    and e: "NodeByMachineKey no_faults (c_st c') (MachinePublic_String mkey) = Inr (n\<lparr>n_CreatedAt := Some (time_unix (unix now))\<rparr>)"
      "offered_routes (c_st c') (tbl_seq (st_nodes (c_st c)) + 1) = set routes" "approved_routes (c_st c') (tbl_seq (st_nodes (c_st c)) + 1) = {}"
      "st_setup_keys (c_st c') = st_setup_keys s1"
    using r(2) nw assms(3,8,9,10) x(1) by (auto simp: f taken)
  have un: "NodeByMachineKey no_faults (c_st c) (MachinePublic_String mkey) = Inl ErrNotFound"
  proof (cases "tbl_find (\<lambda>r. nr_machine_key r = MachinePublic_String mkey) (st_nodes (c_st c))")
    case (Some q)
    from tbl_find_Some [OF Some] assms(3) show ?thesis by (metis imageI)
  qed (simp add: NodeByMachineKey_def scanNode_def)
  have "Register no_faults now c mkey nkey setupKey hostname osName rts = Some (c', Inr (n, nw))"
    using assms(2,4,5) un al(1) r(1) rv R by (simp add: Register_def register_new_def Let_def)
  with n e x show ?thesis by (intro exI [of _ c'] exI [of _ n] exI [of _ x]) simp
qed

theorem Register_admits_device_witness:
  "\<exists>c' n nw. Register no_faults 7 sample_coord (MachinePublic (replicate 32 7)) (NodePublic (replicate 32 2)) ''sk-1'' ''Desk Top'' ''linux'' [] =
      Some (c', Inr (n, nw)) \<and> n_ID n = 2 \<and> n_IPv6 n = V6 0xfdab3f19000000000000000000000002 [] \<and> n_IPv4 n \<noteq> V4 0x64600001 \<and> n_OwnerUserID n = 3"
proof -
  let ?nw = "\<lparr>nw_ID = 1, nw_Name = ''default'', nw_V4Prefix = Pfx (V4 0x64600000) 11, nw_V6Prefix = Pfx (V6 0xfdab3f19000000000000000000000000 []) 48\<rparr>"
  have t: "trim_space ''sk-1'' = ''sk-1''" by (simp add: trim_space_def trim_func_def is_space_def)
  obtain s1 where s1: "UseSetupKey no_faults 7 (c_st sample_coord) ''sk-1'' = (s1, Inr (?nw, 3))"
    by (simp add: UseSetupKey_def NetworkByID_def scanSetupKey_def key_expired_def time_unix_def tbl_find_def Let_def t
        sample_store_def empty_store_def network_tbl.rid_mk parsePrefixes_row no_zone_def)
  have k: "MachinePublic_String (MachinePublic (replicate 32 7)) \<notin> nr_machine_key ` set (tbl_rows (st_nodes (c_st sample_coord)))"
  proof -
    have "MachinePublic_String (MachinePublic (replicate 32 7)) \<noteq> sample_machine" by code_simp
    then show ?thesis by (simp add: sample_store_def)
  qed
  obtain a0 where a0: "ipam_New (nw_V4Prefix ?nw) (nw_V6Prefix ?nw) = Inr a0"
    by (simp add: ipam_New_def Let_def)
  have "V4 0x64600002 \<in> prefix_assignable (masked (Pfx (V4 0x64600000) 11))"
  proof -
    have "prefix_contains (masked (Pfx (V4 0x64600000) 11)) (V4 0x64600002)" by code_simp
    moreover have "V4 0x64600002 \<noteq> prefix_addr (masked (Pfx (V4 0x64600000) 11))" by code_simp
    moreover have "V4 0x64600002 \<noteq> lastAddr (masked (Pfx (V4 0x64600000) 11))" by code_simp
    ultimately show ?thesis by (simp add: prefix_assignable_def)
  qed
  moreover have as: "assigned sample_store 1 = [addr_text (V4 0x64600001)]" by (simp add: assigned_def sample_store_def)
  ultimately have l: "address_left sample_coord ?nw"
    by (auto simp: address_left_def sample_coord_def coord_start_def coord_New_def intro!: exI [of _ "0x64600002"])
  have v6: "masked (nw_V6Prefix ?nw) = Pfx (V6 0xfdab3f19000000000000000000000000 []) 48" by code_simp
  have r: "normalizeRoutes [] = Inr []" by (simp add: normalizeRoutes_def)
  have sq: "tbl_seq (st_nodes sample_store) = 1" by (simp add: sample_store_def)
  have fl: "\<not> tbl_full (st_nodes (c_st sample_coord))" by (simp add: tbl_full_def sq)
  from Register_admits_device [OF sample_reachable r k _ s1 a0 l v6 _ fl, of "NodePublic (replicate 32 2)" "''Desk Top''" "''linux''"]
  show ?thesis by (auto simp: sq as u64_of_int64_def)
qed

end
