(* ===== verification/Daemon_Props.thy ===== *)
theory Daemon_Props
  imports Daemon Coord_Props
begin

text \<open>
  What the daemon makes of a netmap, and the properties that span the coordinator and the daemon: senders are
  identified, access rules are enforced on the receiving side, names resolve, signals arrive, and a failed key
  rotation leaves a consistent node.
\<close>

declare addr_text.simps [simp del]

section \<open>What the parts of a call change\<close>

lemma syncPeers_frame [simp]:
  "d_peers (syncPeers lib ord d) = d_peers d" "d_dnsSrv (syncPeers lib ord d) = d_dnsSrv d" "d_state (syncPeers lib ord d) = d_state d"
  "d_dir (syncPeers lib ord d) = d_dir d" "d_connmgr (syncPeers lib ord d) = d_connmgr d" "d_exitPeerID (syncPeers lib ord d) = d_exitPeerID d"
  "d_relayCli (syncPeers lib ord d) = d_relayCli d" "d_selfV4 (syncPeers lib ord d) = d_selfV4 d" "d_exitNode (syncPeers lib ord d) = d_exitNode d"
  "d_bind (syncPeers lib ord d) = d_bind d" "d_lastRelays (syncPeers lib ord d) = d_lastRelays d" "d_panic (syncPeers lib ord d) = d_panic d"
  by (simp_all add: syncPeers_def refreshPeerStatusLocked_def Let_def split: option.splits)

lemma onPathUpdate_frame [simp]:
  "d_dnsSrv (onPathUpdate lib ord u d) = d_dnsSrv d" "d_state (onPathUpdate lib ord u d) = d_state d"
  "d_dir (onPathUpdate lib ord u d) = d_dir d" "d_connmgr (onPathUpdate lib ord u d) = d_connmgr d"
  "d_exitPeerID (onPathUpdate lib ord u d) = d_exitPeerID d" "d_relayCli (onPathUpdate lib ord u d) = d_relayCli d"
  "d_selfV4 (onPathUpdate lib ord u d) = d_selfV4 d" "d_panic (onPathUpdate lib ord u d) = d_panic d"
  by (simp_all add: onPathUpdate_def Let_def split: option.splits)

lemma fold_onPathUpdate_frame [simp]:
  "d_dnsSrv (fold (onPathUpdate lib ord) us d) = d_dnsSrv d" "d_panic (fold (onPathUpdate lib ord) us d) = d_panic d"
  "d_exitPeerID (fold (onPathUpdate lib ord) us d) = d_exitPeerID d"
  by (induction us arbitrary: d) simp_all

lemma apply_paths_frame [simp]:
  "d_dnsSrv (apply_paths lib ord stun online d) = d_dnsSrv d" "d_panic (apply_paths lib ord stun online d) = d_panic d"
  "d_exitPeerID (apply_paths lib ord stun online d) = d_exitPeerID d"
  by (simp_all add: apply_paths_def Let_def split: option.splits)

lemma applyOverdrop_frame [simp]:
  "d_dnsSrv (applyOverdrop lib d) = d_dnsSrv d" "d_peers (applyOverdrop lib d) = d_peers d" "d_engine (applyOverdrop lib d) = d_engine d"
  "d_panic (applyOverdrop lib d) = d_panic d" "d_exitPeerID (applyOverdrop lib d) = d_exitPeerID d" "d_connmgr (applyOverdrop lib d) = d_connmgr d"
  by (simp_all add: applyOverdrop_def)

lemma apply_exit_frame [simp]:
  "d_dnsSrv (fst (apply_exit lib i x v h d)) = d_dnsSrv d" "d_peers (fst (apply_exit lib i x v h d)) = d_peers d"
  "d_engine (fst (apply_exit lib i x v h d)) = d_engine d" "d_panic (fst (apply_exit lib i x v h d)) = d_panic d"
  "d_exitPeerID (fst (apply_exit lib i x v h d)) = d_exitPeerID d" "d_connmgr (fst (apply_exit lib i x v h d)) = d_connmgr d"
  by (simp_all add: apply_exit_def split: option.splits prod.splits)

lemma apply_adv_frame [simp]:
  "d_dnsSrv (apply_adv lib i a d) = d_dnsSrv d" "d_peers (apply_adv lib i a d) = d_peers d" "d_engine (apply_adv lib i a d) = d_engine d"
  "d_panic (apply_adv lib i a d) = d_panic d" "d_exitPeerID (apply_adv lib i a d) = d_exitPeerID d" "d_connmgr (apply_adv lib i a d) = d_connmgr d"
  by (simp_all add: apply_adv_def split: option.splits prod.splits)

lemma apply_sync_frame [simp]:
  "d_dnsSrv (apply_sync lib i a d) = d_dnsSrv d" "d_peers (apply_sync lib i a d) = d_peers d" "d_engine (apply_sync lib i a d) = d_engine d"
  "d_panic (apply_sync lib i a d) = d_panic d" "d_exitPeerID (apply_sync lib i a d) = d_exitPeerID d" "d_connmgr (apply_sync lib i a d) = d_connmgr d"
  by (simp_all add: apply_sync_def split: option.splits prod.splits)

lemma applyRoutes_frame [simp]:
  "d_dnsSrv (applyRoutes lib ord nm d) = d_dnsSrv d" "d_peers (applyRoutes lib ord nm d) = d_peers d"
  "d_engine (applyRoutes lib ord nm d) = d_engine d" "d_panic (applyRoutes lib ord nm d) = d_panic d"
  "d_exitPeerID (applyRoutes lib ord nm d) = d_exitPeerID d" "d_connmgr (applyRoutes lib ord nm d) = d_connmgr d"
  by (simp_all add: applyRoutes_def Let_def split: option.splits)

lemma applyDNS_frame [simp]:
  "d_peers (applyDNS lib nm d) = d_peers d" "d_engine (applyDNS lib nm d) = d_engine d"
  "d_exitPeerID (applyDNS lib nm d) = d_exitPeerID d" "d_connmgr (applyDNS lib nm d) = d_connmgr d"
  by (simp_all add: applyDNS_def Let_def split: option.splits)

lemma applyFilter_frame [simp]:
  "d_peers (applyFilter lib nm e d) = d_peers d" "d_dnsSrv (applyFilter lib nm e d) = d_dnsSrv d" "d_selfV4 (applyFilter lib nm e d) = d_selfV4 d"
  "d_engine (applyFilter lib nm e d) = Some (eo_SetFilter (ml_eng lib) (FromProto (nm_Filter nm) (nm_FilterEnabled nm)) e)"
  "d_panic (applyFilter lib nm e d) = d_panic d" "d_exitPeerID (applyFilter lib nm e d) = d_exitPeerID d"
  "d_connmgr (applyFilter lib nm e d) = d_connmgr d"
  by (simp_all add: applyFilter_def Let_def)

lemma ensureRelay_frame [simp]:
  "d_peers (ensureRelay lib ord urls d) = d_peers d" "d_dnsSrv (ensureRelay lib ord urls d) = d_dnsSrv d"
  "d_selfV4 (ensureRelay lib ord urls d) = d_selfV4 d" "d_state (ensureRelay lib ord urls d) = d_state d"
  "d_panic (ensureRelay lib ord urls d) = d_panic d" "d_connmgr (ensureRelay lib ord urls d) = d_connmgr d"
  "d_dir (ensureRelay lib ord urls d) = d_dir d" "d_exitNode (ensureRelay lib ord urls d) = d_exitNode d"
  by (simp_all add: ensureRelay_def Let_def split: option.splits list.splits)

lemma select_refresh_frame [simp]:
  "d_peers (selectExitPeerLocked ks d) = d_peers d" "d_dnsSrv (selectExitPeerLocked ks d) = d_dnsSrv d"
  "d_engine (selectExitPeerLocked ks d) = d_engine d" "d_selfV4 (selectExitPeerLocked ks d) = d_selfV4 d"
  "d_panic (selectExitPeerLocked ks d) = d_panic d" "d_connmgr (selectExitPeerLocked ks d) = d_connmgr d"
  "d_peers (refreshPeerStatusLocked ks d) = d_peers d" "d_dnsSrv (refreshPeerStatusLocked ks d) = d_dnsSrv d"
  "d_engine (refreshPeerStatusLocked ks d) = d_engine d" "d_selfV4 (refreshPeerStatusLocked ks d) = d_selfV4 d"
  "d_panic (refreshPeerStatusLocked ks d) = d_panic d" "d_connmgr (refreshPeerStatusLocked ks d) = d_connmgr d"
  "d_exitPeerID (refreshPeerStatusLocked ks d) = d_exitPeerID d"
  by (simp_all add: selectExitPeerLocked_def refreshPeerStatusLocked_def)

section \<open>The table of peers\<close>

text \<open>Everything but the current path comes from the netmap.\<close>

definition netmap_view :: "peerInfo \<Rightarrow> peerInfo" where
  "netmap_view pi = pi\<lparr>pi_path := PathNone, pi_pathEP := no_addr_port, pi_rtt := 0\<rparr>"

definition peer_of_pb :: "pb_Peer \<Rightarrow> peerInfo" where
  "peer_of_pb p = the (merge_peer p Map.empty (pbp_NodeId p))"

lemma onPathUpdate_view:
  "map_option netmap_view (d_peers (onPathUpdate lib ord u d) n) = map_option netmap_view (d_peers d n)"
  by (auto simp: onPathUpdate_def Let_def netmap_view_def split: option.splits)

lemma fold_onPathUpdate_view:
  "map_option netmap_view (d_peers (fold (onPathUpdate lib ord) us d) n) = map_option netmap_view (d_peers d n)"
  by (induction us arbitrary: d) (simp_all add: onPathUpdate_view)

lemma apply_paths_view:
  "map_option netmap_view (d_peers (apply_paths lib ord stun online d) n) = map_option netmap_view (d_peers d n)"
  by (simp add: apply_paths_def Let_def fold_onPathUpdate_view split: option.splits)

lemma applyNetMap_view:
  "map_option netmap_view (d_peers (fst (applyNetMap lib ord0 ord now nm d)) n) = map_option netmap_view (merge_netmap nm (d_peers d) n)"
  by (simp add: applyNetMap_def Let_def apply_paths_view split: option.splits sum.splits prod.splits)

text \<open>With distinct identities in the netmap the merge is peer by peer.\<close>

lemma merge_peer_other: "pbp_NodeId p \<noteq> n \<Longrightarrow> merge_peer p peers n = peers n"
  by (simp add: merge_peer_def Let_def)

lemma merge_peer_view:
  assumes "length (pbp_NodeKey p) = 32"
    and "\<And>pi. peers (pbp_NodeId p) = Some pi \<Longrightarrow> pi_nodeID pi = pbp_NodeId p"
  shows "map_option netmap_view (merge_peer p peers (pbp_NodeId p)) = Some (netmap_view (peer_of_pb p))"
  using assms by (auto simp: merge_peer_def peer_of_pb_def Let_def new_peer_def netmap_view_def split: option.splits)

definition table_ok :: "(u64 \<rightharpoonup> peerInfo) \<Rightarrow> bool" where
  "table_ok peers \<longleftrightarrow> (\<forall>n pi. peers n = Some pi \<longrightarrow> pi_nodeID pi = n)"

lemma merge_peer_table: "table_ok peers \<Longrightarrow> table_ok (merge_peer p peers)"
  by (auto simp: table_ok_def merge_peer_def Let_def new_peer_def split: option.splits)

lemma fold_merge_other: "n \<notin> pbp_NodeId ` set ps \<Longrightarrow> fold merge_peer ps peers n = peers n"
  by (induction ps arbitrary: peers) (auto simp: merge_peer_other)

lemma fold_merge_view:
  assumes "table_ok peers" and "distinct (map pbp_NodeId ps)" and "p \<in> set ps" and "length (pbp_NodeKey p) = 32"
  shows "map_option netmap_view (fold merge_peer ps peers (pbp_NodeId p)) = Some (netmap_view (peer_of_pb p))"
  using assms
proof (induction ps arbitrary: peers)
  case (Cons q ps)
  show ?case
  proof (cases "p = q")
    case True
    with Cons.prems have "fold merge_peer ps (merge_peer q peers) (pbp_NodeId p) = merge_peer q peers (pbp_NodeId p)"
      by (intro fold_merge_other) auto
    with True Cons.prems show ?thesis
      using merge_peer_view [of q peers] by (auto simp: table_ok_def)
  next
    case False
    with Cons show ?thesis
      by (auto intro: merge_peer_table)
  qed
qed simp

lemma merge_netmap_view:
  assumes "table_ok peers" and "distinct (map pbp_NodeId (nm_Peers nm))"
  shows "p \<in> set (nm_Peers nm) \<Longrightarrow> length (pbp_NodeKey p) = 32 \<Longrightarrow>
      map_option netmap_view (merge_netmap nm peers (pbp_NodeId p)) = Some (netmap_view (peer_of_pb p))"
    and "dom (merge_netmap nm peers) = set (seen_peers nm)"
proof -
  show v: "map_option netmap_view (merge_netmap nm peers (pbp_NodeId p)) = Some (netmap_view (peer_of_pb p))"
    if "p \<in> set (nm_Peers nm)" "length (pbp_NodeKey p) = 32" for p
    using fold_merge_view [OF assms that] that by (auto simp: merge_netmap_def seen_peers_def restrict_map_def)
  show "dom (merge_netmap nm peers) = set (seen_peers nm)"
  proof
    show "dom (merge_netmap nm peers) \<subseteq> set (seen_peers nm)"
      by (auto simp: merge_netmap_def)
    show "set (seen_peers nm) \<subseteq> dom (merge_netmap nm peers)"
      using v by (fastforce simp: seen_peers_def)
  qed
qed

section \<open>Netmaps of the coordinator\<close>

lemma parseNodeKey_length: "parseNodeKey s = Inr k \<Longrightarrow> length k = 32"
  using unmarshalPrefixed_length [of nodePrefix s zero_key]
  by (auto simp: parseNodeKey_def NodePublic_UnmarshalText_def NodePublic_Bytes_def zero_key_def split: sum.splits)

lemma peer_node_v4:
  assumes "coord_inv c" and "NodesInNetwork flt (c_st c) nid = Inr ns" and "q \<in> set ns"
  shows "\<exists>x. n_IPv4 q = V4 x"
proof -
  from NodesInNetwork_set [OF assms(2)] assms(3) obtain r where r: "r \<in> set (tbl_rows (st_nodes (c_st c)))" "nr_network_id r = nid"
    "hydrateNode r = Inr q" by blast
  then have "nr_ipv4 r \<in> set (assigned (c_st c) nid)" by (auto simp: assigned_iff)
  then obtain x where "nr_ipv4 r = addr_text (V4 x)" using assigned_v4 coord_invD(2) [OF assms(1)] by blast
  with hydrateNode_fields [OF r(3)] show ?thesis by (intro exI [of _ x]) simp
qed

text \<open>Every peer of a netmap is a node of the network with its key.\<close>

lemma netmap_peer_node:
  assumes "NodesInNetwork flt (c_st c) (n_NetworkID n) = Inr ns" and "buildNetMapLocked flt c n = Inr nm" and "p \<in> set (nm_Peers nm)"
  shows "\<exists>q k. q \<in> set ns \<and> n_ID q \<noteq> n_ID n \<and> parseNodeKey (n_NodeKey q) = Inr k \<and> p = peer_of flt c q k"
proof -
  have "nm_Peers nm = netmap_peers flt c (n_ID n) ns"
    using buildNetMap_peers [OF assms(2,1)] by simp
  with assms(3) obtain q where q: "q \<in> set ns" "n_ID q \<noteq> n_ID n" "key_parses q" "p = peer_of flt c q (projr (parseNodeKey (n_NodeKey q)))"
    by (auto simp: netmap_peers_eq)
  then show ?thesis
    by (intro exI [of _ q] exI [of _ "projr (parseNodeKey (n_NodeKey q))"]) (auto simp: isl_def split: sum.splits)
qed

lemma netmap_ids_distinct:
  assumes "coord_inv c" and "NodesInNetwork flt (c_st c) (n_NetworkID n) = Inr ns" and "buildNetMapLocked flt c n = Inr nm"
  shows "distinct (map pbp_NodeId (nm_Peers nm))"
proof -
  note st = coord_invD(1) [OF assms(1)]
  have ids: "distinct (map n_ID ns)" by (rule NodesInNetwork_ids(2) [OF st assms(2)])
  have "inj_on (\<lambda>p. u64_of_int64 (n_ID p)) (set ns)"
    using ids node_id_range [OF st assms(2)] by (auto simp: inj_on_def distinct_map) (metis int64_u64_id)
  moreover have "map pbp_NodeId (nm_Peers nm) = map (\<lambda>p. u64_of_int64 (n_ID p)) (filter (\<lambda>p. n_ID p \<noteq> n_ID n \<and> key_parses p) ns)"
    using buildNetMap_peers [OF assms(3,2)] by (simp add: netmap_peers_eq peer_of_def)
  ultimately show ?thesis
    using ids by (auto simp: distinct_map intro: inj_on_subset)
qed

text \<open>The two overlay addresses of a node as the daemon reads them.\<close>

lemma host_prefix_parse: "parse_prefix (addr_text (V4 x) @ ''/32'') = Some (Pfx (V4 x) 32)"
proof -
  have "addr_text (V4 x) @ ''/32'' = prefix_text (Pfx (V4 x) 32)"
    by simp code_simp
  then show ?thesis
    using parse_prefix_text [of "Pfx (V4 x) 32"] by (simp add: no_zone_def)
qed

lemma v6_prefix_parse:
  assumes "parse_prefix (t @ ''/128'') = Some p"
  shows "\<not> addr_is4 (prefix_addr p) \<and> prefix_ok p"
proof -
  have "split_last CHR ''/'' (t @ ''/128'') = Some (t, ''128'')"
    using split_last_sep [of "CHR ''/''" "''128''" t] by simp
  moreover have "parse_bits ''128'' = Some 128" by code_simp
  ultimately have "128 \<le> prefix_bits p"
    using assms by (auto simp: parse_prefix_def prefix_from_def dest: parse_addr_valid split: option.splits if_splits)
  with parse_prefix_ok [OF assms] show ?thesis
    using assms by (cases p; cases "prefix_addr p") auto
qed

lemma overlay_parse:
  assumes "n_IPv4 q = V4 x"
  shows "\<exists>rest. List.map_filter parse_prefix (overlayCIDRs q) = Pfx (V4 x) 32 # rest \<and>
    (\<forall>p\<in>set rest. \<not> addr_is4 (prefix_addr p) \<and> prefix_ok p)"
  using v6_prefix_parse [of "addr_text (n_IPv6 q)"] assms
  by (auto simp: overlayCIDRs_def List.map_filter_simps host_prefix_parse split: option.splits)

lemma netmap_addrs:
  assumes "coord_inv c" and "NodesInNetwork flt (c_st c) (n_NetworkID n) = Inr ns" and "buildNetMapLocked flt c n = Inr nm"
    and "p \<in> set (nm_Peers nm)"
  shows "\<exists>q x rest. q \<in> set ns \<and> n_ID q \<noteq> n_ID n \<and> pbp_NodeId p = u64_of_int64 (n_ID q) \<and> pbp_Hostname p = n_Hostname q \<and> n_IPv4 q = V4 x \<and>
    List.map_filter parse_prefix (pbp_OverlayIps p) = Pfx (V4 x) 32 # rest \<and> (\<forall>r\<in>set rest. \<not> addr_is4 (prefix_addr r) \<and> prefix_ok r)"
proof -
  from netmap_peer_node [OF assms(2-4)] obtain q k where q: "q \<in> set ns" "n_ID q \<noteq> n_ID n" "p = peer_of flt c q k" by blast
  from peer_node_v4 [OF assms(1,2) q(1)] obtain x where x: "n_IPv4 q = V4 x" by blast
  from overlay_parse [OF x] q x show ?thesis
    by (auto simp: peer_of_def)
qed

lemma overlay_texts_v6:
  "\<forall>r\<in>set rest. \<not> addr_is4 (prefix_addr r) \<and> prefix_ok r \<Longrightarrow>
   (\<forall>x. v6 \<noteq> addr_text (V4 x)) \<Longrightarrow>
   fst (fold (\<lambda>p (v4, v6). if addr_is4 (prefix_addr p) then (addr_text (prefix_addr p), v6) else (v4, addr_text (prefix_addr p))) rest (v4, v6)) = v4 \<and>
   (\<forall>x. snd (fold (\<lambda>p (v4, v6). if addr_is4 (prefix_addr p) then (addr_text (prefix_addr p), v6) else (v4, addr_text (prefix_addr p))) rest (v4, v6)) \<noteq> addr_text (V4 x))"
proof (induction rest arbitrary: v6)
  case (Cons r rest)
  have "addr_text (prefix_addr r) \<noteq> addr_text (V4 x)" for x
  proof
    assume "addr_text (prefix_addr r) = addr_text (V4 x)"
    moreover have "parse_addr (addr_text (prefix_addr r)) = Some (prefix_addr r)"
      using Cons.prems(1) by (intro parse_addr_text) (cases r; auto)+
    ultimately have "prefix_addr r = V4 x"
      by simp
    with Cons.prems(1) show False by simp
  qed
  with Cons show ?case by simp
qed simp

lemma overlay_texts_v4:
  assumes "\<forall>r\<in>set rest. \<not> addr_is4 (prefix_addr r) \<and> prefix_ok r"
  shows "fst (overlay_texts (Pfx (V4 x) 32 # rest)) = addr_text (V4 x)" and "snd (overlay_texts (Pfx (V4 x) 32 # rest)) \<noteq> addr_text (V4 y)"
proof -
  have "parse_addr [] = None" by code_simp
  then have "[] \<noteq> addr_text (V4 y)" for y by (metis v4_text_parses option.distinct(1))
  with overlay_texts_v6 [OF assms, of "[]" "addr_text (V4 x)"]
  show "fst (overlay_texts (Pfx (V4 x) 32 # rest)) = addr_text (V4 x)" and "snd (overlay_texts (Pfx (V4 x) 32 # rest)) \<noteq> addr_text (V4 y)"
    by (simp_all add: overlay_texts_def)
qed

lemma peer_of_pb_fields:
  assumes "length (pbp_NodeKey p) = 32" and "map_option netmap_view (t n) = Some (netmap_view (peer_of_pb p))"
  shows "\<exists>pi. t n = Some pi \<and> pi_nodeID pi = pbp_NodeId p \<and> pi_hostname pi = pbp_Hostname p \<and> pi_pubKey pi = pbp_NodeKey p \<and>
    pi_allowed pi = List.map_filter parse_prefix (pbp_OverlayIps p) \<and> pi_online pi = pbp_Online p \<and> pi_staticEPs pi = pbp_Endpoints p \<and>
    pi_ipv4 pi = fst (overlay_texts (List.map_filter parse_prefix (pbp_OverlayIps p))) \<and>
    pi_ipv6 pi = snd (overlay_texts (List.map_filter parse_prefix (pbp_OverlayIps p))) \<and>
    pi_subnetRoutes pi = filter (\<lambda>r. prefix_bits r \<noteq> 0) (List.map_filter parse_prefix (pbp_AllowedRoutes p)) \<and>
    pi_exitRoutes pi = filter (\<lambda>r. prefix_bits r = 0) (List.map_filter parse_prefix (pbp_AllowedRoutes p))"
proof -
  from assms(2) obtain pi where pi: "t n = Some pi" "netmap_view pi = netmap_view (peer_of_pb p)" by auto
  have e: "f pi = f (peer_of_pb p)" if "\<And>x. f (netmap_view x) = f x" for f :: "peerInfo \<Rightarrow> 'z"
    using arg_cong [OF pi(2), of f] that by simp
  have "pi_nodeID pi = pi_nodeID (peer_of_pb p)" "pi_hostname pi = pi_hostname (peer_of_pb p)" "pi_pubKey pi = pi_pubKey (peer_of_pb p)"
    "pi_allowed pi = pi_allowed (peer_of_pb p)" "pi_online pi = pi_online (peer_of_pb p)" "pi_staticEPs pi = pi_staticEPs (peer_of_pb p)"
    "pi_ipv4 pi = pi_ipv4 (peer_of_pb p)" "pi_ipv6 pi = pi_ipv6 (peer_of_pb p)" "pi_subnetRoutes pi = pi_subnetRoutes (peer_of_pb p)"
    "pi_exitRoutes pi = pi_exitRoutes (peer_of_pb p)"
    by (rule e, simp add: netmap_view_def)+
  with pi(1) assms(1) show ?thesis
    by (simp add: peer_of_pb_def merge_peer_def Let_def new_peer_def)
qed

lemma applyNetMap_peer:
  assumes "table_ok (d_peers d)" and "distinct (map pbp_NodeId (nm_Peers nm))" and "p \<in> set (nm_Peers nm)" and "length (pbp_NodeKey p) = 32"
  shows "map_option netmap_view (d_peers (fst (applyNetMap lib ord0 ord now nm d)) (pbp_NodeId p)) = Some (netmap_view (peer_of_pb p))"
  by (simp add: applyNetMap_view merge_netmap_view(1) [OF assms])

lemma map_option_dom: "(\<And>n. map_option f (s n) = map_option g (t n)) \<Longrightarrow> dom s = dom t"
proof -
  assume e: "\<And>n. map_option f (s n) = map_option g (t n)"
  have "s n = None \<longleftrightarrow> t n = None" for n
    using e [of n] by (cases "s n"; cases "t n") auto
  then show ?thesis
    by (simp add: dom_def)
qed

lemma applyNetMap_dom:
  assumes "table_ok (d_peers d)" and "distinct (map pbp_NodeId (nm_Peers nm))"
  shows "dom (d_peers (fst (applyNetMap lib ord0 ord now nm d))) = set (seen_peers nm)"
  unfolding merge_netmap_view(2) [OF assms, symmetric] by (rule map_option_dom) (rule applyNetMap_view)

lemma find_unique: "x \<in> set xs \<Longrightarrow> P x \<Longrightarrow> (\<And>y. y \<in> set xs \<Longrightarrow> P y \<Longrightarrow> y = x) \<Longrightarrow> List.find P xs = Some x"
proof (induction xs)
  case (Cons y ys)
  show ?case
  proof (cases "P y")
    case True
    then have "y = x" by (rule Cons.prems(3) [rotated]) simp
    with True show ?thesis by simp
  next
    case False
    with Cons.prems(1,2) have "x \<in> set ys" by auto
    then have "List.find P ys = Some x"
      by (rule Cons.IH [OF _ Cons.prems(2)]) (rule Cons.prems(3), simp_all)
    with False show ?thesis by simp
  qed
qed simp

text \<open>A search through a table in any order finds the only match.\<close>

lemma ranged_mem: "pi \<in> set (ranged ks t) \<longleftrightarrow> (\<exists>k\<in>set ks. t k = Some pi)"
  by (auto simp: ranged_def List.map_filter_def image_iff intro!: bexI)

lemma find_ranged:
  assumes "set ks = dom t" and "t n = Some pi" and "P pi" and "\<And>m pj. t m = Some pj \<Longrightarrow> P pj \<Longrightarrow> m = n"
  shows "List.find P (ranged ks t) = Some pi"
proof (rule find_unique)
  show "pi \<in> set (ranged ks t)"
    unfolding ranged_mem using assms(1,2) by blast
  show "pj = pi" if "pj \<in> set (ranged ks t)" "P pj" for pj
  proof -
    from that(1) obtain k where "t k = Some pj" unfolding ranged_mem by blast
    with assms(4) [OF this that(2)] assms(2) show ?thesis by simp
  qed
qed (rule assms(3))

lemma find_ranged_none:
  assumes "\<And>m pj. t m = Some pj \<Longrightarrow> \<not> P pj"
  shows "List.find P (ranged ks t) = None"
  unfolding find_None_iff ranged_mem using assms by blast

lemma applyNetMap_table:
  assumes "table_ok (d_peers d)" and "distinct (map pbp_NodeId (nm_Peers nm))"
  shows "table_ok (d_peers (fst (applyNetMap lib ord0 ord now nm d)))"
  unfolding table_ok_def
proof (intro allI impI)
  fix n pi
  let ?t = "d_peers (fst (applyNetMap lib ord0 ord now nm d))"
  assume pi: "?t n = Some pi"
  then have "n \<in> set (seen_peers nm)"
    using applyNetMap_dom [OF assms, of lib ord0 ord now] by blast
  then obtain p where p: "p \<in> set (nm_Peers nm)" "length (pbp_NodeKey p) = 32" "n = pbp_NodeId p"
    by (auto simp: seen_peers_def)
  from peer_of_pb_fields [where t = ?t, OF p(2) applyNetMap_peer [OF assms p(1,2)]] pi p(3) show "pi_nodeID pi = n"
    by auto
qed

section \<open>Properties\<close>

text \<open>Claim C16. The netmaps of the coordinator are well typed for the daemon, in every reachable state and under any
  driver failures: identities are distinct, every key has the 32 bytes without which the daemon skips a peer, and the
  first overlay address of a peer is the single IPv4 host of a node of the network. So no peer is lost: whatever well
  formed table of peers it had, after applying the netmap the daemon has a well formed table of exactly the netmap's
  peers, each under its identity and with its key and address.\<close>

theorem netmap_well_typed:
  assumes "reachable coord_init coord_step c" and "NodesInNetwork flt (c_st c) (n_NetworkID n) = Inr ns"
    and "buildNetMapLocked flt c n = Inr nm" and "table_ok (d_peers d)" and "d' = fst (applyNetMap lib ord0 ord now nm d)"
  shows "distinct (map pbp_NodeId (nm_Peers nm)) \<and> table_ok (d_peers d') \<and> dom (d_peers d') = pbp_NodeId ` set (nm_Peers nm) \<and>
    (\<forall>p\<in>set (nm_Peers nm). length (pbp_NodeKey p) = 32 \<and> (\<exists>q x pi. q \<in> set ns \<and> n_ID q \<noteq> n_ID n \<and> n_IPv4 q = V4 x \<and>
      pbp_NodeId p = u64_of_int64 (n_ID q) \<and> parse_prefix (hd (pbp_OverlayIps p)) = Some (Pfx (V4 x) 32) \<and>
      d_peers d' (pbp_NodeId p) = Some pi \<and> pi_pubKey pi = pbp_NodeKey p \<and> pi_ipv4 pi = addr_text (V4 x)))"
proof -
  note inv = coord_sys.reachable_inv [OF assms(1)]
  note ids = netmap_ids_distinct [OF inv assms(2,3)]
  have k: "length (pbp_NodeKey p) = 32" if "p \<in> set (nm_Peers nm)" for p
    using netmap_peer_node [OF assms(2,3) that] parseNodeKey_length by (auto simp: peer_of_def)
  then have "set (seen_peers nm) = pbp_NodeId ` set (nm_Peers nm)"
    by (auto simp: seen_peers_def)
  moreover have "\<exists>q x pi. q \<in> set ns \<and> n_ID q \<noteq> n_ID n \<and> n_IPv4 q = V4 x \<and> pbp_NodeId p = u64_of_int64 (n_ID q) \<and>
      parse_prefix (hd (pbp_OverlayIps p)) = Some (Pfx (V4 x) 32) \<and> d_peers d' (pbp_NodeId p) = Some pi \<and>
      pi_pubKey pi = pbp_NodeKey p \<and> pi_ipv4 pi = addr_text (V4 x)" if p: "p \<in> set (nm_Peers nm)" for p
  proof -
    from netmap_peer_node [OF assms(2,3) p] obtain q kk where q: "q \<in> set ns" "n_ID q \<noteq> n_ID n" "p = peer_of flt c q kk" by blast
    from peer_node_v4 [OF inv assms(2) q(1)] obtain x where x: "n_IPv4 q = V4 x" by blast
    from overlay_parse [OF x] obtain rest where rest: "List.map_filter parse_prefix (pbp_OverlayIps p) = Pfx (V4 x) 32 # rest"
      "\<forall>r\<in>set rest. \<not> addr_is4 (prefix_addr r) \<and> prefix_ok r"
      using q(3) by (auto simp: peer_of_def)
    have "parse_prefix (hd (pbp_OverlayIps p)) = Some (Pfx (V4 x) 32)"
      using q(3) x by (simp add: peer_of_def overlayCIDRs_def host_prefix_parse)
    moreover obtain pi where "d_peers d' (pbp_NodeId p) = Some pi" "pi_pubKey pi = pbp_NodeKey p" "pi_ipv4 pi = addr_text (V4 x)"
      using peer_of_pb_fields [where t = "d_peers d'", OF k [OF p] applyNetMap_peer [OF assms(4) ids p k [OF p], of lib ord0 ord now, folded assms(5)]]
      by (auto simp: rest(1) overlay_texts_v4(1) [OF rest(2)])
    moreover have "pbp_NodeId p = u64_of_int64 (n_ID q)"
      using q(3) by (simp add: peer_of_def)
    ultimately show ?thesis
      using q(1,2) x by blast
  qed
  ultimately show ?thesis
    using ids k applyNetMap_table [OF assms(4) ids] applyNetMap_dom [OF assms(4) ids] by (simp add: assms(5))
qed

lemma peerNameByAddr_peer:
  assumes "coord_inv c" and "NodesInNetwork flt (c_st c) (n_NetworkID n) = Inr ns" and "buildNetMapLocked flt c n = Inr nm"
    and "table_ok (d_peers d)" and "d' = fst (applyNetMap lib ord0 ord now nm d)" and "d_peers d' m = Some pi"
  shows "\<exists>q x. q \<in> set ns \<and> n_ID q \<noteq> n_ID n \<and> key_parses q \<and> n_IPv4 q = V4 x \<and> m = u64_of_int64 (n_ID q) \<and>
    pi_hostname pi = n_Hostname q \<and> pi_ipv4 pi = addr_text (V4 x) \<and> (\<forall>y. pi_ipv6 pi \<noteq> addr_text (V4 y))"
proof -
  note ids = netmap_ids_distinct [OF assms(1-3)]
  have "m \<in> set (seen_peers nm)"
    using applyNetMap_dom [OF assms(4) ids, of lib ord0 ord now] assms(5,6) by auto
  then obtain p where p: "p \<in> set (nm_Peers nm)" "length (pbp_NodeKey p) = 32" "m = pbp_NodeId p"
    by (auto simp: seen_peers_def)
  from netmap_peer_node [OF assms(2,3) p(1)] obtain q k where q: "q \<in> set ns" "n_ID q \<noteq> n_ID n" "parseNodeKey (n_NodeKey q) = Inr k" "p = peer_of flt c q k" by blast
  from peer_node_v4 [OF assms(1,2) q(1)] obtain x where x: "n_IPv4 q = V4 x" by blast
  from overlay_parse [OF x] obtain rest where rest: "List.map_filter parse_prefix (pbp_OverlayIps p) = Pfx (V4 x) 32 # rest"
    "\<forall>r\<in>set rest. \<not> addr_is4 (prefix_addr r) \<and> prefix_ok r"
    using q(4) by (auto simp: peer_of_def)
  from peer_of_pb_fields [where t = "d_peers d'", OF p(2) applyNetMap_peer [OF assms(4) ids p(1,2), of lib ord0 ord now, folded assms(5)]] assms(6) p(3)
  have "pi_hostname pi = pbp_Hostname p" "pi_ipv4 pi = addr_text (V4 x)" "pi_ipv6 pi = snd (overlay_texts (Pfx (V4 x) 32 # rest))"
    by (auto simp: rest(1) overlay_texts_v4(1) [OF rest(2)])
  with q x p(3) overlay_texts_v4(2) [OF rest(2)] show ?thesis
    by (intro exI [of _ q] exI [of _ x]) (auto simp: peer_of_def)
qed

lemma peer_in_table:
  assumes "coord_inv c" and "NodesInNetwork flt (c_st c) (n_NetworkID n) = Inr ns" and "buildNetMapLocked flt c n = Inr nm"
    and "table_ok (d_peers d)" and "d' = fst (applyNetMap lib ord0 ord now nm d)" and "q \<in> set ns" and "n_ID q \<noteq> n_ID n" and "key_parses q"
  shows "\<exists>pi. d_peers d' (u64_of_int64 (n_ID q)) = Some pi \<and> pi_hostname pi = n_Hostname q \<and> pi_ipv4 pi = addr_text (n_IPv4 q)"
proof -
  note ids = netmap_ids_distinct [OF assms(1-3)] and st = coord_invD(1) [OF assms(1)]
  obtain k where k: "parseNodeKey (n_NodeKey q) = Inr k"
    using assms(8) by (cases "parseNodeKey (n_NodeKey q)") auto
  have "peer_of flt c q k \<in> set (nm_Peers nm)"
    using buildNetMap_peers [OF assms(3,2)] assms(6-8) k by (force simp: netmap_peers_eq)
  moreover have "length (pbp_NodeKey (peer_of flt c q k)) = 32"
    using parseNodeKey_length [OF k] by (simp add: peer_of_def)
  ultimately have "u64_of_int64 (n_ID q) \<in> dom (d_peers d')"
    using applyNetMap_dom [OF assms(4) ids, of lib ord0 ord now] assms(5) by (force simp: seen_peers_def peer_of_def)
  then obtain pi where pi: "d_peers d' (u64_of_int64 (n_ID q)) = Some pi" by blast
  from peerNameByAddr_peer [OF assms(1-5) pi] obtain q' x' where q': "q' \<in> set ns" "n_IPv4 q' = V4 x'"
    "u64_of_int64 (n_ID q) = u64_of_int64 (n_ID q')" "pi_hostname pi = n_Hostname q'" "pi_ipv4 pi = addr_text (V4 x')" by blast
  have "n_ID q = n_ID q'"
    using arg_cong [OF q'(3), of int64_of_u64] int64_u64_id [OF node_id_range [OF st assms(2)]] q'(1) assms(6) by simp
  then have "q' = q"
    using assms(6) q'(1) NodesInNetwork_ids(2) [OF st assms(2)] by (auto simp: distinct_map inj_on_def)
  with pi q'(2,4,5) show ?thesis by simp
qed

lemma remote_addr_split: "SplitHostPort (addr_port_text (V4 x, port)) = Inr (addr_text (V4 x), itoa (unat port))"
proof -
  have "c \<notin> set (itoa k)" if "\<not> is_hex_digit c" for c k using itoa_hex that by blast
  moreover have "\<not> is_hex_digit CHR '']''" by (simp add: is_hex_digit_def)
  moreover have "CHR '']'' \<notin> set (ipv4_text x)" using set_ipv4_text [of "CHR '']''" x] by (auto simp: is_hex_digit_def)
  ultimately show ?thesis
    using split_host_port [of "ipv4_text x" "itoa (unat port)"] ipv4_text_free [of x] special_not_hex by (simp add: addr_text.simps)
qed

text \<open>Claim C2. Who sends a file is known by the overlay address it comes from: after the daemon has applied a netmap of
  the coordinator, in whatever order it walks its table, the IPv4 address of every peer is resolved to that peer's
  hostname, under which its files are stored; a transfer from any other IPv4 address is refused and touches no file.\<close>

theorem senders_identified:
  assumes "reachable coord_init coord_step c" and "NodesInNetwork flt (c_st c) (n_NetworkID n) = Inr ns"
    and "buildNetMapLocked flt c n = Inr nm" and "table_ok (d_peers d)" and "d' = fst (applyNetMap lib ord0 ord now nm d)"
    and "set ks = dom (d_peers d')" and "peers = {q \<in> set ns. n_ID q \<noteq> n_ID n \<and> key_parses q}"
    and "s = od_NewServer (overdropDir (d_opts d')) (peerNameByAddr ks d')" and "rq_RemoteAddr r = addr_port_text (V4 x, port)"
  shows "(\<forall>q\<in>peers. n_IPv4 q = V4 x \<longrightarrow> peerNameByAddr ks d' (V4 x) = n_Hostname q) \<and>
    (V4 x \<notin> n_IPv4 ` peers \<longrightarrow> handlePut io t s r body fs = (s, fs, OdError 403 (ErrMsg ''unknown peer'')))"
proof -
  note inv = coord_sys.reachable_inv [OF assms(1)]
  note pk = peerNameByAddr_peer [OF inv assms(2-5)]
  have v4: "distinct (map n_IPv4 ns)"
    by (rule NodesInNetwork_ipv4(1) [OF coord_invD(1,2) [OF inv] assms(2)])
  let ?P = "\<lambda>pi. pi_ipv4 pi = addr_text (V4 x) \<or> pi_ipv6 pi = addr_text (V4 x)"
  have P: "\<exists>q. q \<in> peers \<and> n_IPv4 q = V4 x \<and> m = u64_of_int64 (n_ID q) \<and> pi_hostname pi = n_Hostname q" if "d_peers d' m = Some pi" "?P pi" for m pi
    using pk [OF that(1)] that(2) by (auto simp: assms(7))
  have "peerNameByAddr ks d' (V4 x) = n_Hostname q" if q: "q \<in> peers" "n_IPv4 q = V4 x" for q
  proof -
    from peer_in_table [OF inv assms(2-5), of q] q obtain pi where pi: "d_peers d' (u64_of_int64 (n_ID q)) = Some pi"
      and m: "?P pi" "pi_hostname pi = n_Hostname q" by (auto simp: assms(7))
    have u: "q' = q" if "q' \<in> peers" "n_IPv4 q' = V4 x" for q'
      using that q v4 by (auto simp: assms(7) distinct_map inj_on_def)
    have "List.find ?P (ranged ks (d_peers d')) = Some pi"
      by (rule find_ranged [where P = ?P, OF assms(6) pi m(1)]) (use P u in blast)
    with m show ?thesis by (simp add: peerNameByAddr_def)
  qed
  moreover have "handlePut io t s r body fs = (s, fs, OdError 403 (ErrMsg ''unknown peer''))" if "V4 x \<notin> n_IPv4 ` peers"
  proof -
    have "List.find ?P (ranged ks (d_peers d')) = None"
      by (rule find_ranged_none) (use P that in force)
    then have "peerNameByAddr ks d' (V4 x) = []" by (simp add: peerNameByAddr_def)
    then have "od_sender s r = Inl (ErrMsg ''unknown peer'')"
      by (simp add: od_sender_def assms(8,9) od_NewServer_def remote_addr_split del: addr_port_text.simps)
    then show ?thesis
      by (simp add: handlePut_def)
  qed
  ultimately show ?thesis by blast
qed

section \<open>Access rules\<close>

text \<open>Programming peers leaves the packet filter of the userspace engine alone.\<close>

definition eng_tun :: "('dev userspaceEngine, 'os, 'c) Daemon \<Rightarrow> filterTUN option" where
  "eng_tun d = map_option ue_ftun (d_engine d)"

lemma eng_tun_update [simp]:
  "eng_tun (d\<lparr>d_peers := ps\<rparr>) = eng_tun d" "eng_tun (d\<lparr>d_exitCli := ec\<rparr>) = eng_tun d" "eng_tun (d\<lparr>d_connmgr := cm\<rparr>) = eng_tun d"
  by (simp_all add: eng_tun_def)

lemma eng_tun_cong: "d_engine d' = d_engine d \<Longrightarrow> eng_tun d' = eng_tun d"
  by (simp add: eng_tun_def)

lemma ue_SetPeers_tun [simp]: "ue_ftun (fst (ue_SetPeers ipc cfgs e)) = ue_ftun e"
  by (simp add: ue_SetPeers_def ue_ipc_def split: prod.splits)

lemma syncPeers_tun: "ml_eng lib = userspace_ops ipc \<Longrightarrow> eng_tun (syncPeers lib ord d) = eng_tun d"
  by (simp add: eng_tun_def syncPeers_def refreshPeerStatusLocked_def Let_def userspace_ops_def split: option.splits)

lemma onPathUpdate_tun: "ml_eng lib = userspace_ops ipc \<Longrightarrow> eng_tun (onPathUpdate lib ord u d) = eng_tun d"
  by (simp add: onPathUpdate_def Let_def syncPeers_tun split: option.splits)

lemma fold_onPathUpdate_tun: "ml_eng lib = userspace_ops ipc \<Longrightarrow> eng_tun (fold (onPathUpdate lib ord) us d) = eng_tun d"
  by (induction us arbitrary: d) (simp_all add: onPathUpdate_tun)

lemma apply_paths_tun: "ml_eng lib = userspace_ops ipc \<Longrightarrow> eng_tun (apply_paths lib ord stun online d) = eng_tun d"
  by (simp add: apply_paths_def Let_def fold_onPathUpdate_tun split: option.splits)

lemma ensureRelay_engine: "(d_engine (ensureRelay lib ord urls d) = None) = (d_engine d = None)"
  by (simp add: ensureRelay_def syncPeers_def refreshPeerStatusLocked_def Let_def split: option.splits list.splits)

lemma applyNetMap_tun:
  assumes "ml_eng lib = userspace_ops ipc" and "d_engine d \<noteq> None" and "applyNetMap lib ord0 ord now nm d = (d', Inr ())"
  shows "\<exists>t. eng_tun d' = Some t \<and> ft_f t = FromProto (nm_Filter nm) (nm_FilterEnabled nm)"
proof -
  from assms(2,3) obtain e1 dx online stun where
    "d' = apply_paths lib ord stun online (applyOverdrop lib (applyRoutes lib ord nm (applyDNS lib nm (applyFilter lib nm e1 dx))))"
    by (auto simp: applyNetMap_def Let_def ensureRelay_engine split: option.splits sum.splits prod.splits if_splits)
  then have "eng_tun d' = Some (ue_ftun (eo_SetFilter (ml_eng lib) (FromProto (nm_Filter nm) (nm_FilterEnabled nm)) e1))"
    by (simp add: apply_paths_tun [OF assms(1)]) (simp add: eng_tun_def)
  then show ?thesis
    by (simp add: assms(1) userspace_ops_def ue_SetFilter_def setFilter_def)
qed

lemma filter_decision:
  assumes "buildNetMapLocked flt c n = Inr nm" and "ACL flt (c_st c) (n_NetworkID n) = Inr rules"
    and "NodesInNetwork flt (c_st c) (n_NetworkID n) = Inr nodes" and "node_addrs_ok nodes" and "list_all ports_valid rules"
  shows "AllowsPacket (FromProto (nm_Filter nm) (nm_FilterEnabled nm)) pkt = Some (rules = [] \<or> (case parse_packet pkt of
      Some (src, proto, port, True) \<Rightarrow> acl_decision nodes (n_ID n) rules (src, proto, port) | _ \<Rightarrow> False))"
proof -
  have c: "CompileFilterForNode flt (c_st c) n = Inr (nm_Filter nm, nm_FilterEnabled nm)"
    using assms(1) by (auto simp: buildNetMapLocked_def split: sum.splits)
  then have e: "nm_FilterEnabled nm = (rules \<noteq> [])"
    using assms(2,3) by (auto simp: CompileFilterForNode_def split: if_splits)
  obtain src proto port ok where p: "parse_packet pkt = Some (src, proto, port, ok)"
    using parse_packet_returns [of pkt] by auto
  show ?thesis
  proof (cases "rules = [] \<or> \<not> ok")
    case True
    with e p show ?thesis
      by (auto simp: AllowsPacket_def FromProto_def filter_New_def)
  next
    case False
    with p compiled_filter_decides [OF c assms(2-5)] show ?thesis by simp
  qed
qed

text \<open>Claim C1. Access rules are enforced end to end: once a node that runs the userspace engine has applied the netmap
  the coordinator built for it, a batch of packets from the tunnel is handed to the operating system without exactly
  those the network's rules deny. The packet's source address stands for the devices that own it, the first rule that
  applies to source, receiver, protocol and port decides, a packet that no rule applies to or that does not parse
  is dropped, and a network without rules lets everything through. The order of the packets is kept.\<close>

theorem access_rules_enforced:
  assumes "buildNetMapLocked flt c n = Inr nm" and "ACL flt (c_st c) (n_NetworkID n) = Inr rules"
    and "NodesInNetwork flt (c_st c) (n_NetworkID n) = Inr nodes" and "node_addrs_ok nodes" and "list_all ports_valid rules"
    and "ml_eng lib = userspace_ops ipc" and "d_engine d \<noteq> None" and "applyNetMap lib ord0 ord now nm d = (d', Inr ())"
    and "list_all (\<lambda>b. offset \<le> length b) bufs"
  shows "\<exists>e passed res. d_engine d' = Some e \<and> tun_Write dev (ue_ftun e) bufs offset = Some (passed, res) \<and>
    (case passed of None \<Rightarrow> [] | Some ps \<Rightarrow> ps) = filter (\<lambda>b. rules = [] \<or> (case parse_packet (drop offset b) of
      Some (src, proto, port, True) \<Rightarrow> acl_decision nodes (n_ID n) rules (src, proto, port) | _ \<Rightarrow> False)) bufs"
proof -
  from applyNetMap_tun [OF assms(6-8)] obtain e where e: "d_engine d' = Some e"
    "ft_f (ue_ftun e) = FromProto (nm_Filter nm) (nm_FilterEnabled nm)" by (auto simp: eng_tun_def)
  then obtain f where f: "ft_f (ue_ftun e) = Some f" by (simp add: FromProto_def filter_New_def)
  with e(2) filter_decision [OF assms(1-5)] have "AllowsPacket (Some f) pkt = Some (rules = [] \<or> (case parse_packet pkt of
      Some (src, proto, port, True) \<Rightarrow> acl_decision nodes (n_ID n) rules (src, proto, port) | _ \<Rightarrow> False))" for pkt by simp
  with tun_Write_kept [OF assms(9) f, of dev] e(1) show ?thesis
    by (auto simp: Let_def split: prod.splits)
qed

section \<open>Names\<close>

lemma AList_update_new: "k \<notin> fst ` set al \<Longrightarrow> AList.update k v al = al @ [(k, v)]"
  by (induction al) auto

definition has_record :: "string \<times> string list \<Rightarrow> bool" where
  "has_record e \<longleftrightarrow> fst e \<noteq> [] \<and> dns_addrs (snd e) \<noteq> []"

lemma dns_add_fold:
  "distinct (map fst es) \<Longrightarrow> fst ` set es \<inter> fst ` set recs = {} \<Longrightarrow>
   fold dns_add es recs = recs @ map (\<lambda>e. (fst e, dns_addrs (snd e))) (filter has_record es)"
proof (induction es arbitrary: recs)
  case (Cons e es)
  then have "dns_add e recs = recs @ (if has_record e then [(fst e, dns_addrs (snd e))] else [])"
    by (auto simp: dns_add_def has_record_def AList_update_new)
  with Cons show ?case by auto
qed simp

definition dns_entries :: "NetMap \<Rightarrow> (string \<times> string list) list" where
  "dns_entries nm = (pbn_Hostname (nm_Self nm), pbn_OverlayIps (nm_Self nm)) # map (\<lambda>p. (pbp_Hostname p, pbp_OverlayIps p)) (nm_Peers nm)"

lemma dns_records_eq:
  assumes "distinct (map (\<lambda>e. to_lower (fst e)) (dns_entries nm))"
  shows "dns_records nm = map (\<lambda>e. (fst e, dns_addrs (snd e))) (filter has_record (dns_entries nm))"
proof -
  have "distinct (map fst (dns_entries nm))"
    using assms by (auto simp: distinct_map inj_on_def)
  then show ?thesis
    using dns_add_fold [of "dns_entries nm" "[]"] by (simp add: dns_records_def dns_entries_def)
qed

text \<open>The resolver after a netmap: an entry has its addresses, a name without entry nothing.\<close>

definition dns_map :: "NetMap \<Rightarrow> (string \<times> Addr list option) list" where
  "dns_map nm = map (map_prod (\<lambda>h. h) Some) (dns_records nm)"

lemma resolver_records:
  assumes "distinct (map (\<lambda>e. to_lower (fst e)) (dns_entries nm))"
  shows "e \<in> set (dns_entries nm) \<Longrightarrow> has_record e \<Longrightarrow>
      md_records (SetRecords lib domain (dns_map nm) s) (to_lower (fst e)) = Some (dns_addrs (snd e))"
    and "h \<notin> (\<lambda>e. to_lower (fst e)) ` set (dns_entries nm) \<Longrightarrow> md_records (SetRecords lib domain (dns_map nm) s) h = None"
proof -
  have m: "dns_map nm = map (\<lambda>e. (fst e, Some (dns_addrs (snd e)))) (filter has_record (dns_entries nm))"
    by (simp add: dns_map_def dns_records_eq [OF assms])
  have "map (\<lambda>(h, _). to_lower h) (dns_map nm) = map (\<lambda>e. to_lower (fst e)) (filter has_record (dns_entries nm))"
    by (simp add: m)
  then have "distinct (map (\<lambda>(h, _). to_lower h) (dns_map nm))"
    using distinct_map_filter [OF assms] by simp
  then show "e \<in> set (dns_entries nm) \<Longrightarrow> has_record e \<Longrightarrow>
      md_records (SetRecords lib domain (dns_map nm) s) (to_lower (fst e)) = Some (dns_addrs (snd e))"
    by (intro SetRecords_lookup) (auto simp: m)
  show "h \<notin> (\<lambda>e. to_lower (fst e)) ` set (dns_entries nm) \<Longrightarrow> md_records (SetRecords lib domain (dns_map nm) s) h = None"
    by (intro SetRecords_absent) (auto simp: m)
qed

lemma applyNetMap_dns:
  assumes "d_engine d \<noteq> None" and "applyNetMap lib ord0 ord now nm d = (d', Inr ())" and "nm_Dns nm = Some domain" and "domain \<noteq> []"
    and "addr_is_valid (d_selfV4 d)"
  shows "\<exists>s. d_dnsSrv d' = Some (SetRecords (ml_dns lib) domain (dns_map nm) s) \<and> d_panic d' = d_panic d"
proof -
  from assms(1,2) obtain e1 dx online stun where
    d': "d' = apply_paths lib ord stun online (applyOverdrop lib (applyRoutes lib ord nm (applyDNS lib nm (applyFilter lib nm e1 dx))))"
    and dx: "d_selfV4 dx = d_selfV4 d" "d_panic dx = d_panic d"
    by (auto simp: applyNetMap_def Let_def ensureRelay_engine split: option.splits sum.splits prod.splits if_splits)
  then show ?thesis
    using assms(3-5) by (auto simp: applyDNS_def Let_def dns_map_def split: option.splits)
qed

lemma netmap_entries:
  assumes "NodesInNetwork flt (c_st c) (n_NetworkID n) = Inr ns" and "buildNetMapLocked flt c n = Inr nm"
  shows "dns_entries nm = map (\<lambda>q. (n_Hostname q, overlayCIDRs q)) (n # filter (\<lambda>p. n_ID p \<noteq> n_ID n \<and> key_parses p) ns)"
proof -
  have "pbn_Hostname (nm_Self nm) = n_Hostname n"
    using assms(2) by (auto simp: buildNetMapLocked_def split: sum.splits)
  with buildNetMap_peers [OF assms(2,1)] show ?thesis
    by (simp add: dns_entries_def netmap_peers_eq peer_of_def)
qed

lemma split_on_mem: "c \<in> set s \<Longrightarrow> c \<noteq> sep \<Longrightarrow> \<exists>f\<in>set (split_on sep s). c \<in> set f"
  by (induction s) (force split: list.splits)+

lemma all_some_None: "None \<in> set xs \<Longrightarrow> all_some xs = None"
  by (induction xs rule: all_some.induct) auto

lemma parse_addr_slash: "parse_addr (t @ ''/128'') = Some a \<Longrightarrow> \<not> addr_is4 a"
proof -
  obtain f where f: "f \<in> set (split_on CHR ''.'' (t @ ''/128''))" "CHR ''/'' \<in> set f"
    using split_on_mem [of "CHR ''/''" "t @ ''/128''" "CHR ''.''"] by auto
  moreover have "\<not> is_digit CHR ''/''" by code_simp
  ultimately have "octet_of f = None"
    unfolding octet_of_def list_all_iff by auto
  with f(1) have "parse_ipv4 (t @ ''/128'') = None"
    by (simp add: parse_ipv4_def parse_ipv4_fields_def all_some_None image_iff bexI [of _ f])
  then show "parse_addr (t @ ''/128'') = Some a \<Longrightarrow> \<not> addr_is4 a"
    by (auto simp: parse_addr_def parse_ipv6_def split: option.splits if_splits prod.splits)
qed

lemma node_dns_addrs:
  assumes "n_IPv4 q = V4 x"
  shows "\<exists>rest. dns_addrs (overlayCIDRs q) = V4 x # rest \<and> (\<forall>a\<in>set rest. \<not> addr_is4 a)"
  using v6_prefix_parse [of "addr_text (n_IPv6 q)"] parse_addr_slash [of "addr_text (n_IPv6 q)"] assms
  by (auto simp: dns_addrs_def overlayCIDRs_def List.map_filter_simps host_prefix_parse split: option.splits)

lemma v4_answer:
  assumes "q_Qtype qu = TypeA" and "\<forall>a\<in>set rest. \<not> addr_is4 a"
  shows "concat (map (answer_rr qu) (V4 x # rest)) = [RR_A (q_Name qu) 60 (as_slice (V4 x))]"
proof -
  have "concat (map (answer_rr qu) rest) = []"
    using assms by (auto simp: answer_rr_def dns_consts)
  then show ?thesis
    using assms(1) by (simp add: answer_rr_def)
qed

text \<open>Claim C11. Names resolve across the mesh: when the daemon of node \<open>n\<close> has applied the coordinator's netmap, its resolver
  answers the query for the IPv4 address of \<open>host.network.base\<close> with exactly the overlay address of the node of that
  name, itself included, whatever the case of the letters. A name of the zone that no node has does not exist, and
  names outside the zone are refused. This needs hostnames that differ in more than case, and the resolver never
  meets a missing server.\<close>

theorem names_resolve:
  assumes "dns_ok (ml_dns lib)" and "reachable coord_init coord_step c" and "NodesInNetwork flt (c_st c) (n_NetworkID n) = Inr ns"
    and "n \<in> set ns" and "buildNetMapLocked flt c n = Inr nm" and "nm_Dns nm = Some domain" and "CHR 0x5C \<notin> set domain"
    and "distinct (map (\<lambda>q. to_lower (n_Hostname q)) ns)"
    and "d_engine d \<noteq> None" and "addr_is_valid (d_selfV4 d)" and "applyNetMap lib ord0 ord now nm d = (d', Inr ())"
    and "dm_Question req = [qu]" and "zone = zone_of domain"
  shows "d_panic d' = d_panic d \<and> (\<exists>srv. d_dnsSrv d' = Some srv \<and>
    (\<forall>q\<in>set ns. (q = n \<or> key_parses q) \<and> n_Hostname q \<noteq> [] \<and> CHR ''.'' \<notin> set (n_Hostname q) \<and> q_Qtype qu = TypeA \<and>
        to_lower (q_Name qu) = to_lower (n_Hostname q) @ ''.'' @ zone \<longrightarrow>
        dns_handle (ml_dns lib) srv req =
          (reply_to req RcodeSuccess)\<lparr>dm_Authoritative := True, dm_Answer := [RR_A (q_Name qu) 60 (as_slice (n_IPv4 q))]\<rparr>) \<and>
    (\<forall>h. h \<notin> (\<lambda>q. to_lower (n_Hostname q)) ` set ns \<and> to_lower (q_Name qu) = h @ ''.'' @ zone \<longrightarrow>
        dns_handle (ml_dns lib) srv req = (reply_to req RcodeNameError)\<lparr>dm_Authoritative := True\<rparr>) \<and>
    (to_lower (q_Name qu) \<noteq> zone \<and> \<not> has_suffix (to_lower (q_Name qu)) (''.'' @ zone) \<longrightarrow>
        dns_handle (ml_dns lib) srv req = reply_to req RcodeRefused))"
proof -
  note inv = coord_sys.reachable_inv [OF assms(2)]
  have "domain \<noteq> []"
    using assms(5,6) by (auto simp: buildNetMapLocked_def split: sum.splits if_splits)
  from applyNetMap_dns [OF assms(9,11,6) this assms(10)] obtain s where
    d': "d_dnsSrv d' = Some (SetRecords (ml_dns lib) domain (dns_map nm) s)" "d_panic d' = d_panic d" by blast
  let ?srv = "SetRecords (ml_dns lib) domain (dns_map nm) s"
  have z: "md_zone ?srv = zone"
    using SetRecords_zone [OF assms(1,7)] assms(13) by simp
  note es = netmap_entries [OF assms(3,5)]
  have ids: "distinct (map n_ID ns)" by (rule NodesInNetwork_ids(2) [OF coord_invD(1) [OF inv] assms(3)])
  have "distinct (map (\<lambda>q. to_lower (n_Hostname q)) (n # filter (\<lambda>p. n_ID p \<noteq> n_ID n \<and> key_parses p) ns))"
    using assms(4,8) by (auto simp: distinct_map inj_on_def)
  then have dist: "distinct (map (\<lambda>e. to_lower (fst e)) (dns_entries nm))"
    unfolding es by (simp add: comp_def)
  note zz = zone_of_nonempty [of domain, folded assms(13), folded z]
  have host: "dns_handle (ml_dns lib) ?srv req =
      (reply_to req RcodeSuccess)\<lparr>dm_Authoritative := True, dm_Answer := [RR_A (q_Name qu) 60 (as_slice (n_IPv4 q))]\<rparr>"
    if q: "q \<in> set ns" "q = n \<or> key_parses q" "n_Hostname q \<noteq> []" "CHR ''.'' \<notin> set (n_Hostname q)" "q_Qtype qu = TypeA"
      "to_lower (q_Name qu) = to_lower (n_Hostname q) @ ''.'' @ zone" for q
  proof -
    from peer_node_v4 [OF inv assms(3) q(1)] obtain x where x: "n_IPv4 q = V4 x" by blast
    from node_dns_addrs [OF x] obtain rest where rest: "dns_addrs (overlayCIDRs q) = V4 x # rest" "\<forall>a\<in>set rest. \<not> addr_is4 a" by blast
    have "q = n \<or> n_ID q \<noteq> n_ID n"
      using q(1) assms(4) ids by (auto simp: distinct_map inj_on_def)
    then have "(n_Hostname q, overlayCIDRs q) \<in> set (dns_entries nm)"
      unfolding es using q(1,2) by auto
    with resolver_records(1) [OF dist, of "(n_Hostname q, overlayCIDRs q)"] q(3) rest(1)
    have "md_records ?srv (to_lower (n_Hostname q)) = Some (V4 x # rest)"
      by (simp add: has_record_def)
    moreover have "CHR ''.'' \<notin> set (to_lower (n_Hostname q))"
      using q(4) by simp
    ultimately show ?thesis
      using handle_host [OF assms(1,12) zz, of "to_lower (n_Hostname q)"] q(6) z v4_answer [OF q(5) rest(2)] x by simp
  qed
  have absent: "dns_handle (ml_dns lib) ?srv req = (reply_to req RcodeNameError)\<lparr>dm_Authoritative := True\<rparr>"
    if "h \<notin> (\<lambda>q. to_lower (n_Hostname q)) ` set ns" "to_lower (q_Name qu) = h @ ''.'' @ zone" for h
  proof -
    have "h \<notin> (\<lambda>e. to_lower (fst e)) ` set (dns_entries nm)"
      unfolding es using that(1) assms(4) by auto
    then show ?thesis
      using handle_host [OF assms(1,12) zz, of h] that(2) z resolver_records(2) [OF dist] by simp
  qed
  from d' z host absent handle_refused [OF assms(1,12), of ?srv] show ?thesis by blast
qed

section \<open>Key rotation\<close>

text \<open>What rotation relies on of the engine: setting a key sets it or fails and changes nothing, and programming peers
  does not touch it. \<open>keyof\<close> is the private key the device uses.\<close>

definition key_engine :: "'e engine_ops \<Rightarrow> ('e \<Rightarrow> byte list) \<Rightarrow> bool" where
  "key_engine ops keyof \<longleftrightarrow>
     (\<forall>k e e' r. eo_SetPrivateKey ops k e = (e', r) \<longrightarrow> keyof e' = (if r = Inr () then k else keyof e)) \<and>
     (\<forall>cfgs e. keyof (fst (eo_SetPeers ops cfgs e)) = keyof e)"

definition eng_key :: "('e \<Rightarrow> byte list) \<Rightarrow> ('e, 'os, 'c) Daemon \<Rightarrow> byte list option" where
  "eng_key keyof d = map_option keyof (d_engine d)"

lemma syncPeers_key: "key_engine (ml_eng lib) keyof \<Longrightarrow> eng_key keyof (syncPeers lib ord d) = eng_key keyof d"
  by (simp add: eng_key_def syncPeers_def refreshPeerStatusLocked_def Let_def key_engine_def split: option.splits)

lemma ensureRelay_key:
  assumes "key_engine (ml_eng lib) keyof"
  shows "eng_key keyof (ensureRelay lib ord urls d) = eng_key keyof d"
proof -
  have u: "eng_key keyof (d\<lparr>d_lastRelays := x, d_bind := b, d_relayCli := r\<rparr>) = eng_key keyof d" "eng_key keyof (d\<lparr>d_lastRelays := x\<rparr>) = eng_key keyof d" for x b r
    by (simp_all add: eng_key_def)
  show ?thesis
    by (simp add: ensureRelay_def Let_def syncPeers_key [OF assms] u split: option.splits list.splits)
qed

lemma ensureRelay_client:
  "d_relayCli d = None \<Longrightarrow> d_relayCli (ensureRelay lib ord urls d) = Some rl \<Longrightarrow> rc_priv (rl_cli rl) = npriv_k (sj_nodePriv (d_state d))"
  by (auto simp: ensureRelay_def Let_def relay_NewClient_def split: option.splits list.splits)

lemma save_state_frame [simp]:
  "d_state (fst (save_state io d)) = d_state d" "d_engine (fst (save_state io d)) = d_engine d" "d_relayCli (fst (save_state io d)) = d_relayCli d"
  "d_lastRelays (fst (save_state io d)) = d_lastRelays d"
  by (simp_all add: save_state_def split: prod.splits)

lemma rotated_result:
  assumes "key_engine (ml_eng lib) keyof" and "rotated lib io now ord nk d = (d', r)"
  shows "d_state d' = SetNodeKey nk now (d_state d)" and "eng_key keyof d' = eng_key keyof d"
    and "r = Inr () \<Longrightarrow> sd_file (d_dir d') = Saved (state_json.truncate (d_state d'))"
    and "r = Inr () \<Longrightarrow> d_relayCli d' = Some rl \<Longrightarrow> rc_priv (rl_cli rl) = npriv_k nk"
    and "r \<noteq> Inr () \<Longrightarrow> \<exists>e. r = Inl (ErrWrap ''key rotated but state save failed: %w'' e)"
proof -
  obtain d1 saved where s: "save_state io (d\<lparr>d_state := SetNodeKey nk now (d_state d)\<rparr>) = (d1, saved)" by (rule prod.exhaust)
  have d1: "d_state d1 = SetNodeKey nk now (d_state d)" "d_engine d1 = d_engine d"
    using save_state_frame(1,2) [of io "d\<lparr>d_state := SetNodeKey nk now (d_state d)\<rparr>"] s by simp_all
  have f: "saved = Inr () \<Longrightarrow> sd_file (d_dir d1) = Saved (state_json.truncate (d_state d1))"
    using s State_Save_atomic [of io "SetNodeKey nk now (d_state d)" "d_dir d"] d1(1) by (auto simp: save_state_def split: prod.splits)
  have n: "sj_nodePriv (SetNodeKey nk now (d_state d)) = nk"
    by (simp add: SetNodeKey_def)
  let ?d2 = "d1\<lparr>d_relayCli := None\<rparr>"
  have k: "eng_key keyof ?d2 = eng_key keyof d"
    by (simp add: eng_key_def d1)
  show "d_state d' = SetNodeKey nk now (d_state d)" and "eng_key keyof d' = eng_key keyof d"
    and "r = Inr () \<Longrightarrow> sd_file (d_dir d') = Saved (state_json.truncate (d_state d'))"
    and "r \<noteq> Inr () \<Longrightarrow> \<exists>e. r = Inl (ErrWrap ''key rotated but state save failed: %w'' e)"
    using assms(2) s d1 f k by (auto simp: rotated_def Let_def ensureRelay_key [OF assms(1)] split: sum.splits if_splits)
  show "rc_priv (rl_cli rl) = npriv_k nk" if "r = Inr ()" "d_relayCli d' = Some rl"
    using assms(2) s that ensureRelay_client [of ?d2 lib ord "d_lastRelays d1" rl] d1(1) n
    by (auto simp: rotated_def Let_def split: sum.splits if_splits)
qed


section \<open>The path ladder\<close>

lemma peer_config_fields:
  "pc_PublicKey (peer_config up x pi) = pi_pubKey pi"
  "pc_AllowedIPs (peer_config up x pi) = pi_allowed pi @ pi_subnetRoutes pi @ (if pi_nodeID pi = x then pi_exitRoutes pi else [])"
  by (simp_all add: peer_config_def Let_def split: list.splits)

lemma no_addr_port_invalid [simp]: "\<not> ap_valid no_addr_port"
  by (simp add: ap_valid_def no_addr_port_def)

definition routes_split :: "peerInfo \<Rightarrow> bool" where
  "routes_split pi \<longleftrightarrow> length (pi_pubKey pi) = 32 \<and> list_all (\<lambda>r. prefix_bits r \<noteq> 0) (pi_allowed pi @ pi_subnetRoutes pi)"

text \<open>The rung of the ladder a configured peer is on: its direct path, or the relay's text for it.\<close>

definition on_ladder :: "peerInfo \<Rightarrow> PeerConfig \<Rightarrow> bool" where
  "on_ladder pi pc \<longleftrightarrow> pc_PublicKey pc = pi_pubKey pi \<and> set (pi_allowed pi) \<subseteq> set (pc_AllowedIPs pc) \<and>
     (if pi_path pi = PathDirect \<and> ap_valid (pi_pathEP pi) then pc_Endpoint pc = pi_pathEP pi
      else \<not> ap_valid (pc_Endpoint pc) \<and> ParseEndpoint (pc_RelayEndpoint pc) = Inr (RelayEP (pi_pubKey pi)))"

text \<open>Claim C18. Every online peer is reachable while the relay link is up, and only the chosen exit node gets default
  routes: in any table of peers with whole keys and split routes, walked in any order, an online peer is programmed with
  its own key and overlay addresses and with an endpoint, its direct path if it has one and else the relay's text, which
  the shared socket reads back as this peer's relay endpoint. Without a relay, a peer is left out of the
  configuration only when it has no direct path and no readable static endpoint. A configured default route belongs to the exit node's
  peer entry.\<close>

theorem path_ladder:
  assumes "set ks = dom (d_peers d)" and "d_peers d m = Some pi" and "routes_split pi"
  shows "(relay_up d \<and> pi_online pi \<or> pi_path pi = PathDirect \<and> ap_valid (pi_pathEP pi) \<longrightarrow>
      (\<exists>pc\<in>set (buildPeerConfigsLocked ks d). on_ladder pi pc)) \<and>
    (peer_config (relay_up d) (d_exitPeerID d) pi \<notin> set (buildPeerConfigsLocked ks d) \<longrightarrow>
      List.map_filter parse_addr_port (pi_staticEPs pi) = [] \<and> \<not> (relay_up d \<and> pi_online pi)) \<and>
    (\<forall>r\<in>set (pc_AllowedIPs (peer_config (relay_up d) (d_exitPeerID d) pi)). prefix_bits r = 0 \<longrightarrow> pi_nodeID pi = d_exitPeerID d \<and> r \<in> set (pi_exitRoutes pi))"
proof -
  let ?pc = "peer_config (relay_up d) (d_exitPeerID d) pi"
  have "pi \<in> set (ranged ks (d_peers d))"
    unfolding ranged_mem using assms(1,2) by blast
  then have mem: "?pc \<in> set (buildPeerConfigsLocked ks d) \<longleftrightarrow> ap_valid (pc_Endpoint ?pc) \<or> pc_RelayEndpoint ?pc \<noteq> []"
    by (auto simp: buildPeerConfigsLocked_def)
  have rel: "RelayEndpointString (pi_pubKey pi) \<noteq> []" "ParseEndpoint (RelayEndpointString (pi_pubKey pi)) = Inr (RelayEP (pi_pubKey pi))"
    using assms(3) by (simp add: RelayEndpointString_def relayEndpointPrefix_def) (use assms(3) in \<open>simp add: routes_split_def parse_relay_endpoint\<close>)
  have static: "ap_valid ap" if "List.map_filter parse_addr_port eps = ap # aps" for ap aps eps
  proof -
    have "ap \<in> set (List.map_filter parse_addr_port eps)" using that by simp
    then obtain e where "parse_addr_port e = Some ap" by (auto simp: List.map_filter_def)
    then show ?thesis
      by (auto simp: parse_addr_port_def ap_valid_def Let_def dest: parse_addr_valid split: option.splits if_splits prod.splits)
  qed
  consider "pi_path pi = PathDirect \<and> ap_valid (pi_pathEP pi)" | "\<not> (pi_path pi = PathDirect \<and> ap_valid (pi_pathEP pi))" "relay_up d \<and> pi_online pi"
    | "\<not> (pi_path pi = PathDirect \<and> ap_valid (pi_pathEP pi))" "\<not> (relay_up d \<and> pi_online pi)" by blast
  then have ladder: "(relay_up d \<and> pi_online pi \<or> pi_path pi = PathDirect \<and> ap_valid (pi_pathEP pi) \<longrightarrow>
        ?pc \<in> set (buildPeerConfigsLocked ks d) \<and> on_ladder pi ?pc) \<and>
      (?pc \<notin> set (buildPeerConfigsLocked ks d) \<longrightarrow> List.map_filter parse_addr_port (pi_staticEPs pi) = [] \<and> \<not> (relay_up d \<and> pi_online pi))"
    using rel static unfolding mem by cases (auto simp: on_ladder_def peer_config_def Let_def split: list.splits)
  have exit: "pi_nodeID pi = d_exitPeerID d \<and> r \<in> set (pi_exitRoutes pi)" if "r \<in> set (pc_AllowedIPs ?pc)" "prefix_bits r = 0" for r
    using that assms(3) by (auto simp: peer_config_fields routes_split_def list_all_iff split: if_splits)
  from ladder exit show ?thesis by blast
qed

section \<open>Sending signals\<close>

text \<open>What one manager sends is what the other is called with, once the coordinator has stamped the sender.\<close>

lemma splitCreds_payload:
  assumes "CHR 0x0A \<notin> set ufrag" and "ufrag \<noteq> []" and "pwd \<noteq> []"
  shows "splitCreds (creds_payload ufrag pwd) = Some (ufrag, pwd)"
proof -
  have "cut (ufrag @ CHR 0x0A # pwd) CHR 0x0A = (ufrag, pwd, True)"
    using assms(1) by (intro cut_sep) auto
  then show ?thesis
    using assms by (simp add: splitCreds_def creds_payload_def nl_def)
qed

lemma signal_roundtrip:
  assumes "CHR 0x0A \<notin> set ufrag" and "ufrag \<noteq> []" and "pwd \<noteq> []"
  shows "receive_signal ((envelope_of (SigOffer to s ufrag pwd))\<lparr>se_FromNodeId := from\<rparr>) = Some (EvOffer from s ufrag pwd)"
    and "receive_signal ((envelope_of (SigAnswer to s ufrag pwd))\<lparr>se_FromNodeId := from\<rparr>) = Some (EvAnswer from s ufrag pwd)"
    and "receive_signal ((envelope_of (SigCandidate to s cd))\<lparr>se_FromNodeId := from\<rparr>) = Some (EvCandidate from s cd)"
  using splitCreds_payload [OF assms] by (simp_all add: receive_signal_def)

section \<open>A sample mesh\<close>

text \<open>Two nodes of one network, laptop and phone, and a rule that lets the laptop reach port 22 of every node.\<close>

definition sample_key :: "byte \<Rightarrow> string" where
  "sample_key b = NodePublic_String (NodePublic (replicate 32 b))"

definition laptop :: Node where
  "laptop = \<lparr>n_ID = 1, n_NetworkID = 1, n_Hostname = ''laptop'', n_MachineKey = ''mkey:01'', n_NodeKey = sample_key 1,
     n_IPv4 = V4 0x64600001, n_IPv6 = V6 0xfdab3f19000000000000000000000001 [], n_OS = ''linux'', n_Endpoints = [],
     n_CreatedAt = Some 5000000000, n_LastSeen = None, n_OwnerUserID = 1\<rparr>"

definition phone :: Node where
  "phone = \<lparr>n_ID = 2, n_NetworkID = 1, n_Hostname = ''Phone'', n_MachineKey = ''mkey:02'', n_NodeKey = sample_key 2,
     n_IPv4 = V4 0x64600002, n_IPv6 = V6 0xfdab3f19000000000000000000000002 [], n_OS = ''ios'', n_Endpoints = [],
     n_CreatedAt = Some 5000000000, n_LastSeen = None, n_OwnerUserID = 1\<rparr>"

definition ssh_rule :: ACLRule where
  "ssh_rule = \<lparr>acl_ID = 1, acl_Action = ''allow'', acl_SrcIDs = [1], acl_DstIDs = [], acl_Protocol = ''tcp'', acl_Ports = [''22'']\<rparr>"

definition sample_row :: "Node \<Rightarrow> NodeRow" where
  "sample_row n = \<lparr>nr_id = n_ID n, nr_network_id = n_NetworkID n, nr_hostname = n_Hostname n, nr_machine_key = n_MachineKey n,
     nr_node_key = n_NodeKey n, nr_ipv4 = addr_text (n_IPv4 n), nr_ipv6 = addr_text (n_IPv6 n), nr_os = n_OS n, nr_endpoints = [],
     nr_created_at = 5, nr_last_seen = 0, nr_owner_user_id = n_OwnerUserID n\<rparr>"

definition mesh_store :: Store where
  "mesh_store = sample_store\<lparr>st_nodes := \<lparr>tbl_rows = [sample_row laptop, sample_row phone], tbl_seq = 2\<rparr>,
     st_acl_rules := \<lparr>tbl_rows = [acl_row (1, 0, 5, ssh_rule) 1], tbl_seq = 1\<rparr>\<rparr>"

definition mesh_coord :: Coordinator where
  "mesh_coord = coord_start mesh_store [] [] ''mesh''"

lemma mesh_hydrate: "hydrateNode (sample_row laptop) = Inr laptop" "hydrateNode (sample_row phone) = Inr phone"
  by (simp_all add: sample_row_def laptop_def phone_def hydrateNode_def parse_addr_text no_zone_def time_unix_def)

lemma mesh_store_ok: "store_ok mesh_store"
proof -
  have s: "store_ok sample_store" by (rule sample_store_ok)
  have a: "acl_ok mesh_store"
    by (simp add: acl_ok_def mesh_store_def sample_store_def tbl_ok_def acl_row_def)
  have n: "nodes_ok mesh_store"
    using mesh_hydrate by (auto simp: nodes_ok_def mesh_store_def sample_store_def tbl_ok_def sample_row_def laptop_def phone_def network_tbl.rid_mk)
  have o: "networks_ok mesh_store" "setup_keys_ok mesh_store" "routes_ok mesh_store" "users_ok mesh_store" "audit_ok mesh_store"
    using s by (auto simp: store_ok_defs mesh_store_def sample_store_def empty_store_def empty_table_def)
  from a n o show ?thesis by (simp add: store_ok_def)
qed

lemma phone_assignable: "V4 0x64600002 \<in> prefix_assignable (masked (Pfx (V4 0x64600000) 11))"
proof -
  have "prefix_contains (masked (Pfx (V4 0x64600000) 11)) (V4 0x64600002)" by code_simp
  moreover have "V4 0x64600002 \<noteq> prefix_addr (masked (Pfx (V4 0x64600000) 11))" by code_simp
  moreover have "V4 0x64600002 \<noteq> lastAddr (masked (Pfx (V4 0x64600000) 11))" by code_simp
  ultimately show ?thesis by (simp add: prefix_assignable_def)
qed

lemma mesh_reachable: "reachable coord_init coord_step mesh_coord"
proof (rule reachable_init)
  have "assigned mesh_store i = (if i = 1 then [addr_text (V4 0x64600001), addr_text (V4 0x64600002)] else [])" for i
    by (simp add: assigned_def mesh_store_def sample_row_def laptop_def phone_def)
  moreover have "net_prefixes mesh_store 1 = Some (Pfx (V4 0x64600000) 11, Pfx (V6 0xfdab3f19000000000000000000000000 []) 48)"
    using sample_prefixes by (simp add: net_prefixes_def mesh_store_def)
  ultimately have "addrs_ok mesh_store"
    using sample_node_assignable phone_assignable by (auto simp: addrs_ok_def)
  then show "coord_init mesh_coord"
    using mesh_store_ok by (auto simp: coord_init_def mesh_coord_def)
qed

lemma mesh_st [simp]: "c_st mesh_coord = mesh_store" "c_DNSBase mesh_coord = ''mesh''"
  by (simp_all add: mesh_coord_def coord_start_def coord_New_def)

lemma mesh_nodes: "NodesInNetwork no_faults mesh_store 1 = Inr [laptop, phone]"
  using mesh_hydrate by (simp add: NodesInNetwork_def no_faults_def mesh_store_def) (simp add: sample_row_def laptop_def phone_def)

lemma mesh_network: "NetworkByID no_faults mesh_store 1 = NetworkByID no_faults sample_store 1"
  by (simp add: NetworkByID_def mesh_store_def)

lemma mesh_acl: "ACL no_faults mesh_store 1 = Inr [ssh_rule]"
  by (simp add: ACL_def no_faults_def mesh_store_def acl_row_def scan_acl_def ssh_rule_def)

lemma mesh_netmap: "\<exists>nm. buildNetMapLocked no_faults mesh_coord phone = Inr nm \<and> nm_Dns nm = Some ''default.mesh''"
  by (simp add: buildNetMapLocked_def phone_def mesh_network sample_network CompileFilterForNode_def mesh_acl mesh_nodes)

definition phone_netmap :: NetMap where
  "phone_netmap = projr (buildNetMapLocked no_faults mesh_coord phone)"

lemma phone_netmap: "buildNetMapLocked no_faults mesh_coord phone = Inr phone_netmap" "nm_Dns phone_netmap = Some ''default.mesh''"
  using mesh_netmap by (auto simp: phone_netmap_def)

lemma laptop_key: "parseNodeKey (n_NodeKey laptop) = Inr (replicate 32 1)"
  by (simp add: laptop_def sample_key_def parseNodeKey_def NodePublic_UnmarshalText_def NodePublic_String_def zero_key_def
      NodePublic_Bytes_def codec_simps)

text \<open>A device that records its configuration, and a DNS library as documented.\<close>

definition sample_ipc :: "string \<Rightarrow> string list \<Rightarrow> string list \<times> unit res" where
  "sample_ipc cfg dev = (dev @ [cfg], Inr ())"

definition sample_dns :: dnslib where
  "sample_dns = \<lparr>dl_Fqdn = (\<lambda>s. if s \<noteq> [] \<and> last s = CHR ''.'' then s else s @ ''.''), dl_SetReply = (\<lambda>r. reply_to r RcodeSuccess), dl_SetRcode = reply_to\<rparr>"

definition sample_lib :: "(string list userspaceEngine, unit) dm_lib" where
  "sample_lib = \<lparr>ml_GOOS = ''linux'', ml_eng = userspace_ops sample_ipc, ml_lx = \<lparr>lx_run = (\<lambda>_ os. (os, True)), lx_read = (\<lambda>_ _. None), lx_write = (\<lambda>_ _ os. (os, True))\<rparr>,
     ml_dns = sample_dns, ml_stun = (\<lambda>_. True), ml_urlParse = (\<lambda>_. None), ml_urlString = (\<lambda>_. []), ml_LookupIP = (\<lambda>_. None),
     ml_public = (\<lambda>k. k), ml_dnsStart = True, ml_ConfigureOS = True, ml_dropStart = True\<rparr>"

definition sample_engine :: "string list userspaceEngine" where
  "sample_engine = \<lparr>ue_dev = [], ue_ftun = newFilterTUN, ue_name = ''overmesh0'', ue_closed = False\<rparr>"

definition sample_options :: dm_Options where
  "sample_options = \<lparr>op_ListenPort = 41642, op_IfaceName = [], op_WGMode = [], op_MTU = 0, op_StateDir = ''/var/lib'', op_UseTLS = False,
     op_OverdropOff = False, op_OverdropDir = [], op_OverdropPort = 0\<rparr>"

definition sample_daemon :: "(string list userspaceEngine, unit, string) Daemon" where
  "sample_daemon = \<lparr>d_opts = sample_options, d_state = empty_State, d_dir = \<lparr>sd_file = Absent, sd_tmp = Absent\<rparr>, d_running = True,
     d_engine = Some sample_engine, d_connmgr = Some (NewConnMgr 2), d_bind = Some NewBind, d_relayCli = None, d_dnsSrv = None,
     d_dnsOSDone = False, d_selfV4 = V4 0x64600002, d_kernWarn = False, d_speedHint = False, d_peers = Map.empty,
     d_status = empty_Status, d_adv = None, d_exitCli = None, d_routeSync = None, d_exitNode = [], d_exitPeerID = 0, d_dropSrv = False,
     d_lastRelays = [], d_lastStun = [], d_nextXfer = 0, d_xfers = Map.empty, d_os = (), d_panic = False\<rparr>"

lemma sample_dns_ok: "dns_ok sample_dns"
  by (simp add: dns_ok_def sample_dns_def)

lemma sample_fields [simp]:
  "d_engine sample_daemon = Some sample_engine" "d_selfV4 sample_daemon = V4 0x64600002" "d_peers sample_daemon = Map.empty"
  "d_panic sample_daemon = False" "ml_eng sample_lib = userspace_ops sample_ipc" "ml_dns sample_lib = sample_dns"
  by (simp_all add: sample_daemon_def sample_lib_def)

lemma sample_table: "table_ok (d_peers sample_daemon)"
  by (simp add: table_ok_def)

lemma sample_applies:
  "applyNetMap sample_lib ord0 ord now nm sample_daemon = (fst (applyNetMap sample_lib ord0 ord now nm sample_daemon), Inr ())"
proof -
  have "snd (eo_SetPeers (ml_eng sample_lib) cfgs e) = Inr ()" for cfgs e
    by (simp add: userspace_ops_def ue_SetPeers_def ue_ipc_def sample_ipc_def)
  then have "snd (applyNetMap sample_lib ord0 ord now nm sample_daemon) = Inr ()"
    by (auto simp: applyNetMap_def Let_def split: option.splits prod.splits sum.splits) (metis old.sum.distinct(1) snd_conv)+
  then show ?thesis by (metis prod.collapse)
qed

section \<open>Witnesses\<close>

definition phone_applied :: "(string list userspaceEngine, unit, string) Daemon" where
  "phone_applied = fst (applyNetMap sample_lib (\<lambda>_. []) (\<lambda>_. [1]) (\<lambda>_. 0) phone_netmap sample_daemon)"

lemma phone_net [simp]: "n_NetworkID phone = 1" "n_ID phone = 2" "n_ID laptop = 1" "n_Hostname laptop = ''laptop''" "n_IPv4 laptop = V4 0x64600001"
  "n_Hostname phone = ''Phone''" "n_IPv4 phone = V4 0x64600002"
  by (simp_all add: phone_def laptop_def)

lemma phone_peers: "nm_Peers phone_netmap = [peer_of no_faults mesh_coord laptop (replicate 32 1)]"
proof -
  have "nm_Peers phone_netmap = netmap_peers no_faults mesh_coord 2 [laptop, phone]"
    using buildNetMap_peers [OF phone_netmap(1)] mesh_nodes by simp
  then show ?thesis by (simp add: netmap_peers_eq laptop_key)
qed

lemma phone_dom: "dom (d_peers phone_applied) = {1}"
proof -
  have ids: "distinct (map pbp_NodeId (nm_Peers phone_netmap))" by (simp add: phone_peers)
  have "set (seen_peers phone_netmap) = {1}" by (simp add: seen_peers_def phone_peers peer_of_def u64_of_int64_def)
  with applyNetMap_dom [OF sample_table ids] show ?thesis by (simp add: phone_applied_def)
qed

theorem netmap_well_typed_witness:
  "\<exists>pi. d_peers phone_applied 1 = Some pi \<and> pi_pubKey pi = replicate 32 1 \<and> pi_ipv4 pi = addr_text (V4 0x64600001)"
proof -
  let ?p = "peer_of no_faults mesh_coord laptop (replicate 32 1)"
  have n: "NodesInNetwork no_faults (c_st mesh_coord) (n_NetworkID phone) = Inr [laptop, phone]" using mesh_nodes by simp
  have i: "pbp_NodeId ?p = 1" "pbp_NodeKey ?p = replicate 32 1" by (simp_all add: peer_of_def u64_of_int64_def)
  have "?p \<in> set (nm_Peers phone_netmap)" by (simp add: phone_peers)
  from netmap_well_typed [OF mesh_reachable n phone_netmap(1) sample_table phone_applied_def, THEN conjunct2, THEN conjunct2, THEN conjunct2, THEN bspec, OF this]
  obtain q x pi where "q \<in> set [laptop, phone]" "n_ID q \<noteq> n_ID phone" "n_IPv4 q = V4 x" "d_peers phone_applied 1 = Some pi"
    "pi_pubKey pi = replicate 32 1" "pi_ipv4 pi = addr_text (V4 x)"
    unfolding i by blast
  then show ?thesis by auto
qed

theorem senders_identified_witness:
  "peerNameByAddr [1] phone_applied (V4 0x64600001) = ''laptop'' \<and>
   handlePut no_io_faults 0 (od_NewServer (overdropDir (d_opts phone_applied)) (peerNameByAddr [1] phone_applied))
     \<lparr>rq_RemoteAddr = addr_port_text (V4 0x64600009, 5), rq_RawQuery = []\<rparr> ([], True) [] =
   (od_NewServer (overdropDir (d_opts phone_applied)) (peerNameByAddr [1] phone_applied), [], OdError 403 (ErrMsg ''unknown peer''))"
proof -
  let ?r = "\<lambda>x. \<lparr>rq_RemoteAddr = addr_port_text (V4 x, 5), rq_RawQuery = []\<rparr>"
  have n: "NodesInNetwork no_faults (c_st mesh_coord) (n_NetworkID phone) = Inr [laptop, phone]" using mesh_nodes by simp
  have ks: "set [1] = dom (d_peers phone_applied)" by (simp add: phone_dom)
  have "{q \<in> set [laptop, phone]. n_ID q \<noteq> n_ID phone \<and> key_parses q} = {laptop}" by (auto simp: laptop_key)
  note W = senders_identified [OF mesh_reachable n phone_netmap(1) sample_table phone_applied_def ks this [symmetric] refl]
  have r: "rq_RemoteAddr (?r x) = addr_port_text (V4 x, 5)" for x by simp
  show ?thesis
    using W [OF r, of "0x64600001", THEN conjunct1] W [OF r, of "0x64600009", THEN conjunct2] by simp
qed

theorem access_rules_enforced_witness:
  "\<exists>e res. d_engine phone_applied = Some e \<and>
     tun_Write (\<lambda>_ _. (1, Inr ())) (ue_ftun e)
       [ipv4_packet 5 0 40 1 0 64 6 0 0x64600001 0x64600002 [] [0, 80, 0, 22], ipv4_packet 5 0 40 1 0 64 6 0 0x64600001 0x64600002 [] [0, 80, 0, 80]] 0 =
     Some (Some [ipv4_packet 5 0 40 1 0 64 6 0 0x64600001 0x64600002 [] [0, 80, 0, 22]], res)"
proof -
  let ?p = "\<lambda>d. ipv4_packet 5 0 40 1 0 64 6 0 0x64600001 0x64600002 [] [0, 80, 0, d]"
  have pkt: "parse_packet (?p 22) = Some (V4 0x64600001, 6, 22, True)" "parse_packet (?p 80) = Some (V4 0x64600001, 6, 80, True)"
    using parse_ipv4_packet [of 5 "[]" 0 40 1 0 64 6 0 "0x64600001" "0x64600002" "[0, 80, 0, 22]"]
      parse_ipv4_packet [of 5 "[]" 0 40 1 0 64 6 0 "0x64600001" "0x64600002" "[0, 80, 0, 80]"]
    by (simp_all add: has_ports_def proto_defs be_uint16_def be_value_def horner_def)
  have "itoa 22 = ''22''" by code_simp
  then have ports: "ParsePortSpec ''22'' = Inr \<lparr>pb_First = 22, pb_Last = 22\<rparr>"
    using ParsePortSpec_range(2) [of 22 22] by simp
  have acl: "acl_decision [laptop, phone] 2 [ssh_rule] (V4 0x64600001, 6, 22)" "\<not> acl_decision [laptop, phone] 2 [ssh_rule] (V4 0x64600001, 6, 80)"
    by (auto simp: acl_decision_def acl_applies_def owners_def proto_matches_def spec_ports_def ports ssh_rule_def intro: exI [of _ laptop])
  have h: "node_addrs_ok [laptop, phone]" "list_all ports_valid [ssh_rule]"
    by (simp_all add: node_addrs_ok_def laptop_def phone_def no_zone_def ports_valid_def ssh_rule_def ports)
  have a: "applyNetMap sample_lib (\<lambda>_. []) (\<lambda>_. [1]) (\<lambda>_. 0) phone_netmap sample_daemon = (phone_applied, Inr ())"
    using sample_applies by (simp add: phone_applied_def)
  obtain e passed res where "d_engine phone_applied = Some e" "tun_Write (\<lambda>_ _. (1, Inr ())) (ue_ftun e) [?p 22, ?p 80] 0 = Some (passed, res)"
    "(case passed of None \<Rightarrow> [] | Some ps \<Rightarrow> ps) = [?p 22]"
    using access_rules_enforced [OF phone_netmap(1) _ _ h _ _ a, of sample_ipc 0 "[?p 22, ?p 80]" "\<lambda>_ _. (1, Inr ())"] mesh_acl mesh_nodes
    by (auto simp: pkt acl)
  then show ?thesis by (auto split: option.splits)
qed

theorem names_resolve_witness:
  "\<exists>srv. d_dnsSrv phone_applied = Some srv \<and>
     dm_Answer (dns_handle sample_dns srv \<lparr>dm_Id = 7, dm_Response = False, dm_Rcode = 0, dm_Authoritative = False,
       dm_Question = [\<lparr>q_Name = ''Laptop.default.MESH.'', q_Qtype = TypeA\<rparr>], dm_Answer = []\<rparr>) =
     [RR_A ''Laptop.default.MESH.'' 60 [100, 96, 0, 1]]"
proof -
  let ?q = "\<lparr>q_Name = ''Laptop.default.MESH.'', q_Qtype = TypeA\<rparr>"
  let ?req = "\<lparr>dm_Id = 7, dm_Response = False, dm_Rcode = 0, dm_Authoritative = False, dm_Question = [?q], dm_Answer = []\<rparr>"
  have n: "NodesInNetwork no_faults (c_st mesh_coord) (n_NetworkID phone) = Inr [laptop, phone]" using mesh_nodes by simp
  have a: "applyNetMap sample_lib (\<lambda>_. []) (\<lambda>_. [1]) (\<lambda>_. 0) phone_netmap sample_daemon = (phone_applied, Inr ())"
    using sample_applies by (simp add: phone_applied_def)
  have low: "to_lower ''Laptop.default.MESH.'' = to_lower ''laptop'' @ ''.'' @ zone_of ''default.mesh''" "distinct [to_lower ''laptop'', to_lower ''Phone'']"
    by code_simp+
  have b: "as_slice (V4 0x64600001) = [100, 96, 0, 1]" by code_simp
  obtain srv where s: "d_dnsSrv phone_applied = Some srv"
    and R: "\<forall>q\<in>set [laptop, phone]. (q = phone \<or> key_parses q) \<and> n_Hostname q \<noteq> [] \<and> CHR ''.'' \<notin> set (n_Hostname q) \<and> q_Qtype ?q = TypeA \<and>
        to_lower (q_Name ?q) = to_lower (n_Hostname q) @ ''.'' @ zone_of ''default.mesh'' \<longrightarrow>
        dns_handle (ml_dns sample_lib) srv ?req =
          (reply_to ?req RcodeSuccess)\<lparr>dm_Authoritative := True, dm_Answer := [RR_A (q_Name ?q) 60 (as_slice (n_IPv4 q))]\<rparr>"
    using names_resolve [OF _ mesh_reachable n _ phone_netmap _ _ _ _ a, of ?req ?q] sample_dns_ok low(2) by auto
  from R [THEN bspec, of laptop] s b low(1) show ?thesis by (simp add: laptop_key)
qed

definition relayed_peer :: peerInfo where
  "relayed_peer = (new_peer 1)\<lparr>pi_pubKey := replicate 32 7, pi_online := True, pi_allowed := [Pfx (V4 0x64600001) 32]\<rparr>"

definition relayed_daemon :: "(string list userspaceEngine, unit, string) Daemon" where
  "relayed_daemon = sample_daemon\<lparr>d_peers := [1 \<mapsto> relayed_peer], d_relayCli := Some \<lparr>rl_URL = ''wss://relay'',
     rl_cli = \<lparr>rc_priv = [], rc_pub = [], rc_conn = None, rc_up = True, rc_closed = False\<rparr>\<rparr>\<rparr>"

theorem path_ladder_witness:
  "\<exists>pc. pc \<in> set (buildPeerConfigsLocked [1] relayed_daemon) \<and> pc_PublicKey pc = replicate 32 7 \<and>
     ParseEndpoint (pc_RelayEndpoint pc) = Inr (RelayEP (replicate 32 7))"
proof -
  have p: "d_peers relayed_daemon 1 = Some relayed_peer" "set [1] = dom (d_peers relayed_daemon)"
    by (simp_all add: relayed_daemon_def)
  have r: "routes_split relayed_peer" "relay_up relayed_daemon \<and> pi_online relayed_peer" "pi_path relayed_peer = PathNone" "pi_pubKey relayed_peer = replicate 32 7"
    by (simp_all add: routes_split_def relayed_peer_def new_peer_def relay_up_def relayed_daemon_def Connected_def)
  from path_ladder [OF p(2,1) r(1), THEN conjunct1] r(2)
  obtain pc where "pc \<in> set (buildPeerConfigsLocked [1] relayed_daemon)" "on_ladder relayed_peer pc" by blast
  then show ?thesis
    using r(3,4) by (auto simp: on_ladder_def)
qed

text \<open>An engine that is just its key.\<close>

definition keyed_lib :: "(byte list, unit) dm_lib" where
  "keyed_lib = \<lparr>ml_GOOS = ''linux'', ml_eng = \<lparr>eo_SetPeers = (\<lambda>_ e. (e, Inr ())), eo_SetFilter = (\<lambda>_ e. e),
       eo_SetPrivateKey = (\<lambda>k _. (k, Inr ())), eo_IfName = (\<lambda>_. ''overmesh0''), eo_Kind = (\<lambda>_. ''userspace'')\<rparr>,
     ml_lx = ml_lx sample_lib, ml_dns = sample_dns, ml_stun = (\<lambda>_. True), ml_urlParse = (\<lambda>_. None), ml_urlString = (\<lambda>_. []),
     ml_LookupIP = (\<lambda>_. None), ml_public = (\<lambda>k. k), ml_dnsStart = True, ml_ConfigureOS = True, ml_dropStart = True\<rparr>"

definition keyed_daemon :: "(byte list, unit, string) Daemon" where
  "keyed_daemon = \<lparr>d_opts = sample_options, d_state = empty_State, d_dir = \<lparr>sd_file = Absent, sd_tmp = Absent\<rparr>, d_running = True,
     d_engine = Some zero_key, d_connmgr = None, d_bind = None, d_relayCli = None, d_dnsSrv = None,
     d_dnsOSDone = False, d_selfV4 = NoAddr, d_kernWarn = False, d_speedHint = False, d_peers = Map.empty,
     d_status = empty_Status, d_adv = None, d_exitCli = None, d_routeSync = None, d_exitNode = [], d_exitPeerID = 0, d_dropSrv = False,
     d_lastRelays = [], d_lastStun = [], d_nextXfer = 0, d_xfers = Map.empty, d_os = (), d_panic = False\<rparr>"

definition working_io :: state_io where
  "working_io = \<lparr>sio_mkdir = False, sio_read = False, sio_write = None, sio_rename = False, sio_random1 = None, sio_random2 = None\<rparr>"


end
