(* ===== verification/Mobile_Props.thy ===== *)
theory Mobile_Props
  imports Mobile Daemon_Props
begin

text \<open>
  Properties of the mobile core: it stays in step with the daemon, the settings that it hands to the platform do not
  depend on the order in which maps are ranged over, and its resolver does not come back after a restart of the core.
\<close>

declare addr_text.simps [simp del]

section \<open>The mobile core beside the daemon\<close>

text \<open>What the core keeps of a peer, and the states that correspond: a daemon without an exit node.\<close>

definition mobile_view :: "peerInfo \<Rightarrow> mc_peerInfo" where
  "mobile_view pi = \<lparr>mp_nodeID = pi_nodeID pi, mp_hostname = pi_hostname pi, mp_pubKey = pi_pubKey pi, mp_allowed = pi_allowed pi,
     mp_subnetRoutes = pi_subnetRoutes pi, mp_ipv4 = pi_ipv4 pi, mp_ipv6 = pi_ipv6 pi, mp_online = pi_online pi, mp_staticEPs = pi_staticEPs pi,
     mp_path = pi_path pi, mp_pathEP = pi_pathEP pi, mp_rtt = pi_rtt pi\<rparr>"

abbreviation mobile_table :: "(u64 \<rightharpoonup> peerInfo) \<Rightarrow> (u64 \<rightharpoonup> mc_peerInfo)" where
  "mobile_table t \<equiv> (\<lambda>n. map_option mobile_view (t n))"

definition mirrors_net :: "('e, 'c) Core \<Rightarrow> ('e, 'os, 'c) Daemon \<Rightarrow> bool" where
  "mirrors_net c d \<longleftrightarrow> mc_peers c = mobile_table (d_peers d) \<and> table_ok (d_peers d) \<and> d_peers d 0 = None \<and>
     mc_engine c = d_engine d \<and> mc_relayCli c = d_relayCli d \<and> mc_bind c = d_bind d \<and> mc_connmgr c = d_connmgr d \<and>
     mc_server c = sj_Server (d_state d) \<and> ms_node (mc_st c) = sj_nodePriv (d_state d) \<and> d_exitNode d = [] \<and> d_exitPeerID d = 0"

definition mirrors :: "('e, 'c) Core \<Rightarrow> ('e, 'os, 'c) Daemon \<Rightarrow> bool" where
  "mirrors c d \<longleftrightarrow> mirrors_net c d \<and> d_connmgr d \<noteq> None \<and> d_engine d \<noteq> None \<and> mc_dnsSrv c = d_dnsSrv d \<and> addr_is_valid (d_selfV4 d)"

lemma mirrors_netD:
  assumes "mirrors_net c d"
  shows "mc_peers c = mobile_table (d_peers d)" "table_ok (d_peers d)" "d_peers d 0 = None" "mc_engine c = d_engine d"
    "mc_relayCli c = d_relayCli d" "mc_bind c = d_bind d" "mc_connmgr c = d_connmgr d" "mc_server c = sj_Server (d_state d)"
    "ms_node (mc_st c) = sj_nodePriv (d_state d)" "d_exitNode d = []" "d_exitPeerID d = 0"
  using assms by (simp_all add: mirrors_net_def)

lemma map_filter_view: "List.map_filter (mobile_table t) ks = map mobile_view (List.map_filter t ks)"
  by (induction ks) (simp_all add: List.map_filter_simps split: option.split)

lemma ranged_node: "table_ok t \<Longrightarrow> t 0 = None \<Longrightarrow> pi \<in> set (ranged ks t) \<Longrightarrow> pi_nodeID pi \<noteq> 0"
  by (auto simp: ranged_def table_ok_def List.map_filter_def)

lemma mirror_configs:
  assumes "mc_peers c = mobile_table (d_peers d)" "table_ok (d_peers d)" "d_peers d 0 = None" "d_exitPeerID d = 0" "mc_relay_up c = relay_up d"
  shows "mc_buildPeerConfigsLocked ks c = buildPeerConfigsLocked ks d"
proof -
  have "mc_peer_config (relay_up d) (mobile_view pi) = peer_config (relay_up d) 0 pi" if "pi \<in> set (ranged ks (d_peers d))" for pi
    using ranged_node [OF assms(2,3) that] by (simp add: mc_peer_config_def peer_config_def mobile_view_def Let_def)
  then have "map (mc_peer_config (relay_up d)) (map mobile_view (ranged ks (d_peers d))) = map (peer_config (relay_up d) 0) (ranged ks (d_peers d))"
    by simp
  then show ?thesis
    using assms by (simp add: mc_buildPeerConfigsLocked_def buildPeerConfigsLocked_def map_filter_view ranged_def del: map_map)
qed

lemma mirrors_relay_up: "mirrors_net c d \<Longrightarrow> mc_relay_up c = relay_up d"
  by (simp add: mirrors_net_def mc_relay_up_def relay_up_def)

lemma mirror_sync:
  assumes "mirrors_net c d"
  shows "mirrors_net (mc_syncPeers lib ord c) (syncPeers lib ord d)"
proof -
  have "mc_buildPeerConfigsLocked (ord 0) c = buildPeerConfigsLocked (ord 0) d"
    using assms by (intro mirror_configs) (simp_all add: mirrors_netD mirrors_relay_up)
  then have "mc_engine (mc_syncPeers lib ord c) = d_engine (syncPeers lib ord d)"
    using mirrors_netD(4) [OF assms] by (simp add: mc_syncPeers_def syncPeers_def Let_def split: option.split)
  with assms show ?thesis
    by (simp add: mirrors_net_def mc_syncPeers_def split: option.splits)
qed

lemma mirror_path:
  assumes "mirrors_net c d"
  shows "mirrors_net (mc_onPathUpdate lib ord u c) (onPathUpdate lib ord u d)"
proof (cases "d_peers d (pu_NodeID u)")
  case None
  with assms show ?thesis
    by (simp add: mc_onPathUpdate_def onPathUpdate_def mirrors_netD(1) [OF assms])
next
  case (Some pi)
  define d1 where "d1 = d\<lparr>d_peers := (d_peers d)(pu_NodeID u \<mapsto> pi\<lparr>pi_path := pu_State u, pi_pathEP := pu_Endpoint u, pi_rtt := pu_RTT u\<rparr>)\<rparr>"
  define c1 where "c1 = c\<lparr>mc_peers := (mc_peers c)(pu_NodeID u \<mapsto>
    (mobile_view pi)\<lparr>mp_path := pu_State u, mp_pathEP := pu_Endpoint u, mp_rtt := pu_RTT u\<rparr>)\<rparr>"
  have m: "mirrors_net c1 d1"
    using assms Some by (auto simp: mirrors_net_def c1_def d1_def table_ok_def mobile_view_def fun_eq_iff)
  have "mc_onPathUpdate lib ord u c = (if mp_path (mobile_view pi) \<noteq> pu_State u \<or> mp_pathEP (mobile_view pi) \<noteq> pu_Endpoint u
      then mc_syncPeers lib ord c1 else c1)"
    using Some by (simp add: mc_onPathUpdate_def mirrors_netD(1) [OF assms] c1_def Let_def)
  moreover have "onPathUpdate lib ord u d = (if pi_path pi \<noteq> pu_State u \<or> pi_pathEP pi \<noteq> pu_Endpoint u then syncPeers lib ord d1 else d1)"
    using Some mirrors_netD(11) [OF assms] by (simp add: onPathUpdate_def d1_def Let_def)
  ultimately show ?thesis
    using m mirror_sync [OF m] by (simp add: mobile_view_def)
qed

lemma mirror_paths: "mirrors_net c d \<Longrightarrow> mirrors_net (fold (mc_onPathUpdate lib ord) us c) (fold (onPathUpdate lib ord) us d)"
  by (induction us arbitrary: c d) (simp_all add: mirror_path)

lemma mirror_apply_paths:
  assumes "mirrors_net c d"
  shows "mirrors_net (mc_apply_paths lib ord stun online c) (apply_paths lib ord stun online d)"
proof (cases "d_connmgr d")
  case None
  with assms show ?thesis by (simp add: mc_apply_paths_def apply_paths_def mirrors_netD(7) [OF assms])
next
  case (Some cm)
  define cm1 where "cm1 = SetPeers (ord 5) online (SetStunServers (ml_stun lib) stun cm)"
  have "mirrors_net (c\<lparr>mc_connmgr := Some cm1\<rparr>) (d\<lparr>d_connmgr := Some cm1\<rparr>)"
    using assms by (simp add: mirrors_net_def)
  from mirror_paths [OF this] Some show ?thesis
    by (simp add: mc_apply_paths_def apply_paths_def mirrors_netD(7) [OF assms] cm1_def Let_def)
qed

lemma mirror_relay_connected:
  assumes "mirrors_net c d"
  shows "mirrors_net (mc_relay_connected lib ord w c) (relay_connected lib ord w d)"
proof (cases "d_relayCli d")
  case None
  with assms show ?thesis by (simp add: mc_relay_connected_def relay_connected_def mirrors_netD(5) [OF assms])
next
  case (Some rl)
  define rl1 where "rl1 = rl\<lparr>rl_cli := fst (session_up w (rl_cli rl))\<rparr>"
  have m: "mirrors_net (c\<lparr>mc_relayCli := Some rl1\<rparr>) (d\<lparr>d_relayCli := Some rl1\<rparr>)"
    using assms by (simp add: mirrors_net_def)
  with mirror_sync [OF m] mirrors_relay_up [OF m] Some show ?thesis
    by (simp add: mc_relay_connected_def relay_connected_def mirrors_netD(5) [OF assms] rl1_def [symmetric] Let_def)
qed

section \<open>A netmap on both sides\<close>

lemma netmap_parts_frame [simp]:
  "d_relayCli (applyFilter lib nm e d) = d_relayCli d" "d_bind (applyFilter lib nm e d) = d_bind d"
  "d_state (applyFilter lib nm e d) = d_state d" "d_exitNode (applyFilter lib nm e d) = d_exitNode d"
  "d_relayCli (applyDNS lib nm d) = d_relayCli d" "d_bind (applyDNS lib nm d) = d_bind d"
  "d_state (applyDNS lib nm d) = d_state d" "d_exitNode (applyDNS lib nm d) = d_exitNode d" "d_selfV4 (applyDNS lib nm d) = d_selfV4 d"
  "d_relayCli (applyOverdrop lib d) = d_relayCli d" "d_bind (applyOverdrop lib d) = d_bind d"
  "d_state (applyOverdrop lib d) = d_state d" "d_exitNode (applyOverdrop lib d) = d_exitNode d" "d_selfV4 (applyOverdrop lib d) = d_selfV4 d"
  "d_relayCli (selectExitPeerLocked ks d) = d_relayCli d" "d_bind (selectExitPeerLocked ks d) = d_bind d"
  "d_state (selectExitPeerLocked ks d) = d_state d" "d_exitNode (selectExitPeerLocked ks d) = d_exitNode d"
  "d_relayCli (refreshPeerStatusLocked ks d) = d_relayCli d" "d_bind (refreshPeerStatusLocked ks d) = d_bind d"
  "d_state (refreshPeerStatusLocked ks d) = d_state d" "d_exitNode (refreshPeerStatusLocked ks d) = d_exitNode d"
  by (simp_all add: applyFilter_def applyDNS_def applyOverdrop_def selectExitPeerLocked_def refreshPeerStatusLocked_def Let_def split: option.splits)

lemma route_parts_frame [simp]:
  "d_relayCli (fst (apply_exit lib i x v h d)) = d_relayCli d" "d_bind (fst (apply_exit lib i x v h d)) = d_bind d"
  "d_state (fst (apply_exit lib i x v h d)) = d_state d" "d_exitNode (fst (apply_exit lib i x v h d)) = d_exitNode d"
  "d_selfV4 (fst (apply_exit lib i x v h d)) = d_selfV4 d"
  "d_relayCli (apply_adv lib i a d) = d_relayCli d" "d_bind (apply_adv lib i a d) = d_bind d"
  "d_state (apply_adv lib i a d) = d_state d" "d_exitNode (apply_adv lib i a d) = d_exitNode d" "d_selfV4 (apply_adv lib i a d) = d_selfV4 d"
  "d_relayCli (apply_sync lib i a d) = d_relayCli d" "d_bind (apply_sync lib i a d) = d_bind d"
  "d_state (apply_sync lib i a d) = d_state d" "d_exitNode (apply_sync lib i a d) = d_exitNode d" "d_selfV4 (apply_sync lib i a d) = d_selfV4 d"
  by (simp_all add: apply_exit_def apply_adv_def apply_sync_def split: option.splits prod.splits)

lemma applyRoutes_more_frame [simp]:
  "d_relayCli (applyRoutes lib ord nm d) = d_relayCli d" "d_bind (applyRoutes lib ord nm d) = d_bind d"
  "d_state (applyRoutes lib ord nm d) = d_state d" "d_exitNode (applyRoutes lib ord nm d) = d_exitNode d"
  "d_selfV4 (applyRoutes lib ord nm d) = d_selfV4 d"
  by (simp_all add: applyRoutes_def Let_def split: option.splits)

lemma path_fold_frame [simp]:
  "d_selfV4 (fold (onPathUpdate lib ord) us d) = d_selfV4 d" "d_connmgr (fold (onPathUpdate lib ord) us d) = d_connmgr d"
  by (induction us arbitrary: d) simp_all

lemma onPathUpdate_engine [simp]: "(d_engine (onPathUpdate lib ord u d) = None) = (d_engine d = None)"
  by (auto simp: onPathUpdate_def syncPeers_def refreshPeerStatusLocked_def Let_def split: option.splits)

lemma path_fold_engine [simp]: "(d_engine (fold (onPathUpdate lib ord) us d) = None) = (d_engine d = None)"
  by (induction us arbitrary: d) simp_all

lemma apply_paths_more_frame [simp]:
  "d_selfV4 (apply_paths lib ord stun online d) = d_selfV4 d"
  "(d_connmgr (apply_paths lib ord stun online d) = None) = (d_connmgr d = None)"
  "(d_engine (apply_paths lib ord stun online d) = None) = (d_engine d = None)"
  by (simp_all add: apply_paths_def Let_def split: option.splits)

text \<open>The merge of a netmap.\<close>

lemma mc_overlay_texts:
  "mp_allowed pi = [] \<Longrightarrow> mp_ipv4 pi = [] \<Longrightarrow> mp_ipv6 pi = [] \<Longrightarrow>
   mc_overlay ps pi = pi\<lparr>mp_allowed := ps, mp_ipv4 := fst (overlay_texts ps), mp_ipv6 := snd (overlay_texts ps)\<rparr>"
  by (induction ps rule: rev_induct) (simp_all add: mc_overlay_def overlay_texts_def split: prod.split)

lemma mirror_merge_peer: "mc_merge_peer p (mobile_table t) = mobile_table (merge_peer p t)"
  by (rule ext) (auto simp: mc_merge_peer_def merge_peer_def mc_overlay_texts mobile_view_def mc_new_peer_def new_peer_def Let_def split: option.splits)

lemma mirror_merge: "mc_merge_netmap nm (mobile_table t) = mobile_table (merge_netmap nm t)"
proof -
  have "fold mc_merge_peer ps (mobile_table t) = mobile_table (fold merge_peer ps t)" for ps
    by (induction ps arbitrary: t) (simp_all add: mirror_merge_peer)
  then show ?thesis
    by (auto simp: mc_merge_netmap_def merge_netmap_def restrict_map_def)
qed

lemma merge_netmap_table:
  assumes "table_ok t"
  shows "table_ok (merge_netmap nm t)"
proof -
  have "table_ok (fold merge_peer ps t)" for ps
    using assms by (induction ps arbitrary: t) (simp_all add: merge_peer_table)
  then show ?thesis
    by (auto simp: merge_netmap_def table_ok_def restrict_map_def split: if_splits)
qed

lemma merge_netmap_zero: "0 \<notin> set (seen_peers nm) \<Longrightarrow> merge_netmap nm t 0 = None"
  by (simp add: merge_netmap_def restrict_map_def)

text \<open>A netmap that keeps the relay in use, or names one where there was none.\<close>

definition relay_steady :: "string list \<Rightarrow> relay_link option \<Rightarrow> bool" where
  "relay_steady urls r = (case r of None \<Rightarrow> True | Some rl \<Rightarrow> urls \<noteq> [] \<and> rl_URL rl = hd urls)"

definition steady_link :: "('e, 'os) dm_lib \<Rightarrow> string list \<Rightarrow> NodePrivate \<Rightarrow> Bind option \<Rightarrow> relay_link option \<Rightarrow> Bind option \<times> relay_link option" where
  "steady_link lib urls nk b r = (if b = None \<or> urls = [] \<or> r \<noteq> None then (b, r)
     else (map_option (SetRelaySender True) b, Some (relay_NewClient lib (hd urls) nk)))"

lemma ensureRelay_steady:
  assumes "relay_steady urls (d_relayCli d)"
  shows "ensureRelay lib ord urls d = d\<lparr>d_lastRelays := urls, d_bind := fst (steady_link lib urls (sj_nodePriv (d_state d)) (d_bind d) (d_relayCli d)),
    d_relayCli := snd (steady_link lib urls (sj_nodePriv (d_state d)) (d_bind d) (d_relayCli d))\<rparr>"
  using assms
  by (cases "d_bind d"; cases urls; cases "d_relayCli d") (simp_all add: ensureRelay_def steady_link_def relay_steady_def Let_def)

lemma mc_ensureRelay_steady:
  assumes "relay_steady urls (mc_relayCli c)"
  shows "mc_ensureRelay lib ord urls c = c\<lparr>mc_lastRelays := urls, mc_bind := fst (steady_link lib urls (ms_node (mc_st c)) (mc_bind c) (mc_relayCli c)),
    mc_relayCli := snd (steady_link lib urls (ms_node (mc_st c)) (mc_bind c) (mc_relayCli c))\<rparr>"
  using assms
  by (cases "mc_bind c"; cases urls; cases "mc_relayCli c") (simp_all add: mc_ensureRelay_def steady_link_def relay_steady_def Let_def)

lemma steady_link_up:
  "(case snd (steady_link lib urls nk b r) of None \<Rightarrow> False | Some rl \<Rightarrow> Connected (rl_cli rl)) = (case r of None \<Rightarrow> False | Some rl \<Rightarrow> Connected (rl_cli rl))"
  by (auto simp: steady_link_def relay_NewClient_def Connected_def split: option.split)

lemma mirror_urls:
  assumes "mc_server c = sj_Server (d_state d)"
  shows "mc_resolveHosts ss c = resolveStunServers (sj_Server (d_state d)) ss"
    and "mc_resolveRelayURLs lib rs c = resolveRelayURLs lib (sj_Server (d_state d)) rs"
proof -
  have "mc_server_host c = server_host (sj_Server (d_state d))"
    by (simp add: mc_server_host_def server_host_def assms split: sum.split)
  then show "mc_resolveHosts ss c = resolveStunServers (sj_Server (d_state d)) ss"
    and "mc_resolveRelayURLs lib rs c = resolveRelayURLs lib (sj_Server (d_state d)) rs"
    by (simp_all only: mc_resolveHosts_def resolveStunServers_def mc_resolveRelayURLs_def resolveRelayURLs_def)
qed

text \<open>Netmaps whose overlay addresses are all written as prefixes give both resolvers the same records.\<close>

definition prefix_form :: "string list \<Rightarrow> bool" where
  "prefix_form ips \<longleftrightarrow> list_all (\<lambda>s. parse_prefix s \<noteq> None) ips"

lemma prefix_form_addrs: "prefix_form ips \<Longrightarrow> map prefix_addr (List.map_filter parse_prefix ips) = dns_addrs ips"
  by (induction ips) (auto simp: prefix_form_def dns_addrs_def List.map_filter_simps)

definition netmap_prefixes :: "NetMap \<Rightarrow> bool" where
  "netmap_prefixes nm \<longleftrightarrow> prefix_form (pbn_OverlayIps (nm_Self nm)) \<and> list_all (\<lambda>p. prefix_form (pbp_OverlayIps p)) (nm_Peers nm)"

lemma mirror_records:
  assumes "netmap_prefixes nm"
  shows "fold mc_dns_add ((pbn_Hostname (nm_Self nm), pbn_OverlayIps (nm_Self nm)) #
    map (\<lambda>p. (pbp_Hostname p, pbp_OverlayIps p)) (nm_Peers nm)) [] = dns_records nm"
proof -
  have e: "mc_dns_add e recs = dns_add e recs" if "prefix_form (snd e)" for e recs
    using that by (simp add: mc_dns_add_def dns_add_def prefix_form_addrs)
  have "fold mc_dns_add es recs = fold dns_add es recs" if "list_all (\<lambda>e. prefix_form (snd e)) es" for es recs
    using that by (induction es arbitrary: recs) (simp_all add: e)
  then show ?thesis
    using assms unfolding dns_records_def by (simp add: netmap_prefixes_def list_all_iff del: fold.simps)
qed

lemma services_frame [simp]:
  "mc_peers (startInTunnelServices lib c) = mc_peers c" "mc_engine (startInTunnelServices lib c) = mc_engine c"
  "mc_relayCli (startInTunnelServices lib c) = mc_relayCli c" "mc_bind (startInTunnelServices lib c) = mc_bind c"
  "mc_connmgr (startInTunnelServices lib c) = mc_connmgr c" "mc_server (startInTunnelServices lib c) = mc_server c"
  "mc_st (startInTunnelServices lib c) = mc_st c" "mc_dnsSrv (startInTunnelServices lib c) = mc_dnsSrv c"
  by (simp_all add: startInTunnelServices_def Let_def)

lemma updateDNS_frame [simp]:
  "mc_peers (updateDNSRecords lib nm c) = mc_peers c" "mc_engine (updateDNSRecords lib nm c) = mc_engine c"
  "mc_relayCli (updateDNSRecords lib nm c) = mc_relayCli c" "mc_bind (updateDNSRecords lib nm c) = mc_bind c"
  "mc_connmgr (updateDNSRecords lib nm c) = mc_connmgr c" "mc_server (updateDNSRecords lib nm c) = mc_server c"
  "mc_st (updateDNSRecords lib nm c) = mc_st c"
  by (simp_all add: updateDNSRecords_def Let_def)

lemma mirrors_net_dns [simp]: "mirrors_net (updateDNSRecords lib nm c) d = mirrors_net c d"
  by (simp add: mirrors_net_def)

lemma mirror_dns:
  assumes "netmap_prefixes nm" and "mc_dnsSrv c = d_dnsSrv d" and "addr_is_valid (d_selfV4 d)"
  shows "mc_dnsSrv (updateDNSRecords lib nm c) = d_dnsSrv (applyDNS lib nm d)"
  using assms mirror_records [OF assms(1)] by (auto simp: updateDNSRecords_def applyDNS_def Let_def split: option.splits)

lemma mc_path_dns [simp]: "mc_dnsSrv (mc_onPathUpdate lib ord u c) = mc_dnsSrv c"
  by (simp add: mc_onPathUpdate_def mc_syncPeers_def Let_def split: option.splits)

lemma mc_path_fold_dns [simp]: "mc_dnsSrv (fold (mc_onPathUpdate lib ord) us c) = mc_dnsSrv c"
  by (induction us arbitrary: c) simp_all

lemma mc_paths_dns [simp]: "mc_dnsSrv (mc_apply_paths lib ord stun online c) = mc_dnsSrv c"
  by (simp add: mc_apply_paths_def Let_def split: option.split)

lemma refresh_configs [simp]: "buildPeerConfigsLocked ks (refreshPeerStatusLocked ks' d) = buildPeerConfigsLocked ks d"
  by (simp add: buildPeerConfigsLocked_def relay_up_def refreshPeerStatusLocked_def)

definition netmap_ok :: "('e, 'os) dm_lib \<Rightarrow> NetMap \<Rightarrow> ('e, 'os, 'c) Daemon \<Rightarrow> bool" where
  "netmap_ok lib nm d \<longleftrightarrow> netmap_prefixes nm \<and> 0 \<notin> set (seen_peers nm) \<and>
     relay_steady (resolveRelayURLs lib (sj_Server (d_state d)) (nm_Relays nm)) (d_relayCli d)"

text \<open>Such a netmap on either side, step by step.\<close>

definition netmap_merged :: "('e, 'os) dm_lib \<Rightarrow> (nat \<Rightarrow> u64 list) \<Rightarrow> NetMap \<Rightarrow> ('e, 'os, 'c) Daemon \<Rightarrow> ('e, 'os, 'c) Daemon" where
  "netmap_merged lib ord nm d = (let urls = resolveRelayURLs lib (sj_Server (d_state d)) (nm_Relays nm);
       link = steady_link lib urls (sj_nodePriv (d_state d)) (d_bind d) (d_relayCli d)
     in refreshPeerStatusLocked (ord 2) (selectExitPeerLocked (ord 0) (d\<lparr>d_lastRelays := urls, d_bind := fst link, d_relayCli := snd link,
       d_lastStun := resolveStunServers (sj_Server (d_state d)) (nm_StunServers nm), d_peers := merge_netmap nm (d_peers d)\<rparr>)))"

lemma netmap_merged_fields:
  assumes "d_exitNode d = []"
  shows "d_engine (netmap_merged lib ord nm d) = d_engine d" "d_exitPeerID (netmap_merged lib ord nm d) = 0"
    "d_connmgr (netmap_merged lib ord nm d) = d_connmgr d" "d_dnsSrv (netmap_merged lib ord nm d) = d_dnsSrv d"
    "d_selfV4 (netmap_merged lib ord nm d) = d_selfV4 d" "d_peers (netmap_merged lib ord nm d) = merge_netmap nm (d_peers d)"
    "d_state (netmap_merged lib ord nm d) = d_state d" "d_exitNode (netmap_merged lib ord nm d) = []"
    "d_bind (netmap_merged lib ord nm d) = fst (steady_link lib (resolveRelayURLs lib (sj_Server (d_state d)) (nm_Relays nm)) (sj_nodePriv (d_state d)) (d_bind d) (d_relayCli d))"
    "d_relayCli (netmap_merged lib ord nm d) = snd (steady_link lib (resolveRelayURLs lib (sj_Server (d_state d)) (nm_Relays nm)) (sj_nodePriv (d_state d)) (d_bind d) (d_relayCli d))"
  using assms by (simp_all add: netmap_merged_def Let_def) (simp_all add: selectExitPeerLocked_def refreshPeerStatusLocked_def)

lemma applyNetMap_steady:
  assumes "netmap_ok lib nm d" and "d_connmgr d \<noteq> None" and "d_engine d = Some e" and "d_exitNode d = []"
  shows "applyNetMap lib ord0 ord now nm d = (case eo_SetPeers (ml_eng lib) (buildPeerConfigsLocked (ord 1) (netmap_merged lib ord nm d)) e of
      (e1, Inl err) \<Rightarrow> ((netmap_merged lib ord nm d)\<lparr>d_engine := Some e1\<rparr>, Inl err)
    | (e1, Inr _) \<Rightarrow> (apply_paths lib ord (resolveStunServers (sj_Server (d_state d)) (nm_StunServers nm)) (map (\<lambda>n. (n, now n)) (online_peers nm))
        (applyOverdrop lib (applyRoutes lib ord nm (applyDNS lib nm (applyFilter lib nm e1 (netmap_merged lib ord nm d))))), Inr ()))"
proof -
  let ?urls = "resolveRelayURLs lib (sj_Server (d_state d)) (nm_Relays nm)"
  let ?link = "steady_link lib ?urls (sj_nodePriv (d_state d)) (d_bind d) (d_relayCli d)"
  let ?d2 = "d\<lparr>d_lastRelays := ?urls, d_bind := fst ?link, d_relayCli := snd ?link,
    d_lastStun := resolveStunServers (sj_Server (d_state d)) (nm_StunServers nm), d_peers := merge_netmap nm (d_peers d)\<rparr>"
  have d4: "refreshPeerStatusLocked (ord 2) (selectExitPeerLocked (ord 0) ?d2) = netmap_merged lib ord nm d"
    by (simp add: netmap_merged_def Let_def)
  have "ensureRelay lib ord0 ?urls d = d\<lparr>d_lastRelays := ?urls, d_bind := fst ?link, d_relayCli := snd ?link\<rparr>"
    using assms(1) by (simp add: ensureRelay_steady netmap_ok_def)
  moreover have "buildPeerConfigsLocked (ord 1) (selectExitPeerLocked (ord 0) ?d2) = buildPeerConfigsLocked (ord 1) (netmap_merged lib ord nm d)"
    by (simp add: d4 [symmetric])
  ultimately show ?thesis
    using assms(2,3) netmap_merged_fields(1) [OF assms(4), of lib ord nm] unfolding applyNetMap_def Let_def by (simp add: d4 del: not_None_eq)
qed

lemma mirror_netmap:
  assumes m: "mirrors c d" and nm: "netmap_ok lib nm d" and ok: "snd (applyNetMap lib ord0 ord now nm d) = Inr ()"
  shows "mirrors (mc_applyNetMap lib ord now nm c) (fst (applyNetMap lib ord0 ord now nm d))"
proof -
  let ?urls = "resolveRelayURLs lib (sj_Server (d_state d)) (nm_Relays nm)"
  let ?stun = "resolveStunServers (sj_Server (d_state d)) (nm_StunServers nm)"
  let ?online = "map (\<lambda>n. (n, now n)) (online_peers nm)"
  have n: "mirrors_net c d" and dns: "mc_dnsSrv c = d_dnsSrv d" and v4: "addr_is_valid (d_selfV4 d)" and cm: "d_connmgr d \<noteq> None"
    using m by (simp_all add: mirrors_def)
  obtain e where e: "d_engine d = Some e" using m by (auto simp: mirrors_def)
  note N = mirrors_netD [OF n]
  define d4 where "d4 = netmap_merged lib ord nm d"
  define c1 where "c1 = c\<lparr>mc_peers := mc_merge_netmap nm (mc_peers c), mc_domain := (case nm_Dns nm of None \<Rightarrow> [] | Some s \<Rightarrow> s)\<rparr>"
  note d4 = netmap_merged_fields [OF N(10), of lib ord nm, folded d4_def]
  have t: "table_ok (d_peers d4)" "d_peers d4 0 = None"
    using N(2) nm by (simp_all add: d4 merge_netmap_table merge_netmap_zero netmap_ok_def)
  have "mc_relay_up c1 = relay_up d4"
    by (simp add: mc_relay_up_def relay_up_def d4 steady_link_up c1_def N(5))
  then have cf: "mc_buildPeerConfigsLocked (ord 1) c1 = buildPeerConfigsLocked (ord 1) d4"
    by (intro mirror_configs) (simp_all add: t d4(2), simp add: c1_def N(1) d4(6) mirror_merge)
  note dA = applyNetMap_steady [OF nm cm e N(10), of ord0 ord now, folded d4_def]
  obtain e1 u where e1: "eo_SetPeers (ml_eng lib) (buildPeerConfigsLocked (ord 1) d4) e = (e1, Inr u)"
    using ok by (auto simp: dA split: prod.splits sum.splits)
  define d5 where "d5 = applyOverdrop lib (applyRoutes lib ord nm (applyDNS lib nm (applyFilter lib nm e1 d4)))"
  define c2 where "c2 = mc_program lib nm (buildPeerConfigsLocked (ord 1) d4) (c1\<lparr>mc_lastNetMap := Some (tunnelSettingsLocked (ord 6) c1)\<rparr>)"
  define c3 where "c3 = mc_ensureRelay lib ord ?urls c2"
  have c2: "mc_engine c2 = Some (eo_SetFilter (ml_eng lib) (FromProto (nm_Filter nm) (nm_FilterEnabled nm)) e1)" "mc_peers c2 = mobile_table (d_peers d4)"
    "mc_relayCli c2 = d_relayCli d" "mc_bind c2 = d_bind d" "mc_connmgr c2 = d_connmgr d" "mc_server c2 = mc_server c" "mc_st c2 = mc_st c" "mc_dnsSrv c2 = mc_dnsSrv c"
    using e e1 by (simp_all add: c2_def mc_program_def c1_def N d4(6) mirror_merge)
  have c3: "c3 = c2\<lparr>mc_lastRelays := ?urls, mc_bind := d_bind d4, mc_relayCli := d_relayCli d4\<rparr>"
    using mc_ensureRelay_steady [of ?urls c2 lib ord] nm by (simp add: c3_def c2 N(9) netmap_ok_def d4)
  have "mirrors_net c3 d5"
    using t e by (simp add: mirrors_net_def c3 c2 d5_def d4 N(8,9))
  note P = mirror_apply_paths [OF this, of lib ord ?stun ?online]
  define core where "core = updateDNSRecords lib nm (mc_apply_paths lib ord ?stun ?online c3)"
  have "mc_dnsSrv core = d_dnsSrv (applyDNS lib nm (applyFilter lib nm e1 d4))"
    unfolding core_def using nm by (intro mirror_dns) (simp_all add: netmap_ok_def c3 c2 dns d4 v4)
  with P have "mirrors core (apply_paths lib ord ?stun ?online d5)"
    using cm v4 by (simp add: mirrors_def core_def d5_def d4)
  moreover have "mc_applyNetMap lib ord now nm c = (if Some (tunnelSettingsLocked (ord 6) c1) \<noteq> mc_lastNetMap c1 \<and> mc_events core
      then core\<lparr>mc_told := mc_told core @ [OnNetMap (tunnelSettingsLocked (ord 6) c1)]\<rparr> else core)"
    unfolding mc_applyNetMap_def Let_def mirror_urls [OF N(8)] core_def c3_def c2_def c1_def [symmetric] cf ..
  ultimately show ?thesis
    using e1 by (simp add: dA d5_def mirrors_def mirrors_net_def)
qed

section \<open>Runs\<close>

lemma mirror_creds: "mc_splitCreds payload = splitCreds payload"
  by (simp add: mc_splitCreds_def splitCreds_def Let_def split: prod.split)

lemma mirror_signal: "mc_receive_signal env = receive_signal env"
  by (cases "se_Kind env") (simp_all add: mc_receive_signal_def receive_signal_def mirror_creds Let_def)

lemma mirror_envelope: "mc_envelope s = envelope_of s"
  by (cases s) (simp_all add: creds_payload_def)

lemma mirrors_more:
  "mirrors c d \<Longrightarrow> mirrors (mc_onPathUpdate lib ord u c) (onPathUpdate lib ord u d)"
  "mirrors c d \<Longrightarrow> mirrors (mc_relay_connected lib ord w c) (relay_connected lib ord w d)"
proof -
  assume m: "mirrors c d"
  then have n: "mirrors_net c d" by (simp add: mirrors_def)
  have r: "d_engine (relay_connected lib ord w d) \<noteq> None \<and> d_connmgr (relay_connected lib ord w d) = d_connmgr d \<and>
      d_dnsSrv (relay_connected lib ord w d) = d_dnsSrv d \<and> d_selfV4 (relay_connected lib ord w d) = d_selfV4 d"
    using m by (auto simp: mirrors_def relay_connected_def syncPeers_def refreshPeerStatusLocked_def Let_def split: option.splits)
  have "mc_dnsSrv (mc_relay_connected lib ord w c) = mc_dnsSrv c"
    by (simp add: mc_relay_connected_def mc_syncPeers_def Let_def split: option.splits)
  with m r mirror_relay_connected [OF n] show "mirrors (mc_relay_connected lib ord w c) (relay_connected lib ord w d)"
    by (simp add: mirrors_def)
  from m mirror_path [OF n] show "mirrors (mc_onPathUpdate lib ord u c) (onPathUpdate lib ord u d)"
    by (simp add: mirrors_def)
qed

text \<open>What happens to a node: a netmap arrives, a path changes, the relay's connection comes up, signals arrive. The
  orders of the range loops come with the events.\<close>

datatype 'c node_event = MNetMap NetMap "nat \<Rightarrow> u64 list" "nat \<Rightarrow> u64 list" "u64 \<Rightarrow> int" | MPath "nat \<Rightarrow> u64 list" PathUpdate
  | MRelayUp "nat \<Rightarrow> u64 list" writer | MSignals "'c ice_lib" "SignalEnvelope list"

fun core_event :: "('e, 'os) dm_lib \<Rightarrow> 'c node_event \<Rightarrow> ('e, 'c) Core \<Rightarrow> ('e, 'c) Core" where
  "core_event lib (MNetMap nm ord0 ord now) c = mc_applyNetMap lib ord now nm c"
| "core_event lib (MPath ord u) c = mc_onPathUpdate lib ord u c"
| "core_event lib (MRelayUp ord w) c = mc_relay_connected lib ord w c"
| "core_event lib (MSignals il envs) c = mc_receiveSignals il envs c"

fun daemon_event :: "('e, 'os) dm_lib \<Rightarrow> 'c node_event \<Rightarrow> ('e, 'os, 'c) Daemon \<Rightarrow> ('e, 'os, 'c) Daemon" where
  "daemon_event lib (MNetMap nm ord0 ord now) d = fst (applyNetMap lib ord0 ord now nm d)"
| "daemon_event lib (MPath ord u) d = onPathUpdate lib ord u d"
| "daemon_event lib (MRelayUp ord w) d = relay_connected lib ord w d"
| "daemon_event lib (MSignals il envs) d = d\<lparr>d_connmgr := map_option (receiveSignals il envs) (d_connmgr d)\<rparr>"

fun event_ok :: "('e, 'os) dm_lib \<Rightarrow> 'c node_event \<Rightarrow> ('e, 'os, 'c) Daemon \<Rightarrow> bool" where
  "event_ok lib (MNetMap nm ord0 ord now) d \<longleftrightarrow> netmap_ok lib nm d \<and> snd (applyNetMap lib ord0 ord now nm d) = Inr ()"
| "event_ok lib _ d \<longleftrightarrow> True"

interpretation mobile_sim: step_simulation mirrors "event_ok lib" "core_event lib" "daemon_event lib" for lib
proof
  show "mirrors (core_event lib ev c) (daemon_event lib ev d)" if "mirrors c d" "event_ok lib ev d" for c d ev
    using that
  proof (cases ev)
    case (MSignals il envs)
    with that(1) show ?thesis
      by (simp add: mirrors_def mirrors_net_def mc_receiveSignals_def receiveSignals_def [abs_def] mirror_signal [abs_def])
  qed (simp_all add: mirror_netmap mirrors_more)
qed

lemma mirror_names:
  assumes "mirrors_net c d"
  shows "mc_peerNameByAddr ks c a = peerNameByAddr ks d a"
proof -
  have "List.find (\<lambda>pi. mp_ipv4 pi = s \<or> mp_ipv6 pi = s) (map mobile_view pis) =
      map_option mobile_view (List.find (\<lambda>pi. pi_ipv4 pi = s \<or> pi_ipv6 pi = s) pis)" for s pis
    by (induction pis) (simp_all add: mobile_view_def)
  then show ?thesis
    by (simp add: mc_peerNameByAddr_def peerNameByAddr_def ranged_def mirrors_netD(1) [OF assms] map_filter_view mobile_view_def split: option.split)
qed


text \<open>The phone of the sample mesh as a mobile core, beside the daemon of that node.\<close>

definition sample_core :: "(string list userspaceEngine, string) Core" where
  "sample_core = \<lparr>mc_stateDir = ''/data'', mc_st = \<lparr>ms_machine = MachinePrivate zero_key, ms_node = NodePrivate zero_key\<rparr>, mc_running = True,
     mc_events = True, mc_engine = Some sample_engine, mc_bind = Some NewBind, mc_connmgr = Some (NewConnMgr 2), mc_relayCli = None,
     mc_dnsSrv = None, mc_dnsStarted = False, mc_dropSrv = False, mc_server = [], mc_selfV4 = Pfx (V4 0x64600002) 32,
     mc_selfV6 = Pfx (V6 0xfdab3f19000000000000000000000002 []) 128, mc_selfID = 2, mc_hostname = ''Phone'', mc_network = ''default'',
     mc_domain = [], mc_conn = ''connected'', mc_peers = Map.empty, mc_lastRelays = [], mc_lastNetMap = None, mc_inTunnelUp = False,
     mc_foreground = True, mc_told = [], mc_dnsLive = False\<rparr>"

lemma sample_mirrors: "mirrors sample_core sample_daemon"
  by (simp add: mirrors_def mirrors_net_def sample_core_def sample_daemon_def empty_State_def table_ok_def)

lemma overlay_prefix_form:
  assumes "n_IPv4 q = V4 x" and "n_IPv6 q = V6 y []"
  shows "prefix_form (overlayCIDRs q)"
proof -
  have "addr_text (V6 y []) @ ''/128'' = prefix_text (Pfx (V6 y []) 128)"
    by simp code_simp
  then show ?thesis
    using assms parse_prefix_text [of "Pfx (V6 y []) 128"] by (simp add: prefix_form_def overlayCIDRs_def host_prefix_parse no_zone_def)
qed

lemma netmap_self_addrs: "buildNetMapLocked flt c n = Inr nm \<Longrightarrow> pbn_OverlayIps (nm_Self nm) = overlayCIDRs n"
  by (auto simp: buildNetMapLocked_def split: sum.splits)

lemma phone_netmap_ok: "netmap_ok sample_lib phone_netmap sample_daemon"
proof -
  have "pbn_OverlayIps (nm_Self phone_netmap) = overlayCIDRs phone"
    by (rule netmap_self_addrs [OF phone_netmap(1)])
  moreover have "prefix_form (overlayCIDRs phone)" "prefix_form (overlayCIDRs laptop)"
    by (rule overlay_prefix_form, simp_all add: phone_def laptop_def)+
  ultimately show ?thesis
    by (simp add: netmap_ok_def netmap_prefixes_def phone_peers peer_of_def seen_peers_def u64_of_int64_def relay_steady_def sample_daemon_def)
qed

lemma phone_knows_laptop: "peerNameByAddr [1] phone_applied (V4 0x64600001) = ''laptop''"
proof -
  have n: "NodesInNetwork no_faults (c_st mesh_coord) (n_NetworkID phone) = Inr [laptop, phone]" using mesh_nodes by simp
  have "\<exists>pi. d_peers phone_applied (u64_of_int64 (n_ID laptop)) = Some pi \<and> pi_hostname pi = n_Hostname laptop \<and> pi_ipv4 pi = addr_text (n_IPv4 laptop)"
    using peer_in_table [OF coord_sys.reachable_inv [OF mesh_reachable] n phone_netmap(1) sample_table phone_applied_def, of laptop]
    by (simp add: laptop_key)
  then show ?thesis
    by (auto simp: peerNameByAddr_def ranged_def List.map_filter_simps u64_of_int64_def)
qed

abbreviation phone_events :: "string node_event list" where
  "phone_events \<equiv> [MNetMap phone_netmap (\<lambda>_. []) (\<lambda>_. [1]) (\<lambda>_. 0)]"


section \<open>The settings of the tunnel\<close>

text \<open>Text order is a strict total order, so a set of texts has one ordered list.\<close>

lemma str_less_irrefl: "\<not> str_less s s"
  by (induction s) simp_all

lemma str_less_trans: "str_less a b \<Longrightarrow> str_less b c \<Longrightarrow> str_less a c"
proof (induction a b arbitrary: c rule: str_less.induct)
  case (2 y ys)
  then show ?case by (cases c) auto
next
  case (3 x xs y ys)
  then show ?case by (cases c) auto
qed simp

lemma str_less_total: "a \<noteq> b \<Longrightarrow> str_less a b \<or> str_less b a"
proof (induction a b rule: str_less.induct)
  case (1 a)
  then show ?case by (cases a) auto
next
  case (3 x xs y ys)
  have "x \<noteq> y \<Longrightarrow> (of_char x :: nat) < of_char y \<or> (of_char y :: nat) < of_char x"
    using of_char_eq_iff [of x y, where 'a = nat] by linarith
  with 3 show ?case by (cases "x = y") auto
qed simp

lemma insert_sorted_text: "s \<notin> set ss \<Longrightarrow> sorted_wrt str_less ss \<Longrightarrow> sorted_wrt str_less (insert_by (\<lambda>s. s) s ss)"
  by (induction ss) (auto intro: str_less_trans dest: str_less_total)

lemma order_sorted_text: "distinct ss \<Longrightarrow> sorted_wrt str_less (order_by (\<lambda>s. s) ss)"
proof (induction ss)
  case (Cons s ss)
  then show ?case
    using insert_sorted_text [of s "order_by (\<lambda>s. s) ss"] set_order_by [of "\<lambda>s. s" ss] by (simp add: order_by_def)
qed (simp add: order_by_def)

lemma sorted_text_unique: "sorted_wrt str_less xs \<Longrightarrow> sorted_wrt str_less ys \<Longrightarrow> set xs = set ys \<Longrightarrow> xs = ys"
proof (induction xs arbitrary: ys)
  case (Cons x xs)
  then obtain y ys' where ys: "ys = y # ys'" by (cases ys) auto
  have "x = y"
  proof (rule ccontr)
    assume "x \<noteq> y"
    with Cons.prems ys have "x \<in> set ys'" "y \<in> set xs" by auto
    with Cons.prems ys have "str_less y x" "str_less x y" by auto
    then show False using str_less_trans str_less_irrefl by blast
  qed
  moreover have "x \<notin> set xs" "y \<notin> set ys'"
    using Cons.prems ys str_less_irrefl by auto
  ultimately show ?case
    using Cons.IH [of ys'] Cons.prems ys by (simp add: insert_ident)
qed simp

lemma extra_routes_set:
  "set (mc_extra_routes base pis) = prefix_text ` (\<Union>pi\<in>set pis. set (mp_subnetRoutes pi)) - set base" "distinct (mc_extra_routes base pis)"
proof -
  define f where "f r out = (let s = prefix_text r in if s \<in> set base \<or> s \<in> set out then out else out @ [s])" for r out
  have "set (fold f rs out) = set out \<union> (prefix_text ` set rs - set base) \<and> (distinct out \<longrightarrow> distinct (fold f rs out))" for rs out
  proof (induction rs arbitrary: out)
    case (Cons r rs)
    have "set (f r out) = set out \<union> ({prefix_text r} - set base)" "distinct out \<longrightarrow> distinct (f r out)"
      by (auto simp: f_def Let_def)
    with Cons [of "f r out"] show ?case by auto
  qed simp
  from this [of "concat (map mp_subnetRoutes pis)" "[]"]
  show "set (mc_extra_routes base pis) = prefix_text ` (\<Union>pi\<in>set pis. set (mp_subnetRoutes pi)) - set base" "distinct (mc_extra_routes base pis)"
    by (simp_all add: mc_extra_routes_def f_def [abs_def])
qed

text \<open>The settings do not depend on the order of the peers, so the platform is told again only when they changed.\<close>

lemma tunnel_settings_stable:
  assumes "set ks = set ks'"
  shows "tunnelSettingsLocked ks c = tunnelSettingsLocked ks' c"
proof -
  have "set (List.map_filter (mc_peers c) ks) = set (List.map_filter (mc_peers c) ks')"
    using assms by (auto simp: List.map_filter_def)
  then have "order_by (\<lambda>s. s) (mc_extra_routes base (List.map_filter (mc_peers c) ks)) =
      order_by (\<lambda>s. s) (mc_extra_routes base (List.map_filter (mc_peers c) ks'))" for base
    by (intro sorted_text_unique order_sorted_text) (simp_all add: extra_routes_set)
  then show ?thesis by (simp add: tunnelSettingsLocked_def Let_def)
qed

section \<open>Restarting the core\<close>

text \<open>A stop forgets the resolver but not that one was started, and from then on no resolver is started.\<close>

definition dns_stuck :: "('e, 'c) Core \<Rightarrow> bool" where
  "dns_stuck c \<longleftrightarrow> mc_dnsStarted c \<and> \<not> mc_dnsLive c"

lemma stop_sticks: "mc_running c \<Longrightarrow> mc_dnsStarted c \<Longrightarrow> dns_stuck (mc_Stop c)"
  by (simp add: dns_stuck_def mc_Stop_def Let_def)

lemma start_stuck: "dns_stuck c \<Longrightarrow> dns_stuck (fst (mc_Start lib dial reg mk b cfg fd ev c))"
  by (simp add: dns_stuck_def mc_Start_def mc_emit_def Let_def split: option.splits sum.splits)

lemma services_stuck: "dns_stuck c \<Longrightarrow> dns_stuck (startInTunnelServices lib c)" "dns_stuck c \<Longrightarrow> dns_stuck (NetworkSettingsApplied lib c)"
  by (simp_all add: dns_stuck_def startInTunnelServices_def NetworkSettingsApplied_def Let_def)

lemma sync_stuck [simp]: "dns_stuck (mc_syncPeers lib ord c) = dns_stuck c" "dns_stuck (mc_onPathUpdate lib ord u c) = dns_stuck c"
  by (simp_all add: dns_stuck_def mc_syncPeers_def mc_onPathUpdate_def Let_def split: option.splits)

lemma paths_stuck [simp]: "dns_stuck (fold (mc_onPathUpdate lib ord) us c) = dns_stuck c"
  by (induction us arbitrary: c) simp_all

lemma netmap_parts_stuck [simp]:
  "dns_stuck (mc_ensureRelay lib ord urls c) = dns_stuck c" "dns_stuck (mc_apply_paths lib ord stun online c) = dns_stuck c"
  "dns_stuck (mc_program lib nm cfgs c) = dns_stuck c"
  by (simp_all add: mc_ensureRelay_def mc_apply_paths_def mc_program_def Let_def split: option.splits list.splits) (simp_all add: dns_stuck_def)

lemma records_stuck: "dns_stuck c \<Longrightarrow> dns_stuck (updateDNSRecords lib nm c)"
  by (simp add: updateDNSRecords_def startInTunnelServices_def dns_stuck_def Let_def)

lemma fields_stuck [simp]:
  "dns_stuck (c\<lparr>mc_told := t\<rparr>) = dns_stuck c" "dns_stuck (c\<lparr>mc_lastNetMap := y\<rparr>) = dns_stuck c"
  "dns_stuck (c\<lparr>mc_peers := p\<rparr>) = dns_stuck c" "dns_stuck (c\<lparr>mc_domain := q\<rparr>) = dns_stuck c"
  by (simp_all add: dns_stuck_def)

lemma netmap_stuck: "dns_stuck c \<Longrightarrow> dns_stuck (mc_applyNetMap lib ord now nm c)"
  by (simp add: mc_applyNetMap_def Let_def records_stuck)

end
