(* ===== verification/Admin_Api.thy ===== *)
theory Admin_Api
  imports Coord_Inv
begin

text \<open>
  \<^verbatim>\<open>internal/adminapi/adminapi.go\<close>: the admin HTTP API. A request is a value of \<open>request\<close>, one constructor
  per route of \<^verbatim>\<open>Register\<close>, with the path value and the decoded JSON body; \<open>serve\<close> is the mux. The
  database is the coordinator's (\<^verbatim>\<open>a.st\<close> and \<^verbatim>\<open>a.c\<close> share it), and \<open>env\<close> has what a request draws from
  outside: the driver's failures, the time, the bytes of \<^verbatim>\<open>rand.Read\<close> and bcrypt. A handler is one step;
  the Go handlers hold no lock across their database calls, so interleaved handlers are treated
  apart (\<open>check_admins\<close> and \<open>apply_update\<close> are the two halves of \<^verbatim>\<open>handleUpdateUser\<close>). Error texts are
  the message or the error they print.
\<close>

section \<open>Requests, responses, state\<close>

record env =
  e_flt :: faults
  e_now :: int
  e_rand :: "byte list option"
  e_gen :: bcrypt_gen
  e_cmp :: bcrypt_cmp

record session =
  se_user :: User
  se_exp :: int

record API =
  ap_c :: Coordinator
  ap_nw :: Network
  ap_sessions :: "string \<rightharpoonup> session"

text \<open>A JSON body: decoded, absent (the decoder returns \<^verbatim>\<open>EOF\<close>), or malformed.\<close>

datatype 'a body = Decoded 'a | EmptyBody | Malformed

record createUserReq =
  cu_Username :: string
  cu_Password :: string
  cu_Role :: string

record updateUserReq =
  uu_Role :: "string option"
  uu_Disabled :: "bool option"
  uu_Password :: "string option"

record checkReq =
  ck_SrcID :: int
  ck_DstID :: int
  ck_Protocol :: string
  ck_Port :: "16 word"

record setupKeyReq =
  sr_Reusable :: bool
  sr_ExpiresHours :: int

record deviceJSON =
  dj_ID :: int
  dj_Hostname :: string
  dj_IPv4 :: string
  dj_IPv6 :: string
  dj_OS :: string
  dj_Online :: bool
  dj_LastSeen :: int
  dj_Created :: int
  dj_Routes :: "Route list"
  dj_Owner :: string

record setupKeyJSON =
  kj_ID :: int
  kj_Key :: string
  kj_Reusable :: bool
  kj_Revoked :: bool
  kj_Expired :: bool
  kj_ExpiresAt :: int
  kj_UsedCount :: int
  kj_Created :: int
  kj_Owner :: string

record statusJSON =
  sj_network :: string
  sj_v4_prefix :: string
  sj_v6_prefix :: string
  sj_dns_domain :: string
  sj_username :: string
  sj_role :: string
  sj_signup_enabled :: bool

datatype err_text = Msg string | ErrorOf goerr

datatype payload =
    P_ok | P_enabled bool | P_login string string | P_authinfo bool | P_status statusJSON
  | P_user User | P_users "User list" | P_audit "AuditEntry list" | P_rules "ACLRule list" | P_allowed bool
  | P_devices "deviceJSON list" | P_keys "setupKeyJSON list" | P_key setupKeyJSON

datatype response = HttpError nat err_text | JSON payload

datatype set_cookie = NoCookie | SetSession string int | ClearSession

definition sessionTTL :: int where "sessionTTL = 12 * 3600 * 1000000000"
definition legacyHashKey :: string where "legacyHashKey = ''admin_password_hash''"
definition signupEnabledKey :: string where "signupEnabledKey = ''signup_enabled''"

definition api_New :: "Coordinator \<Rightarrow> Network \<Rightarrow> API" where
  "api_New c nw = \<lparr>ap_c = c, ap_nw = nw, ap_sessions = Map.empty\<rparr>"

abbreviation ap_st :: "API \<Rightarrow> Store" where
  "ap_st a \<equiv> c_st (ap_c a)"

definition with_st :: "API \<Rightarrow> Store \<Rightarrow> API" where
  "with_st a s = a\<lparr>ap_c := (ap_c a)\<lparr>c_st := s\<rparr>\<rparr>"

text \<open>\<^verbatim>\<open>_ = a.st.Audit(\<dots>)\<close>: the error is dropped.\<close>

definition audit :: "env \<Rightarrow> API \<Rightarrow> string \<Rightarrow> string \<Rightarrow> string \<Rightarrow> string \<Rightarrow> API" where
  "audit e a username action target details =
     with_st a (fst (Audit (e_flt e) (e_now e) (ap_st a) username action target details))"

definition bool_text :: "bool \<Rightarrow> string" where
  "bool_text b = (if b then ''true'' else ''false'')"

section \<open>The first admin\<close>

definition EnsureAdminPassword :: "env \<Rightarrow> Store \<Rightarrow> string \<Rightarrow> Store \<times> unit res" where
  "EnsureAdminPassword e s explicit =
     (let legacyHash = (case Setting (e_flt e) s legacyHashKey of Inr h \<Rightarrow> h | Inl _ \<Rightarrow> []) in
      case EnsureAdminUser (e_gen e) (e_flt e) (e_now e) s explicit legacyHash of
        (s1, Inl err) \<Rightarrow> (s1, Inl err)
      | (s1, Inr needGenerated) \<Rightarrow>
         if \<not> needGenerated then (s1, Inr ())
         else (case e_rand e of
             None \<Rightarrow> (s1, Inl ErrDriver)
           | Some raw \<Rightarrow> (case CreateUser (e_gen e) (e_flt e) (e_now e) s1 ''admin'' (hex_encode raw) RoleAdmin of
               (s2, Inl err) \<Rightarrow> (s2, Inl err)
             | (s2, Inr _) \<Rightarrow> (s2, Inr ()))))"

section \<open>Users\<close>

definition handleUsers :: "env \<Rightarrow> API \<Rightarrow> API \<times> response" where
  "handleUsers e a = (a, case Users (e_flt e) (ap_st a) of
     Inl err \<Rightarrow> HttpError 500 (ErrorOf err) | Inr us \<Rightarrow> JSON (P_users us))"

definition handleCreateUser :: "env \<Rightarrow> API \<Rightarrow> User \<Rightarrow> createUserReq body \<Rightarrow> API \<times> response" where
  "handleCreateUser e a actor b = (case b of
     Decoded req \<Rightarrow>
      (let role = (if cu_Role req = [] then RoleMember else cu_Role req) in
       case CreateUser (e_gen e) (e_flt e) (e_now e) (ap_st a) (cu_Username req) (cu_Password req) role of
         (s, Inl err) \<Rightarrow> (with_st a s, HttpError 400 (ErrorOf err))
       | (s, Inr u) \<Rightarrow>
          (audit e (with_st a s) (u_Username actor) ''user.create'' (u_Username u) (''role='' @ u_Role u), JSON (P_user u)))
   | _ \<Rightarrow> (a, HttpError 400 (Msg ''bad request body'')))"

text \<open>The guard of \<^verbatim>\<open>handleUpdateUser\<close> and \<^verbatim>\<open>handleDeleteUser\<close>: \<^verbatim>\<open>n, _ := AdminCount()\<close> is 0 on an error.\<close>

definition admin_count :: "env \<Rightarrow> Store \<Rightarrow> nat" where
  "admin_count e s = (case AdminCount (e_flt e) s of Inl _ \<Rightarrow> 0 | Inr n \<Rightarrow> n)"

definition demoting :: "updateUserReq \<Rightarrow> bool" where
  "demoting req \<longleftrightarrow> (case uu_Role req of None \<Rightarrow> False | Some r \<Rightarrow> r \<noteq> RoleAdmin) \<or> uu_Disabled req = Some True"

definition check_admins :: "env \<Rightarrow> Store \<Rightarrow> User \<Rightarrow> updateUserReq \<Rightarrow> bool" where
  "check_admins e s target req \<longleftrightarrow> \<not> (u_Role target = RoleAdmin \<and> demoting req \<and> admin_count e s \<le> 1)"

definition apply_role :: "env \<Rightarrow> API \<Rightarrow> User \<Rightarrow> int \<Rightarrow> User \<Rightarrow> string option \<Rightarrow> API \<times> response option" where
  "apply_role e a actor i target ro = (case ro of
     None \<Rightarrow> (a, None)
   | Some role \<Rightarrow> (case SetUserRole (e_flt e) (ap_st a) i role of
       (s, Inl err) \<Rightarrow> (with_st a s, Some (HttpError 400 (ErrorOf err)))
     | (s, Inr _) \<Rightarrow> (audit e (with_st a s) (u_Username actor) ''user.role'' (u_Username target) (''role='' @ role), None)))"

definition apply_disabled :: "env \<Rightarrow> API \<Rightarrow> User \<Rightarrow> int \<Rightarrow> User \<Rightarrow> bool option \<Rightarrow> API \<times> response option" where
  "apply_disabled e a actor i target dis = (case dis of
     None \<Rightarrow> (a, None)
   | Some d \<Rightarrow> (case SetUserDisabled (e_flt e) (ap_st a) i d of
       (s, Inl err) \<Rightarrow> (with_st a s, Some (HttpError 400 (ErrorOf err)))
     | (s, Inr _) \<Rightarrow> (audit e (with_st a s) (u_Username actor) (if d then ''user.disable'' else ''user.enable'') (u_Username target) [], None)))"

definition apply_password :: "env \<Rightarrow> API \<Rightarrow> User \<Rightarrow> int \<Rightarrow> User \<Rightarrow> string option \<Rightarrow> API \<times> response option" where
  "apply_password e a actor i target pw = (case pw of
     None \<Rightarrow> (a, None)
   | Some p \<Rightarrow> (case SetUserPassword (e_gen e) (e_flt e) (ap_st a) i p of
       (s, Inl err) \<Rightarrow> (with_st a s, Some (HttpError 400 (ErrorOf err)))
     | (s, Inr _) \<Rightarrow> (audit e (with_st a s) (u_Username actor) ''user.password-reset'' (u_Username target) [], None)))"

definition apply_update :: "env \<Rightarrow> API \<Rightarrow> User \<Rightarrow> int \<Rightarrow> User \<Rightarrow> updateUserReq \<Rightarrow> API \<times> response" where
  "apply_update e a actor i target req =
     (case apply_role e a actor i target (uu_Role req) of
        (a1, Some err) \<Rightarrow> (a1, err)
      | (a1, None) \<Rightarrow> (case apply_disabled e a1 actor i target (uu_Disabled req) of
          (a2, Some err) \<Rightarrow> (a2, err)
        | (a2, None) \<Rightarrow> (case apply_password e a2 actor i target (uu_Password req) of
            (a3, Some err) \<Rightarrow> (a3, err)
          | (a3, None) \<Rightarrow> (a3, JSON P_ok))))"

definition handleUpdateUser :: "env \<Rightarrow> API \<Rightarrow> User \<Rightarrow> string \<Rightarrow> updateUserReq body \<Rightarrow> API \<times> response" where
  "handleUpdateUser e a actor path b = (case parse_int64 path of
     None \<Rightarrow> (a, HttpError 400 (Msg ''bad user id''))
   | Some i \<Rightarrow> (case b of
       Decoded req \<Rightarrow> (case UserByID (e_flt e) (ap_st a) i of
           Inl _ \<Rightarrow> (a, HttpError 404 (Msg ''no such user''))
         | Inr target \<Rightarrow>
            if \<not> check_admins e (ap_st a) target req
            then (a, HttpError 409 (Msg ''cannot demote or disable the last admin''))
            else apply_update e a actor i target req)
     | _ \<Rightarrow> (a, HttpError 400 (Msg ''bad request body''))))"

definition handleDeleteUser :: "env \<Rightarrow> API \<Rightarrow> User \<Rightarrow> string \<Rightarrow> API \<times> response" where
  "handleDeleteUser e a actor path = (case parse_int64 path of
     None \<Rightarrow> (a, HttpError 400 (Msg ''bad user id''))
   | Some i \<Rightarrow> (case UserByID (e_flt e) (ap_st a) i of
       Inl _ \<Rightarrow> (a, HttpError 404 (Msg ''no such user''))
     | Inr target \<Rightarrow>
        if u_Role target = RoleAdmin \<and> admin_count e (ap_st a) \<le> 1
        then (a, HttpError 409 (Msg ''cannot delete the last admin''))
        else (case DeleteUser (e_flt e) (ap_st a) i of
            (s, Inl err) \<Rightarrow> (with_st a s, HttpError 500 (ErrorOf err))
          | (s, Inr _) \<Rightarrow> (audit e (with_st a s) (u_Username actor) ''user.delete'' (u_Username target) [], JSON P_ok))))"

definition handleSignupToggle :: "env \<Rightarrow> API \<Rightarrow> User \<Rightarrow> bool body \<Rightarrow> API \<times> response" where
  "handleSignupToggle e a actor b = (case b of
     Decoded enabled \<Rightarrow>
      (let v = (if enabled then ''1'' else ''0'') in
       case SetSetting (e_flt e) (ap_st a) signupEnabledKey v of
         (s, Inl err) \<Rightarrow> (with_st a s, HttpError 500 (ErrorOf err))
       | (s, Inr _) \<Rightarrow> (audit e (with_st a s) (u_Username actor) ''settings.signup'' [] (''enabled='' @ v), JSON (P_enabled enabled)))
   | _ \<Rightarrow> (a, HttpError 400 (Msg ''bad request body'')))"

text \<open>\<^verbatim>\<open>limit, _ := strconv.Atoi(\<dots>)\<close>: a value out of range is clamped, other errors give 0.\<close>

definition atoi_value :: "string \<Rightarrow> int" where
  "atoi_value s = (case parse_int64 s of
     Some i \<Rightarrow> i
   | None \<Rightarrow> (case s of
       [] \<Rightarrow> 0
     | c # cs \<Rightarrow>
        (let body = (if c = CHR ''-'' \<or> c = CHR ''+'' then cs else s) in
         if body = [] \<or> \<not> list_all is_digit body then 0
         else if c = CHR ''-'' then - (2 ^ 63) else 2 ^ 63 - 1)))"

definition handleAudit :: "env \<Rightarrow> API \<Rightarrow> string \<Rightarrow> API \<times> response" where
  "handleAudit e a limit = (a, case AuditLog (e_flt e) (ap_st a) (atoi_value limit) of
     Inl err \<Rightarrow> HttpError 500 (ErrorOf err) | Inr es \<Rightarrow> JSON (P_audit es))"

section \<open>Access rules\<close>

definition handleGetACL :: "env \<Rightarrow> API \<Rightarrow> API \<times> response" where
  "handleGetACL e a = (a, case ACL (e_flt e) (ap_st a) (nw_ID (ap_nw a)) of
     Inl err \<Rightarrow> HttpError 500 (ErrorOf err) | Inr rs \<Rightarrow> JSON (P_rules rs))"

text \<open>The validation loop: the ports of a rule in order, then its protocol.\<close>

fun check_ports :: "string list \<Rightarrow> err_text option" where
  "check_ports [] = None"
| "check_ports (spec # ps) = (case ParsePortSpec spec of Inl err \<Rightarrow> Some (ErrorOf err) | Inr _ \<Rightarrow> check_ports ps)"

fun validate_rules :: "ACLRule list \<Rightarrow> err_text option" where
  "validate_rules [] = None"
| "validate_rules (r # rs) = (case check_ports (acl_Ports r) of
     Some err \<Rightarrow> Some err
   | None \<Rightarrow>
      if length (acl_Ports r) > 0 \<and> acl_Protocol r \<noteq> ''tcp'' \<and> acl_Protocol r \<noteq> ''udp''
      then Some (Msg ''ports require protocol tcp or udp'')
      else validate_rules rs)"

definition handleSetACL :: "env \<Rightarrow> API \<Rightarrow> User \<Rightarrow> ACLRule list body \<Rightarrow> API \<times> response" where
  "handleSetACL e a actor b = (case b of
     Decoded rules \<Rightarrow> (case validate_rules rules of
         Some err \<Rightarrow> (a, HttpError 400 err)
       | None \<Rightarrow> (case SetACL (e_flt e) (e_now e) (ap_st a) (nw_ID (ap_nw a)) rules of
           (s, Inl err) \<Rightarrow> (with_st a s, HttpError 400 (ErrorOf err))
         | (s, Inr _) \<Rightarrow>
            (let a1 = with_st a s; a2 = a1\<lparr>ap_c := ACLChanged (e_flt e) (ap_c a1) (nw_ID (ap_nw a))\<rparr> in
             (audit e a2 (u_Username actor) ''acl.save'' [] (itoa (length rules) @ '' rules''), JSON P_ok))))
   | _ \<Rightarrow> (a, HttpError 400 (Msg ''bad request body'')))"

definition handleCheckACL :: "env \<Rightarrow> API \<Rightarrow> checkReq body \<Rightarrow> API \<times> response" where
  "handleCheckACL e a b = (a, case b of
     Decoded req \<Rightarrow> (case NodeForCheck (e_flt e) (ap_c a) (ck_SrcID req) of
         Inl _ \<Rightarrow> HttpError 404 (Msg ''unknown source device'')
       | Inr src \<Rightarrow> (case NodeForCheck (e_flt e) (ap_c a) (ck_DstID req) of
           Inl _ \<Rightarrow> HttpError 404 (Msg ''unknown destination device'')
         | Inr dst \<Rightarrow> (case CompileFilterForNode (e_flt e) (ap_st a) dst of
             Inl err \<Rightarrow> HttpError 500 (ErrorOf err)
           | Inr (rules, enabled) \<Rightarrow>
              JSON (P_allowed (filter_Check (FromProto rules enabled) (n_IPv4 src) (ck_Protocol req) (ck_Port req))))))
   | _ \<Rightarrow> HttpError 400 (Msg ''bad request body''))"

section \<open>Sessions\<close>

definition signupEnabled :: "env \<Rightarrow> API \<Rightarrow> bool" where
  "signupEnabled e a \<longleftrightarrow> Setting (e_flt e) (ap_st a) signupEnabledKey = Inr ''1''"

definition gcSessionsLocked :: "env \<Rightarrow> (string \<rightharpoonup> session) \<Rightarrow> (string \<rightharpoonup> session)" where
  "gcSessionsLocked e m = (\<lambda>t. case m t of None \<Rightarrow> None | Some s \<Rightarrow> if e_now e > se_exp s then None else Some s)"

definition startSession :: "env \<Rightarrow> API \<Rightarrow> User \<Rightarrow> API \<times> set_cookie option" where
  "startSession e a u = (case e_rand e of
     None \<Rightarrow> (a, None)
   | Some raw \<Rightarrow>
      (let token = hex_encode raw in
       (a\<lparr>ap_sessions := (gcSessionsLocked e (ap_sessions a))(token \<mapsto> \<lparr>se_user = u, se_exp = e_now e + sessionTTL\<rparr>)\<rparr>,
        Some (SetSession token (sessionTTL div 1000000000)))))"

definition handleLogin :: "env \<Rightarrow> API \<Rightarrow> (string \<times> string) body \<Rightarrow> API \<times> set_cookie \<times> response" where
  "handleLogin e a b = (case b of
     Decoded (username0, password) \<Rightarrow>
      (let username = (if username0 = [] then ''admin'' else username0) in
       case CheckPassword (e_cmp e) (e_flt e) (ap_st a) username password of
         Inl _ \<Rightarrow> (audit e a username ''login.failed'' [] [], NoCookie, HttpError 401 (Msg ''wrong username or password''))
       | Inr u \<Rightarrow> (case startSession e a u of
           (a1, None) \<Rightarrow> (a1, NoCookie, HttpError 500 (Msg ''entropy failure''))
         | (a1, Some ck) \<Rightarrow> (audit e a1 (u_Username u) ''login'' [] [], ck, JSON (P_login (u_Username u) (u_Role u)))))
   | _ \<Rightarrow> (a, NoCookie, HttpError 400 (Msg ''bad request body'')))"

definition handleSignup :: "env \<Rightarrow> API \<Rightarrow> (string \<times> string) body \<Rightarrow> API \<times> set_cookie \<times> response" where
  "handleSignup e a b =
     (if \<not> signupEnabled e a then (a, NoCookie, HttpError 404 (Msg ''signup is disabled on this server''))
      else (case b of
        Decoded (username, password) \<Rightarrow>
         (case CreateUser (e_gen e) (e_flt e) (e_now e) (ap_st a) username password RoleMember of
            (s, Inl err) \<Rightarrow> (with_st a s, NoCookie, HttpError 400 (ErrorOf err))
          | (s, Inr u) \<Rightarrow>
             (let a1 = audit e (with_st a s) (u_Username u) ''user.signup'' [] [] in
              case startSession e a1 u of
                (a2, None) \<Rightarrow> (a2, NoCookie, HttpError 500 (Msg ''entropy failure''))
              | (a2, Some ck) \<Rightarrow> (a2, ck, JSON (P_login (u_Username u) (u_Role u)))))
      | _ \<Rightarrow> (a, NoCookie, HttpError 400 (Msg ''bad request body''))))"

definition handleAuthInfo :: "env \<Rightarrow> API \<Rightarrow> API \<times> response" where
  "handleAuthInfo e a = (a, JSON (P_authinfo (signupEnabled e a)))"

definition handleLogout :: "API \<Rightarrow> string option \<Rightarrow> API \<times> set_cookie \<times> response" where
  "handleLogout a cookie =
     (case cookie of None \<Rightarrow> a | Some t \<Rightarrow> a\<lparr>ap_sessions := (ap_sessions a)(t := None)\<rparr>, ClearSession, JSON P_ok)"

definition sessionUser :: "env \<Rightarrow> API \<Rightarrow> string option \<Rightarrow> User option" where
  "sessionUser e a cookie = (case cookie of
     None \<Rightarrow> None
   | Some t \<Rightarrow> (case ap_sessions a t of
       None \<Rightarrow> None
     | Some s \<Rightarrow> if e_now e > se_exp s then None else Some (se_user s)))"

text \<open>The wrappers \<^verbatim>\<open>auth\<close> and \<^verbatim>\<open>admin\<close>.\<close>

definition auth :: "env \<Rightarrow> API \<Rightarrow> string option \<Rightarrow> (User \<Rightarrow> API \<times> response) \<Rightarrow> API \<times> response" where
  "auth e a cookie next_handler = (case sessionUser e a cookie of
     None \<Rightarrow> (a, HttpError 401 (Msg ''not logged in''))
   | Some u \<Rightarrow> next_handler u)"

definition admin :: "env \<Rightarrow> API \<Rightarrow> string option \<Rightarrow> (User \<Rightarrow> API \<times> response) \<Rightarrow> API \<times> response" where
  "admin e a cookie next_handler = (case sessionUser e a cookie of
     None \<Rightarrow> (a, HttpError 401 (Msg ''not logged in''))
   | Some u \<Rightarrow> if u_Role u \<noteq> RoleAdmin then (a, HttpError 403 (Msg ''admin access required'')) else next_handler u)"

section \<open>Devices and setup keys\<close>

definition handleStatus :: "env \<Rightarrow> API \<Rightarrow> User \<Rightarrow> API \<times> response" where
  "handleStatus e a u =
     (let domain = (if c_DNSBase (ap_c a) \<noteq> [] then nw_Name (ap_nw a) @ ''.'' @ c_DNSBase (ap_c a) else []) in
      (a, JSON (P_status \<lparr>sj_network = nw_Name (ap_nw a), sj_v4_prefix = prefix_text (nw_V4Prefix (ap_nw a)),
         sj_v6_prefix = prefix_text (nw_V6Prefix (ap_nw a)), sj_dns_domain = domain, sj_username = u_Username u, sj_role = u_Role u,
         sj_signup_enabled = signupEnabled e a\<rparr>)))"

definition owner_name :: "env \<Rightarrow> Store \<Rightarrow> int \<Rightarrow> (int \<rightharpoonup> string) \<Rightarrow> (int \<rightharpoonup> string)" where
  "owner_name e s owner names = (case names owner of
     Some _ \<Rightarrow> names
   | None \<Rightarrow> names(owner \<mapsto> (case UserByID (e_flt e) s owner of Inr u \<Rightarrow> u_Username u | Inl _ \<Rightarrow> ''?'')))"

definition ownerNames :: "env \<Rightarrow> Store \<Rightarrow> Node list \<Rightarrow> (int \<rightharpoonup> string)" where
  "ownerNames e s nodes = fold (\<lambda>n. owner_name e s (n_OwnerUserID n)) nodes [0 \<mapsto> ''admin'']"

text \<open>Indexing a map: the zero value when the key is absent.\<close>

definition at :: "(int \<rightharpoonup> string) \<Rightarrow> int \<Rightarrow> string" where
  "at m k = (case m k of None \<Rightarrow> [] | Some v \<Rightarrow> v)"

definition unixOrZero :: "int option \<Rightarrow> int" where
  "unixOrZero t = (case t of None \<Rightarrow> 0 | Some x \<Rightarrow> unix x)"

definition device_json :: "env \<Rightarrow> API \<Rightarrow> (int \<rightharpoonup> string) \<Rightarrow> Node \<Rightarrow> deviceJSON" where
  "device_json e a names n = \<lparr>dj_ID = n_ID n, dj_Hostname = n_Hostname n, dj_IPv4 = addr_text (n_IPv4 n), dj_IPv6 = addr_text (n_IPv6 n),
     dj_OS = n_OS n, dj_Online = Online (ap_c a) (n_ID n), dj_LastSeen = unixOrZero (n_LastSeen n), dj_Created = unixOrZero (n_CreatedAt n),
     dj_Routes = (case store_NodeRoutes (e_flt e) (ap_st a) (n_ID n) of Inr rs \<Rightarrow> rs | Inl _ \<Rightarrow> []), dj_Owner = at names (n_OwnerUserID n)\<rparr>"

definition handleDevices :: "env \<Rightarrow> API \<Rightarrow> User \<Rightarrow> API \<times> response" where
  "handleDevices e a u = (a, case NodesInNetwork (e_flt e) (ap_st a) (nw_ID (ap_nw a)) of
     Inl err \<Rightarrow> HttpError 500 (ErrorOf err)
   | Inr nodes \<Rightarrow>
      (let names = ownerNames e (ap_st a) nodes in
       JSON (P_devices (map (device_json e a names)
         (filter (\<lambda>n. \<not> (u_Role u \<noteq> RoleAdmin \<and> n_OwnerUserID n \<noteq> u_ID u)) nodes)))))"

definition handleDeleteDevice :: "env \<Rightarrow> API \<Rightarrow> User \<Rightarrow> string \<Rightarrow> API \<times> response" where
  "handleDeleteDevice e a u path = (case parse_int64 path of
     None \<Rightarrow> (a, HttpError 400 (Msg ''bad device id''))
   | Some i \<Rightarrow> (case NodeByID (e_flt e) (ap_st a) i of
       Inl _ \<Rightarrow> (a, HttpError 404 (Msg ''no such device''))
     | Inr n \<Rightarrow>
        if u_Role u \<noteq> RoleAdmin \<and> n_OwnerUserID n \<noteq> u_ID u then (a, HttpError 403 (Msg ''not your device''))
        else (case coord_DeleteNode (e_flt e) (ap_c a) i of
            (c, Inl err) \<Rightarrow> (a\<lparr>ap_c := c\<rparr>, if is_not_found err then HttpError 404 (Msg ''no such device'') else HttpError 500 (ErrorOf err))
          | (c, Inr _) \<Rightarrow> (audit e (a\<lparr>ap_c := c\<rparr>) (u_Username u) ''device.delete'' (n_Hostname n) [], JSON P_ok))))"

definition handleSetRouteApproval :: "env \<Rightarrow> API \<Rightarrow> User \<Rightarrow> string \<Rightarrow> (string \<times> bool) body \<Rightarrow> API \<times> response" where
  "handleSetRouteApproval e a actor path b = (case parse_int64 path of
     None \<Rightarrow> (a, HttpError 400 (Msg ''bad device id''))
   | Some i \<Rightarrow> (case b of
       Decoded (route, approve) \<Rightarrow> (case coord_SetRouteApproved (e_flt e) (ap_c a) i route approve of
           (c, Inl err) \<Rightarrow> (a\<lparr>ap_c := c\<rparr>,
              if is_not_found err then HttpError 404 (Msg ''no such device or route'') else HttpError 400 (ErrorOf err))
         | (c, Inr _) \<Rightarrow>
            (audit e (a\<lparr>ap_c := c\<rparr>) (u_Username actor) (if approve then ''route.approve'' else ''route.revoke'')
               (''device#'' @ int_text i) route, JSON P_ok))
     | _ \<Rightarrow> (a, HttpError 400 (Msg ''bad request body''))))"

definition key_json :: "env \<Rightarrow> (int \<rightharpoonup> string) \<Rightarrow> SetupKey \<Rightarrow> setupKeyJSON" where
  "key_json e names k = \<lparr>kj_ID = sk_ID k, kj_Key = sk_Key k, kj_Reusable = sk_Reusable k, kj_Revoked = sk_Revoked k,
     kj_Expired = key_expired (e_now e) k, kj_ExpiresAt = unixOrZero (sk_ExpiresAt k), kj_UsedCount = sk_UsedCount k,
     kj_Created = unix (sk_CreatedAt k), kj_Owner = at names (sk_OwnerUserID k)\<rparr>"

text \<open>The loop of \<^verbatim>\<open>handleSetupKeys\<close>; it fills the map of names as it goes.\<close>

fun list_keys :: "env \<Rightarrow> Store \<Rightarrow> User \<Rightarrow> (int \<rightharpoonup> string) \<Rightarrow> SetupKey list \<Rightarrow> setupKeyJSON list" where
  "list_keys e s u names [] = []"
| "list_keys e s u names (k # ks) =
     (if u_Role u \<noteq> RoleAdmin \<and> sk_OwnerUserID k \<noteq> u_ID u then list_keys e s u names ks
      else (let names' = owner_name e s (sk_OwnerUserID k) names in key_json e names' k # list_keys e s u names' ks))"

definition handleSetupKeys :: "env \<Rightarrow> API \<Rightarrow> User \<Rightarrow> API \<times> response" where
  "handleSetupKeys e a u = (a, case SetupKeys (e_flt e) (ap_st a) (nw_ID (ap_nw a)) of
     Inl err \<Rightarrow> HttpError 500 (ErrorOf err)
   | Inr keys \<Rightarrow> JSON (P_keys (list_keys e (ap_st a) u [0 \<mapsto> ''admin''] keys)))"

text \<open>\<^verbatim>\<open>time.Duration(h) * time.Hour\<close> wraps at 64 bits.\<close>

definition hours :: "int \<Rightarrow> int" where
  "hours h = int64_of_u64 (u64_of_int64 (h * 3600000000000))"

definition handleCreateSetupKey :: "env \<Rightarrow> API \<Rightarrow> User \<Rightarrow> setupKeyReq body \<Rightarrow> API \<times> response" where
  "handleCreateSetupKey e a u b =
     (if b = Malformed then (a, HttpError 400 (Msg ''bad request body''))
      else (let req = (case b of Decoded r \<Rightarrow> r | _ \<Rightarrow> \<lparr>sr_Reusable = False, sr_ExpiresHours = 0\<rparr>);
                expires = (if sr_ExpiresHours req > 0 then Some (e_now e + hours (sr_ExpiresHours req)) else None) in
        case NewSetupKey (e_flt e) (e_rand e) (e_now e) (ap_st a) (nw_ID (ap_nw a)) (sr_Reusable req) expires (u_ID u) of
          (s, Inl err) \<Rightarrow> (with_st a s, HttpError 500 (ErrorOf err))
        | (s, Inr k) \<Rightarrow>
           (audit e (with_st a s) (u_Username u) ''setupkey.create'' [] (''reusable='' @ bool_text (sr_Reusable req)),
            JSON (P_key \<lparr>kj_ID = sk_ID k, kj_Key = sk_Key k, kj_Reusable = sk_Reusable k, kj_Revoked = False, kj_Expired = False,
              kj_ExpiresAt = unixOrZero (sk_ExpiresAt k), kj_UsedCount = 0, kj_Created = unix (sk_CreatedAt k), kj_Owner = u_Username u\<rparr>))))"

definition handleRevokeSetupKey :: "env \<Rightarrow> API \<Rightarrow> User \<Rightarrow> string \<Rightarrow> API \<times> response" where
  "handleRevokeSetupKey e a u path = (case parse_int64 path of
     None \<Rightarrow> (a, HttpError 400 (Msg ''bad key id''))
   | Some i \<Rightarrow> (case SetupKeyByID (e_flt e) (ap_st a) i of
       Inl _ \<Rightarrow> (a, HttpError 404 (Msg ''no such key''))
     | Inr k \<Rightarrow>
        if u_Role u \<noteq> RoleAdmin \<and> sk_OwnerUserID k \<noteq> u_ID u then (a, HttpError 403 (Msg ''not your key''))
        else (case RevokeSetupKey (e_flt e) (ap_st a) i of
            (s, Inl err) \<Rightarrow> (with_st a s, if is_not_found err then HttpError 404 (Msg ''no such key'') else HttpError 500 (ErrorOf err))
          | (s, Inr _) \<Rightarrow> (audit e (with_st a s) (u_Username u) ''setupkey.revoke'' [] [], JSON P_ok))))"

section \<open>The mux\<close>

datatype request =
    Login "(string \<times> string) body" | Signup "(string \<times> string) body" | AuthInfo | Logout
  | GetStatus | GetDevices | DeleteDevice string | GetSetupKeys | PostSetupKey "setupKeyReq body" | DeleteSetupKey string
  | PutRoutes string "(string \<times> bool) body" | GetACL | PutACL "ACLRule list body" | PostACLCheck "checkReq body"
  | GetUsers | PostUser "createUserReq body" | PutUser string "updateUserReq body" | DeleteUserReq string
  | PutSignup "bool body" | GetAudit string

definition no_cookie :: "API \<times> response \<Rightarrow> API \<times> set_cookie \<times> response" where
  "no_cookie x = (fst x, NoCookie, snd x)"

fun serve :: "env \<Rightarrow> API \<Rightarrow> string option \<Rightarrow> request \<Rightarrow> API \<times> set_cookie \<times> response" where
  "serve e a ck (Login b) = handleLogin e a b"
| "serve e a ck (Signup b) = handleSignup e a b"
| "serve e a ck AuthInfo = no_cookie (handleAuthInfo e a)"
| "serve e a ck Logout = handleLogout a ck"
| "serve e a ck GetStatus = no_cookie (auth e a ck (handleStatus e a))"
| "serve e a ck GetDevices = no_cookie (auth e a ck (handleDevices e a))"
| "serve e a ck (DeleteDevice p) = no_cookie (auth e a ck (\<lambda>u. handleDeleteDevice e a u p))"
| "serve e a ck GetSetupKeys = no_cookie (auth e a ck (handleSetupKeys e a))"
| "serve e a ck (PostSetupKey b) = no_cookie (auth e a ck (\<lambda>u. handleCreateSetupKey e a u b))"
| "serve e a ck (DeleteSetupKey p) = no_cookie (auth e a ck (\<lambda>u. handleRevokeSetupKey e a u p))"
| "serve e a ck (PutRoutes p b) = no_cookie (admin e a ck (\<lambda>u. handleSetRouteApproval e a u p b))"
| "serve e a ck GetACL = no_cookie (admin e a ck (\<lambda>_. handleGetACL e a))"
| "serve e a ck (PutACL b) = no_cookie (admin e a ck (\<lambda>u. handleSetACL e a u b))"
| "serve e a ck (PostACLCheck b) = no_cookie (admin e a ck (\<lambda>_. handleCheckACL e a b))"
| "serve e a ck GetUsers = no_cookie (admin e a ck (\<lambda>_. handleUsers e a))"
| "serve e a ck (PostUser b) = no_cookie (admin e a ck (\<lambda>u. handleCreateUser e a u b))"
| "serve e a ck (PutUser p b) = no_cookie (admin e a ck (\<lambda>u. handleUpdateUser e a u p b))"
| "serve e a ck (DeleteUserReq p) = no_cookie (admin e a ck (\<lambda>u. handleDeleteUser e a u p))"
| "serve e a ck (PutSignup b) = no_cookie (admin e a ck (\<lambda>u. handleSignupToggle e a u b))"
| "serve e a ck (GetAudit l) = no_cookie (admin e a ck (\<lambda>_. handleAudit e a l))"

section \<open>Lemmas: the coordinator's invariant\<close>

text \<open>Every request is a sequence of steps of the coordinator's transition system.\<close>

abbreviation coord_steps :: "Coordinator \<Rightarrow> Coordinator \<Rightarrow> bool" where
  "coord_steps \<equiv> coord_step\<^sup>*\<^sup>*"

lemma with_st_simps [simp]: "ap_c (with_st a s) = (ap_c a)\<lparr>c_st := s\<rparr>" "ap_nw (with_st a s) = ap_nw a" "ap_sessions (with_st a s) = ap_sessions a"
  by (simp_all add: with_st_def)

lemma admin_write_steps: "admin_write (c_st c) s \<Longrightarrow> coord_steps c (c\<lparr>c_st := s\<rparr>)"
  by (rule r_into_rtranclp) (rule step_admin)

lemma audit_steps: "coord_steps c (ap_c a) \<Longrightarrow> coord_steps c (ap_c (audit e a u ac t d))"
  by (rule rtranclp_trans) (auto simp: audit_def intro!: admin_write_steps write_Audit)

text \<open>A write of a handler, seen through the case distinction on its result.\<close>

lemma write_steps:
  "op = (s, r) \<Longrightarrow> admin_write (c_st c) (fst op) \<Longrightarrow> coord_steps c (c\<lparr>c_st := s\<rparr>)"
  by (auto intro: admin_write_steps)

lemma startSession_c [simp]: "ap_c (fst (startSession e a u)) = ap_c a" "ap_nw (fst (startSession e a u)) = ap_nw a"
  by (simp_all add: startSession_def Let_def split: option.split)

lemma startSession_c': "startSession e a u = (a', r) \<Longrightarrow> ap_c a' = ap_c a"
  using startSession_c [of e a u] by simp

lemma result_steps:
  "NewSetupKey flt raw now (c_st c) nid ru ex ow = (s, r1) \<Longrightarrow> coord_steps c (c\<lparr>c_st := s\<rparr>)"
  "RevokeSetupKey flt (c_st c) i = (s, r2) \<Longrightarrow> coord_steps c (c\<lparr>c_st := s\<rparr>)"
  "SetACL flt now (c_st c) nid rules = (s, r2) \<Longrightarrow> coord_steps c (c\<lparr>c_st := s\<rparr>)"
  "SetSetting flt (c_st c) k v = (s, r2) \<Longrightarrow> coord_steps c (c\<lparr>c_st := s\<rparr>)"
  "CreateUser gen flt now (c_st c) u pw role = (s, r3) \<Longrightarrow> coord_steps c (c\<lparr>c_st := s\<rparr>)"
  "SetUserDisabled flt (c_st c) i b = (s, r2) \<Longrightarrow> coord_steps c (c\<lparr>c_st := s\<rparr>)"
  "SetUserRole flt (c_st c) i role = (s, r2) \<Longrightarrow> coord_steps c (c\<lparr>c_st := s\<rparr>)"
  "SetUserPassword gen flt (c_st c) i pw = (s, r2) \<Longrightarrow> coord_steps c (c\<lparr>c_st := s\<rparr>)"
  "DeleteUser flt (c_st c) i = (s, r2) \<Longrightarrow> coord_steps c (c\<lparr>c_st := s\<rparr>)"
  by (erule write_steps, rule admin_write.intros)+

lemma handleLogin_steps: "coord_steps (ap_c a) (ap_c (fst (handleLogin e a b)))"
  by (cases b) (auto simp: handleLogin_def Let_def dest!: startSession_c' intro!: audit_steps split: sum.split option.split prod.split)

lemma handleSignup_steps: "coord_steps (ap_c a) (ap_c (fst (handleSignup e a b)))"
proof (cases b)
  case (Decoded x)
  obtain u p where x: "x = (u, p)" by fastforce
  obtain s r where s: "CreateUser (e_gen e) (e_flt e) (e_now e) (ap_st a) u p RoleMember = (s, r)" by fastforce
  have 1: "coord_steps (ap_c a) ((ap_c a)\<lparr>c_st := s\<rparr>)" by (rule result_steps(5) [OF s])
  then have "coord_steps (ap_c a) (ap_c (audit e (with_st a s) n ''user.signup'' [] []))" for n by (intro audit_steps) simp
  with 1 s Decoded x show ?thesis
    by (auto simp: handleSignup_def Let_def dest!: startSession_c' split: sum.split option.split prod.split)
qed (simp_all add: handleSignup_def)

lemma handleCreateUser_steps: "coord_steps (ap_c a) (ap_c (fst (handleCreateUser e a u b)))"
  by (cases b) (auto simp: handleCreateUser_def Let_def intro!: audit_steps intro: result_steps split: sum.split prod.split)

lemma handleDeleteUser_steps: "coord_steps (ap_c a) (ap_c (fst (handleDeleteUser e a u p)))"
  by (auto simp: handleDeleteUser_def intro!: audit_steps intro: result_steps split: option.split sum.split prod.split)

lemma handleSignupToggle_steps: "coord_steps (ap_c a) (ap_c (fst (handleSignupToggle e a u b)))"
  by (cases b) (auto simp: handleSignupToggle_def Let_def intro!: audit_steps intro: result_steps split: sum.split prod.split)

lemma handleCreateSetupKey_steps: "coord_steps (ap_c a) (ap_c (fst (handleCreateSetupKey e a u b)))"
  by (auto simp: handleCreateSetupKey_def Let_def intro!: audit_steps intro: result_steps split: sum.split prod.split)

lemma handleRevokeSetupKey_steps: "coord_steps (ap_c a) (ap_c (fst (handleRevokeSetupKey e a u p)))"
  by (auto simp: handleRevokeSetupKey_def intro!: audit_steps intro: result_steps split: option.split sum.split prod.split)

lemma apply_role_steps: "coord_steps (ap_c a) (ap_c (fst (apply_role e a u i t r)))"
  by (auto simp: apply_role_def intro!: audit_steps intro: result_steps split: option.split sum.split prod.split)

lemma apply_disabled_steps: "coord_steps (ap_c a) (ap_c (fst (apply_disabled e a u i t r)))"
  by (auto simp: apply_disabled_def intro!: audit_steps intro: result_steps split: option.split sum.split prod.split)

lemma apply_password_steps: "coord_steps (ap_c a) (ap_c (fst (apply_password e a u i t r)))"
  by (auto simp: apply_password_def intro!: audit_steps intro: result_steps split: option.split sum.split prod.split)

lemma apply_update_steps: "coord_steps (ap_c a) (ap_c (fst (apply_update e a u i t req)))"
proof -
  obtain a1 r1 where 1: "apply_role e a u i t (uu_Role req) = (a1, r1)" by fastforce
  obtain a2 r2 where 2: "apply_disabled e a1 u i t (uu_Disabled req) = (a2, r2)" by fastforce
  obtain a3 r3 where 3: "apply_password e a2 u i t (uu_Password req) = (a3, r3)" by fastforce
  have "coord_steps (ap_c a) (ap_c a1)" "coord_steps (ap_c a1) (ap_c a2)" "coord_steps (ap_c a2) (ap_c a3)"
    using apply_role_steps [of a e u i t "uu_Role req"] apply_disabled_steps [of a1 e u i t "uu_Disabled req"]
      apply_password_steps [of a2 e u i t "uu_Password req"] 1 2 3 by simp_all
  with 1 2 3 show ?thesis by (auto simp: apply_update_def split: option.split intro: rtranclp_trans)
qed

lemma handleUpdateUser_steps: "coord_steps (ap_c a) (ap_c (fst (handleUpdateUser e a u p b)))"
  by (cases b) (auto simp: handleUpdateUser_def intro: apply_update_steps split: option.split sum.split)

lemma coord_result_steps:
  "coord_DeleteNode flt c i = (c', r) \<Longrightarrow> coord_steps c c'"
  "coord_SetRouteApproved flt c i rt b = (c', r) \<Longrightarrow> coord_steps c c'"
  using step_DeleteNode [of c flt i] step_SetRouteApproved [of c flt i rt b] by auto

lemma handleDeleteDevice_steps: "coord_steps (ap_c a) (ap_c (fst (handleDeleteDevice e a u p)))"
  by (auto simp: handleDeleteDevice_def intro!: audit_steps intro: coord_result_steps split: option.split sum.split prod.split)

lemma handleSetRouteApproval_steps: "coord_steps (ap_c a) (ap_c (fst (handleSetRouteApproval e a u p b)))"
  by (cases b) (auto simp: handleSetRouteApproval_def intro!: audit_steps intro: coord_result_steps split: option.split sum.split prod.split)

lemma handleSetACL_steps: "coord_steps (ap_c a) (ap_c (fst (handleSetACL e a u b)))"
proof (cases b)
  case (Decoded rules)
  obtain s r where s: "SetACL (e_flt e) (e_now e) (ap_st a) (nw_ID (ap_nw a)) rules = (s, r)" by fastforce
  have 1: "coord_steps (ap_c a) ((ap_c a)\<lparr>c_st := s\<rparr>)" by (rule result_steps(3) [OF s])
  moreover have "coord_steps ((ap_c a)\<lparr>c_st := s\<rparr>) (ACLChanged (e_flt e) ((ap_c a)\<lparr>c_st := s\<rparr>) (nw_ID (ap_nw a)))"
    by (rule r_into_rtranclp) (rule step_ACLChanged)
  ultimately have "coord_steps (ap_c a) (ACLChanged (e_flt e) ((ap_c a)\<lparr>c_st := s\<rparr>) (nw_ID (ap_nw a)))" by (rule rtranclp_trans)
  with 1 s Decoded show ?thesis by (auto simp: handleSetACL_def Let_def intro!: audit_steps split: option.split sum.split)
qed (simp_all add: handleSetACL_def)

lemmas handler_steps = handleLogin_steps handleSignup_steps handleCreateUser_steps handleDeleteUser_steps handleSignupToggle_steps
  handleCreateSetupKey_steps handleRevokeSetupKey_steps handleUpdateUser_steps handleDeleteDevice_steps
  handleSetRouteApproval_steps handleSetACL_steps

lemma auth_cases: "fst (auth e a ck h) = a \<or> (\<exists>u. sessionUser e a ck = Some u \<and> auth e a ck h = h u)"
  by (simp add: auth_def split: option.split)

lemma admin_cases: "fst (admin e a ck h) = a \<or> (\<exists>u. sessionUser e a ck = Some u \<and> u_Role u = RoleAdmin \<and> admin e a ck h = h u)"
  by (simp add: admin_def split: option.split)

lemma wrapped_steps:
  "(\<And>u. coord_steps (ap_c a) (ap_c (fst (h u)))) \<Longrightarrow> coord_steps (ap_c a) (ap_c (fst (no_cookie (auth e a ck h))))"
  "(\<And>u. coord_steps (ap_c a) (ap_c (fst (h u)))) \<Longrightarrow> coord_steps (ap_c a) (ap_c (fst (no_cookie (admin e a ck h))))"
  using auth_cases [of e a ck h] admin_cases [of e a ck h] by (auto simp: no_cookie_def)

lemma serve_steps: "coord_steps (ap_c a) (ap_c (fst (serve e a ck req)))"
  by (cases req)
    (auto intro!: wrapped_steps handler_steps simp: handleAuthInfo_def handleLogout_def handleStatus_def Let_def handleDevices_def
      handleSetupKeys_def handleGetACL_def handleCheckACL_def handleUsers_def handleAudit_def no_cookie_def [of "(_, _)"] split: option.split)

section \<open>Lemmas: what the coordinator leaves to the admin\<close>

text \<open>The tables only admin requests change.\<close>

definition admin_part :: "Store \<Rightarrow> UserRow table \<times> AclRow table \<times> (string \<rightharpoonup> string) \<times> NetworkRow table" where
  "admin_part s = (st_users s, st_acl_rules s, st_settings s, st_networks s)"

named_theorems admin_frame \<open>operations that keep the admin tables\<close>

lemma node_writes_frame [admin_frame]:
  "admin_part (fst (UpdateNodeEndpoints flt s i eps)) = admin_part s" "admin_part (fst (UpdateNodeIPv6 flt s i v6)) = admin_part s"
  "admin_part (fst (UpdateNodeOnRegister flt s i k h os)) = admin_part s" "admin_part (fst (TouchNode flt now s i)) = admin_part s"
  "admin_part (fst (store_DeleteNode flt s i)) = admin_part s" "admin_part (fst (CreateNode flt now s n)) = admin_part s"
  by (simp_all add: admin_part_def UpdateNodeEndpoints_def UpdateNodeIPv6_def UpdateNodeOnRegister_def TouchNode_def update_node_def
      store_DeleteNode_def CreateNode_def)

lemma other_writes_frame [admin_frame]:
  "admin_part (fst (SetAdvertisedRoutes flt s i rs)) = admin_part s" "admin_part (fst (store_SetRouteApproved flt s i rt b)) = admin_part s"
  "admin_part (fst (Audit flt now s u ac t d)) = admin_part s" "admin_part (fst (UseSetupKey flt now s k)) = admin_part s"
  "admin_part (fst (NewSetupKey flt raw now s nid ru ex ow)) = admin_part s" "admin_part (fst (RevokeSetupKey flt s i)) = admin_part s"
proof -
  show "admin_part (fst (UseSetupKey flt now s k)) = admin_part s"
    using UseSetupKey_state [of flt now s k] by (auto simp: admin_part_def)
qed (simp_all add: admin_part_def SetAdvertisedRoutes_def store_SetRouteApproved_def Audit_def NewSetupKey_def RevokeSetupKey_def
    Let_def split: sum.split option.split)

lemma frame_result: "op = (s', r) \<Longrightarrow> admin_part (fst op) = admin_part s \<Longrightarrow> admin_part s' = admin_part s"
  by simp

lemma write_results [admin_frame]:
  "SetAdvertisedRoutes flt s i rs = (s', r) \<Longrightarrow> admin_part s' = admin_part s"
  "store_SetRouteApproved flt s i rt b = (s', r) \<Longrightarrow> admin_part s' = admin_part s"
  "UpdateNodeEndpoints flt s i eps = (s', r) \<Longrightarrow> admin_part s' = admin_part s"
  "UpdateNodeIPv6 flt s i v6 = (s', r) \<Longrightarrow> admin_part s' = admin_part s"
  "UpdateNodeOnRegister flt s i k h os = (s', r) \<Longrightarrow> admin_part s' = admin_part s"
  "CreateNode flt now s n = (s', rn) \<Longrightarrow> admin_part s' = admin_part s"
  "UseSetupKey flt now s k = (s', rk) \<Longrightarrow> admin_part s' = admin_part s"
  "store_DeleteNode flt s i = (s', r) \<Longrightarrow> admin_part s' = admin_part s"
  by (erule frame_result, rule admin_frame)+

lemma allocatorFor_st: "allocatorFor flt c nw = (c', r) \<Longrightarrow> c_st c' = c_st c"
  by (auto simp: allocatorFor_def Let_def split: option.splits sum.splits)

lemma register_create_frame: "register_create flt now c nw ow al v4 mkey nkey h os rts = (c', r) \<Longrightarrow> admin_part (c_st c') = admin_part (c_st c)"
  by (auto simp: register_create_def Let_def admin_frame split: sum.splits prod.splits if_splits dest!: write_results)

lemma register_again_frame: "register_again flt now c n nkey h os rts = (c', r) \<Longrightarrow> admin_part (c_st c') = admin_part (c_st c)"
  by (auto simp: register_again_def Let_def admin_frame split: sum.splits prod.splits if_splits dest!: write_results)

lemma Register_frame: "Register flt now c mkey nkey sk h os rts = Some (c', r) \<Longrightarrow> admin_part (c_st c') = admin_part (c_st c)"
  by (auto simp: Register_def register_new_def Let_def split: sum.splits prod.splits if_splits option.splits
      dest!: register_create_frame register_again_frame write_results allocatorFor_st)

lemma coord_UpdateEndpoints_frame: "admin_part (c_st (fst (coord_UpdateEndpoints flt c mkey eps))) = admin_part (c_st c)"
  by (auto simp: coord_UpdateEndpoints_def split: sum.split prod.split dest!: write_results)

lemma Subscribe_frame: "admin_part (c_st (fst (Subscribe flt now c mkey))) = admin_part (c_st c)"
  by (auto simp: Subscribe_def Let_def admin_frame split: sum.split prod.split)

lemma Unsubscribe_frame: "admin_part (c_st (Unsubscribe flt now c n ch)) = admin_part (c_st c)"
  by (simp add: Unsubscribe_def Let_def admin_frame)

lemma release_address_st [simp]: "c_st (release_address flt c n) = c_st c"
  by (auto simp: release_address_def split: sum.split prod.split dest: allocatorFor_st)

lemma coord_DeleteNode_frame: "coord_DeleteNode flt c i = (c', r) \<Longrightarrow> admin_part (c_st c') = admin_part (c_st c)"
  by (auto simp: coord_DeleteNode_def split: sum.splits prod.splits dest!: write_results)

lemma coord_SetRouteApproved_frame: "coord_SetRouteApproved flt c i rt b = (c', r) \<Longrightarrow> admin_part (c_st c') = admin_part (c_st c)"
  by (auto simp: coord_SetRouteApproved_def split: sum.splits prod.splits dest!: write_results)

lemma signal_frame: "c_st (fst (signalSubscribe flt c mkey)) = c_st c" "c_st (signalUnsubscribe c n ch) = c_st c" "c_st (routeSignal flt c n en) = c_st c"
  by (simp_all add: signalSubscribe_def signalUnsubscribe_def routeSignal_def Let_def split: sum.split prod.split option.split)

section \<open>Lemmas: an enabled admin remains\<close>

definition has_admin :: "Store \<Rightarrow> bool" where
  "has_admin s \<longleftrightarrow> (\<exists>r \<in> set (tbl_rows (st_users s)). enabled_admin r)"

definition other_admin :: "int \<Rightarrow> Store \<Rightarrow> bool" where
  "other_admin i s \<longleftrightarrow> (\<exists>r \<in> set (tbl_rows (st_users s)). enabled_admin r \<and> ur_id r \<noteq> i)"

lemma other_has: "other_admin i s \<Longrightarrow> has_admin s"
  by (auto simp: other_admin_def has_admin_def)

lemma has_admin_cong:
  assumes "st_users s' = st_users s"
  shows "has_admin s' = has_admin s" "other_admin i s' = other_admin i s"
  unfolding has_admin_def other_admin_def assms by (rule refl)+

lemma admin_part_users:
  assumes "admin_part s' = admin_part s"
  shows "has_admin s' = has_admin s" "other_admin i s' = other_admin i s"
proof -
  have "st_users s' = st_users s" using assms by (simp add: admin_part_def)
  then show "has_admin s' = has_admin s" "other_admin i s' = other_admin i s" by (fact has_admin_cong)+
qed

lemma audit_users [simp]: "has_admin (ap_st (audit e a u ac t d)) = has_admin (ap_st a)" "other_admin i (ap_st (audit e a u ac t d)) = other_admin i (ap_st a)"
proof -
  have "admin_part (ap_st (audit e a u ac t d)) = admin_part (ap_st a)" by (simp add: audit_def admin_frame)
  then show "has_admin (ap_st (audit e a u ac t d)) = has_admin (ap_st a)" "other_admin i (ap_st (audit e a u ac t d)) = other_admin i (ap_st a)"
    by (fact admin_part_users)+
qed

lemma update_user_other: "other_admin i s \<Longrightarrow> other_admin i (fst (update_user b s i f))"
  by (auto simp: other_admin_def update_user_def tbl_update_def)

lemma update_user_keeps:
  "(\<And>r. enabled_admin r \<Longrightarrow> enabled_admin (f r)) \<Longrightarrow> has_admin s \<Longrightarrow> has_admin (fst (update_user b s i f))"
  by (auto simp: has_admin_def update_user_def tbl_update_def)

lemma user_ops_other:
  assumes "other_admin i s"
  shows "other_admin i (fst (SetUserRole flt s i role))" "other_admin i (fst (SetUserDisabled flt s i b))"
    "other_admin i (fst (SetUserPassword gen flt s i pw))" "other_admin i (fst (DeleteUser flt s i))"
  using assms by (auto simp: SetUserRole_def SetUserDisabled_def SetUserPassword_def update_user_other split: sum.split)
    (auto simp: DeleteUser_def other_admin_def tbl_delete_def)

lemma user_ops_keep:
  assumes "has_admin s"
  shows "has_admin (fst (SetUserRole flt s i RoleAdmin))" "has_admin (fst (SetUserDisabled flt s i False))"
    "has_admin (fst (SetUserPassword gen flt s i pw))"
  using assms by (auto simp: SetUserRole_def SetUserDisabled_def SetUserPassword_def enabled_admin_def RoleAdmin_def boolInt_def
      intro!: update_user_keeps split: sum.split)

lemma CreateUser_keeps: "has_admin s \<Longrightarrow> has_admin (fst (CreateUser gen flt now s u pw role))"
  using CreateUser_state [of gen flt now s u pw role] by (auto simp: has_admin_def insert_user_def)

lemma apply_other:
  assumes "other_admin i (ap_st a)"
  shows "other_admin i (ap_st (fst (apply_role e a u i t ro)))" "other_admin i (ap_st (fst (apply_disabled e a u i t dis)))"
    "other_admin i (ap_st (fst (apply_password e a u i t pw)))"
proof -
  show "other_admin i (ap_st (fst (apply_role e a u i t ro)))"
    using assms user_ops_other(1) [OF assms, of "e_flt e"] by (auto simp: apply_role_def split: option.split sum.split prod.split) (metis fst_conv)+
  show "other_admin i (ap_st (fst (apply_disabled e a u i t dis)))"
    using assms user_ops_other(2) [OF assms, of "e_flt e"] by (auto simp: apply_disabled_def split: option.split sum.split prod.split) (metis fst_conv)+
  show "other_admin i (ap_st (fst (apply_password e a u i t pw)))"
    using assms user_ops_other(3) [OF assms, of "e_gen e" "e_flt e"] by (auto simp: apply_password_def split: option.split sum.split prod.split) (metis fst_conv)+
qed

lemma apply_keep:
  assumes "has_admin (ap_st a)"
  shows "ro \<in> {None, Some RoleAdmin} \<Longrightarrow> has_admin (ap_st (fst (apply_role e a u i t ro)))"
    "dis \<in> {None, Some False} \<Longrightarrow> has_admin (ap_st (fst (apply_disabled e a u i t dis)))"
    "has_admin (ap_st (fst (apply_password e a u i t pw)))"
proof -
  show "ro \<in> {None, Some RoleAdmin} \<Longrightarrow> has_admin (ap_st (fst (apply_role e a u i t ro)))"
    using assms user_ops_keep(1) [OF assms, of "e_flt e"] by (auto simp: apply_role_def split: option.split sum.split prod.split) (metis fst_conv)+
  show "dis \<in> {None, Some False} \<Longrightarrow> has_admin (ap_st (fst (apply_disabled e a u i t dis)))"
    using assms user_ops_keep(2) [OF assms, of "e_flt e"] by (auto simp: apply_disabled_def split: option.split sum.split prod.split) (metis fst_conv)+
  show "has_admin (ap_st (fst (apply_password e a u i t pw)))"
    using assms user_ops_keep(3) [OF assms, of "e_gen e" "e_flt e"] by (auto simp: apply_password_def split: option.split sum.split prod.split) (metis fst_conv)+
qed

lemma apply_update_chain:
  assumes "P a" and "\<And>a. P a \<Longrightarrow> P (fst (apply_role e a u i t (uu_Role req)))"
    and "\<And>a. P a \<Longrightarrow> P (fst (apply_disabled e a u i t (uu_Disabled req)))" and "\<And>a. P a \<Longrightarrow> P (fst (apply_password e a u i t (uu_Password req)))"
  shows "P (fst (apply_update e a u i t req))"
proof -
  obtain a1 r1 where 1: "apply_role e a u i t (uu_Role req) = (a1, r1)" by fastforce
  obtain a2 r2 where 2: "apply_disabled e a1 u i t (uu_Disabled req) = (a2, r2)" by fastforce
  obtain a3 r3 where 3: "apply_password e a2 u i t (uu_Password req) = (a3, r3)" by fastforce
  have p1: "P a1" using assms(2) [OF assms(1)] 1 by simp
  have p2: "P a2" using assms(3) [OF p1] 2 by simp
  have p3: "P a3" using assms(4) [OF p2] 3 by simp
  from 1 2 3 p1 p2 p3 show ?thesis by (auto simp: apply_update_def split: option.split)
qed

text \<open>Two enabled admins, or an account that is none: another enabled admin exists.\<close>

lemma two_admins:
  assumes "tbl_ok ur_id (st_users s)" and "\<not> admin_count e s \<le> 1"
  shows "other_admin i s"
proof -
  let ?l = "filter enabled_admin (tbl_rows (st_users s))"
  have n: "2 \<le> length ?l" using assms(2) by (auto simp: admin_count_def AdminCount_def split: if_splits)
  then obtain x y zs where l: "?l = x # y # zs" by (cases ?l; cases "tl ?l") auto
  have "sorted_wrt (<) (map ur_id ?l)"
    using assms(1) sorted_wrt_filter [of "\<lambda>x y. ur_id x < ur_id y" "tbl_rows (st_users s)" enabled_admin]
    by (simp add: tbl_ok_def sorted_wrt_map)
  then have "ur_id x \<noteq> ur_id y" by (simp add: l)
  moreover have "x \<in> set ?l" "y \<in> set ?l" by (simp_all add: l)
  ultimately show ?thesis by (auto simp: other_admin_def)
qed

lemma not_admin_target:
  assumes "tbl_ok ur_id (st_users s)" and "UserByID flt s i = Inr t" and "u_Role t \<noteq> RoleAdmin" and "has_admin s"
  shows "other_admin i s"
proof -
  from assms(2) obtain q where q: "tbl_find (\<lambda>r. ur_id r = i) (st_users s) = Some q" "t = scanUser q"
    by (auto simp: UserByID_def split: if_splits option.splits)
  from assms(4) obtain r where r: "r \<in> set (tbl_rows (st_users s))" "enabled_admin r" by (auto simp: has_admin_def)
  have "ur_id r \<noteq> i"
  proof
    assume "ur_id r = i"
    with tbl_find_id [OF assms(1) r(1)] q have "r = q" by simp
    with r(2) q(2) assms(3) show False by (simp add: enabled_admin_def scanUser_def RoleAdmin_def)
  qed
  with r show ?thesis by (auto simp: other_admin_def)
qed

lemma handleUpdateUser_admin:
  assumes ok: "tbl_ok ur_id (st_users (ap_st a))" and h: "has_admin (ap_st a)"
  shows "has_admin (ap_st (fst (handleUpdateUser e a u p b)))"
proof -
  have "has_admin (ap_st (fst (apply_update e a u i t req)))"
    if t: "UserByID (e_flt e) (ap_st a) i = Inr t" and c: "check_admins e (ap_st a) t req" for i t req
  proof (cases "other_admin i (ap_st a)")
    case True
    then have "other_admin i (ap_st (fst (apply_update e a u i t req)))"
      by (rule apply_update_chain [where P = "\<lambda>a. other_admin i (ap_st a)"]) (erule apply_other)+
    then show ?thesis by (rule other_has)
  next
    case False
    with not_admin_target [OF ok t _ h] two_admins [OF ok] c have "\<not> demoting req" by (auto simp: check_admins_def)
    then have r: "uu_Role req \<in> {None, Some RoleAdmin}" and d: "uu_Disabled req \<in> {None, Some False}"
      by (auto simp: demoting_def split: option.splits) (metis (full_types) not_None_eq)+
    show ?thesis
      using h r d by (rule_tac apply_update_chain [where P = "\<lambda>a. has_admin (ap_st a)"]) (simp_all add: apply_keep)
  qed
  with h show ?thesis by (cases b) (auto simp: handleUpdateUser_def split: option.split sum.split)
qed

lemma handleDeleteUser_admin:
  assumes ok: "tbl_ok ur_id (st_users (ap_st a))" and h: "has_admin (ap_st a)"
  shows "has_admin (ap_st (fst (handleDeleteUser e a u p)))"
proof -
  have "has_admin s" if "UserByID (e_flt e) (ap_st a) i = Inr t" "\<not> (u_Role t = RoleAdmin \<and> admin_count e (ap_st a) \<le> 1)"
    "DeleteUser (e_flt e) (ap_st a) i = (s, r)" for i t s r
  proof -
    have "other_admin i (ap_st a)" using not_admin_target [OF ok that(1) _ h] two_admins [OF ok] that(2) by blast
    from user_ops_other(4) [OF this, of "e_flt e"] that(3) show ?thesis by (auto intro: other_has)
  qed
  with h show ?thesis by (auto simp: handleDeleteUser_def split: option.split sum.split prod.split)
qed

lemma result_users:
  "SetACL flt now s nid rules = (s', r) \<Longrightarrow> st_users s' = st_users s"
  "SetSetting flt s k v = (s', r) \<Longrightarrow> st_users s' = st_users s"
  "NewSetupKey flt raw now s nid ru ex ow = (s', rk) \<Longrightarrow> st_users s' = st_users s"
  "RevokeSetupKey flt s i = (s', r) \<Longrightarrow> st_users s' = st_users s"
  by (auto simp: SetACL_def SetSetting_def NewSetupKey_def RevokeSetupKey_def Let_def split: option.splits sum.splits if_splits)

lemma result_admin:
  "SetACL flt now s nid rules = (s', r) \<Longrightarrow> has_admin s \<Longrightarrow> has_admin s'"
  "SetSetting flt s k v = (s', r) \<Longrightarrow> has_admin s \<Longrightarrow> has_admin s'"
  "NewSetupKey flt raw now s nid ru ex ow = (s', rk) \<Longrightarrow> has_admin s \<Longrightarrow> has_admin s'"
  "RevokeSetupKey flt s i = (s', r) \<Longrightarrow> has_admin s \<Longrightarrow> has_admin s'"
  "CreateUser gen flt now s u pw role = (s', ru') \<Longrightarrow> has_admin s \<Longrightarrow> has_admin s'"
  "coord_DeleteNode flt c i = (c', r) \<Longrightarrow> has_admin (c_st c) \<Longrightarrow> has_admin (c_st c')"
  "coord_SetRouteApproved flt c i rt b = (c', r) \<Longrightarrow> has_admin (c_st c) \<Longrightarrow> has_admin (c_st c')"
  using result_users has_admin_cong(1) CreateUser_keeps [of s gen flt now u pw role] coord_DeleteNode_frame coord_SetRouteApproved_frame admin_part_users(1)
  by (metis fst_conv)+

lemma simple_handlers_admin:
  assumes h: "has_admin (ap_st a)"
  shows "has_admin (ap_st (fst (handleLogin e a lb)))" "has_admin (ap_st (fst (handleCreateUser e a u cb)))"
    "has_admin (ap_st (fst (handleSignupToggle e a u tb)))" "has_admin (ap_st (fst (handleCreateSetupKey e a u kb)))"
    "has_admin (ap_st (fst (handleRevokeSetupKey e a u p)))" "has_admin (ap_st (fst (handleDeleteDevice e a u p)))"
    "has_admin (ap_st (fst (handleSetRouteApproval e a u p rb)))" "has_admin (ap_st (fst (handleSetACL e a u ab)))"
proof -
  show "has_admin (ap_st (fst (handleLogin e a lb)))"
    using h by (cases lb) (auto simp: handleLogin_def Let_def dest!: startSession_c' split: sum.split option.split prod.split)
  show "has_admin (ap_st (fst (handleCreateUser e a u cb)))"
    using h by (cases cb) (auto simp: handleCreateUser_def Let_def dest: result_admin split: sum.split prod.split)
  show "has_admin (ap_st (fst (handleSignupToggle e a u tb)))"
    using h by (cases tb) (auto simp: handleSignupToggle_def Let_def dest: result_admin split: sum.split prod.split)
  show "has_admin (ap_st (fst (handleCreateSetupKey e a u kb)))"
    using h by (auto simp: handleCreateSetupKey_def Let_def dest: result_admin split: sum.split prod.split)
  show "has_admin (ap_st (fst (handleRevokeSetupKey e a u p)))"
    using h by (auto simp: handleRevokeSetupKey_def dest: result_admin split: option.split sum.split prod.split)
  show "has_admin (ap_st (fst (handleDeleteDevice e a u p)))"
    using h by (auto simp: handleDeleteDevice_def dest: result_admin split: option.split sum.split prod.split)
  show "has_admin (ap_st (fst (handleSetRouteApproval e a u p rb)))"
    using h by (cases rb) (auto simp: handleSetRouteApproval_def dest: result_admin split: option.split sum.split prod.split)
  show "has_admin (ap_st (fst (handleSetACL e a u ab)))"
    using h by (cases ab) (auto simp: handleSetACL_def Let_def ACLChanged_def dest: result_admin split: option.split sum.split prod.split)
qed

lemma handleSignup_admin: "has_admin (ap_st a) \<Longrightarrow> has_admin (ap_st (fst (handleSignup e a b)))"
proof (cases b)
  case (Decoded x)
  assume h: "has_admin (ap_st a)"
  obtain u p where x: "x = (u, p)" by fastforce
  obtain s r where s: "CreateUser (e_gen e) (e_flt e) (e_now e) (ap_st a) u p RoleMember = (s, r)" by fastforce
  have "has_admin s" by (rule result_admin(5) [OF s h])
  then have "has_admin (ap_st (audit e (with_st a s) n ''user.signup'' [] []))" for n by simp
  with \<open>has_admin s\<close> s Decoded x h show ?thesis
    by (auto simp: handleSignup_def Let_def dest!: startSession_c' split: sum.split option.split prod.split)
qed (simp_all add: handleSignup_def)

lemma wrapped_admin:
  "has_admin (ap_st a) \<Longrightarrow> (\<And>u. has_admin (ap_st (fst (h u)))) \<Longrightarrow> has_admin (ap_st (fst (no_cookie (auth e a ck h))))"
  "has_admin (ap_st a) \<Longrightarrow> (\<And>u. has_admin (ap_st (fst (h u)))) \<Longrightarrow> has_admin (ap_st (fst (no_cookie (admin e a ck h))))"
  using auth_cases [of e a ck h] admin_cases [of e a ck h] by (auto simp: no_cookie_def)

lemmas read_only_handlers = handleAuthInfo_def handleLogout_def handleStatus_def handleDevices_def handleSetupKeys_def handleGetACL_def
  handleCheckACL_def handleUsers_def handleAudit_def

lemma serve_admin:
  assumes "tbl_ok ur_id (st_users (ap_st a))" and "has_admin (ap_st a)"
  shows "has_admin (ap_st (fst (serve e a ck req)))"
  using assms
  by (cases req)
    (auto intro!: wrapped_admin simple_handlers_admin handleSignup_admin handleUpdateUser_admin handleDeleteUser_admin
      simp: read_only_handlers Let_def no_cookie_def [of "(_, _)"] split: option.split)

section \<open>The server\<close>

text \<open>The running server: admin requests, and what the nodes do through gRPC.\<close>

inductive server_step :: "API \<Rightarrow> API \<Rightarrow> bool" where
  server_request: "server_step a (fst (serve e a ck req))"
| server_register: "Register flt now (ap_c a) mkey nkey sk h os rts = Some (c', r) \<Longrightarrow> server_step a (a\<lparr>ap_c := c'\<rparr>)"
| server_endpoints: "server_step a (a\<lparr>ap_c := fst (coord_UpdateEndpoints flt (ap_c a) mkey eps)\<rparr>)"
| server_subscribe: "server_step a (a\<lparr>ap_c := fst (Subscribe flt now (ap_c a) mkey)\<rparr>)"
| server_unsubscribe: "server_step a (a\<lparr>ap_c := Unsubscribe flt now (ap_c a) n ch\<rparr>)"
| server_signal_on: "server_step a (a\<lparr>ap_c := fst (signalSubscribe flt (ap_c a) mkey)\<rparr>)"
| server_signal_off: "server_step a (a\<lparr>ap_c := signalUnsubscribe (ap_c a) n ch\<rparr>)"
| server_signal: "server_step a (a\<lparr>ap_c := routeSignal flt (ap_c a) n sig\<rparr>)"
| server_netmap_read: "recv_chan ch (c_nmch (ap_c a)) = (hp, v) \<Longrightarrow> server_step a (a\<lparr>ap_c := (ap_c a)\<lparr>c_nmch := hp\<rparr>\<rparr>)"
| server_signal_read: "recv_chan ch (c_sigch (ap_c a)) = (sh, sv) \<Longrightarrow> server_step a (a\<lparr>ap_c := (ap_c a)\<lparr>c_sigch := sh\<rparr>\<rparr>)"

text \<open>It starts on a consistent database with an enabled admin.\<close>

definition server_init :: "API \<Rightarrow> bool" where
  "server_init a \<longleftrightarrow> coord_init (ap_c a) \<and> has_admin (ap_st a) \<and> ap_sessions a = Map.empty"

definition server_inv :: "API \<Rightarrow> bool" where
  "server_inv a \<longleftrightarrow> coord_inv (ap_c a) \<and> has_admin (ap_st a)"

lemma coord_steps_inv: "coord_steps c c' \<Longrightarrow> coord_inv c \<Longrightarrow> coord_inv c'"
  by (rule coord_sys.steps_inv)

lemma server_step_coord: "server_step a a' \<Longrightarrow> coord_steps (ap_c a) (ap_c a')"
  by (induction rule: server_step.induct) (auto intro: serve_steps coord_step.intros)

lemma server_step_admin:
  assumes "server_step a a'" and inv: "server_inv a"
  shows "has_admin (ap_st a')"
  using assms(1)
proof (cases rule: server_step.cases)
  case (server_request e ck req)
  have "tbl_ok ur_id (st_users (ap_st a))" using inv by (simp add: server_inv_def coord_inv_def store_ok_def users_ok_def)
  with server_request serve_admin inv show ?thesis by (simp add: server_inv_def)
next
  case (server_register flt now mkey nkey sk h os rts c' r)
  with admin_part_users(1) [OF Register_frame [OF server_register(2)]] inv show ?thesis by (simp add: server_inv_def)
next
  case (server_endpoints flt mkey eps)
  with inv admin_part_users(1) [OF coord_UpdateEndpoints_frame] show ?thesis by (auto simp: server_inv_def)
next
  case (server_subscribe flt now mkey)
  with inv admin_part_users(1) [OF Subscribe_frame] show ?thesis by (auto simp: server_inv_def)
next
  case (server_unsubscribe flt now n ch)
  with inv admin_part_users(1) [OF Unsubscribe_frame] show ?thesis by (auto simp: server_inv_def)
qed (use inv in \<open>auto simp: server_inv_def signal_frame\<close>)

interpretation server_sys: inductive_invariant server_init server_step server_inv
proof unfold_locales
  fix a assume "server_init a"
  then show "server_inv a" by (simp add: server_init_def server_inv_def coord_sys.inv_init)
next
  fix a a' assume i: "server_inv a" and s: "server_step a a'"
  then show "server_inv a'"
    using server_step_admin [OF s i] coord_steps_inv [OF server_step_coord [OF s]] by (simp add: server_inv_def)
qed

end
