(* ===== verification/Admin_Props.thy ===== *)
theory Admin_Props
  imports Admin_Api Coord_Props
begin

text \<open>
  The properties of the admin API: an enabled admin always remains, members reach only what they
  own, what a session is good for, and two consequences of what the code does not do (sessions keep
  the account as it was at login, and the admin check and the write are not one step).
\<close>

section \<open>A sample API\<close>

definition sample_admin_row :: UserRow where
  "sample_admin_row = \<lparr>ur_id = 2, ur_username = ''admin'', ur_password_hash = ''h'', ur_role = ''admin'', ur_disabled = 0, ur_created_at = 5\<rparr>"

definition sample_member_row :: UserRow where
  "sample_member_row = \<lparr>ur_id = 1, ur_username = ''ann'', ur_password_hash = ''m'', ur_role = ''member'', ur_disabled = 0, ur_created_at = 5\<rparr>"

definition sample_users :: Store where
  "sample_users = sample_store\<lparr>st_users := \<lparr>tbl_rows = [sample_member_row, sample_admin_row], tbl_seq = 2\<rparr>\<rparr>"

definition sample_network_value :: Network where
  "sample_network_value = \<lparr>nw_ID = 1, nw_Name = ''default'', nw_V4Prefix = Pfx (V4 0x64600000) 11, nw_V6Prefix = Pfx (V6 0xfdab3f19000000000000000000000000 []) 48\<rparr>"

definition sample_api :: API where
  "sample_api = api_New (coord_start sample_users [] [] []) sample_network_value"

definition sample_env :: env where
  "sample_env = \<lparr>e_flt = no_faults, e_now = 1000, e_rand = Some [1, 2], e_gen = Inr, e_cmp = (\<lambda>h p. h = p)\<rparr>"

lemma sample_users_ok: "store_ok sample_users"
  unfolding sample_users_def
  by (rule users_write_ok [OF sample_store_ok]) (simp add: users_ok_def tbl_ok_def sample_member_row_def sample_admin_row_def)

lemma sample_users_addrs: "addrs_ok sample_users"
proof -
  have "same_addrs sample_store sample_users" by (simp add: same_addrs_def sample_users_def)
  from same_addrs_keeps(1) [OF this] sample_addrs_ok show ?thesis by simp
qed

lemma sample_api_st [simp]: "ap_st sample_api = sample_users"
  by (simp add: sample_api_def api_New_def coord_start_def coord_New_def)

lemma sample_api_reachable: "reachable server_init server_step sample_api"
proof (rule reachable_init)
  have "coord_init (ap_c sample_api)"
    using sample_users_ok sample_users_addrs by (auto simp: coord_init_def sample_api_def api_New_def)
  moreover have "has_admin sample_users" by (simp add: has_admin_def sample_users_def sample_admin_row_def enabled_admin_def)
  ultimately show "server_init sample_api" by (simp add: server_init_def) (simp add: sample_api_def api_New_def)
qed

section \<open>Properties\<close>



text \<open>Which account a route asks for.\<close>

datatype access = Public | AnyUser | AdminOnly

fun route_access :: "request \<Rightarrow> access" where
  "route_access (Login _) = Public"
| "route_access (Signup _) = Public"
| "route_access AuthInfo = Public"
| "route_access Logout = Public"
| "route_access GetStatus = AnyUser"
| "route_access GetDevices = AnyUser"
| "route_access (DeleteDevice _) = AnyUser"
| "route_access GetSetupKeys = AnyUser"
| "route_access (PostSetupKey _) = AnyUser"
| "route_access (DeleteSetupKey _) = AnyUser"
| "route_access _ = AdminOnly"

lemma serve_unauthorized:
  "sessionUser e a ck = None \<Longrightarrow> route_access req \<noteq> Public \<Longrightarrow> serve e a ck req = (a, NoCookie, HttpError 401 (Msg ''not logged in''))"
  "sessionUser e a ck = Some u \<Longrightarrow> u_Role u \<noteq> RoleAdmin \<Longrightarrow> route_access req = AdminOnly \<Longrightarrow>
     serve e a ck req = (a, NoCookie, HttpError 403 (Msg ''admin access required''))"
  by (cases req; simp add: auth_def admin_def no_cookie_def)+

lemma coord_DeleteNode_st: "coord_DeleteNode flt c i = (c', r) \<Longrightarrow> c_st c' = c_st c \<or> c_st c' = fst (store_DeleteNode flt (c_st c) i)"
  by (auto simp: coord_DeleteNode_def split: sum.splits prod.splits)

text \<open>What belongs to others: their rows in the tables that members can change.\<close>

definition foreign_nodes :: "int \<Rightarrow> Store \<Rightarrow> NodeRow list" where
  "foreign_nodes uid s = filter (\<lambda>r. nr_owner_user_id r \<noteq> uid) (tbl_rows (st_nodes s))"

definition foreign_routes :: "int \<Rightarrow> Store \<Rightarrow> RouteRow list" where
  "foreign_routes uid s = filter (\<lambda>q. rr_node_id q \<in> nr_id ` set (foreign_nodes uid s)) (st_node_routes s)"

definition foreign_keys :: "int \<Rightarrow> Store \<Rightarrow> SetupKeyRow list" where
  "foreign_keys uid s = filter (\<lambda>r. skr_owner_user_id r \<noteq> uid) (tbl_rows (st_setup_keys s))"

definition confined :: "int \<Rightarrow> Store \<Rightarrow> Store \<Rightarrow> bool" where
  "confined uid s s' \<longleftrightarrow> admin_part s' = admin_part s \<and> foreign_nodes uid s' = foreign_nodes uid s \<and>
     foreign_routes uid s' = foreign_routes uid s \<and> foreign_keys uid s' = foreign_keys uid s"

lemma confined_refl [simp]: "confined uid s s"
  by (simp add: confined_def)

lemma confined_trans: "confined uid s s' \<Longrightarrow> confined uid s' s'' \<Longrightarrow> confined uid s s''"
  by (simp add: confined_def)

lemma confined_Audit: "confined uid s (fst (Audit flt now s u ac t d))"
  by (simp add: confined_def admin_frame foreign_nodes_def foreign_routes_def foreign_keys_def Audit_frame)

lemma confined_audit: "confined uid s (ap_st a) \<Longrightarrow> confined uid s (ap_st (audit e a u ac t d))"
  using confined_trans [OF _ confined_Audit] by (simp add: audit_def)

lemma filter_owned_update:
  "(\<And>r. r \<in> set rows \<Longrightarrow> p r \<Longrightarrow> ow r = uid) \<Longrightarrow> (\<And>r. ow (f r) = ow r) \<Longrightarrow>
   filter (\<lambda>r. ow r \<noteq> uid) (map (\<lambda>r. if p r then f r else r) rows) = filter (\<lambda>r. ow r \<noteq> uid) rows"
  by (induction rows) auto

lemma confined_delete:
  assumes ok: "store_ok s" and n: "NodeByID flt s i = Inr n" and o: "n_OwnerUserID n = uid"
  shows "confined uid s (fst (store_DeleteNode flt' s i))"
proof -
  obtain q where q: "q \<in> set (tbl_rows (st_nodes s))" "nr_id q = i" "hydrateNode q = Inr n" using NodeByID_Inr [OF n] by blast
  have own: "nr_owner_user_id r = uid" if "r \<in> set (tbl_rows (st_nodes s))" "nr_id r = i" for r
  proof -
    have t: "tbl_ok nr_id (st_nodes s)" using ok by (simp add: store_ok_def nodes_ok_def)
    from tbl_find_id [OF t that(1)] tbl_find_id [OF t q(1)] that q have "r = q" by simp
    with hydrateNode_fields [OF q(3)] o show ?thesis by simp
  qed
  have n': "foreign_nodes uid (fst (store_DeleteNode flt' s i)) = foreign_nodes uid s"
    using own by (auto simp: foreign_nodes_def store_DeleteNode_def tbl_delete_def intro!: filter_cong)
  have "i \<notin> nr_id ` set (foreign_nodes uid s)" using own by (auto simp: foreign_nodes_def)
  then have "foreign_routes uid (fst (store_DeleteNode flt' s i)) = foreign_routes uid s"
    unfolding foreign_routes_def n' by (auto simp: store_DeleteNode_def intro!: filter_cong)
  with n' show ?thesis by (simp add: confined_def admin_frame) (simp add: foreign_keys_def store_DeleteNode_def)
qed

lemma confined_keys:
  "confined uid s (fst (NewSetupKey flt raw now s nid ru ex uid))"
  "store_ok s \<Longrightarrow> SetupKeyByID flt s i = Inr k \<Longrightarrow> sk_OwnerUserID k = uid \<Longrightarrow> confined uid s (fst (RevokeSetupKey flt' s i))"
proof -
  show "confined uid s (fst (NewSetupKey flt raw now s nid ru ex uid))"
    by (simp add: confined_def admin_frame)
      (auto simp: foreign_nodes_def foreign_routes_def foreign_keys_def NewSetupKey_def Let_def tbl_insert_def setup_key_row_def split: option.split)
next
  assume ok: "store_ok s" and k: "SetupKeyByID flt s i = Inr k" and o: "sk_OwnerUserID k = uid"
  then obtain q where q: "tbl_find (\<lambda>r. skr_id r = i) (st_setup_keys s) = Some q" "k = scanSetupKey q"
    by (auto simp: SetupKeyByID_def split: if_splits option.splits)
  have t: "tbl_ok skr_id (st_setup_keys s)" using ok by (simp add: store_ok_def setup_keys_ok_def)
  have own: "skr_owner_user_id r = uid" if r: "r \<in> set (tbl_rows (st_setup_keys s))" "skr_id r = i" for r
    using tbl_find_id [OF t r(1)] r(2) q o by (simp add: scanSetupKey_def)
  have "filter (\<lambda>r. skr_owner_user_id r \<noteq> uid) (map (\<lambda>r. if skr_id r = i then r\<lparr>skr_revoked := 1\<rparr> else r) (tbl_rows (st_setup_keys s))) =
      filter (\<lambda>r. skr_owner_user_id r \<noteq> uid) (tbl_rows (st_setup_keys s))"
    by (rule filter_owned_update) (use own in auto)
  then show "confined uid s (fst (RevokeSetupKey flt' s i))"
    by (simp add: confined_def admin_frame)
      (auto simp: foreign_nodes_def foreign_routes_def foreign_keys_def RevokeSetupKey_def tbl_update_def)
qed

lemma handleDeleteDevice_confined:
  assumes ok: "store_ok (ap_st a)" and m: "u_Role u \<noteq> RoleAdmin"
  shows "confined (u_ID u) (ap_st a) (ap_st (fst (handleDeleteDevice e a u p)))"
proof -
  have "confined (u_ID u) (ap_st a) (c_st c')"
    if "NodeByID (e_flt e) (ap_st a) i = Inr n" "n_OwnerUserID n = u_ID u" "coord_DeleteNode (e_flt e) (ap_c a) i = (c', r)" for i n c' r
    using coord_DeleteNode_st [OF that(3)] confined_delete [OF ok that(1,2)] by auto
  then show ?thesis
    using m by (auto simp: handleDeleteDevice_def intro!: confined_audit split: option.split sum.split prod.split)
qed

lemma handleSetupKey_confined:
  assumes ok: "store_ok (ap_st a)" and m: "u_Role u \<noteq> RoleAdmin"
  shows "confined (u_ID u) (ap_st a) (ap_st (fst (handleRevokeSetupKey e a u p)))"
    "confined (u_ID u) (ap_st a) (ap_st (fst (handleCreateSetupKey e a u b)))"
proof -
  have "confined (u_ID u) (ap_st a) s'"
    if "SetupKeyByID (e_flt e) (ap_st a) i = Inr k" "sk_OwnerUserID k = u_ID u" "RevokeSetupKey (e_flt e) (ap_st a) i = (s', r)" for i k s' r
    using confined_keys(2) [OF ok that(1,2), of "e_flt e"] that(3) by simp
  then show "confined (u_ID u) (ap_st a) (ap_st (fst (handleRevokeSetupKey e a u p)))"
    using m by (auto simp: handleRevokeSetupKey_def intro!: confined_audit split: option.split sum.split prod.split)
  have "confined (u_ID u) (ap_st a) s'" if "NewSetupKey flt raw now (ap_st a) nid ru ex (u_ID u) = (s', r)" for flt raw now nid ru ex s' r
    using confined_keys(1) [of "u_ID u" "ap_st a" flt raw now nid ru ex] that by simp
  then show "confined (u_ID u) (ap_st a) (ap_st (fst (handleCreateSetupKey e a u b)))"
    by (auto simp: handleCreateSetupKey_def Let_def intro!: confined_audit split: sum.split prod.split)
qed

lemma audit_sessions [simp]: "ap_sessions (audit e a u ac t d) = ap_sessions a"
  by (simp add: audit_def)

lemma handler_sessions:
  "ap_sessions (fst (handleDeleteDevice e a u p)) = ap_sessions a" "ap_sessions (fst (handleRevokeSetupKey e a u p)) = ap_sessions a"
  "ap_sessions (fst (handleCreateSetupKey e a u b)) = ap_sessions a"
  by (simp_all add: handleDeleteDevice_def handleRevokeSetupKey_def handleCreateSetupKey_def Let_def split: option.split sum.split prod.split)

text \<open>What a response shows of devices and keys.\<close>

fun shown_nodes :: "response \<Rightarrow> int set" where
  "shown_nodes (JSON (P_devices ds)) = dj_ID ` set ds"
| "shown_nodes _ = {}"

fun shown_keys :: "response \<Rightarrow> int set" where
  "shown_keys (JSON (P_keys ks)) = kj_ID ` set ks"
| "shown_keys _ = {}"

lemma handleDevices_shown:
  "u_Role u \<noteq> RoleAdmin \<Longrightarrow> shown_nodes (snd (handleDevices e a u)) \<subseteq> {nr_id r | r. r \<in> set (tbl_rows (st_nodes (ap_st a))) \<and> nr_owner_user_id r = u_ID u}"
  using NodesInNetwork_set [of "e_flt e" "ap_st a" "nw_ID (ap_nw a)"] hydrateNode_fields
  by (auto simp: handleDevices_def Let_def device_json_def split: sum.split)

lemma list_keys_shown:
  "u_Role u \<noteq> RoleAdmin \<Longrightarrow> kj_ID ` set (list_keys e s u names ks) \<subseteq> {sk_ID k | k. k \<in> set ks \<and> sk_OwnerUserID k = u_ID u}"
  by (induction ks arbitrary: names) (auto simp: Let_def key_json_def)

lemma SetupKeys_mem: "SetupKeys flt s nid = Inr ks \<Longrightarrow> k \<in> set ks \<Longrightarrow> \<exists>r \<in> set (tbl_rows (st_setup_keys s)). k = scanSetupKey r"
  by (auto simp: SetupKeys_def scan_rows_total split: if_splits)

lemma handleSetupKeys_shown:
  assumes "u_Role u \<noteq> RoleAdmin"
  shows "shown_keys (snd (handleSetupKeys e a u)) \<subseteq> {skr_id r | r. r \<in> set (tbl_rows (st_setup_keys (ap_st a))) \<and> skr_owner_user_id r = u_ID u}"
proof (cases "SetupKeys (e_flt e) (ap_st a) (nw_ID (ap_nw a))")
  case (Inr ks)
  show ?thesis
  proof
    fix x assume "x \<in> shown_keys (snd (handleSetupKeys e a u))"
    with Inr list_keys_shown [OF assms, of e "ap_st a" "[0 \<mapsto> ''admin'']" ks] obtain k where k: "k \<in> set ks" "sk_OwnerUserID k = u_ID u" "x = sk_ID k"
      by (auto simp: handleSetupKeys_def)
    with SetupKeys_mem [OF Inr k(1)] show "x \<in> {skr_id r | r. r \<in> set (tbl_rows (st_setup_keys (ap_st a))) \<and> skr_owner_user_id r = u_ID u}"
      by (auto simp: scanSetupKey_def)
  qed
qed (simp add: handleSetupKeys_def)


definition sample_login :: API where
  "sample_login = fst (serve sample_env sample_api None (Login (Decoded (''ann'', ''m''))))"

lemma sample_login_reachable: "reachable server_init server_step sample_login"
  unfolding sample_login_def by (rule reachable_step [OF sample_api_reachable server_request])

lemma sample_check: "CheckPassword (e_cmp sample_env) (e_flt sample_env) (ap_st sample_api) ''ann'' ''m'' = Inr (scanUser sample_member_row)"
proof -
  have "NormalizeUsername ''ann'' = Inr ''ann''" by code_simp
  then show ?thesis
    by (simp add: CheckPassword_def sample_env_def sample_users_def tbl_find_def sample_member_row_def)
qed

lemma sample_login_user: "sessionUser sample_env sample_login (Some (hex_encode [1, 2])) = Some (scanUser sample_member_row)"
  using sample_check
  by (simp add: sample_login_def handleLogin_def startSession_def Let_def sessionUser_def sample_env_def sessionTTL_def)




section \<open>What the code does not do\<close>

text \<open>A session holds a copy of the account: disabling, demoting or deleting an account leaves its
  sessions and their role as they were.\<close>

lemma apply_sessions:
  "ap_sessions (fst (apply_role e a u i t ro)) = ap_sessions a" "ap_sessions (fst (apply_disabled e a u i t dis)) = ap_sessions a"
  "ap_sessions (fst (apply_password e a u i t pw)) = ap_sessions a"
  by (simp_all add: apply_role_def apply_disabled_def apply_password_def split: option.split sum.split prod.split)

lemma sessions_outlive_accounts:
  "sessionUser e' (fst (handleUpdateUser e a actor p b)) ck = sessionUser e' a ck"
  "sessionUser e' (fst (handleDeleteUser e a actor p)) ck = sessionUser e' a ck"
proof -
  have "ap_sessions (fst (apply_update e a actor i t req)) = ap_sessions a" for i t req
    by (rule apply_update_chain [where P = "\<lambda>b. ap_sessions b = ap_sessions a"]) (simp_all add: apply_sessions)
  then have "ap_sessions (fst (handleUpdateUser e a actor p b)) = ap_sessions a"
    by (cases b) (simp_all add: handleUpdateUser_def split: option.split sum.split)
  then show "sessionUser e' (fst (handleUpdateUser e a actor p b)) ck = sessionUser e' a ck" by (cases ck) (simp_all add: sessionUser_def)
  have "ap_sessions (fst (handleDeleteUser e a actor p)) = ap_sessions a"
    by (simp add: handleDeleteUser_def split: option.split sum.split prod.split)
  then show "sessionUser e' (fst (handleDeleteUser e a actor p)) ck = sessionUser e' a ck" by (cases ck) (simp_all add: sessionUser_def)
qed

text \<open>The count of admins and the write are separate database calls: two requests that both count
  before either writes can disable the last two admins.\<close>

lemma last_admin_race:
  "\<exists>s t1 t2 req. has_admin s \<and> check_admins sample_env s t1 req \<and> check_admins sample_env s t2 req \<and>
     \<not> has_admin (fst (SetUserDisabled no_faults (fst (SetUserDisabled no_faults s (u_ID t1) True)) (u_ID t2) True))"
proof -
  let ?r = "sample_admin_row\<lparr>ur_id := 3, ur_username := ''root''\<rparr>"
  let ?s = "empty_store\<lparr>st_users := \<lparr>tbl_rows = [sample_admin_row, ?r], tbl_seq = 3\<rparr>\<rparr>"
  let ?req = "\<lparr>uu_Role = None, uu_Disabled = Some True, uu_Password = None\<rparr>"
  have "has_admin ?s" by (simp add: has_admin_def enabled_admin_def sample_admin_row_def)
  moreover have "check_admins sample_env ?s t ?req" for t
    by (simp add: check_admins_def admin_count_def AdminCount_def sample_env_def enabled_admin_def sample_admin_row_def)
  moreover have "\<not> has_admin (fst (SetUserDisabled no_faults (fst (SetUserDisabled no_faults ?s 2 True)) 3 True))"
    by (simp add: has_admin_def SetUserDisabled_def update_user_def tbl_update_def enabled_admin_def sample_admin_row_def boolInt_def)
  moreover have "u_ID (scanUser sample_admin_row) = 2" "u_ID (scanUser ?r) = 3" by (simp_all add: scanUser_def sample_admin_row_def)
  ultimately show ?thesis by metis
qed

text \<open>The lifetime of a setup key is computed in 64-bit nanoseconds: 2562048 hours, about 292 years,
  give a key that expired long ago.\<close>

lemma setup_key_hours_wrap: "hours 2562047 = 2562047 * 3600000000000" "hours 2562048 < 0"
  by (simp_all add: hours_def int64_of_u64_def u64_of_int64_def signed_of_int)

end
