(* ===== verification/Server_Main.thy ===== *)
theory Server_Main
  imports Admin_Props Daemon Relay
begin

text \<open>
  The control-plane process, \<^verbatim>\<open>src/cmd/overmesh-server/main.go\<close>: opening the database, the default network and
  the admin account, what is advertised to the nodes, the listeners, who may reach the web interface, and the
  metrics. What the system answers, the database that is opened, and the listeners are the record \<open>sv_world\<close>. Flags
  are parsed by Go's \<^verbatim>\<open>flag\<close>, so the model starts from the configuration. The embedded STUN responder is
  \<^verbatim>\<open>src/internal/stunserver/stunserver.go\<close>, with the STUN library as the record \<open>stun_lib\<close>.

  The properties tie the start to the server's invariants: a server that came up on a consistent database is an initial
  state of the server's transition system, and with \<^verbatim>\<open>-ui-access mesh\<close> exactly loopback and overlay addresses
  reach the interface.
\<close>

section \<open>Configuration\<close>

record sv_config =
  sv_httpAddr :: string
  sv_grpcAddr :: string
  sv_uiAccess :: string
  sv_stunAddr :: string
  sv_stunAdvertise :: string
  sv_extraStun :: string
  sv_relayEnabled :: bool
  sv_relayListen :: string
  sv_relayAdvertise :: string
  sv_relayExtra :: string
  sv_dnsBase :: string
  sv_stateDir :: string
  sv_adminPw :: string
  sv_tlsCert :: string
  sv_tlsKey :: string

definition port_of :: "string \<Rightarrow> string" where
  "port_of a = (case SplitHostPort a of Inr (_, p) \<Rightarrow> p | Inl _ \<Rightarrow> [])"

definition extra_list :: "string \<Rightarrow> string list" where
  "extra_list s = (if s = [] then [] else filter (\<lambda>x. x \<noteq> []) (map trim_space (split_on CHR '','' s)))"

definition sv_stun :: "sv_config \<Rightarrow> string list" where
  "sv_stun cfg =
     (if sv_stunAddr cfg = [] then []
      else [if sv_stunAdvertise cfg = [] then '':'' @ port_of (sv_stunAddr cfg) else sv_stunAdvertise cfg]) @ extra_list (sv_extraStun cfg)"

definition wants_tls :: "sv_config \<Rightarrow> bool" where
  "wants_tls cfg \<longleftrightarrow> sv_tlsCert cfg \<noteq> [] \<or> sv_tlsKey cfg \<noteq> []"

definition wants_relay :: "sv_config \<Rightarrow> bool" where
  "wants_relay cfg \<longleftrightarrow> sv_relayEnabled cfg \<and> sv_relayListen cfg \<noteq> []"

definition sv_relays :: "sv_config \<Rightarrow> string list" where
  "sv_relays cfg =
     (if \<not> wants_relay cfg then []
      else [if sv_relayAdvertise cfg = [] then (if wants_tls cfg then ''https'' else ''http'') @ ''://:'' @ port_of (sv_relayListen cfg) @ UpgradePath
            else sv_relayAdvertise cfg]) @ extra_list (sv_relayExtra cfg)"

text \<open>The address of the web interface and whether requests are restricted to the mesh.\<close>

definition ui_listen :: "sv_config \<Rightarrow> (string \<times> bool) res" where
  "ui_listen cfg =
     (if sv_uiAccess cfg = ''public'' then Inr (sv_httpAddr cfg, False)
      else if sv_uiAccess cfg = ''local'' then
        (case SplitHostPort (sv_httpAddr cfg) of
           Inl e \<Rightarrow> Inl (ErrWrap ''-http %q: %w'' e)
         | Inr (_, port) \<Rightarrow> Inr (JoinHostPort ''127.0.0.1'' port, False))
      else if sv_uiAccess cfg = ''mesh'' then Inr (sv_httpAddr cfg, True)
      else Inl (ErrMsg ''-ui-access must be public, local, or mesh (got %q)''))"

definition meshOnly :: "Prefix \<Rightarrow> Prefix \<Rightarrow> string \<Rightarrow> bool" where
  "meshOnly v4 v6 remote = (case SplitHostPort remote of
     Inl _ \<Rightarrow> False
   | Inr (host, _) \<Rightarrow> (case parse_addr host of
       None \<Rightarrow> False
     | Some ip0 \<Rightarrow> (let ip = addr_unmap ip0 in addr_is_loopback ip \<or> prefix_contains v4 ip \<or> prefix_contains v6 ip)))"

section \<open>Start\<close>

record sv_world =
  sw_mkdir :: bool
  sw_open :: "Store res"
  sw_stun :: "unit res"
  sw_tls :: "unit res"
  sw_grpc :: "unit res"

record running_server =
  ru_api :: API
  ru_http :: string
  ru_mesh :: bool
  ru_tls :: bool
  ru_relay :: "relay_Server option"

text \<open>\<^verbatim>\<open>run\<close> up to the listeners: the database as it is left, if it was opened, and the server or the error.\<close>

definition run_listeners :: "sv_world \<Rightarrow> sv_config \<Rightarrow> Coordinator \<Rightarrow> Network \<Rightarrow> running_server res" where
  "run_listeners w cfg c0 nw =
     (let c1 = c0\<lparr>c_DNSBase := sv_dnsBase cfg\<rparr> in
      case (if sv_stunAddr cfg = [] then Inr () else sw_stun w) of
        Inl e \<Rightarrow> Inl e
      | Inr _ \<Rightarrow>
         (let c2 = c1\<lparr>c_StunServers := c_StunServers c1 @ sv_stun cfg\<rparr> in
          case (if wants_tls cfg then sw_tls w else Inr ()) of
            Inl e \<Rightarrow> Inl (ErrWrap ''loading TLS keypair: %w'' e)
          | Inr _ \<Rightarrow> (case sw_grpc w of
              Inl e \<Rightarrow> Inl (ErrWrap ''grpc listen: %w'' e)
            | Inr _ \<Rightarrow>
               (let c3 = c2\<lparr>c_Relays := c_Relays c2 @ sv_relays cfg\<rparr> in
                case ui_listen cfg of
                  Inl e \<Rightarrow> Inl e
                | Inr (http, mesh) \<Rightarrow> Inr \<lparr>ru_api = \<lparr>ap_c = c3, ap_nw = nw, ap_sessions = Map.empty\<rparr>, ru_http = http, ru_mesh = mesh,
                    ru_tls = wants_tls cfg, ru_relay = (if wants_relay cfg then Some NewServer else None)\<rparr>))))"

definition sv_run :: "env \<Rightarrow> sv_world \<Rightarrow> sv_config \<Rightarrow> Store option \<times> running_server res" where
  "sv_run e w cfg =
     (if sw_mkdir w then (None, Inl ErrDriver)
      else (case sw_open w of
        Inl err \<Rightarrow> (None, Inl err)
      | Inr st \<Rightarrow> (case EnsureNetwork (e_flt e) (e_now e) st ''default'' DefaultIPv4Prefix DefaultIPv6Prefix of
          (s1, Inl err) \<Rightarrow> (Some s1, Inl err)
        | (s1, Inr nw) \<Rightarrow> (case EnsureAdminPassword e s1 (sv_adminPw cfg) of
            (s2, Inl err) \<Rightarrow> (Some s2, Inl err)
          | (s2, Inr _) \<Rightarrow> (case coord_New s2 of
              Inl err \<Rightarrow> (Some s2, Inl err)
            | Inr c \<Rightarrow> (Some s2, run_listeners w cfg c nw))))))"

text \<open>A request to the web interface from the remote address \<open>remote\<close>.\<close>

definition ui_serve :: "Network \<Rightarrow> bool \<Rightarrow> env \<Rightarrow> API \<Rightarrow> string \<Rightarrow> string option \<Rightarrow> request \<Rightarrow> API \<times> set_cookie \<times> response" where
  "ui_serve nw mesh e a remote ck req =
     (if mesh \<and> \<not> meshOnly (nw_V4Prefix nw) (nw_V6Prefix nw) remote
      then (a, NoCookie, HttpError 403 (Msg ''web UI is restricted to OverMesh (overlay) and local access (-ui-access mesh)''))
      else serve e a ck req)"

section \<open>Metrics\<close>

definition itoa_int :: "int \<Rightarrow> string" where
  "itoa_int i = (if i < 0 then ''-'' @ itoa (nat (- i)) else itoa (nat i))"

definition metric :: "string \<Rightarrow> string \<Rightarrow> string \<Rightarrow> int \<Rightarrow> string" where
  "metric name help kind v =
     ''# HELP '' @ name @ '' '' @ help @ nl @ ''# TYPE '' @ name @ '' '' @ kind @ nl @ name @ '' '' @ itoa_int v @ nl"

text \<open>\<open>version\<close> is the quoted version text.\<close>

definition sv_metrics :: "faults \<Rightarrow> string \<Rightarrow> API \<Rightarrow> relay_Server option \<Rightarrow> string" where
  "sv_metrics flt version a relay =
     ''# HELP overmesh_build_info Build metadata.'' @ nl @ ''# TYPE overmesh_build_info gauge'' @ nl @
     ''overmesh_build_info{version='' @ version @ ''} 1'' @ nl @
     (case NodesInNetwork flt (ap_st a) (nw_ID (ap_nw a)) of
        Inl _ \<Rightarrow> []
      | Inr nodes \<Rightarrow> metric ''overmesh_nodes'' ''Registered nodes.'' ''gauge'' (int (length nodes))) @
     metric ''overmesh_nodes_online'' ''Nodes with an open netmap stream.'' ''gauge'' (int (OnlineCount (ap_c a))) @
     metric ''overmesh_netmap_pushes_total'' ''Netmaps pushed to subscribers.'' ''counter'' (NetmapPushes (ap_c a)) @
     (case relay of
        None \<Rightarrow> []
      | Some rs \<Rightarrow> (let st = relay_Stats rs in
          metric ''overmesh_relay_clients'' ''Connected relay clients.'' ''gauge'' (int (st_Clients st)) @
          metric ''overmesh_relay_frames_forwarded_total'' ''Frames forwarded by the relay.'' ''counter'' (st_FramesForwarded st) @
          metric ''overmesh_relay_bytes_forwarded_total'' ''Payload bytes forwarded by the relay.'' ''counter'' (st_BytesForwarded st) @
          metric ''overmesh_relay_frames_dropped_total'' ''Frames dropped on stalled clients.'' ''counter'' (st_FramesDropped st)))"

section \<open>The STUN responder\<close>

text \<open>\<open>sl_decode\<close> is \<^verbatim>\<open>Decode\<close> and the message's type, \<open>sl_build\<close> the binding success with the mapped address.\<close>

datatype stun_type = BindingRequest | OtherMessage

record 'm stun_lib =
  sl_IsMessage :: "byte list \<Rightarrow> bool"
  sl_decode :: "byte list \<Rightarrow> ('m \<times> stun_type) option"
  sl_build :: "'m \<Rightarrow> AddrPort \<Rightarrow> byte list option"

text \<open>The answer to one datagram, none for a source that is no UDP address.\<close>

definition stun_answer :: "'m stun_lib \<Rightarrow> byte list \<Rightarrow> AddrPort option \<Rightarrow> (byte list \<times> AddrPort) option" where
  "stun_answer lib pkt0 src = (let pkt = take 1500 pkt0 in
     if \<not> sl_IsMessage lib pkt then None
     else (case sl_decode lib pkt of
       Some (m, BindingRequest) \<Rightarrow> (case src of
           None \<Rightarrow> None
         | Some ap \<Rightarrow> map_option (\<lambda>raw. (raw, ap)) (sl_build lib m ap))
     | _ \<Rightarrow> None))"

definition stun_serve :: "'m stun_lib \<Rightarrow> (byte list \<times> AddrPort option) list \<Rightarrow> (byte list \<times> AddrPort) list" where
  "stun_serve lib pkts = List.map_filter (\<lambda>(pkt, src). stun_answer lib pkt src) pkts"

section \<open>Lemmas\<close>

text \<open>The start leaves the addresses of the database as they are.\<close>

lemma EnsureAdminUser_same_addrs: "same_addrs s (fst (EnsureAdminUser gen flt now s pw lh))"
proof -
  have "same_addrs s (fst (createUserWithHash flt now s u h r))" for u h r
    by (rule same_tables) (simp_all add: createUserWithHash_def insert_user_def)
  then show ?thesis
    using EnsureAdminUser_state [of gen flt now s pw lh]
    by (elim disjE exE) (simp_all add: user_writes_same_addrs same_addrs_refl)
qed

lemma EnsureAdminPassword_store:
  assumes "store_ok s"
  shows "store_ok (fst (EnsureAdminPassword e s pw))" and "same_addrs s (fst (EnsureAdminPassword e s pw))"
proof -
  define lh where "lh = (case Setting (e_flt e) s legacyHashKey of Inr h \<Rightarrow> h | Inl _ \<Rightarrow> [])"
  obtain s1 r where s1: "EnsureAdminUser (e_gen e) (e_flt e) (e_now e) s pw lh = (s1, r)" by fastforce
  have 1: "store_ok s1" "same_addrs s s1"
    using EnsureAdminUser_ok [OF assms, of "e_gen e" "e_flt e" "e_now e" pw lh] EnsureAdminUser_same_addrs [of s "e_gen e" "e_flt e" "e_now e" pw lh] s1 by simp_all
  have "fst (EnsureAdminPassword e s pw) = s1 \<or> (\<exists>raw. fst (EnsureAdminPassword e s pw) = fst (CreateUser (e_gen e) (e_flt e) (e_now e) s1 ''admin'' (hex_encode raw) RoleAdmin))"
    unfolding EnsureAdminPassword_def Let_def lh_def [symmetric] s1 by (auto split: sum.split prod.split option.split) (metis fst_conv)+
  then show "store_ok (fst (EnsureAdminPassword e s pw))" and "same_addrs s (fst (EnsureAdminPassword e s pw))"
    using 1 CreateUser_ok [OF 1(1)] same_addrs_trans [OF 1(2) user_writes_same_addrs(1)] by (elim disjE exE; simp)+
qed

lemma CreateUser_admin:
  "CreateUser gen flt now s u pw RoleAdmin = (s', Inr x) \<Longrightarrow> has_admin s'"
  by (auto simp: CreateUser_def insert_user_def has_admin_def enabled_admin_def user_row_def RoleAdmin_def split: if_splits sum.splits prod.splits)

lemma EnsureAdminPassword_admin:
  assumes "EnsureAdminPassword e s pw = (s', Inr ())" and "pw = [] \<or> ''admin'' \<notin> ur_username ` set (tbl_rows (st_users s)) \<or> has_admin s"
  shows "has_admin s'"
proof -
  define lh where "lh = (case Setting (e_flt e) s legacyHashKey of Inr h \<Rightarrow> h | Inl _ \<Rightarrow> [])"
  obtain s1 need where s1: "EnsureAdminUser (e_gen e) (e_flt e) (e_now e) s pw lh = (s1, Inr need)"
    and rest: "if need then \<exists>raw x. CreateUser (e_gen e) (e_flt e) (e_now e) s1 ''admin'' (hex_encode raw) RoleAdmin = (s', Inr x) else s' = s1"
    using assms(1) by (auto simp: EnsureAdminPassword_def lh_def Let_def split: sum.splits prod.splits option.splits if_splits)
  show ?thesis
  proof (cases need)
    case True
    with rest show ?thesis by (auto intro: CreateUser_admin)
  next
    case False
    have "has_admin s1"
    proof (cases "pw = []")
      case True
      with s1 False show ?thesis
        by (auto simp: EnsureAdminUser_def AdminCount_def createUserWithHash_def insert_user_def user_row_def has_admin_def
            enabled_admin_def RoleAdmin_def filter_empty_conv split: if_splits sum.splits prod.splits)
    next
      case pw: False
      show ?thesis
      proof (cases "UserByName (e_flt e) s ''admin''")
        case (Inl err)
        with s1 pw obtain x where "CreateUser (e_gen e) (e_flt e) (e_now e) s ''admin'' pw RoleAdmin = (s1, Inr x)"
          by (auto simp: EnsureAdminUser_def split: if_splits sum.splits prod.splits)
        then show ?thesis by (rule CreateUser_admin)
      next
        case (Inr u)
        then have "''admin'' \<in> ur_username ` set (tbl_rows (st_users s))"
          by (auto simp: UserByName_def dest!: tbl_find_Some split: if_splits option.splits intro: rev_image_eqI)
        with assms(2) pw have "has_admin s" by simp
        moreover have "s1 = fst (SetUserPassword (e_gen e) (e_flt e) s (u_ID u) pw)"
          using s1 pw Inr by (auto simp: EnsureAdminUser_def split: sum.splits prod.splits)
        ultimately show ?thesis by (simp add: user_ops_keep)
      qed
    qed
    with False rest show ?thesis by simp
  qed
qed

lemma network_by_name:
  assumes "store_ok s" and "NetworkByName flt s name = Inr nw"
  shows "nw_Name nw = name \<and> net_prefixes s (nw_ID nw) = Some (nw_V4Prefix nw, nw_V6Prefix nw)"
proof -
  from assms(2) obtain r where r: "r \<in> set (tbl_rows (st_networks s))" "nwr_name r = name" "parsePrefixes r = Inr nw"
    by (auto simp: NetworkByName_def dest!: tbl_find_Some split: if_splits option.splits)
  have "tbl_ok nwr_id (st_networks s)" using assms(1) by (simp add: store_ok_def networks_ok_def)
  then have "tbl_find (\<lambda>q. nwr_id q = nwr_id r) (st_networks s) = Some r"
    using r(1) by (rule tbl_ok_find_id) simp
  with r show ?thesis
    by (auto simp: net_prefixes_def parsePrefixes_def split: option.splits)
qed

lemma listeners_init:
  assumes "store_ok s" and "addrs_ok s" and "has_admin s" and "run_listeners w cfg (coord_start s [] [] []) nw = Inr srv"
  shows "reachable server_init server_step (ru_api srv) \<and> ap_st (ru_api srv) = s \<and> ap_nw (ru_api srv) = nw \<and>
    c_StunServers (ap_c (ru_api srv)) = sv_stun cfg \<and> c_Relays (ap_c (ru_api srv)) = sv_relays cfg \<and> c_DNSBase (ap_c (ru_api srv)) = sv_dnsBase cfg"
proof -
  have a: "ru_api srv = \<lparr>ap_c = coord_start s (sv_stun cfg) (sv_relays cfg) (sv_dnsBase cfg), ap_nw = nw, ap_sessions = Map.empty\<rparr>"
    using assms(4) by (auto simp: run_listeners_def coord_start_def coord_New_def Let_def split: sum.splits prod.splits)
  have "server_init (ru_api srv)"
    using assms(1-3) by (auto simp: server_init_def coord_init_def a) (auto simp: coord_start_def coord_New_def)
  then show ?thesis
    using reachable_init [of server_init "ru_api srv" server_step] by (simp add: a) (simp add: coord_start_def coord_New_def)
qed

lemma boot_store:
  assumes "store_ok s" and "addrs_ok s" and "EnsureNetwork flt now s name DefaultIPv4Prefix DefaultIPv6Prefix = (s1, rn)"
    and "EnsureAdminPassword e s1 pw = (s2, ra)"
  shows "pool_ok s1 Map.empty" and "pool_ok s2 Map.empty" and "net_prefixes s2 i = net_prefixes s1 i" and "st_users s1 = st_users s"
proof -
  have p: "prefix_ok DefaultIPv4Prefix" "prefix_ok DefaultIPv6Prefix"
    by (simp_all add: DefaultIPv4Prefix_def DefaultIPv6Prefix_def no_zone_def)
  have "pool_ok s Map.empty"
    using assms(1,2) by (simp add: pool_ok_def ipams_ok_def)
  then show 1: "pool_ok s1 Map.empty"
    using EnsureNetwork_pool [OF _ p, of s Map.empty flt now name] assms(3) by simp
  note E = EnsureAdminPassword_store [OF pool_okD(1) [OF 1], of e pw, unfolded assms(4) fst_conv]
  from E show "pool_ok s2 Map.empty" by (rule pool_ok_same [OF 1])
  from E(2) show "net_prefixes s2 i = net_prefixes s1 i" by (simp add: same_addrs_def net_prefixes_def)
  show "st_users s1 = st_users s"
    using assms(3) by (auto simp: EnsureNetwork_def Let_def split: if_splits)
qed

section \<open>Properties\<close>

text \<open>
  Claim C14. A server that starts is in a good state. Whenever \<^verbatim>\<open>run\<close> gets to its listeners on a consistent database,
  with any configuration and any answers of the system, the server is an initial state of its transition system: the database
  is consistent, the assigned addresses are as before, the default network exists and an enabled admin account is there. So everything
  shown of reachable states holds from the first request on. When the password flag is given, this needs that a user named admin is
  not disabled with no other admin enabled. The nodes are told the configured name suffix, STUN servers and relays. A start that fails keeps the
  database consistent.
\<close>

theorem server_boots:
  assumes "sw_open w = Inr s" and "store_ok s" and "addrs_ok s" and "sv_run e w cfg = (st, r)"
    and "sv_adminPw cfg = [] \<or> ''admin'' \<notin> ur_username ` set (tbl_rows (st_users s)) \<or> has_admin s"
  shows "(case st of None \<Rightarrow> True | Some s' \<Rightarrow> store_ok s' \<and> addrs_ok s') \<and>
    (case r of Inl _ \<Rightarrow> True
     | Inr srv \<Rightarrow> reachable server_init server_step (ru_api srv) \<and> st = Some (ap_st (ru_api srv)) \<and> nw_Name (ap_nw (ru_api srv)) = ''default'' \<and>
         net_prefixes (ap_st (ru_api srv)) (nw_ID (ap_nw (ru_api srv))) = Some (nw_V4Prefix (ap_nw (ru_api srv)), nw_V6Prefix (ap_nw (ru_api srv))) \<and>
         c_StunServers (ap_c (ru_api srv)) = sv_stun cfg \<and> c_Relays (ap_c (ru_api srv)) = sv_relays cfg \<and> c_DNSBase (ap_c (ru_api srv)) = sv_dnsBase cfg)"
proof (cases "sw_mkdir w")
  case True
  with assms(4) show ?thesis by (auto simp: sv_run_def)
next
  case False
  obtain s1 rn where s1: "EnsureNetwork (e_flt e) (e_now e) s ''default'' DefaultIPv4Prefix DefaultIPv6Prefix = (s1, rn)" by fastforce
  obtain s2 ra where s2: "EnsureAdminPassword e s1 (sv_adminPw cfg) = (s2, ra)" by fastforce
  note B = boot_store [OF assms(2,3) s1 s2]
  note 1 = B(1) and 2 = B(2)
  show ?thesis
  proof (cases "\<exists>nw. rn = Inr nw \<and> ra = Inr ()")
    case False
    with assms(1,4) \<open>\<not> sw_mkdir w\<close> s1 s2 have "(st = Some s1 \<or> st = Some s2) \<and> isl r"
      by (auto simp: sv_run_def split: sum.splits)
    with pool_okD [OF 1] pool_okD [OF 2] show ?thesis
      by (auto simp: isl_def)
  next
    case True
    then obtain nw where nw: "rn = Inr nw" and ra: "ra = Inr ()" by blast
    have adm: "has_admin s2"
      using EnsureAdminPassword_admin [of e s1 "sv_adminPw cfg" s2] s2 ra assms(5) B(4) by (simp add: has_admin_def)
    have run: "st = Some s2" "r = run_listeners w cfg (coord_start s2 [] [] []) nw"
      using assms(1,4) \<open>\<not> sw_mkdir w\<close> s1 s2 nw ra by (auto simp: sv_run_def coord_start_def coord_New_def)
    have "NetworkByName (e_flt e) s1 ''default'' = Inr nw"
      using s1 nw by (auto simp: EnsureNetwork_def Let_def split: if_splits)
    then have net: "nw_Name nw = ''default''" "net_prefixes s1 (nw_ID nw) = Some (nw_V4Prefix nw, nw_V6Prefix nw)"
      using network_by_name [OF pool_okD(1) [OF 1]] by blast+
    then show ?thesis
      using B(3) run pool_okD [OF 2] adm listeners_init [OF pool_okD(1,2) [OF 2] adm, of w cfg nw] by (auto split: sum.splits)
  qed
qed

definition sample_config :: sv_config where
  "sample_config = \<lparr>sv_httpAddr = '':8080'', sv_grpcAddr = '':41641'', sv_uiAccess = ''mesh'', sv_stunAddr = '':3478'', sv_stunAdvertise = [],
     sv_extraStun = '' stun.example.org:3478 ,'', sv_relayEnabled = True, sv_relayListen = '':41643'', sv_relayAdvertise = [], sv_relayExtra = [],
     sv_dnsBase = ''mesh'', sv_stateDir = ''data'', sv_adminPw = [], sv_tlsCert = [], sv_tlsKey = []\<rparr>"

definition sample_world :: sv_world where
  "sample_world = \<lparr>sw_mkdir = False, sw_open = Inr sample_users, sw_stun = Inr (), sw_tls = Inr (), sw_grpc = Inr ()\<rparr>"

theorem server_boots_witness:
  "\<exists>srv. snd (sv_run sample_env sample_world sample_config) = Inr srv \<and> reachable server_init server_step (ru_api srv) \<and>
     c_StunServers (ap_c (ru_api srv)) = ['':3478'', ''stun.example.org:3478''] \<and> c_Relays (ap_c (ru_api srv)) = [''http://:41643/relay'']"
proof -
  have n: "EnsureNetwork no_faults 1000 sample_users ''default'' DefaultIPv4Prefix DefaultIPv6Prefix = (sample_users, Inr sample_network_value)"
    using sample_network by (simp add: EnsureNetwork_def NetworkByName_def NetworkByID_def no_faults_def sample_users_def sample_store_def
        tbl_find_def network_tbl.rid_mk sample_network_value_def parsePrefixes_row no_zone_def) (simp add: network_row_def)
  have p: "EnsureAdminPassword sample_env sample_users [] = (sample_users, Inr ())"
    by (simp add: EnsureAdminPassword_def EnsureAdminUser_def AdminCount_def sample_env_def no_faults_def sample_users_def sample_member_row_def
        sample_admin_row_def enabled_admin_def)
  have l: "sv_stun sample_config = ['':3478'', ''stun.example.org:3478'']" "sv_relays sample_config = [''http://:41643/relay'']"
    by code_simp+
  have u: "ui_listen sample_config = Inr ('':8080'', True)"
    by code_simp
  have "\<exists>srv. run_listeners sample_world sample_config c sample_network_value = Inr srv" for c
    using u by (simp add: run_listeners_def Let_def sample_world_def)
  then obtain srv where r: "run_listeners sample_world sample_config (projr (coord_New sample_users)) sample_network_value = Inr srv" by blast
  have f: "\<not> sw_mkdir sample_world" "sw_open sample_world = Inr sample_users" "e_flt sample_env = no_faults" "e_now sample_env = 1000" "sv_adminPw sample_config = []"
    by (simp_all add: sample_world_def sample_env_def sample_config_def)
  have srv: "sv_run sample_env sample_world sample_config = (Some sample_users, Inr srv)"
    using r by (simp add: sv_run_def f n p coord_New_def)
  from server_boots [OF f(2) sample_users_ok sample_users_addrs srv] l f(5) srv show ?thesis
    by auto
qed

text \<open>A remote address as Go writes it is split into the address and the port.\<close>

lemma addr_text_brackets:
  assumes "addr_is_valid a" and "no_zone a" and "c \<in> {CHR ''['', CHR '']''}"
  shows "c \<notin> set (addr_text a)"
proof -
  have h: "\<not> is_hex_digit c \<and> c \<noteq> CHR '':'' \<and> c \<noteq> CHR ''.'' \<and> c \<noteq> CHR ''f''"
    using assms(3) by (auto simp: is_hex_digit_def)
  show ?thesis
  proof (cases a)
    case (V4 x)
    with h set_ipv4_text [of c x] show ?thesis by auto
  next
    case (V6 y z)
    with h set_ipv4_text [of c "ucast y"] set_ipv6_body_text [of c "groups6 y"] assms(2) show ?thesis
      by (auto simp: no_zone_def split: if_splits)
  qed (use assms in simp)
qed

lemma remote_split:
  assumes "addr_is_valid a" and "no_zone a"
  shows "SplitHostPort (addr_port_text (a, p)) = Inr (addr_text a, itoa (unat p))"
proof -
  have i: "CHR '':'' \<notin> set (itoa k)" "CHR ''['' \<notin> set (itoa k)" "CHR '']'' \<notin> set (itoa k)" for k
    using itoa_hex by (auto simp: is_hex_digit_def)
  have b: "CHR ''['' \<notin> set (addr_text a)" "CHR '']'' \<notin> set (addr_text a)"
    using addr_text_brackets [OF assms] by simp_all
  show ?thesis
  proof (cases a)
    case (V4 x)
    have "CHR '':'' \<notin> set (addr_text (V4 x))"
      using set_ipv4_text [of "CHR '':''" x] by (auto simp: is_hex_digit_def)
    with V4 b i show ?thesis
      using split_host_port [of "addr_text a" "itoa (unat p)"] by simp
  next
    case (V6 y z)
    with b i show ?thesis
      using split_bracketed_host_port [of "addr_text a" "itoa (unat p)"] by simp
  qed (use assms in simp)
qed

text \<open>The STUN server that is advertised without a host is the server itself for every node.\<close>

lemma advertised_stun:
  assumes "sv_stunAddr cfg = h @ '':'' @ port" and "sv_stunAdvertise cfg = []" and "sv_extraStun cfg = []" and "port \<noteq> []"
    and "CHR '':'' \<notin> set port" "CHR ''['' \<notin> set port" "CHR '']'' \<notin> set port"
    and "CHR '':'' \<notin> set h" "CHR ''['' \<notin> set h" "CHR '']'' \<notin> set h"
  shows "resolveStunServers server (sv_stun cfg) = [JoinHostPort (server_host server) port]"
proof -
  have "SplitHostPort (h @ '':'' @ port) = Inr (h, port)" "SplitHostPort ([] @ '':'' @ port) = Inr ([], port)"
    using assms by (intro split_host_port; simp)+
  then show ?thesis
    using assms(1-3) by (simp add: sv_stun_def port_of_def extra_list_def resolveStunServers_def List.map_filter_simps)
qed

text \<open>
  Claim C15. With \<^verbatim>\<open>-ui-access mesh\<close> exactly this machine and the mesh reach the web interface: in every reachable state of the server
  a request is served as usual when its source is a loopback address or inside the network's prefixes, with an IPv4 address in
  IPv6 form read as IPv4, and is refused with status 403 without any change otherwise. Every registered node of the network is among
  those that are served.
\<close>

theorem mesh_only_access:
  assumes "reachable server_init server_step a" and "net_prefixes (ap_st a) (nw_ID nw) = Some (nw_V4Prefix nw, nw_V6Prefix nw)"
    and "addr_is_valid ip" and "no_zone ip" and "src = addr_unmap ip"
  shows "ui_serve nw True e a (addr_port_text (ip, port)) ck req =
      (if addr_is_loopback src \<or> prefix_contains (nw_V4Prefix nw) src \<or> prefix_contains (nw_V6Prefix nw) src then serve e a ck req
       else (a, NoCookie, HttpError 403 (Msg ''web UI is restricted to OverMesh (overlay) and local access (-ui-access mesh)''))) \<and>
    (\<forall>flt ns q. NodesInNetwork flt (ap_st a) (nw_ID nw) = Inr ns \<and> q \<in> set ns \<and> ip = n_IPv4 q \<longrightarrow>
       ui_serve nw True e a (addr_port_text (ip, port)) ck req = serve e a ck req)"
proof -
  have g: "meshOnly (nw_V4Prefix nw) (nw_V6Prefix nw) (addr_port_text (ip, port)) \<longleftrightarrow>
      addr_is_loopback src \<or> prefix_contains (nw_V4Prefix nw) src \<or> prefix_contains (nw_V6Prefix nw) src"
    using assms(3-5) by (simp add: meshOnly_def remote_split parse_addr_text Let_def)
  have inv: "coord_inv (ap_c a)"
    using server_sys.reachable_inv [OF assms(1)] by (simp add: server_inv_def)
  have n: "prefix_contains (nw_V4Prefix nw) src" if ns: "NodesInNetwork flt (ap_st a) (nw_ID nw) = Inr ns" "q \<in> set ns" "ip = n_IPv4 q" for flt ns q
  proof -
    from NodesInNetwork_set [OF ns(1)] ns(2) obtain r where r: "r \<in> set (tbl_rows (st_nodes (ap_st a)))" "nr_network_id r = nw_ID nw"
      "hydrateNode r = Inr q" by blast
    then have "nr_ipv4 r \<in> set (assigned (ap_st a) (nw_ID nw))" by (auto simp: assigned_iff)
    with coord_invD(2) [OF inv] assms(2) obtain x where x: "nr_ipv4 r = addr_text (V4 x)" "V4 x \<in> prefix_assignable (masked (nw_V4Prefix nw))"
      by (fastforce simp: addrs_ok_def)
    have "n_IPv4 q = V4 x"
      using hydrateNode_fields [OF r(3)] x(1) v4_text_parses [of x] by simp
    with x(2) ns(3) assms(5) show ?thesis
      using contains_masked [of "nw_V4Prefix nw" "V4 x"] net_prefixes_ok [OF assms(2)] by (simp add: prefix_assignable_def)
  qed
  have u: "ui_serve nw True e a (addr_port_text (ip, port)) ck req =
      (if addr_is_loopback src \<or> prefix_contains (nw_V4Prefix nw) src \<or> prefix_contains (nw_V6Prefix nw) src then serve e a ck req
       else (a, NoCookie, HttpError 403 (Msg ''web UI is restricted to OverMesh (overlay) and local access (-ui-access mesh)'')))"
    by (simp add: ui_serve_def g)
  moreover have "ui_serve nw True e a (addr_port_text (ip, port)) ck req = serve e a ck req"
    if "NodesInNetwork flt (ap_st a) (nw_ID nw) = Inr ns" "q \<in> set ns" "ip = n_IPv4 q" for flt ns q
    using n [OF that] by (simp add: ui_serve_def g)
  ultimately show ?thesis by blast
qed

theorem mesh_only_access_witness:
  "ui_serve sample_network_value True sample_env sample_api (addr_port_text (V4 0x64600001, 5000)) None GetDevices = serve sample_env sample_api None GetDevices \<and>
   ui_serve sample_network_value True sample_env sample_api (addr_port_text (V4 0x08080808, 5000)) None GetDevices =
     (sample_api, NoCookie, HttpError 403 (Msg ''web UI is restricted to OverMesh (overlay) and local access (-ui-access mesh)''))"
proof -
  have p: "net_prefixes (ap_st sample_api) (nw_ID sample_network_value) = Some (nw_V4Prefix sample_network_value, nw_V6Prefix sample_network_value)"
    using sample_prefixes by (simp add: net_prefixes_def sample_users_def sample_network_value_def)
  have c: "prefix_contains (nw_V4Prefix sample_network_value) (V4 0x64600001)"
    "\<not> (addr_is_loopback (V4 0x08080808) \<or> prefix_contains (nw_V4Prefix sample_network_value) (V4 0x08080808) \<or>
       prefix_contains (nw_V6Prefix sample_network_value) (V4 0x08080808))"
    by code_simp+
  have v: "addr_is_valid (V4 x)" "no_zone (V4 x)" "V4 x = addr_unmap (V4 x)" for x
    by (simp_all add: no_zone_def)
  note W = mesh_only_access [OF sample_api_reachable p v, where e = sample_env and port = 5000 and ck = None and req = GetDevices, THEN conjunct1]
  show ?thesis
    using W [of "0x64600001"] W [of "0x08080808"] c by (simp del: addr_port_text.simps)
qed

end
