(* ===== verification/Control.thy ===== *)
theory Control
  imports Daemon
begin

text \<open>
  The daemon's control API, \<^verbatim>\<open>src/internal/daemon/control.go\<close>, and its connectivity report,
  \<^verbatim>\<open>src/internal/daemon/netcheck.go\<close>. The unix socket is a value of \<open>sock\<close>: absent, held by a live daemon, left
  behind by a dead one, or this daemon's own with its mode and group. A request is the route with its decoded body, \<open>None\<close>
  for a body that does not decode. What a handler needs of the outside is the record \<open>ctl_env\<close>; probes are the
  record \<open>probe_lib\<close>, round-trip times are in microseconds.

  The lemmas show who can talk to the daemon, that a live daemon keeps its socket, that only the POST routes with a
  readable body change the daemon, and when a node reports that UDP is blocked.
\<close>

section \<open>The socket\<close>

datatype sock = NoSock | LiveSock | DeadSock | OwnSock nat "int option"

record sock_world =
  so_remove :: bool
  so_listen :: bool
  so_group :: "string \<Rightarrow> string option"
  so_chown :: bool
  so_chmod :: bool

definition DefaultSocketPath :: "string \<Rightarrow> string \<Rightarrow> bool \<Rightarrow> string \<Rightarrow> string" where
  "DefaultSocketPath goos programData root home =
     (if goos = ''windows'' then (if programData = [] then ''C:'' @ [CHR 0x5C] @ ''ProgramData'' else programData) @ [CHR 0x5C] @ ''OverMesh'' @ [CHR 0x5C] @ ''overmesh.sock''
      else if goos = ''darwin'' then ''/var/run/overmesh.sock''
      else if root then ''/run/overmesh.sock''
      else home @ ''/.overmesh/overmesh.sock'')"

text \<open>\<^verbatim>\<open>ServeControl\<close> up to the start of the HTTP server. Closing a listener removes its socket.\<close>

definition claim_sock :: "sock_world \<Rightarrow> sock \<Rightarrow> sock res" where
  "claim_sock w s = (case s of
     LiveSock \<Rightarrow> Inl (ErrMsg ''another overmeshd is already running on %s'')
   | OwnSock _ _ \<Rightarrow> Inl (ErrMsg ''another overmeshd is already running on %s'')
   | DeadSock \<Rightarrow> if so_remove w then Inr NoSock else Inr DeadSock
   | NoSock \<Rightarrow> Inr NoSock)"

definition sock_mode :: "sock_world \<Rightarrow> string \<Rightarrow> string \<Rightarrow> sock \<times> unit res" where
  "sock_mode w goos groupName =
     (if goos = ''windows'' then (OwnSock 0 None, Inr ())
      else if groupName = [] then (if so_chmod w then (OwnSock 384 None, Inr ()) else (NoSock, Inl ErrDriver))
      else (case so_group w groupName of
         None \<Rightarrow> (NoSock, Inl (ErrWrap ''-socket-group %q: %w'' ErrDriver))
       | Some gid \<Rightarrow> (case parse_int64 gid of
           None \<Rightarrow> (NoSock, Inl (ErrMsg ''-socket-group %q: bad gid %q''))
         | Some g \<Rightarrow>
            if \<not> so_chown w then (NoSock, Inl ErrDriver)
            else if \<not> so_chmod w then (NoSock, Inl ErrDriver)
            else (OwnSock 432 (Some g), Inr ()))))"

definition ServeControl :: "sock_world \<Rightarrow> string \<Rightarrow> string \<Rightarrow> sock \<Rightarrow> sock \<times> unit res" where
  "ServeControl w goos groupName s = (case claim_sock w s of
     Inl e \<Rightarrow> (s, Inl e)
   | Inr s1 \<Rightarrow>
      if s1 \<noteq> NoSock \<or> \<not> so_listen w then (s1, Inl ErrDriver)
      else sock_mode w goos groupName)"

section \<open>Connectivity report\<close>

record StunCheck =
  sc_Server :: string
  sc_MappedAddr :: string
  sc_RTT :: int
  sc_Error :: bool

record RelayCheck =
  rk_URL :: string
  rk_Reachable :: bool
  rk_RTT :: int
  rk_Error :: bool

record NetcheckReport =
  nr_Server :: string
  nr_ControlReachable :: bool
  nr_ControlRTT :: int
  nr_ControlError :: bool
  nr_Stun :: "StunCheck list"
  nr_UDPBlocked :: bool
  nr_Relays :: "RelayCheck list"

text \<open>Dialling TCP gives the time it took; the STUN probe is a dial, a request, an answer of up to 1500 bytes, its decoding and
  its mapped address.\<close>

record 'm probe_lib =
  pl_tcp :: "string \<Rightarrow> int res"
  pl_udp :: "string \<Rightarrow> unit res"
  pl_write :: "string \<Rightarrow> unit res"
  pl_read :: "string \<Rightarrow> byte list res"
  pl_decode :: "byte list \<Rightarrow> 'm res"
  pl_mapped :: "'m \<Rightarrow> AddrPort res"
  pl_rtt :: "string \<Rightarrow> int"

definition probeStun :: "'m probe_lib \<Rightarrow> string \<Rightarrow> StunCheck" where
  "probeStun pl server =
     (let c = \<lparr>sc_Server = server, sc_MappedAddr = [], sc_RTT = 0, sc_Error = False\<rparr>; bad = c\<lparr>sc_Error := True\<rparr> in
      case pl_udp pl server of
        Inl _ \<Rightarrow> bad
      | Inr _ \<Rightarrow> (case pl_write pl server of
          Inl _ \<Rightarrow> bad
        | Inr _ \<Rightarrow> (case pl_read pl server of
            Inl _ \<Rightarrow> bad
          | Inr buf \<Rightarrow> (case pl_decode pl (take 1500 buf) of
              Inl _ \<Rightarrow> bad
            | Inr m \<Rightarrow> (case pl_mapped pl m of
                Inl _ \<Rightarrow> bad
              | Inr (ip, port) \<Rightarrow> c\<lparr>sc_MappedAddr := addr_text ip @ '':'' @ itoa (unat port), sc_RTT := pl_rtt pl server\<rparr>)))))"

definition relay_target :: "url \<Rightarrow> string" where
  "relay_target u = (if url_Port u \<noteq> [] then url_Host u
     else JoinHostPort (url_Hostname u) (if url_Scheme u = ''https'' then ''443'' else ''80''))"

definition probeRelay :: "('e, 'os) dm_lib \<Rightarrow> 'm probe_lib \<Rightarrow> string \<Rightarrow> RelayCheck" where
  "probeRelay lib pl relayURL =
     (let c = \<lparr>rk_URL = relayURL, rk_Reachable = False, rk_RTT = 0, rk_Error = False\<rparr> in
      case ml_urlParse lib relayURL of
        None \<Rightarrow> c\<lparr>rk_Error := True\<rparr>
      | Some u \<Rightarrow> (case pl_tcp pl (relay_target u) of
          Inl _ \<Rightarrow> c\<lparr>rk_Error := True\<rparr>
        | Inr t \<Rightarrow> c\<lparr>rk_Reachable := True, rk_RTT := t\<rparr>))"

definition Netcheck :: "('e, 'os) dm_lib \<Rightarrow> 'm probe_lib \<Rightarrow> ('e, 'os, 'c) Daemon \<Rightarrow> NetcheckReport" where
  "Netcheck lib pl d =
     (let server = sj_Server (d_state d);
          control = (if server = [] then None else Some (pl_tcp pl server));
          stuns = map (probeStun pl) (d_lastStun d);
          failed = length (filter sc_Error stuns)
      in \<lparr>nr_Server = server, nr_ControlReachable = (case control of Some (Inr _) \<Rightarrow> True | _ \<Rightarrow> False),
          nr_ControlRTT = (case control of Some (Inr t) \<Rightarrow> t | _ \<Rightarrow> 0), nr_ControlError = (case control of Some (Inl _) \<Rightarrow> True | _ \<Rightarrow> False),
          nr_Stun = stuns, nr_UDPBlocked = (0 < length (d_lastStun d) \<and> failed = length (d_lastStun d)),
          nr_Relays = map (probeRelay lib pl) (d_lastRelays d)\<rparr>)"

section \<open>Handlers\<close>

definition daemon_Status :: "('e, 'os, 'c) Daemon \<Rightarrow> Status" where
  "daemon_Status d = d_status d"

datatype ctl_request = CtlStatus | CtlNetcheck | CtlUp "UpConfig option" | CtlExitNode "string option" | CtlInbox
  | CtlDrop "(string \<times> string \<times> 16 word) option" | CtlTransfers | CtlRotateKey | CtlDown

datatype ctl_reply = CtlError nat goerr | CtlStatusOf Status | CtlReport NetcheckReport | CtlFiles string "InboxFile list" | CtlDropId int
  | CtlTransfersOf "Transfer list" | CtlOk

record ('e, 'os, 'm) ctl_env =
  ce_lib :: "('e, 'os) dm_lib"
  ce_probe :: "'m probe_lib"
  ce_io :: state_io
  ce_register :: "RegisterNodeRequest \<Rightarrow> RegisterNodeResponse res"
  ce_hostname :: string
  ce_random :: "byte list option"
  ce_now :: int
  ce_ord :: "nat \<Rightarrow> u64 list"
  ce_fs :: fs
  ce_readdir :: "string \<Rightarrow> bool"
  ce_stat :: "string \<Rightarrow> bool"
  ce_xfers :: "int list"

definition ctl_result :: "nat \<Rightarrow> (('e, 'os, 'c) Daemon \<Rightarrow> ctl_reply) \<Rightarrow> ('e, 'os, 'c) Daemon \<times> unit res \<Rightarrow> ('e, 'os, 'c) Daemon \<times> ctl_reply" where
  "ctl_result code ok x = (case x of (d, Inl e) \<Rightarrow> (d, CtlError code e) | (d, Inr _) \<Rightarrow> (d, ok d))"

fun ctl_serve :: "('e, 'os, 'm) ctl_env \<Rightarrow> ctl_request \<Rightarrow> ('e, 'os, 'c) Daemon \<Rightarrow> ('e, 'os, 'c) Daemon \<times> ctl_reply" where
  "ctl_serve ce CtlStatus d = (d, CtlStatusOf (daemon_Status d))"
| "ctl_serve ce CtlNetcheck d = (d, CtlReport (Netcheck (ce_lib ce) (ce_probe ce) d))"
| "ctl_serve ce (CtlUp b) d = (case b of
     None \<Rightarrow> (d, CtlError 400 (ErrMsg ''bad request body''))
   | Some cfg \<Rightarrow>
      if uc_Server cfg = [] then (d, CtlError 400 (ErrMsg ''server address required''))
      else ctl_result 502 (\<lambda>d. CtlStatusOf (daemon_Status d)) (daemon_Up (ce_lib ce) (ce_io ce) (ce_register ce) (ce_hostname ce) cfg d))"
| "ctl_serve ce (CtlExitNode b) d = (case b of
     None \<Rightarrow> (d, CtlError 400 (ErrMsg ''bad request body''))
   | Some name \<Rightarrow> ctl_result 409 (\<lambda>d. CtlStatusOf (daemon_Status d)) (SetExitNode (ce_lib ce) (ce_io ce) (ce_ord ce) name d))"
| "ctl_serve ce CtlInbox d = (let dir = InboxDir d in
     if dir = [] then (d, CtlFiles [] [])
     else (case ListInbox (ce_readdir ce) (ce_fs ce) dir of
        Inl e \<Rightarrow> (d, CtlError 500 e)
      | Inr files \<Rightarrow> (d, CtlFiles dir files)))"
| "ctl_serve ce (CtlDrop b) d = (case b of
     None \<Rightarrow> (d, CtlError 400 (ErrMsg ''bad request body''))
   | Some (file, peer, port) \<Rightarrow>
      if file = [] \<or> peer = [] then (d, CtlError 400 (ErrMsg ''file and peer required''))
      else (case StartDrop (ce_stat ce file) (ce_now ce) file peer port d of
         (d1, Inl e) \<Rightarrow> (d1, CtlError 409 e)
       | (d1, Inr (i, _)) \<Rightarrow> (d1, CtlDropId i)))"
| "ctl_serve ce CtlTransfers d = (d, CtlTransfersOf (Transfers (ce_xfers ce) d))"
| "ctl_serve ce CtlRotateKey d =
     ctl_result 409 (\<lambda>_. CtlOk) (RotateNodeKey (ce_lib ce) (ce_io ce) (ce_random ce) (\<lambda>r. map_sum (\<lambda>e. e) (\<lambda>_. ()) (ce_register ce r)) (ce_hostname ce)
       (ce_now ce) (ce_ord ce) d)"
| "ctl_serve ce CtlDown d = ctl_result 409 (\<lambda>_. CtlOk) (daemon_Down (ce_lib ce) (ce_io ce) (ce_ord ce 0) d)"

section \<open>Lemmas\<close>

text \<open>A live daemon keeps its socket; a socket that is served has mode 0600, or 0660 with the group that was asked for.\<close>

lemma live_socket_kept: "s = LiveSock \<or> (\<exists>m g. s = OwnSock m g) \<Longrightarrow> fst (ServeControl w goos grp s) = s \<and> isl (snd (ServeControl w goos grp s))"
  by (auto simp: ServeControl_def claim_sock_def)

lemma served_socket_mode:
  assumes "ServeControl w goos grp s = (s', Inr ())" and "goos \<noteq> ''windows''"
  shows "if grp = [] then s' = OwnSock 384 None
    else \<exists>gid g. so_group w grp = Some gid \<and> parse_int64 gid = Some g \<and> s' = OwnSock 432 (Some g)"
  using assms by (auto simp: ServeControl_def sock_mode_def split: sum.splits option.splits if_splits)

text \<open>Only the POST routes with a readable body change the daemon.\<close>

fun ctl_reads :: "ctl_request \<Rightarrow> bool" where
  "ctl_reads CtlStatus = True" | "ctl_reads CtlNetcheck = True" | "ctl_reads CtlInbox = True" | "ctl_reads CtlTransfers = True"
| "ctl_reads (CtlUp b) = (b = None)" | "ctl_reads (CtlExitNode b) = (b = None)" | "ctl_reads (CtlDrop b) = (b = None)"
| "ctl_reads CtlRotateKey = False" | "ctl_reads CtlDown = False"

lemma reads_change_nothing: "ctl_reads r \<Longrightarrow> fst (ctl_serve ce r d) = d"
  by (cases r) (auto simp: Let_def split: sum.split)

text \<open>A node that is down refuses everything that needs a session, and says so.\<close>

lemma down_refuses:
  assumes "\<not> d_running d"
  shows "ctl_serve ce CtlDown d = (d, CtlError 409 (ErrMsg ''not up''))" and "ctl_serve ce CtlRotateKey d = (d, CtlError 409 (ErrMsg ''not up''))"
  using assms by (simp_all add: ctl_result_def daemon_Down_def RotateNodeKey_def)

lemma down_effect:
  assumes "d_running d"
  shows "snd (ctl_serve ce CtlDown d) = CtlOk \<and> \<not> d_running (fst (ctl_serve ce CtlDown d)) \<and> d_engine (fst (ctl_serve ce CtlDown d)) = None \<and>
    d_peers (fst (ctl_serve ce CtlDown d)) = Map.empty \<and> snd (ctl_serve ce CtlStatus (fst (ctl_serve ce CtlDown d))) = CtlStatusOf empty_Status"
  using assms by (simp add: ctl_result_def daemon_Down_def session_end_def save_state_def daemon_Status_def Let_def split: prod.split)

text \<open>UDP counts as blocked exactly when STUN servers are known and none of them answers with a mapped address.\<close>

lemma udp_blocked:
  "nr_UDPBlocked (Netcheck lib pl d) \<longleftrightarrow> d_lastStun d \<noteq> [] \<and> (\<forall>s\<in>set (d_lastStun d). sc_Error (probeStun pl s))"
proof -
  have "length (filter P xs) = length xs \<longleftrightarrow> (\<forall>x\<in>set xs. P x)" for P :: "StunCheck \<Rightarrow> bool" and xs
    by (metis filter_True length_filter_less nat_neq_iff)
  from this [of sc_Error "map (probeStun pl) (d_lastStun d)"] show ?thesis
    by (simp add: Netcheck_def Let_def)
qed

end
