(* ===== verification/Osdns.thy ===== *)
theory Osdns
  imports Golib
begin

text \<open>
  Pointing Linux at the mesh resolver, \<^verbatim>\<open>src/internal/meshdns/osdns_linux.go\<close>: with systemd-resolved by three
  commands, otherwise by a marked block at the top of \<^verbatim>\<open>/etc/resolv.conf\<close>. The commands are a function \<open>run\<close>
  on the system's state, the file is its text if it can be read, and a write of the file may fail, also half-way.
  The loop of \<^verbatim>\<open>stripMarkedBlock\<close> may not end, so it is a partial function.

  The lemmas show that configuring any number of times and restoring gives the file back byte by byte, and that
  the loop does not end on a file whose end marker stands before a begin marker.
\<close>

section \<open>The marked block\<close>

definition beginMarker :: string where "beginMarker = ''# BEGIN overmesh dns''"

definition endMarker :: string where "endMarker = ''# END overmesh dns''"

partial_function (option) stripMarkedBlock :: "string \<Rightarrow> string option" where
  "stripMarkedBlock s = (case str_index s beginMarker of
     None \<Rightarrow> Some s
   | Some start \<Rightarrow> (case str_index s endMarker of
       None \<Rightarrow> Some (take start s)
     | Some e0 \<Rightarrow>
        (let e1 = e0 + length endMarker;
             e2 = (if e1 < length s \<and> s ! e1 = CHR 0x0A then e1 + 1 else e1)
         in stripMarkedBlock (take start s @ drop e2 s))))"

declare stripMarkedBlock.simps [code]

definition existing_search :: "string \<Rightarrow> string list" where
  "existing_search content = concat (map (\<lambda>line. let f = str_fields line in
     if 1 < length f \<and> (f ! 0 = ''search'' \<or> f ! 0 = ''domain'') then tl f else []) (split_on CHR 0x0A content))"

definition search_line :: "string \<Rightarrow> string list \<Rightarrow> string" where
  "search_line domain existing = domain @ concat (map (\<lambda>e. if e \<noteq> domain then '' '' @ e else []) existing)"

definition resolv_block :: "Addr \<Rightarrow> string \<Rightarrow> string" where
  "resolv_block resolver search =
     beginMarker @ nl @ ''nameserver '' @ addr_text resolver @ nl @ ''search '' @ search @ nl @ endMarker @ nl"

text \<open>\<^verbatim>\<open>os.WriteFile\<close>: it writes everything, cannot open the file, or stops after some bytes.\<close>

datatype write_outcome = WroteAll | WriteRefused | WroteSome nat

fun write_file :: "write_outcome \<Rightarrow> string \<Rightarrow> string option \<Rightarrow> string option \<times> unit res" where
  "write_file WroteAll data f = (Some data, Inr ())"
| "write_file WriteRefused data f = (f, Inl ErrDriver)"
| "write_file (WroteSome n) data f = (Some (take n data), Inl ErrDriver)"

definition configureResolvConf :: "write_outcome \<Rightarrow> string \<Rightarrow> Addr \<Rightarrow> string option \<Rightarrow> (string option \<times> unit res) option" where
  "configureResolvConf w domain resolver file = (case file of
     None \<Rightarrow> Some (file, Inl ErrDriver)
   | Some orig \<Rightarrow> (case stripMarkedBlock orig of
       None \<Rightarrow> None
     | Some content \<Rightarrow>
        Some (write_file w (resolv_block resolver (search_line domain (existing_search content)) @ content) file)))"

definition restoreResolvConf :: "write_outcome \<Rightarrow> string option \<Rightarrow> string option option" where
  "restoreResolvConf w file = (case file of
     None \<Rightarrow> Some file
   | Some orig \<Rightarrow> (case stripMarkedBlock orig of
       None \<Rightarrow> None
     | Some stripped \<Rightarrow> Some (if stripped \<noteq> orig then fst (write_file w stripped file) else file)))"

section \<open>The system\<close>

record 'r os_dns =
  rd_conf :: "string option"
  rd_sys :: 'r

definition haveResolved :: "bool \<Rightarrow> (string list \<Rightarrow> 'r \<Rightarrow> 'r \<times> bool) \<Rightarrow> 'r os_dns \<Rightarrow> 'r os_dns \<times> bool" where
  "haveResolved lookPath run os = (if \<not> lookPath then (os, False)
     else (case run [''resolvectl'', ''status''] (rd_sys os) of (r, ok) \<Rightarrow> (os\<lparr>rd_sys := r\<rparr>, ok)))"

fun run_steps :: "(string list \<Rightarrow> 'r \<Rightarrow> 'r \<times> bool) \<Rightarrow> string list list \<Rightarrow> 'r \<Rightarrow> 'r \<times> unit res" where
  "run_steps run [] r = (r, Inr ())"
| "run_steps run (cmd # cmds) r = (case run cmd r of
     (r1, False) \<Rightarrow> (r1, Inl (ErrMsg ''%s: %v: %s''))
   | (r1, True) \<Rightarrow> run_steps run cmds r1)"

definition ConfigureOS :: "bool \<Rightarrow> (string list \<Rightarrow> 'r \<Rightarrow> 'r \<times> bool) \<Rightarrow> write_outcome \<Rightarrow> string \<Rightarrow> string \<Rightarrow> Addr \<Rightarrow>
    'r os_dns \<Rightarrow> ('r os_dns \<times> unit res) option" where
  "ConfigureOS lookPath run w iface domain resolver os = (case haveResolved lookPath run os of
     (os1, True) \<Rightarrow> (case run_steps run [[''resolvectl'', ''dns'', iface, addr_text resolver], [''resolvectl'', ''domain'', iface, domain],
           [''resolvectl'', ''default-route'', iface, ''false'']] (rd_sys os1) of
         (r, res) \<Rightarrow> Some (os1\<lparr>rd_sys := r\<rparr>, res))
   | (os1, False) \<Rightarrow> map_option (\<lambda>(f, res). (os1\<lparr>rd_conf := f\<rparr>, res)) (configureResolvConf w domain resolver (rd_conf os1)))"

definition DeconfigureOS :: "bool \<Rightarrow> (string list \<Rightarrow> 'r \<Rightarrow> 'r \<times> bool) \<Rightarrow> write_outcome \<Rightarrow> string \<Rightarrow> 'r os_dns \<Rightarrow> 'r os_dns option" where
  "DeconfigureOS lookPath run w iface os = (case haveResolved lookPath run os of
     (os1, True) \<Rightarrow> Some (os1\<lparr>rd_sys := fst (run [''resolvectl'', ''revert'', iface] (rd_sys os1))\<rparr>)
   | (os1, False) \<Rightarrow> map_option (\<lambda>f. os1\<lparr>rd_conf := f\<rparr>) (restoreResolvConf w (rd_conf os1)))"

section \<open>The markers\<close>

lemma markers [simp]:
  "CHR 0x0A \<notin> set beginMarker" "CHR 0x0A \<notin> set endMarker" "beginMarker \<noteq> []" "endMarker \<noteq> []"
  "hd beginMarker = CHR ''#''" "hd endMarker = CHR ''#''"
  by (simp_all add: beginMarker_def endMarker_def)

section \<open>Stripping the block\<close>

text \<open>Text without a number sign holds no marker.\<close>

definition no_hash :: "string \<Rightarrow> bool" where
  "no_hash s \<longleftrightarrow> CHR ''#'' \<notin> set s"

lemma no_hash_index: "no_hash s \<Longrightarrow> str_index s endMarker = None"
  by (simp add: no_hash_def str_index_absent)

lemma block_end:
  assumes "no_hash (addr_text r)" and "no_hash search"
  shows "str_index (resolv_block r search @ content) endMarker =
    Some (length beginMarker + length (addr_text r) + length search + 21)"
proof -
  have a: "str_index (beginMarker @ CHR 0x0A # t) endMarker = map_option ((+) (length beginMarker + 1)) (str_index t endMarker)" for t
  proof -
    have "str_index beginMarker endMarker = None"
      by (simp add: beginMarker_def endMarker_def has_prefix_def)
    then show ?thesis
      by (simp add: str_index_line)
  qed
  have l: "str_index (s @ CHR 0x0A # t) endMarker = map_option ((+) (length s + 1)) (str_index t endMarker)" if "no_hash s" for s t
    using that by (simp add: str_index_line no_hash_index)
  have "no_hash (''nameserver '' @ addr_text r)" "no_hash (''search '' @ search)"
    using assms by (simp_all add: no_hash_def)
  note l [OF this(1)] l [OF this(2)]
  then show ?thesis
    using a str_index_prefix [of endMarker] by (simp add: resolv_block_def nl_def)
qed

lemma strip_block:
  assumes "no_hash (addr_text r)" and "no_hash search"
  shows "stripMarkedBlock (resolv_block r search @ content) = stripMarkedBlock content"
proof -
  define s where "s = resolv_block r search @ content"
  define n where "n = length beginMarker + length (addr_text r) + length search + 21"
  define h where "h = beginMarker @ nl @ ''nameserver '' @ addr_text r @ nl @ ''search '' @ search @ nl"
  have h: "length h = n" "resolv_block r search = h @ endMarker @ [CHR 0x0A]"
    by (simp_all add: resolv_block_def n_def nl_def h_def)
  then have n: "length (resolv_block r search) = n + length endMarker + 1"
    by simp
  have "s ! (n + length endMarker) = CHR 0x0A"
    by (simp add: s_def h nth_append)
  moreover have "drop (n + length endMarker + 1) s = content"
    using n by (simp add: s_def)
  moreover have "str_index s beginMarker = Some 0"
    using str_index_prefix [of beginMarker] by (simp add: s_def resolv_block_def)
  moreover have "str_index s endMarker = Some n"
    using block_end [OF assms] by (simp add: s_def n_def)
  moreover have "n + length endMarker < length s"
    using n by (simp add: s_def)
  ultimately have "stripMarkedBlock s = stripMarkedBlock content"
    by (subst stripMarkedBlock.simps) (simp add: Let_def)
  then show ?thesis
    by (simp add: s_def)
qed

lemma strip_free: "str_index s beginMarker = None \<Longrightarrow> stripMarkedBlock s = Some s"
  by (subst stripMarkedBlock.simps) simp

text \<open>An end marker before a begin marker keeps the loop going: the text between them is repeated.\<close>

lemma strip_diverges:
  assumes "str_index t beginMarker \<noteq> None"
  shows "stripMarkedBlock (endMarker @ CHR 0x0A # t) = None"
proof -
  define reversed where "reversed s \<longleftrightarrow> (\<exists>t. str_index t beginMarker \<noteq> None \<and> s = endMarker @ CHR 0x0A # t)" for s
  have "\<not> reversed s" if "stripMarkedBlock s = Some r" for s r
  proof (rule stripMarkedBlock.raw_induct [where P = "\<lambda>s r. \<not> reversed s", OF _ that])
    fix f s r
    assume 1: "\<And>s r. f s = Some r \<Longrightarrow> \<not> reversed s"
      "(case str_index s beginMarker of None \<Rightarrow> Some s | Some start \<Rightarrow> (case str_index s endMarker of None \<Rightarrow> Some (take start s)
         | Some e0 \<Rightarrow> (let e1 = e0 + length endMarker; e2 = (if e1 < length s \<and> s ! e1 = CHR 0x0A then e1 + 1 else e1)
             in f (take start s @ drop e2 s)))) = Some r"
    show "\<not> reversed s"
    proof
      assume "reversed s"
      then obtain t i where t: "str_index t beginMarker = Some i" and s: "s = endMarker @ CHR 0x0A # t"
        by (auto simp: reversed_def)
      have "str_index endMarker beginMarker = None"
        by (simp add: beginMarker_def endMarker_def has_prefix_def)
      then have b: "str_index s beginMarker = Some (length endMarker + 1 + i)"
        by (simp add: s str_index_line t)
      have e: "str_index s endMarker = Some 0"
        using str_index_prefix [of endMarker] by (simp add: s)
      have "take (length endMarker + 1 + i) s @ drop (length endMarker + 1) s = endMarker @ CHR 0x0A # take i t @ t"
        by (simp add: s)
      then have "f (endMarker @ CHR 0x0A # take i t @ t) = Some r"
        using 1(2) b e by (simp add: Let_def s nth_append)
      moreover have "str_index (take i t @ t) beginMarker \<noteq> None"
        using t by (intro str_index_suffix) simp
      then have "reversed (endMarker @ CHR 0x0A # take i t @ t)"
        unfolding reversed_def by blast
      ultimately show False
        using 1(1) by blast
    qed
  qed
  moreover have "reversed (endMarker @ CHR 0x0A # t)"
    using assms unfolding reversed_def by blast
  ultimately show ?thesis
    by (cases "stripMarkedBlock (endMarker @ CHR 0x0A # t)") blast+
qed

section \<open>Round trip\<close>

text \<open>The words of a line have no space and no line break in them.\<close>

lemma split_on_chars: "f \<in> set (split_on c s) \<Longrightarrow> x \<in> set f \<Longrightarrow> x \<in> set s \<and> x \<noteq> c"
proof (induction s arbitrary: f)
  case (Cons d s)
  obtain g gs where g: "split_on c s = g # gs"
    by (cases "split_on c s") auto
  show ?case
  proof (cases "d = c")
    case False
    with Cons.prems(1) g have "f = d # g \<or> f \<in> set gs" by auto
    then show ?thesis
      using Cons.IH [of g] Cons.IH [of f] Cons.prems(2) False g by auto
  qed (use Cons in auto)
qed simp

lemma str_fields_chars: "f \<in> set (str_fields l) \<Longrightarrow> CHR 0x0A \<notin> set f"
proof
  assume "f \<in> set (str_fields l)" and "CHR 0x0A \<in> set f"
  with split_on_chars [of f "CHR '' ''" "map (\<lambda>c. if is_space c then CHR '' '' else c) l" "CHR 0x0A"]
  have "CHR 0x0A \<in> (\<lambda>c. if is_space c then CHR '' '' else c) ` set l"
    by (simp add: str_fields_def)
  moreover have "is_space (CHR 0x0A)" by code_simp
  ultimately show False
    by (auto split: if_splits)
qed

lemma existing_search_line: "e \<in> set (existing_search s) \<Longrightarrow> CHR 0x0A \<notin> set e"
  by (auto simp: existing_search_def Let_def dest: str_fields_chars list.set_sel(2) [rotated] split: if_splits)

text \<open>The settings of one run: the mesh domain, a name without line breaks and number signs, and the resolver.\<close>

definition domain_ok :: "string \<Rightarrow> bool" where
  "domain_ok d \<longleftrightarrow> no_hash d \<and> CHR 0x0A \<notin> set d"

lemma search_line_set: "x \<in> set (search_line d es) \<Longrightarrow> x \<in> set d \<or> x = CHR '' '' \<or> (\<exists>e\<in>set es. x \<in> set e)"
  by (auto simp: search_line_def split: if_splits)

lemma search_line_plain:
  assumes "domain_ok d" and "list_all no_hash (existing_search s)"
  shows "no_hash (search_line d (existing_search s))" and "CHR 0x0A \<notin> set (search_line d (existing_search s))"
  using assms search_line_set [of _ d "existing_search s"] existing_search_line [of _ s]
  by (fastforce simp: domain_ok_def no_hash_def list_all_iff)+

lemma v4_text_plain: "no_hash (addr_text (V4 x))" "CHR 0x0A \<notin> set (addr_text (V4 x))"
  using set_ipv4_text [of "CHR ''#''" x] set_ipv4_text [of "CHR 0x0A" x] by (auto simp: no_hash_def is_hex_digit_def)

primrec configure_runs :: "(string \<times> 32 word) list \<Rightarrow> string \<Rightarrow> string option" where
  "configure_runs [] s = Some s"
| "configure_runs (c # cs) s = (case configureResolvConf WroteAll (fst c) (V4 (snd c)) (Some s) of
     Some (Some s', Inr _) \<Rightarrow> configure_runs cs s' | _ \<Rightarrow> None)"

abbreviation configured :: "string \<times> 32 word \<Rightarrow> string \<Rightarrow> string" where
  "configured c orig \<equiv> resolv_block (V4 (snd c)) (search_line (fst c) (existing_search orig)) @ orig"

lemma configure_once:
  "stripMarkedBlock s = Some orig \<Longrightarrow> configureResolvConf WroteAll (fst c) (V4 (snd c)) (Some s) = Some (Some (configured c orig), Inr ())"
  by (simp add: configureResolvConf_def)

lemma strip_configured:
  assumes "str_index orig beginMarker = None" and "list_all no_hash (existing_search orig)" and "domain_ok (fst c)"
  shows "stripMarkedBlock (configured c orig) = Some orig"
  using strip_block [OF v4_text_plain(1) search_line_plain(1) [OF assms(3,2)]] strip_free [OF assms(1)] by simp

lemma configure_runs_result:
  assumes "str_index orig beginMarker = None" and "list_all no_hash (existing_search orig)" and "list_all (\<lambda>c. domain_ok (fst c)) cs"
    and "stripMarkedBlock s = Some orig"
  shows "configure_runs cs s = Some (if cs = [] then s else configured (last cs) orig)"
  using assms(3,4)
proof (induction cs arbitrary: s)
  case (Cons c cs)
  from strip_configured [OF assms(1,2)] Cons.prems(1)
  have "stripMarkedBlock (configured c orig) = Some orig" by simp
  with Cons.IH [OF _ this] Cons.prems show ?case
    by (simp add: configure_once)
qed simp

lemma configured_lines:
  assumes "domain_ok (fst c)" and "list_all no_hash (existing_search orig)"
  shows "split_on CHR 0x0A (configured c orig) = beginMarker # (''nameserver '' @ addr_text (V4 (snd c))) #
    (''search '' @ search_line (fst c) (existing_search orig)) # endMarker # split_on CHR 0x0A orig"
proof -
  define n q where "n = ''nameserver '' @ addr_text (V4 (snd c))" and "q = ''search '' @ search_line (fst c) (existing_search orig)"
  have "CHR 0x0A \<notin> set n" "CHR 0x0A \<notin> set q"
    using search_line_plain [OF assms] v4_text_plain by (simp_all add: n_def q_def)
  moreover have "configured c orig = beginMarker @ CHR 0x0A # n @ CHR 0x0A # q @ CHR 0x0A # endMarker @ CHR 0x0A # orig"
    by (simp add: resolv_block_def nl_def n_def q_def)
  ultimately show ?thesis
    by (simp only: split_on_sep markers n_def [symmetric] q_def [symmetric] not_False_eq_True)
qed

text \<open>
  Claim C20. The resolver configuration of a host without systemd-resolved is put back exactly. However often the
  mesh was configured in \<^verbatim>\<open>/etc/resolv.conf\<close> without being removed in between, with whatever domains and
  resolver addresses, the file then starts with one block, that of the last run, with the resolver and a search line
  of the mesh domain and the domains that the original file searched, followed by the original file; and restoring gives
  the original file byte by byte. The writes are assumed to succeed, and the original file to have no begin marker
  and no number sign among the words of its search and domain lines.
\<close>

theorem resolv_conf_restored:
  assumes "str_index orig beginMarker = None" and "list_all no_hash (existing_search orig)" and "list_all (\<lambda>c. domain_ok (fst c)) cs"
  shows "\<exists>s. configure_runs cs orig = Some s \<and> restoreResolvConf WroteAll (Some s) = Some (Some orig) \<and>
    split_on CHR 0x0A s = (if cs = [] then [] else [beginMarker, ''nameserver '' @ addr_text (V4 (snd (last cs))),
      ''search '' @ search_line (fst (last cs)) (existing_search orig), endMarker]) @ split_on CHR 0x0A orig"
proof (cases "cs = []")
  case True
  with assms(1) show ?thesis
    by (simp add: restoreResolvConf_def strip_free)
next
  case False
  then have d: "domain_ok (fst (last cs))"
    using assms(3) by (simp add: list_all_iff)
  have "restoreResolvConf WroteAll (Some (configured (last cs) orig)) = Some (Some orig)"
    using strip_configured [OF assms(1,2) d] by (simp add: restoreResolvConf_def)
  moreover have "configure_runs cs orig = Some (configured (last cs) orig)"
    using configure_runs_result [OF assms strip_free [OF assms(1)]] False by simp
  ultimately show ?thesis
    using configured_lines [OF d assms(2)] False by simp
qed

definition sample_conf :: string where
  "sample_conf = ''nameserver 192.168.1.1'' @ nl @ ''search home.lan'' @ nl"

theorem resolv_conf_restored_witness:
  "\<exists>s. configure_runs [(''old.mesh'', 0x64600003), (''default.mesh'', 0x64600007)] sample_conf = Some s \<and>
    restoreResolvConf WroteAll (Some s) = Some (Some sample_conf) \<and>
    split_on CHR 0x0A s = [beginMarker, ''nameserver 100.96.0.7'', ''search default.mesh home.lan'', endMarker,
      ''nameserver 192.168.1.1'', ''search home.lan'', []]"
proof -
  have h: "str_index sample_conf beginMarker = None" "list_all no_hash (existing_search sample_conf)"
    "list_all (\<lambda>c. domain_ok (fst c)) [(''old.mesh'', 0x64600003 :: 32 word), (''default.mesh'', 0x64600007)]"
    by code_simp+
  have "addr_text (V4 0x64600007) = ''100.96.0.7''" "search_line ''default.mesh'' (existing_search sample_conf) = ''default.mesh home.lan''"
    "split_on CHR 0x0A sample_conf = [''nameserver 192.168.1.1'', ''search home.lan'', []]"
    by code_simp+
  with resolv_conf_restored [OF h] show ?thesis
    by simp
qed

end
