(* ===== verification/Osdns_Darwin.thy ===== *)
theory Osdns_Darwin
  imports Osdns
begin

text \<open>
  Pointing macOS at the mesh resolver, \<^verbatim>\<open>src/internal/meshdns/osdns_darwin.go\<close>: a file under \<^verbatim>\<open>/etc/resolver\<close> for the domain
  of the mesh, and the domain at the end of the search domains of every network service, with the originals in a file for the
  way back. The command networksetup is a function \<open>ns\<close> on the system's state that gives the output and, if it fails, the text of
  the error. The file with the originals holds JSON, so it is what was encoded, or text that does not decode.

  The lemmas show that what is read from networksetup is what was set, that configuring and deconfiguring gives everything back, and
  that a second configuration may forget the originals of the first.
\<close>

section \<open>The system\<close>

datatype restore_file = NoFile | Garbled | Saved "(string \<times> string list) list"

record 'r mac_dns =
  md_resolver :: "string \<rightharpoonup> string"
  md_restore :: restore_file
  md_sys :: 'r

type_synonym 'r networksetup = "string list \<Rightarrow> 'r \<Rightarrow> 'r \<times> string \<times> string option"

text \<open>Outcomes of file operations: of the directory and the two writes, of listing the directory, and of reading and removing files.\<close>

record mac_io =
  mi_mkdir :: bool
  mi_conf :: write_outcome
  mi_saved :: write_outcome
  mi_readdir :: bool
  mi_unreadable :: "string \<Rightarrow> bool"
  mi_stuck :: "string \<Rightarrow> bool"
  mi_restore_stuck :: bool

section \<open>Search domains of the network services\<close>

definition listNetworkServices :: "'r networksetup \<Rightarrow> 'r \<Rightarrow> 'r \<times> string list res" where
  "listNetworkServices ns r = (case ns [''networksetup'', ''-listallnetworkservices''] r of
     (r1, out, Some e) \<Rightarrow> (r1, Inl (ErrMsg e))
   | (r1, out, None) \<Rightarrow> (r1, Inr (filter (\<lambda>line. line \<noteq> [] \<and> \<not> str_contains line ''denotes that'' \<and> \<not> has_prefix line ''*'')
        (map trim_space (split_on CHR 0x0A out)))))"

definition no_domains :: string where "no_domains = ''There aren'' @ [CHR 0x27] @ ''t any''"

definition getSearchDomains :: "'r networksetup \<Rightarrow> string \<Rightarrow> 'r \<Rightarrow> 'r \<times> string list res" where
  "getSearchDomains ns svc r = (case ns [''networksetup'', ''-getsearchdomains'', svc] r of
     (r1, out, Some e) \<Rightarrow> (r1, Inl (ErrMsg e))
   | (r1, out, None) \<Rightarrow> (let s = trim_space out in
       (r1, Inr (if s = [] \<or> str_contains s no_domains then [] else str_fields s))))"

definition setSearchDomains :: "'r networksetup \<Rightarrow> string \<Rightarrow> string list \<Rightarrow> 'r \<Rightarrow> 'r \<times> unit res" where
  "setSearchDomains ns svc domains r = (case ns ([''networksetup'', ''-setsearchdomains'', svc] @ (if domains = [] then [''Empty''] else domains)) r of
     (r1, out, Some e) \<Rightarrow> (r1, Inl (ErrMsg (e @ '': '' @ out)))
   | (r1, out, None) \<Rightarrow> (r1, Inr ()))"

fun search_everywhere :: "'r networksetup \<Rightarrow> string \<Rightarrow> string list \<Rightarrow> (string \<times> string list) list \<Rightarrow> 'r \<Rightarrow> (string \<times> string list) list \<times> 'r" where
  "search_everywhere ns domain [] saved r = (saved, r)"
| "search_everywhere ns domain (svc # svcs) saved r = (case getSearchDomains ns svc r of
     (r1, Inl _) \<Rightarrow> search_everywhere ns domain svcs saved r1
   | (r1, Inr cur) \<Rightarrow>
       (if domain \<in> set cur then search_everywhere ns domain svcs saved r1
        else search_everywhere ns domain svcs (filter (\<lambda>s. fst s \<noteq> svc) saved @ [(svc, cur)])
          (fst (setSearchDomains ns svc (cur @ [domain]) r1))))"

section \<open>Configuring and deconfiguring\<close>

definition resolver_conf :: "Addr \<Rightarrow> string" where
  "resolver_conf resolver = ''nameserver '' @ addr_text resolver @ nl @ ''search_order 1'' @ nl"

fun write_saved :: "write_outcome \<Rightarrow> (string \<times> string list) list \<Rightarrow> restore_file \<Rightarrow> restore_file" where
  "write_saved WroteAll saved f = Saved saved"
| "write_saved WriteRefused saved f = f"
| "write_saved (WroteSome n) saved f = Garbled"

definition mac_ConfigureOS :: "'r networksetup \<Rightarrow> mac_io \<Rightarrow> string \<Rightarrow> Addr \<Rightarrow> 'r mac_dns \<Rightarrow> 'r mac_dns \<times> unit res" where
  "mac_ConfigureOS ns io domain resolver os =
     (if \<not> mi_mkdir io then (os, Inl ErrDriver)
      else (case write_file (mi_conf io) (resolver_conf resolver) (md_resolver os domain) of
        (f, Inl e) \<Rightarrow> (os\<lparr>md_resolver := (md_resolver os)(domain := f)\<rparr>, Inl e)
      | (f, Inr _) \<Rightarrow>
         (let os1 = os\<lparr>md_resolver := (md_resolver os)(domain := f)\<rparr> in
          case listNetworkServices ns (md_sys os1) of
            (r1, Inl _) \<Rightarrow> (os1\<lparr>md_sys := r1\<rparr>, Inr ())
          | (r1, Inr services) \<Rightarrow> (case search_everywhere ns domain services [] r1 of
              (saved, r2) \<Rightarrow>
                (os1\<lparr>md_sys := r2, md_restore := (if saved \<noteq> [] then write_saved (mi_saved io) saved (md_restore os1) else md_restore os1)\<rparr>,
                 Inr ())))))"

definition our_conf :: "string \<Rightarrow> bool" where
  "our_conf data \<longleftrightarrow> str_contains data ''search_order 1'' \<and> str_contains data ''nameserver 100.''"

definition remove_confs :: "mac_io \<Rightarrow> (string \<rightharpoonup> string) \<Rightarrow> (string \<rightharpoonup> string)" where
  "remove_confs io files = (if \<not> mi_readdir io then files
     else (\<lambda>n. case files n of None \<Rightarrow> None
       | Some data \<Rightarrow> if \<not> mi_unreadable io n \<and> our_conf data \<and> \<not> mi_stuck io n then None else Some data))"

definition mac_DeconfigureOS :: "'r networksetup \<Rightarrow> mac_io \<Rightarrow> 'r mac_dns \<Rightarrow> 'r mac_dns" where
  "mac_DeconfigureOS ns io os =
     (let os1 = os\<lparr>md_resolver := remove_confs io (md_resolver os)\<rparr> in
      case md_restore os1 of
        NoFile \<Rightarrow> os1
      | Garbled \<Rightarrow> os1
      | Saved saved \<Rightarrow> os1\<lparr>md_sys := fold (\<lambda>(svc, domains) r. fst (setSearchDomains ns svc domains r)) saved (md_sys os1),
          md_restore := (if mi_restore_stuck io then md_restore os1 else NoFile)\<rparr>)"

section \<open>Reading what networksetup prints\<close>

definition search_word :: "string \<Rightarrow> bool" where
  "search_word d \<longleftrightarrow> d \<noteq> [] \<and> list_all (\<lambda>c. \<not> is_space c) d"

definition domain_lines :: "string list \<Rightarrow> string" where
  "domain_lines ds = concat (map (\<lambda>d. d @ nl) ds)"

lemma trim_head:
  assumes "a \<noteq> []" and "\<not> p (hd a)" and "\<not> p (last a)"
  shows "\<exists>r'. trim_func p (a @ r) = a @ r' \<and> (list_all p r \<longrightarrow> r' = [])"
proof -
  have "dropWhile p (a @ r) = a @ r" using assms(1,2) by (cases a) simp_all
  moreover have a: "dropWhile p (rev a) = rev a" using assms(1,3) by (cases "rev a") (auto simp: last_rev hd_rev)
  ultimately have "trim_func p (a @ r) = a @ rev (dropWhile p (rev r))"
  proof (cases "list_all p r")
    case True
    then have "dropWhile p (rev r) = []" by (simp add: list_all_iff)
    moreover have "dropWhile p (rev r @ rev a) = dropWhile p (rev a)"
      using True by (intro dropWhile_append2) (simp add: list_all_iff)
    ultimately show ?thesis using \<open>dropWhile p (a @ r) = a @ r\<close> a by (simp add: trim_func_def)
  next
    case False
    then obtain x where "x \<in> set (rev r)" "\<not> p x" by (auto simp: list_all_iff)
    then have "dropWhile p (rev r @ rev a) = dropWhile p (rev r) @ rev a" by (rule dropWhile_append1)
    with \<open>dropWhile p (a @ r) = a @ r\<close> show ?thesis by (simp add: trim_func_def)
  qed
  moreover have "rev (dropWhile p (rev r)) = []" if "list_all p r" using that by (simp add: list_all_iff)
  ultimately show ?thesis by blast
qed

lemma fields_lines: "list_all search_word (ds @ [d]) \<Longrightarrow> str_fields (domain_lines ds @ d) = ds @ [d]"
proof (induction ds)
  case Nil
  then have "map (\<lambda>c. if is_space c then CHR '' '' else c) d = d" "CHR '' '' \<notin> set d"
    by (auto simp: search_word_def list_all_iff is_space_def intro: map_idI)
  with Nil show ?case by (simp add: str_fields_def domain_lines_def search_word_def)
next
  case (Cons e ds)
  have e: "map (\<lambda>c. if is_space c then CHR '' '' else c) e = e" "CHR '' '' \<notin> set e" "e \<noteq> []"
    using Cons.prems by (auto simp: search_word_def list_all_iff is_space_def intro: map_idI)
  have "is_space CHR 0x0A" by (simp add: is_space_def)
  with e have "str_fields (domain_lines (e # ds) @ d) = e # str_fields (domain_lines ds @ d)"
    by (simp add: str_fields_def domain_lines_def nl_def)
  with Cons show ?case by simp
qed

lemma index_chars: "str_index s p = Some i \<Longrightarrow> set p \<subseteq> set s"
proof (induction s arbitrary: i)
  case (Cons c s)
  show ?case
  proof (cases "has_prefix (c # s) p")
    case True
    then show ?thesis unfolding has_prefix_def by (metis set_take_subset)
  next
    case False
    with Cons show ?thesis by fastforce
  qed
qed (simp split: if_splits)

definition domains_text :: "string \<Rightarrow> string list \<Rightarrow> string" where
  "domains_text svc ds = (if ds = [] then no_domains @ '' Search Domains set on '' @ svc @ ''.'' @ nl else domain_lines ds)"

lemma read_domains:
  assumes "list_all search_word ds" and "s = trim_space (domains_text svc ds)"
  shows "(if s = [] \<or> str_contains s no_domains then [] else str_fields s) = ds"
proof (cases ds rule: rev_cases)
  case Nil
  have "no_domains \<noteq> []" "\<not> is_space (hd no_domains)" "\<not> is_space (last no_domains)" by (simp_all add: no_domains_def is_space_def)
  from trim_head [OF this, of "'' Search Domains set on '' @ svc @ ''.'' @ nl"] obtain r' where
    "s = no_domains @ r'" using Nil assms(2) by (auto simp: trim_space_def domains_text_def)
  moreover have "str_contains (no_domains @ r') no_domains"
    using str_contains_mid [of no_domains "[]" r'] by (simp add: no_domains_def)
  ultimately show ?thesis using Nil by simp
next
  case (snoc ds' d)
  let ?t = "domain_lines ds' @ d"
  have w: "search_word w" if "w \<in> set ds" for w using assms(1) that by (simp add: list_all_iff)
  have d: "d \<noteq> []" "\<not> is_space (last d)" using w [of d] snoc by (auto simp: search_word_def list_all_iff)
  have "\<not> is_space (hd ?t)"
    using w [of "hd ds'"] w [of d] snoc by (cases ds') (auto simp: search_word_def list_all_iff domain_lines_def hd_append)
  moreover have "list_all is_space nl" by (simp add: nl_def is_space_def)
  moreover have "domains_text svc ds = ?t @ nl" using snoc by (simp add: domains_text_def domain_lines_def)
  ultimately have s: "s = ?t"
    using trim_head [of ?t is_space nl] d assms(2) by (auto simp: trim_space_def)
  have "is_space CHR '' ''" by (simp add: is_space_def)
  then have "CHR '' '' \<notin> set w" if "w \<in> set ds" for w using w [OF that] by (auto simp: search_word_def list_all_iff)
  then have "CHR '' '' \<notin> set s" using snoc by (auto simp: s domain_lines_def nl_def)
  moreover have "CHR '' '' \<in> set no_domains" by (simp add: no_domains_def)
  ultimately have "\<not> str_contains s no_domains"
    using index_chars [of s no_domains] unfolding str_contains_def by (cases "str_index s no_domains") blast+
  with s d fields_lines [of ds' d] assms(1) snoc show ?thesis by simp
qed

section \<open>What networksetup does\<close>

text \<open>\<open>sd\<close> are the search domains of the services \<open>known\<close>: they are printed one a line, or a sentence says that there are none; they are replaced as a
  whole; and listing the services, all of them known, changes nothing.\<close>

definition networksetup_ok :: "'r networksetup \<Rightarrow> ('r \<Rightarrow> string \<Rightarrow> string list) \<Rightarrow> string set \<Rightarrow> bool" where
  "networksetup_ok ns sd known \<longleftrightarrow>
     (\<forall>svc r. svc \<in> known \<longrightarrow> (\<exists>r'. ns [''networksetup'', ''-getsearchdomains'', svc] r = (r', domains_text svc (sd r svc), None) \<and> sd r' = sd r)) \<and>
     (\<forall>svc ds r r' res. svc \<in> known \<longrightarrow> ds \<noteq> [] \<longrightarrow> ns ([''networksetup'', ''-setsearchdomains'', svc] @ ds) r = (r', res) \<longrightarrow>
        sd r' = (sd r)(svc := (if ds = [''Empty''] then [] else ds))) \<and>
     (\<forall>r r' res. listNetworkServices ns r = (r', res) \<longrightarrow> sd r' = sd r \<and> (\<forall>svcs. res = Inr svcs \<longrightarrow> set svcs \<subseteq> known))"

lemma networksetup_okD:
  assumes "networksetup_ok ns sd known"
  shows "svc \<in> known \<Longrightarrow> \<exists>r'. ns [''networksetup'', ''-getsearchdomains'', svc] r = (r', domains_text svc (sd r svc), None) \<and> sd r' = sd r"
    and "svc \<in> known \<Longrightarrow> ds \<noteq> [] \<Longrightarrow> ns ([''networksetup'', ''-setsearchdomains'', svc] @ ds) r = (r', res) \<Longrightarrow>
      sd r' = (sd r)(svc := (if ds = [''Empty''] then [] else ds))"
    and "listNetworkServices ns r = (r', res') \<Longrightarrow> sd r' = sd r \<and> (\<forall>svcs. res' = Inr svcs \<longrightarrow> set svcs \<subseteq> known)"
  using assms unfolding networksetup_ok_def by blast+

definition search_ok :: "string set \<Rightarrow> (string \<Rightarrow> string list) \<Rightarrow> bool" where
  "search_ok known f \<longleftrightarrow> (\<forall>svc \<in> known. list_all search_word (f svc) \<and> f svc \<noteq> [''Empty''])"

lemma get_search:
  assumes "networksetup_ok ns sd known" and "search_ok known (sd r)" and "svc \<in> known"
  shows "\<exists>r'. getSearchDomains ns svc r = (r', Inr (sd r svc)) \<and> sd r' = sd r"
proof -
  obtain r' where "ns [''networksetup'', ''-getsearchdomains'', svc] r = (r', domains_text svc (sd r svc), None)" "sd r' = sd r"
    using networksetup_okD(1) [OF assms(1,3)] by blast
  with read_domains [OF _ refl, of "sd r svc" svc] assms(2,3) show ?thesis
    by (simp add: getSearchDomains_def search_ok_def Let_def)
qed

lemma set_search:
  assumes "networksetup_ok ns sd known" and "svc \<in> known" and "ds \<noteq> [''Empty'']"
  shows "sd (fst (setSearchDomains ns svc ds r)) = (sd r)(svc := ds)"
proof -
  let ?ds = "if ds = [] then [''Empty''] else ds"
  obtain r' res where n: "ns ([''networksetup'', ''-setsearchdomains'', svc] @ ?ds) r = (r', res)" by (metis surj_pair)
  have "sd r' = (sd r)(svc := (if ?ds = [''Empty''] then [] else ?ds))"
    by (rule networksetup_okD(2) [OF assms(1,2) _ n]) simp
  moreover have "fst (setSearchDomains ns svc ds r) = r'"
    using n by (auto simp: setSearchDomains_def split: prod.splits option.splits)
  ultimately show ?thesis using assms(3) by (auto split: if_splits)
qed

lemma search_added:
  assumes "networksetup_ok ns sd known" and "search_word domain" and "domain \<noteq> ''Empty''" and "search_ok known (sd r)" and "set svcs \<subseteq> known"
    and "\<forall>s \<in> fst ` set saved. domain \<in> set (sd r s)" and "distinct (map fst saved)" and "search_everywhere ns domain svcs saved r = (saved', r')"
  shows "sd r' = (\<lambda>s. if s \<in> set svcs \<and> domain \<notin> set (sd r s) then sd r s @ [domain] else sd r s) \<and> distinct (map fst saved') \<and>
    set saved' = set saved \<union> {(s, sd r s) |s. s \<in> set svcs \<and> domain \<notin> set (sd r s)}"
  using assms(4-)
proof (induction svcs arbitrary: saved r)
  case Nil
  then show ?case by auto
next
  case (Cons svc svcs)
  obtain r1 where g: "getSearchDomains ns svc r = (r1, Inr (sd r svc))" "sd r1 = sd r"
    using get_search [OF assms(1) Cons.prems(1), of svc] Cons.prems(2) by auto
  show ?case
  proof (cases "domain \<in> set (sd r svc)")
    case True
    with Cons.IH [of r1 saved] Cons.prems g show ?thesis by auto
  next
    case False
    define r2 where "r2 = fst (setSearchDomains ns svc (sd r svc @ [domain]) r1)"
    have new: "svc \<notin> fst ` set saved" using Cons.prems(3) False by auto
    then have fl: "filter (\<lambda>s. fst s \<noteq> svc) saved = saved" by (auto intro!: filter_True)
    have s2: "sd r2 = (sd r)(svc := sd r svc @ [domain])"
      unfolding r2_def using set_search [OF assms(1), of svc "sd r svc @ [domain]" r1] Cons.prems(2) g(2) assms(3) by auto
    have "search_ok known (sd r2)"
      using Cons.prems(1) assms(2,3) s2 by (auto simp: search_ok_def)
    moreover have "search_everywhere ns domain svcs (saved @ [(svc, sd r svc)]) r2 = (saved', r')"
      using Cons.prems(5) g False fl by (simp add: r2_def)
    moreover have "\<forall>s \<in> fst ` set (saved @ [(svc, sd r svc)]). domain \<in> set (sd r2 s)" "distinct (map fst (saved @ [(svc, sd r svc)]))"
      using Cons.prems(3,4) s2 new by auto
    ultimately have ih: "sd r' = (\<lambda>s. if s \<in> set svcs \<and> domain \<notin> set (sd r2 s) then sd r2 s @ [domain] else sd r2 s)" "distinct (map fst saved')"
      "set saved' = set (saved @ [(svc, sd r svc)]) \<union> {(s, sd r2 s) |s. s \<in> set svcs \<and> domain \<notin> set (sd r2 s)}"
      using Cons.IH [of r2 "saved @ [(svc, sd r svc)]"] Cons.prems(2) by auto
    have "sd r' = (\<lambda>s. if s \<in> set (svc # svcs) \<and> domain \<notin> set (sd r s) then sd r s @ [domain] else sd r s)"
      using ih(1) s2 False by (auto simp: fun_eq_iff)
    moreover have "set saved' = set saved \<union> {(s, sd r s) |s. s \<in> set (svc # svcs) \<and> domain \<notin> set (sd r s)}"
      using ih(3) s2 False by auto
    ultimately show ?thesis using ih(2) by blast
  qed
qed

lemma search_restored:
  assumes "networksetup_ok ns sd known" and "distinct (map fst saved)" and "\<forall>(s, ds) \<in> set saved. s \<in> known \<and> ds \<noteq> [''Empty'']"
  shows "sd (fold (\<lambda>(svc, domains) r. fst (setSearchDomains ns svc domains r)) saved r) =
    (\<lambda>s. case map_of saved s of None \<Rightarrow> sd r s | Some ds \<Rightarrow> ds)"
  using assms(2-)
proof (induction saved arbitrary: r)
  case (Cons x saved)
  obtain svc ds where x: "x = (svc, ds)" by (metis surj_pair)
  have "map_of saved svc = None" using Cons.prems(1) x by (simp add: map_of_eq_None_iff)
  with Cons x set_search [OF assms(1), of svc ds r] show ?case by (auto simp: fun_eq_iff split: option.splits)
qed simp

section \<open>Configuring and back\<close>

definition io_fine :: mac_io where
  "io_fine = \<lparr>mi_mkdir = True, mi_conf = WroteAll, mi_saved = WroteAll, mi_readdir = True, mi_unreadable = (\<lambda>_. False), mi_stuck = (\<lambda>_. False),
     mi_restore_stuck = False\<rparr>"

lemma our_conf_made:
  assumes "has_prefix (addr_text resolver) ''100.''"
  shows "our_conf (resolver_conf resolver)"
proof -
  obtain rest where "addr_text resolver = ''100.'' @ rest"
    using assms unfolding has_prefix_def by (metis append_take_drop_id)
  then have "resolver_conf resolver = ''nameserver 100.'' @ rest @ nl @ ''search_order 1'' @ nl"
    by (simp add: resolver_conf_def)
  moreover have "str_contains (''nameserver 100.'' @ rest @ nl @ ''search_order 1'' @ nl) ''nameserver 100.''"
    using str_contains_mid [of "''nameserver 100.''" "[]"] by (simp only: append_Nil) simp
  moreover have "str_contains ((''nameserver 100.'' @ rest @ nl) @ ''search_order 1'' @ nl) ''search_order 1''"
    by (rule str_contains_mid) simp
  ultimately show ?thesis by (simp only: our_conf_def append_assoc)
qed

text \<open>With the mesh configured every listed service searches its domain after its own ones, and deconfiguring gives back the search domains, the
  resolver files and the absence of a file with originals. The resolver has an address that starts with 100, and no such file was there
  before.\<close>

lemma mac_dns_restored:
  assumes "networksetup_ok ns sd known" and "search_word domain" and "domain \<noteq> ''Empty''" and "search_ok known (sd (md_sys os))"
    and "has_prefix (addr_text resolver) ''100.''" and "md_resolver os domain = None" and "\<forall>n data. md_resolver os n = Some data \<longrightarrow> \<not> our_conf data"
    and "md_restore os = NoFile" and "mac_ConfigureOS ns io_fine domain resolver os = (os1, res)" and "os2 = mac_DeconfigureOS ns io_fine os1"
  shows "res = Inr () \<and> md_resolver os1 = (md_resolver os)(domain \<mapsto> resolver_conf resolver) \<and>
    (\<forall>svcs. snd (listNetworkServices ns (md_sys os)) = Inr svcs \<longrightarrow>
       sd (md_sys os1) = (\<lambda>s. if s \<in> set svcs \<and> domain \<notin> set (sd (md_sys os) s) then sd (md_sys os) s @ [domain] else sd (md_sys os) s)) \<and>
    sd (md_sys os2) = sd (md_sys os) \<and> md_resolver os2 = md_resolver os \<and> md_restore os2 = NoFile"
proof -
  let ?files = "(md_resolver os)(domain \<mapsto> resolver_conf resolver)"
  obtain r1 lres where l: "listNetworkServices ns (md_sys os) = (r1, lres)" by (metis surj_pair)
  note known = networksetup_okD(3) [OF assms(1) l]
  have files: "remove_confs io_fine ?files = md_resolver os"
    using our_conf_made [OF assms(5)] assms(6,7) by (auto simp: remove_confs_def io_fine_def fun_eq_iff split: option.splits)
  show ?thesis
  proof (cases lres)
    case (Inl e)
    with assms(9) l have "os1 = os\<lparr>md_resolver := ?files, md_sys := r1\<rparr>" "res = Inr ()"
      by (auto simp: mac_ConfigureOS_def io_fine_def Let_def)
    with assms(8,10) files known l Inl show ?thesis by (simp add: mac_DeconfigureOS_def Let_def)
  next
    case (Inr svcs)
    obtain saved r2 where s: "search_everywhere ns domain svcs [] r1 = (saved, r2)" by (metis surj_pair)
    have os1: "os1 = os\<lparr>md_resolver := ?files, md_sys := r2, md_restore := (if saved \<noteq> [] then Saved saved else NoFile)\<rparr>" "res = Inr ()"
      using assms(8,9) l Inr s by (auto simp: mac_ConfigureOS_def io_fine_def Let_def)
    let ?sd = "sd (md_sys os)"
    have a: "sd r2 = (\<lambda>s. if s \<in> set svcs \<and> domain \<notin> set (?sd s) then ?sd s @ [domain] else ?sd s)" "distinct (map fst saved)"
      "set saved = {(s, ?sd s) |s. s \<in> set svcs \<and> domain \<notin> set (?sd s)}"
      using search_added [OF assms(1-3) _ _ _ _ s] known Inr assms(4) by auto
    have "\<forall>(s, ds) \<in> set saved. s \<in> known \<and> ds \<noteq> [''Empty'']"
      using a(3) known Inr assms(4) by (auto simp: search_ok_def)
    note undo = search_restored [OF assms(1) a(2) this, of r2]
    have m: "map_of saved s = (if s \<in> set svcs \<and> domain \<notin> set (?sd s) then Some (?sd s) else None)" for s
      using a(2,3) by (cases "map_of saved s") (auto simp: map_of_eq_None_iff dest: map_of_SomeD)
    have sd2: "sd (fold (\<lambda>(svc, domains) r. fst (setSearchDomains ns svc domains r)) saved r2) = ?sd"
      using undo a(1) m by (auto simp: fun_eq_iff)
    show ?thesis
    proof (cases "saved = []")
      case True
      with os1 assms(8,10) files l Inr a(1) sd2 show ?thesis by (simp add: mac_DeconfigureOS_def Let_def)
    next
      case False
      with os1 assms(10) files l Inr a(1) sd2 show ?thesis by (simp add: mac_DeconfigureOS_def Let_def io_fine_def)
    qed
  qed
qed

text \<open>A system with a list of services.\<close>

definition sample_ns :: "(string \<times> string list) list networksetup" where
  "sample_ns cmd r = (case cmd of
     [_, _] \<Rightarrow> (r, ''An asterisk (*) denotes that a network service is disabled.'' @ nl @ concat (map (\<lambda>s. fst s @ nl) r), None)
   | _ # act # svc # ds \<Rightarrow>
       (if act = ''-getsearchdomains'' then (r, domains_text svc (case map_of r svc of None \<Rightarrow> [] | Some d \<Rightarrow> d), None)
        else (map (\<lambda>(s, d). (s, if s = svc then (if ds = [''Empty''] then [] else ds) else d)) r, [], None))
   | _ \<Rightarrow> (r, [], Some ''exit status 4''))"

definition sample_mac_dns :: "(string \<times> string list) list mac_dns" where
  "sample_mac_dns = \<lparr>md_resolver = Map.empty, md_restore = NoFile, md_sys = [(''Wi-Fi'', [''home.lan''])]\<rparr>"

text \<open>A second configuration after a service was added overwrites the originals of the first, so its domain stays with the old service for good.\<close>

lemma second_run_forgets:
  "let os1 = fst (mac_ConfigureOS sample_ns io_fine ''default.mesh'' (V4 0x64600002) sample_mac_dns);
       os2 = fst (mac_ConfigureOS sample_ns io_fine ''default.mesh'' (V4 0x64600002) (os1\<lparr>md_sys := md_sys os1 @ [(''Ethernet'', [])]\<rparr>))
   in md_restore os1 = Saved [(''Wi-Fi'', [''home.lan''])] \<and> md_restore os2 = Saved [(''Ethernet'', [])] \<and>
     md_sys (mac_DeconfigureOS sample_ns io_fine os2) = [(''Wi-Fi'', [''home.lan'', ''default.mesh'']), (''Ethernet'', [])]"
  by code_simp

end
