(* ===== verification/Router_Darwin.thy ===== *)
theory Router_Darwin
  imports Router
begin

text \<open>
  The operating system around the tunnel on macOS, \<^verbatim>\<open>src/internal/router/router_darwin.go\<close>: the exit-node client,
  which sends all traffic into the tunnel with two half-default routes and keeps the daemon's own flows out of it with a
  route per host through the old gateway (\<^verbatim>\<open>ExitClient\<close>), and the routes of peers' subnets (\<^verbatim>\<open>RouteSync\<close>).
  The record of a \<^verbatim>\<open>RouteSync\<close> is that of the Linux variant.

  The system is a parameter again: \<open>mx_run\<close> runs a command and gives its output and, when it fails, the text of the error.
  \<open>route8_ok\<close> states what route(8) does to the routing table. The iteration order of Go maps is the order of the lists.

  The main result: under any sequence of operations that keeps the interface and does not give up IPv6 while it is active,
  the hosts of the daemon are routed around the tunnel whenever the exit node is in use, and removing it gives back the
  routing table of the start. \<open>apply_no_window\<close> shows this for every moment while the exit node is switched on, and
  \<open>v6_halves_stay\<close> what happens when IPv6 is given up.
\<close>

section \<open>The system\<close>

record 'os macos =
  mx_run :: "string list \<Rightarrow> 'os \<Rightarrow> 'os \<times> string \<times> string option"

text \<open>The routes that the code adds and deletes: to a host through a gateway, and to a network through an interface.\<close>

datatype mac_route = HostVia Addr Addr | NetVia Prefix string

definition fam_flag :: "Addr \<Rightarrow> string" where
  "fam_flag a = (if addr_is6 a then ''-inet6'' else ''-inet'')"

fun route_dst :: "mac_route \<Rightarrow> string list" where
  "route_dst (HostVia ip gw) = [fam_flag ip, ''-host'', addr_text ip]"
| "route_dst (NetVia p iface) = [fam_flag (prefix_addr p), prefix_text p]"

fun route_via :: "mac_route \<Rightarrow> string list" where
  "route_via (HostVia ip gw) = [addr_text gw]"
| "route_via (NetVia p iface) = [''-interface'', iface]"

fun route_name :: "mac_route \<Rightarrow> string" where
  "route_name (HostVia ip gw) = ''-host '' @ addr_text ip"
| "route_name (NetVia p iface) = prefix_text p"

definition route_argv :: "string \<Rightarrow> mac_route \<Rightarrow> string list" where
  "route_argv op r = ''route'' # ''-n'' # op # route_dst r @ route_via r"

definition route_exec :: "'os macos \<Rightarrow> string \<Rightarrow> mac_route \<Rightarrow> 'os \<Rightarrow> 'os \<times> string option" where
  "route_exec mx op r os = (case mx_run mx (route_argv op r) os of
     (os1, out, None) \<Rightarrow> (os1, None)
   | (os1, out, Some e) \<Rightarrow> (os1, Some (''route '' @ op @ '' '' @ route_name r @ '': '' @ e @ '': '' @ trim_space out)))"

definition hostRouteCmd :: "'os macos \<Rightarrow> string \<Rightarrow> Addr \<Rightarrow> Addr \<Rightarrow> 'os \<Rightarrow> 'os \<times> string option" where
  "hostRouteCmd mx op ip gw os = route_exec mx op (HostVia ip gw) os"

definition routeCmd :: "'os macos \<Rightarrow> string \<Rightarrow> Prefix \<Rightarrow> string \<Rightarrow> 'os \<Rightarrow> 'os \<times> string option" where
  "routeCmd mx op p iface os = route_exec mx op (NetVia p iface) os"

definition get_default :: "bool \<Rightarrow> string list" where
  "get_default v6 = [''route'', ''-n'', ''get''] @ (if v6 then [''-inet6''] else []) @ [''default'']"

definition gateway_line :: "string \<Rightarrow> Addr option" where
  "gateway_line line = (case cut_prefix (trim_space line) ''gateway:'' of None \<Rightarrow> None | Some rest \<Rightarrow> parse_addr (trim_space rest))"

definition gateway_of :: "string \<times> string option \<Rightarrow> Addr res" where
  "gateway_of res = (case res of
     (out, Some e) \<Rightarrow> Inl (ErrMsg (''route get default: '' @ e @ '': '' @ trim_space out))
   | (out, None) \<Rightarrow> (case List.map_filter gateway_line (split_on CHR 0x0A out) of
       [] \<Rightarrow> Inl (ErrMsg ''no gateway in `route get default` output'')
     | ip # _ \<Rightarrow> Inr ip))"

definition defaultGateway :: "'os macos \<Rightarrow> bool \<Rightarrow> 'os \<Rightarrow> 'os \<times> Addr res" where
  "defaultGateway mx v6 os = (case mx_run mx (get_default v6) os of (os1, res) \<Rightarrow> (os1, gateway_of res))"

section \<open>Advertiser\<close>

text \<open>Routing for the mesh is not supported on macOS: approved routes are logged and ignored.\<close>

definition mac_adv_Apply :: "string \<Rightarrow> Prefix list \<Rightarrow> string list \<times> unit res" where
  "mac_adv_Apply iface routes =
     (if routes \<noteq> [] then [''router: acting as a router/exit node is not supported on macOS yet; approved routes are ignored on this device''] else [],
      Inr ())"

section \<open>ExitClient\<close>

record mac_ExitClient =
  me_iface :: string
  me_active :: bool
  me_v6 :: bool
  me_gw4 :: Addr
  me_gw6 :: Addr
  me_want :: "Addr list"
  me_up :: "Addr list"

definition mac_NewExitClient :: mac_ExitClient where
  "mac_NewExitClient = \<lparr>me_iface = [], me_active = False, me_v6 = False, me_gw4 = NoAddr, me_gw6 = NoAddr, me_want = [], me_up = []\<rparr>"

definition exitHalves4 :: "Prefix list" where
  "exitHalves4 = [Pfx (V4 0) 1, Pfx (V4 0x80000000) 1]"

definition exitHalves6 :: "Prefix list" where
  "exitHalves6 = [Pfx (V6 0 []) 1, Pfx (V6 0x80000000000000000000000000000000 []) 1]"

definition exit_halves :: "bool \<Rightarrow> Prefix list" where
  "exit_halves v6 = (if v6 then exitHalves4 @ exitHalves6 else exitHalves4)"

definition gwFor :: "mac_ExitClient \<Rightarrow> Addr \<Rightarrow> Addr" where
  "gwFor e ip = (if addr_is6 ip then me_gw6 e else me_gw4 e)"

definition bypass_drop :: "'os macos \<Rightarrow> mac_ExitClient \<Rightarrow> Addr list \<Rightarrow> 'os \<Rightarrow> 'os" where
  "bypass_drop mx e ips os = fold (\<lambda>ip os. fst (hostRouteCmd mx ''delete'' ip (gwFor e ip) os)) ips os"

fun bypass_add :: "'os macos \<Rightarrow> mac_ExitClient \<Rightarrow> Addr list \<Rightarrow> Addr list \<Rightarrow> 'os \<Rightarrow> Addr list \<times> 'os" where
  "bypass_add mx e [] up os = (up, os)"
| "bypass_add mx e (ip # ips) up os =
     (if ip \<in> set up \<or> \<not> addr_is_valid (gwFor e ip) then bypass_add mx e ips up os
      else (case hostRouteCmd mx ''add'' ip (gwFor e ip) os of
        (os1, None) \<Rightarrow> bypass_add mx e ips (up @ [ip]) os1
      | (os1, Some err) \<Rightarrow> bypass_add mx e ips (if str_contains err ''exists'' then up @ [ip] else up) os1))"

definition syncBypassLocked :: "'os macos \<Rightarrow> mac_ExitClient \<Rightarrow> 'os \<Rightarrow> mac_ExitClient \<times> 'os" where
  "syncBypassLocked mx e os =
     (let os1 = bypass_drop mx e (filter (\<lambda>ip. ip \<notin> set (me_want e)) (me_up e)) os in
      case bypass_add mx e (me_want e) (filter (\<lambda>ip. ip \<in> set (me_want e)) (me_up e)) os1 of
        (up, os2) \<Rightarrow> (e\<lparr>me_up := up\<rparr>, os2))"

definition nets_run :: "'os macos \<Rightarrow> string \<Rightarrow> string \<Rightarrow> Prefix list \<Rightarrow> 'os \<Rightarrow> 'os" where
  "nets_run mx op iface ps os = fold (\<lambda>p os. fst (routeCmd mx op p iface os)) ps os"

definition mac_ec_Apply :: "'os macos \<Rightarrow> string \<Rightarrow> bool \<Rightarrow> mac_ExitClient \<Rightarrow> 'os \<Rightarrow> mac_ExitClient \<times> 'os \<times> unit res" where
  "mac_ec_Apply mx iface v6 e os =
     (if me_active e \<and> me_iface e = iface \<and> me_v6 e = v6 then (e, os, Inr ())
      else (case defaultGateway mx False os of
        (os1, Inl er) \<Rightarrow> (e, os1, Inl (ErrWrap ''exit node needs a default IPv4 route to protect against loops'' er))
      | (os1, Inr gw4) \<Rightarrow> (case defaultGateway mx True os1 of
          (os2, r6) \<Rightarrow>
            (case syncBypassLocked mx (e\<lparr>me_gw4 := gw4, me_gw6 := (case r6 of Inl _ \<Rightarrow> NoAddr | Inr g \<Rightarrow> g)\<rparr>) os2 of
               (e2, os3) \<Rightarrow> (e2\<lparr>me_iface := iface, me_v6 := v6, me_active := True\<rparr>, nets_run mx ''add'' iface (exit_halves v6) os3, Inr ())))))"

definition mac_ec_SetBypassHosts :: "'os macos \<Rightarrow> Addr list \<Rightarrow> mac_ExitClient \<Rightarrow> 'os \<Rightarrow> mac_ExitClient \<times> 'os" where
  "mac_ec_SetBypassHosts mx ips e os =
     (let e1 = e\<lparr>me_want := remdups (map addr_unmap (filter (\<lambda>ip. addr_is_valid ip \<and> \<not> addr_is_loopback ip) ips))\<rparr> in
      if me_active e1 then syncBypassLocked mx e1 os else (e1, os))"

definition mac_ec_Remove :: "'os macos \<Rightarrow> mac_ExitClient \<Rightarrow> 'os \<Rightarrow> mac_ExitClient \<times> 'os" where
  "mac_ec_Remove mx e os =
     (if \<not> me_active e then (e, os)
      else (e\<lparr>me_up := [], me_active := False\<rparr>,
        bypass_drop mx e (me_up e) (nets_run mx ''delete'' (me_iface e) (exit_halves (me_v6 e)) os)))"

section \<open>RouteSync\<close>

fun mac_sync_add :: "'os macos \<Rightarrow> string \<Rightarrow> Prefix list \<Rightarrow> Prefix list \<Rightarrow> 'os \<Rightarrow> Prefix list \<times> 'os" where
  "mac_sync_add mx iface [] cur os = (cur, os)"
| "mac_sync_add mx iface (p # ps) cur os =
     (if p \<in> set cur then mac_sync_add mx iface ps cur os
      else (case routeCmd mx ''add'' p iface os of
        (os1, None) \<Rightarrow> mac_sync_add mx iface ps (cur @ [p]) os1
      | (os1, Some _) \<Rightarrow> mac_sync_add mx iface ps cur os1))"

definition mac_rs_Sync :: "'os macos \<Rightarrow> string \<Rightarrow> Prefix list \<Rightarrow> RouteSync \<Rightarrow> 'os \<Rightarrow> RouteSync \<times> 'os" where
  "mac_rs_Sync mx iface want r os =
     (let os1 = nets_run mx ''delete'' iface (filter (\<lambda>p. p \<notin> set want) (rs_current r)) os in
      case mac_sync_add mx iface (remdups want) (filter (\<lambda>p. p \<in> set want) (rs_current r)) os1 of
        (cur, os2) \<Rightarrow> (\<lparr>rs_iface = iface, rs_current = cur\<rparr>, os2))"

definition mac_rs_Close :: "'os macos \<Rightarrow> RouteSync \<Rightarrow> 'os \<Rightarrow> RouteSync \<times> 'os" where
  "mac_rs_Close mx r os = (r\<lparr>rs_current := []\<rparr>, nets_run mx ''delete'' (rs_iface r) (rs_current r) os)"

section \<open>What route(8) does\<close>

text \<open>The routing table gives the target of each destination. An entry is added unless the destination has one, deleting
  an entry by its target removes it, and asking for the default route changes nothing.\<close>

type_synonym 'os route_table = "'os \<Rightarrow> string list \<rightharpoonup> string list"

definition route8_ok :: "'os macos \<Rightarrow> 'os route_table \<Rightarrow> bool" where
  "route8_ok mx tbl \<longleftrightarrow>
     (\<forall>r os os' out err. mx_run mx (route_argv ''add'' r) os = (os', out, err) \<longrightarrow>
        (if tbl os (route_dst r) = None then err = None \<and> tbl os' = (tbl os)(route_dst r \<mapsto> route_via r) else err \<noteq> None \<and> tbl os' = tbl os)) \<and>
     (\<forall>r os os' res. mx_run mx (route_argv ''delete'' r) os = (os', res) \<longrightarrow> tbl os (route_dst r) = Some (route_via r) \<longrightarrow>
        tbl os' = (tbl os)(route_dst r := None)) \<and>
     (\<forall>v6 os os' res. mx_run mx (get_default v6) os = (os', res) \<longrightarrow> tbl os' = tbl os)"

lemma route8_okD:
  assumes "route8_ok mx tbl"
  shows "mx_run mx (route_argv ''add'' r) os = (os', out, err) \<Longrightarrow>
      (if tbl os (route_dst r) = None then err = None \<and> tbl os' = (tbl os)(route_dst r \<mapsto> route_via r) else err \<noteq> None \<and> tbl os' = tbl os)"
    and "mx_run mx (route_argv ''delete'' r) os = (os', res) \<Longrightarrow> tbl os (route_dst r) = Some (route_via r) \<Longrightarrow> tbl os' = (tbl os)(route_dst r := None)"
    and "mx_run mx (get_default v6) os = (os', res) \<Longrightarrow> tbl os' = tbl os"
  using assms unfolding route8_ok_def by blast+

text \<open>The table is the table \<open>T\<close> of the start with the routes \<open>R\<close> on top.\<close>

definition routes_over :: "(string list \<rightharpoonup> string list) \<Rightarrow> mac_route set \<Rightarrow> (string list \<rightharpoonup> string list) \<Rightarrow> bool" where
  "routes_over T R t \<longleftrightarrow> inj_on route_dst R \<and> (\<forall>r \<in> R. T (route_dst r) = None \<and> t (route_dst r) = Some (route_via r)) \<and>
     (\<forall>d. d \<notin> route_dst ` R \<longrightarrow> t d = T d)"

lemma routes_over_none [simp]: "routes_over T {} t \<longleftrightarrow> t = T"
  by (auto simp: routes_over_def)

lemma routes_over_add:
  assumes "routes_over T R t" and "T (route_dst r) = None" and "route_dst r \<notin> route_dst ` R"
  shows "routes_over T (insert r R) (t(route_dst r \<mapsto> route_via r))"
  using assms by (auto simp: routes_over_def inj_on_insert image_iff)

lemma routes_over_delete:
  assumes "routes_over T R t" and "r \<in> R"
  shows "routes_over T (R - {r}) (t(route_dst r := None))"
proof -
  have "route_dst q \<noteq> route_dst r" if "q \<in> R - {r}" for q
    using assms that by (auto simp: routes_over_def dest: inj_onD)
  with assms show ?thesis
    by (auto simp: routes_over_def inj_on_diff image_iff)
qed

lemma exec_add:
  assumes "route8_ok mx tbl" and "routes_over T R (tbl os)" and "route_exec mx ''add'' r os = (os', err)"
  shows "r \<in> R \<Longrightarrow> err \<noteq> None \<and> tbl os' = tbl os"
    and "T (route_dst r) = None \<Longrightarrow> route_dst r \<notin> route_dst ` R \<Longrightarrow> err = None \<and> routes_over T (insert r R) (tbl os')"
proof -
  obtain out er where m: "mx_run mx (route_argv ''add'' r) os = (os', out, er)" and e: "err = None \<longleftrightarrow> er = None"
    using assms(3) by (auto simp: route_exec_def split: prod.splits option.splits)
  note law = route8_okD(1) [OF assms(1) m]
  show "err \<noteq> None \<and> tbl os' = tbl os" if "r \<in> R"
    using that assms(2) law e by (simp add: routes_over_def)
  show "err = None \<and> routes_over T (insert r R) (tbl os')" if "T (route_dst r) = None" "route_dst r \<notin> route_dst ` R"
  proof -
    have "tbl os (route_dst r) = None" using that assms(2) by (simp add: routes_over_def)
    with law e routes_over_add [OF assms(2) that] show ?thesis by simp
  qed
qed

lemma exec_delete:
  assumes "route8_ok mx tbl" and "routes_over T R (tbl os)" and "r \<in> R"
  shows "routes_over T (R - {r}) (tbl (fst (route_exec mx ''delete'' r os)))"
proof -
  obtain os' res where m: "mx_run mx (route_argv ''delete'' r) os = (os', res)" by (metis surj_pair)
  have "tbl os (route_dst r) = Some (route_via r)" using assms(2,3) by (simp add: routes_over_def)
  from route8_okD(2) [OF assms(1) m this] routes_over_delete [OF assms(2,3)]
  have "routes_over T (R - {r}) (tbl os')" by simp
  with m show ?thesis by (simp add: route_exec_def split: prod.splits option.splits)
qed

lemma exec_deletes:
  assumes "route8_ok mx tbl" and "routes_over T R (tbl os)" and "set rs \<subseteq> R" and "distinct rs"
  shows "routes_over T (R - set rs) (tbl (fold (\<lambda>r os. fst (route_exec mx ''delete'' r os)) rs os))"
  using assms(2-)
proof (induction rs arbitrary: R os)
  case (Cons r rs)
  have "routes_over T (R - {r}) (tbl (fst (route_exec mx ''delete'' r os)))"
    using Cons.prems by (intro exec_delete [OF assms(1)]) auto
  from Cons.IH [OF this] Cons.prems show ?case by (auto simp: Diff_insert2 [symmetric])
qed simp

text \<open>Adding routes, with anything \<open>Q\<close> that each command keeps.\<close>

lemma exec_adds:
  assumes "route8_ok mx tbl" and "routes_over T R (tbl os)" and "\<forall>r \<in> set rs. T (route_dst r) = None" and "inj_on route_dst (R \<union> set rs)"
    and "Q os" and "B \<subseteq> R"
    and step: "\<And>r os os' err R. route_exec mx ''add'' r os = (os', err) \<Longrightarrow> Q os \<Longrightarrow> B \<subseteq> R \<Longrightarrow> routes_over T R (tbl os') \<Longrightarrow> Q os'"
  shows "routes_over T (R \<union> set rs) (tbl (fold (\<lambda>r os. fst (route_exec mx ''add'' r os)) rs os)) \<and>
    Q (fold (\<lambda>r os. fst (route_exec mx ''add'' r os)) rs os)"
  using assms(2-6)
proof (induction rs arbitrary: R os)
  case (Cons r rs)
  obtain os' err where x: "route_exec mx ''add'' r os = (os', err)" by (metis surj_pair)
  have o: "routes_over T (insert r R) (tbl os')"
  proof (cases "r \<in> R")
    case True
    with exec_add(1) [OF assms(1) Cons.prems(1) x] Cons.prems(1) show ?thesis by (simp add: insert_absorb)
  next
    case False
    with Cons.prems(3) have "route_dst r \<notin> route_dst ` R" by (auto simp: inj_on_def)
    with exec_add(2) [OF assms(1) Cons.prems(1) x] Cons.prems(2) show ?thesis by simp
  qed
  moreover have "B \<subseteq> insert r R" using Cons.prems(5) by blast
  ultimately have "Q os'" using step [OF x Cons.prems(4)] by blast
  from Cons.IH [OF o _ _ this \<open>B \<subseteq> insert r R\<close>] Cons.prems x show ?case by simp
qed simp

section \<open>The exit node is routed around\<close>

text \<open>Operations of the exit client in any order. An interface is kept while it is active, and so is IPv6; \<open>H\<close> are the hosts that
  may have to be reached outside the tunnel.\<close>

datatype exit_op = ExitApply string bool | ExitBypass "Addr list" | ExitRemove

fun exit_step :: "'os macos \<Rightarrow> exit_op \<Rightarrow> mac_ExitClient \<times> 'os \<Rightarrow> mac_ExitClient \<times> 'os" where
  "exit_step mx (ExitApply iface v6) (e, os) = (case mac_ec_Apply mx iface v6 e os of (e', os', _) \<Rightarrow> (e', os'))"
| "exit_step mx (ExitBypass ips) (e, os) = mac_ec_SetBypassHosts mx ips e os"
| "exit_step mx ExitRemove (e, os) = mac_ec_Remove mx e os"

fun exit_op_ok :: "Addr set \<Rightarrow> exit_op \<Rightarrow> mac_ExitClient \<times> 'os \<Rightarrow> bool" where
  "exit_op_ok H (ExitApply iface v6) (e, os) \<longleftrightarrow> (me_active e \<longrightarrow> me_iface e = iface \<and> (me_v6 e \<longrightarrow> v6))"
| "exit_op_ok H (ExitBypass ips) (e, os) \<longleftrightarrow> addr_unmap ` set ips \<subseteq> H"
| "exit_op_ok H ExitRemove (e, os) \<longleftrightarrow> True"

text \<open>The default routes of the system do not change, and at the start there is no route of the exit client.\<close>

definition gateways :: "'os macos \<Rightarrow> (bool \<Rightarrow> string \<times> string option) \<Rightarrow> bool" where
  "gateways mx g \<longleftrightarrow> (\<forall>v6 os. snd (mx_run mx (get_default v6) os) = g v6)"

definition exit_fresh :: "Addr set \<Rightarrow> (string list \<rightharpoonup> string list) \<Rightarrow> bool" where
  "exit_fresh H T \<longleftrightarrow> (\<forall>ip \<in> H. no_zone ip \<and> T (route_dst (HostVia ip NoAddr)) = None) \<and>
     (\<forall>p \<in> set (exit_halves True). T (route_dst (NetVia p [])) = None)"

definition host_routes :: "mac_ExitClient \<Rightarrow> Addr set \<Rightarrow> mac_route set" where
  "host_routes e A = (\<lambda>ip. HostVia ip (gwFor e ip)) ` A"

definition half_routes :: "mac_ExitClient \<Rightarrow> mac_route set" where
  "half_routes e = (if me_active e then (\<lambda>p. NetVia p (me_iface e)) ` set (exit_halves (me_v6 e)) else {})"

definition protected :: "mac_ExitClient \<Rightarrow> Addr set" where
  "protected e = {ip \<in> set (me_want e). addr_is_valid (gwFor e ip)}"

definition exit_inv :: "(bool \<Rightarrow> string \<times> string option) \<Rightarrow> Addr set \<Rightarrow> (string list \<rightharpoonup> string list) \<Rightarrow> mac_ExitClient \<Rightarrow> (string list \<rightharpoonup> string list) \<Rightarrow> bool" where
  "exit_inv g H T e t \<longleftrightarrow> routes_over T (host_routes e (set (me_up e)) \<union> half_routes e) t \<and> distinct (me_up e) \<and>
     (\<forall>ip \<in> set (me_want e). ip \<in> H \<and> addr_is_valid ip) \<and> set (me_up e) = (if me_active e then protected e else {}) \<and>
     (me_active e \<longrightarrow> gateway_of (g False) = Inr (me_gw4 e) \<and> me_gw6 e = (case gateway_of (g True) of Inl _ \<Rightarrow> NoAddr | Inr x \<Rightarrow> x))"

lemma halves_texts:
  "distinct (exit_halves v6)" "inj_on (\<lambda>p. route_dst (NetVia p i)) (set (exit_halves v6))" "set (exit_halves v6) \<subseteq> set (exit_halves True)"
proof -
  have ok: "prefix_ok p" if "p \<in> set (exit_halves v6)" for p
    using that by (auto simp: exit_halves_def exitHalves4_def exitHalves6_def no_zone_def split: if_splits)
  show "inj_on (\<lambda>p. route_dst (NetVia p i)) (set (exit_halves v6))"
    by (rule inj_onI) (simp add: prefix_codec.enc_inj [OF ok ok])
  show "distinct (exit_halves v6)" by (simp add: exit_halves_def exitHalves4_def exitHalves6_def)
  show "set (exit_halves v6) \<subseteq> set (exit_halves True)" by (auto simp: exit_halves_def)
qed

lemma route_dst_inj:
  assumes "\<forall>ip \<in> A. addr_is_valid ip \<and> no_zone ip"
  shows "inj_on route_dst ((\<lambda>ip. HostVia ip (f ip)) ` A \<union> (\<lambda>p. NetVia p i) ` set (exit_halves v6))"
proof -
  have a: "ip = ip'" if "route_dst (HostVia ip (f ip)) = route_dst (HostVia ip' (f ip'))" "ip \<in> A" "ip' \<in> A" for ip ip'
    using assms that addr_codec.enc_inj [of ip ip'] by simp
  have b: "p = p'" if "route_dst (NetVia p i) = route_dst (NetVia p' i)" "p \<in> set (exit_halves v6)" "p' \<in> set (exit_halves v6)" for p p'
    using inj_onD [OF halves_texts(2) that] .
  have c: "route_dst (HostVia ip g) \<noteq> route_dst (NetVia p j)" "route_dst (NetVia p j) \<noteq> route_dst (HostVia ip g)" for ip g p j by simp_all
  show ?thesis
    by (rule inj_onI) (elim UnE imageE; hypsubst; (drule a; simp | drule b; simp | simp only: c))
qed

lemma route_dst_host: "route_dst (HostVia ip g) = route_dst (HostVia ip NoAddr)"
  by simp

lemma route_dst_net: "route_dst (NetVia p i) = route_dst (NetVia p [])"
  by simp

lemma bypass_drop_over:
  assumes "route8_ok mx tbl" and "routes_over T R (tbl os)" and "host_routes e (set ips) \<subseteq> R" and "distinct ips"
  shows "routes_over T (R - host_routes e (set ips)) (tbl (bypass_drop mx e ips os))"
proof -
  let ?h = "\<lambda>ip. HostVia ip (gwFor e ip)"
  have "distinct (map ?h ips)" using assms(4) by (simp add: distinct_map inj_on_def)
  moreover have "set (map ?h ips) = host_routes e (set ips)" by (simp add: host_routes_def)
  moreover have "bypass_drop mx e ips os = fold (\<lambda>r os. fst (route_exec mx ''delete'' r os)) (map ?h ips) os"
    by (simp add: bypass_drop_def hostRouteCmd_def fold_map comp_def)
  ultimately show ?thesis
    using exec_deletes [OF assms(1,2), of "map ?h ips"] assms(3) by simp
qed

lemma nets_run_map: "nets_run mx op iface ps os = fold (\<lambda>r os. fst (route_exec mx op r os)) (map (\<lambda>p. NetVia p iface) ps) os"
  by (simp add: nets_run_def routeCmd_def fold_map comp_def)

lemma bypass_add_over:
  assumes "route8_ok mx tbl" and "\<forall>ip \<in> set ips \<union> set up. addr_is_valid ip \<and> no_zone ip"
    and "\<forall>ip \<in> set ips. T (route_dst (HostVia ip NoAddr)) = None" and "routes_over T (host_routes e (set up) \<union> N) (tbl os)"
    and "N \<subseteq> (\<lambda>p. NetVia p i) ` set (exit_halves v6)" and "distinct up" and "bypass_add mx e ips up os = (up', os')" and "Q os"
    and step: "\<And>r os os' err A. route_exec mx ''add'' r os = (os', err) \<Longrightarrow> Q os \<Longrightarrow> routes_over T (host_routes e A \<union> N) (tbl os') \<Longrightarrow> Q os'"
  shows "routes_over T (host_routes e (set up') \<union> N) (tbl os') \<and> distinct up' \<and> set up' = set up \<union> {ip \<in> set ips. addr_is_valid (gwFor e ip)} \<and> Q os'"
  using assms(2-4,6-8)
proof (induction ips arbitrary: up os)
  case (Cons ip ips)
  show ?case
  proof (cases "ip \<in> set up \<or> \<not> addr_is_valid (gwFor e ip)")
    case True
    with Cons.prems have "bypass_add mx e ips up os = (up', os')" by auto
    with Cons.IH [of up os] Cons.prems True show ?thesis by auto
  next
    case False
    let ?r = "HostVia ip (gwFor e ip)"
    obtain os1 err where x: "route_exec mx ''add'' ?r os = (os1, err)" by (metis surj_pair)
    have "inj_on route_dst ((\<lambda>ip. HostVia ip (gwFor e ip)) ` (insert ip (set up)) \<union> (\<lambda>p. NetVia p i) ` set (exit_halves v6))"
      using Cons.prems(1) by (intro route_dst_inj) auto
    then have "inj_on route_dst (insert ?r (host_routes e (set up) \<union> N))"
      by (rule inj_on_subset) (use assms(5) in \<open>auto simp: host_routes_def\<close>)
    moreover have "?r \<notin> host_routes e (set up) \<union> N"
      using False assms(5) by (auto simp: host_routes_def)
    ultimately have "route_dst ?r \<notin> route_dst ` (host_routes e (set up) \<union> N)"
      by (simp add: inj_on_insert)
    with exec_add(2) [OF assms(1) Cons.prems(3) x] Cons.prems(2) have e: "err = None"
      "routes_over T (insert ?r (host_routes e (set up) \<union> N)) (tbl os1)" by simp_all
    then have o: "routes_over T (host_routes e (set (up @ [ip])) \<union> N) (tbl os1)" by (simp add: host_routes_def)
    from step [OF x Cons.prems(6) this] have "Q os1" .
    moreover note o
    moreover have "bypass_add mx e ips (up @ [ip]) os1 = (up', os')"
      using Cons.prems(5) False x e(1) by (simp add: hostRouteCmd_def)
    ultimately show ?thesis
      using Cons.IH [of "up @ [ip]" os1] Cons.prems(1,2,4) False by auto
  qed
qed auto

lemma sync_over:
  assumes "route8_ok mx tbl" and "exit_fresh H T" and "\<forall>ip \<in> set (me_want e) \<union> set (me_up e). ip \<in> H \<and> addr_is_valid ip"
    and "routes_over T (host_routes e (set (me_up e)) \<union> N) (tbl os)" and "N \<subseteq> (\<lambda>p. NetVia p i) ` set (exit_halves v6)" and "distinct (me_up e)"
    and "\<forall>ip \<in> set (me_up e). addr_is_valid (gwFor e ip)" and "syncBypassLocked mx e os = (e', os')"
  shows "\<exists>up. e' = e\<lparr>me_up := up\<rparr> \<and> distinct up \<and> set up = protected e \<and> routes_over T (host_routes e (set up) \<union> N) (tbl os')"
proof -
  let ?gone = "filter (\<lambda>ip. ip \<notin> set (me_want e)) (me_up e)" and ?kept = "filter (\<lambda>ip. ip \<in> set (me_want e)) (me_up e)"
  let ?os = "bypass_drop mx e ?gone os"
  obtain up where up: "bypass_add mx e (me_want e) ?kept ?os = (up, os')" "e' = e\<lparr>me_up := up\<rparr>"
    using assms(8) by (auto simp: syncBypassLocked_def Let_def split: prod.splits)
  have "routes_over T (host_routes e (set (me_up e)) \<union> N - host_routes e (set ?gone)) (tbl ?os)"
    using assms(6) by (intro bypass_drop_over [OF assms(1,4)]) (auto simp: host_routes_def)
  moreover have "host_routes e (set (me_up e)) \<union> N - host_routes e (set ?gone) = host_routes e (set ?kept) \<union> N"
    using assms(5) by (auto simp: host_routes_def)
  ultimately have k: "routes_over T (host_routes e (set ?kept) \<union> N) (tbl ?os)" by simp
  have z: "\<forall>ip \<in> set (me_want e) \<union> set ?kept. addr_is_valid ip \<and> no_zone ip" "\<forall>ip \<in> set (me_want e). T (route_dst (HostVia ip NoAddr)) = None"
    using assms(2,3) unfolding exit_fresh_def by auto
  from bypass_add_over [OF assms(1) z k assms(5) _ up(1), of "\<lambda>_. True"] assms(6,7) up(2) show ?thesis
    by (auto simp: protected_def)
qed

lemma half_routes_sub: "half_routes e \<subseteq> (\<lambda>p. NetVia p (me_iface e)) ` set (exit_halves (me_v6 e))"
  by (simp add: half_routes_def)

lemma exit_inv_hosts:
  assumes "exit_inv g H T e t"
  shows "\<forall>ip \<in> set (me_want e) \<union> set (me_up e). ip \<in> H \<and> addr_is_valid ip" "\<forall>ip \<in> set (me_up e). addr_is_valid (gwFor e ip)"
  using assms by (auto simp: exit_inv_def protected_def split: if_splits)

lemma exit_inv_routes:
  assumes "exit_inv g H T e t"
  shows "routes_over T (host_routes e (set (me_up e)) \<union> half_routes e) t" "distinct (me_up e)"
  using assms unfolding exit_inv_def by blast+

lemma exit_client_fields [simp]:
  "gwFor (e\<lparr>me_up := up\<rparr>) = gwFor e" "gwFor (e\<lparr>me_iface := iface\<rparr>) = gwFor e" "gwFor (e\<lparr>me_v6 := v6\<rparr>) = gwFor e"
  "gwFor (e\<lparr>me_active := act\<rparr>) = gwFor e" "gwFor (e\<lparr>me_want := want\<rparr>) = gwFor e"
  "half_routes (e\<lparr>me_up := up\<rparr>) = half_routes e" "half_routes (e\<lparr>me_want := want\<rparr>) = half_routes e"
  "half_routes (e\<lparr>me_active := False\<rparr>) = {}"
  by (auto simp: gwFor_def half_routes_def fun_eq_iff)

lemma exit_inv_off:
  assumes "\<forall>ip \<in> set (me_want e). ip \<in> H \<and> addr_is_valid ip"
  shows "exit_inv g H T (e\<lparr>me_up := [], me_active := False\<rparr>) T"
  using assms by (simp add: exit_inv_def host_routes_def half_routes_def)

lemma exit_inv_on:
  assumes "\<forall>ip \<in> set (me_want e). ip \<in> H \<and> addr_is_valid ip" and "distinct up" and "set up = protected e" and "me_active e"
    and "routes_over T (host_routes e (set up) \<union> half_routes e) t"
    and "gateway_of (g False) = Inr (me_gw4 e)" and "me_gw6 e = (case gateway_of (g True) of Inl _ \<Rightarrow> NoAddr | Inr x \<Rightarrow> x)"
  shows "exit_inv g H T (e\<lparr>me_up := up\<rparr>) t"
  using assms by (simp add: exit_inv_def host_routes_def protected_def)

lemma remove_over:
  assumes "route8_ok mx tbl" and "routes_over T (host_routes e (set (me_up e)) \<union> half_routes e \<union> X) (tbl os)" and "distinct (me_up e)" and "me_active e"
    and "X \<inter> (host_routes e (set (me_up e)) \<union> half_routes e) = {}" and "mac_ec_Remove mx e os = (e', os')"
  shows "e' = e\<lparr>me_up := [], me_active := False\<rparr> \<and> routes_over T X (tbl os')"
proof -
  let ?n = "map (\<lambda>p. NetVia p (me_iface e)) (exit_halves (me_v6 e))" and ?h = "host_routes e (set (me_up e))"
  let ?os = "nets_run mx ''delete'' (me_iface e) (exit_halves (me_v6 e)) os"
  have h: "set ?n = half_routes e" "distinct ?n"
    using assms(4) halves_texts(1) by (simp_all add: half_routes_def distinct_map inj_on_def)
  have "routes_over T (?h \<union> half_routes e \<union> X - set ?n) (tbl ?os)"
    unfolding nets_run_map using h by (intro exec_deletes [OF assms(1,2)]) auto
  moreover have "?h \<inter> half_routes e = {}" by (auto simp: host_routes_def half_routes_def)
  then have "?h \<union> half_routes e \<union> X - set ?n = ?h \<union> X" using assms(5) unfolding h by blast
  ultimately have "routes_over T (?h \<union> X) (tbl ?os)" by simp
  then have "routes_over T (?h \<union> X - ?h) (tbl (bypass_drop mx e (me_up e) ?os))"
    by (rule bypass_drop_over [OF assms(1) _ _ assms(3)]) simp
  moreover have "?h \<union> X - ?h = X" using assms(5) by blast
  ultimately show ?thesis
    using assms(4,6) by (auto simp: mac_ec_Remove_def)
qed

lemma remove_inv:
  assumes "route8_ok mx tbl" and "exit_inv g H T e (tbl os)" and "mac_ec_Remove mx e os = (e', os')"
  shows "exit_inv g H T e' (tbl os') \<and> tbl os' = T"
proof (cases "me_active e")
  case False
  with assms(2,3) show ?thesis
    by (auto simp: mac_ec_Remove_def exit_inv_def host_routes_def half_routes_def)
next
  case True
  have "routes_over T (host_routes e (set (me_up e)) \<union> half_routes e \<union> {}) (tbl os)" using exit_inv_routes(1) [OF assms(2)] by simp
  from remove_over [OF assms(1) this exit_inv_routes(2) [OF assms(2)] True _ assms(3)]
  have "e' = e\<lparr>me_up := [], me_active := False\<rparr>" "tbl os' = T" by simp_all
  with exit_inv_off [of e H g T] exit_inv_hosts(1) [OF assms(2)] show ?thesis by simp
qed

lemma bypass_inv:
  assumes "route8_ok mx tbl" and "exit_fresh H T" and "exit_inv g H T e (tbl os)" and "addr_unmap ` set ips \<subseteq> H"
    and "mac_ec_SetBypassHosts mx ips e os = (e', os')"
  shows "exit_inv g H T e' (tbl os')"
proof -
  define e1 where "e1 = e\<lparr>me_want := remdups (map addr_unmap (filter (\<lambda>ip. addr_is_valid ip \<and> \<not> addr_is_loopback ip) ips))\<rparr>"
  have v: "addr_is_valid (addr_unmap ip)" if "addr_is_valid ip" for ip
    using that by (cases ip) auto
  have w: "\<forall>ip \<in> set (me_want e1). ip \<in> H \<and> addr_is_valid ip"
    using assms(4) v by (auto simp: e1_def)
  have f: "me_up e1 = me_up e" "me_active e1 = me_active e" "gwFor e1 = gwFor e" "host_routes e1 = host_routes e" "half_routes e1 = half_routes e"
    "me_gw4 e1 = me_gw4 e" "me_gw6 e1 = me_gw6 e" "me_iface e1 = me_iface e" "me_v6 e1 = me_v6 e"
    by (auto simp: e1_def gwFor_def host_routes_def half_routes_def fun_eq_iff)
  have r: "mac_ec_SetBypassHosts mx ips e os = (if me_active e then syncBypassLocked mx e1 os else (e1, os))"
    by (simp add: mac_ec_SetBypassHosts_def e1_def)
  show ?thesis
  proof (cases "me_active e")
    case False
    with r assms(3,5) w f show ?thesis by (auto simp: exit_inv_def)
  next
    case True
    with r assms(5) have s: "syncBypassLocked mx e1 os = (e', os')" by simp
    have "\<exists>up. e' = e1\<lparr>me_up := up\<rparr> \<and> distinct up \<and> set up = protected e1 \<and> routes_over T (host_routes e1 (set up) \<union> half_routes e) (tbl os')"
    proof (rule sync_over [OF assms(1,2) _ _ half_routes_sub _ _ s])
      show "\<forall>ip \<in> set (me_want e1) \<union> set (me_up e1). ip \<in> H \<and> addr_is_valid ip" "\<forall>ip \<in> set (me_up e1). addr_is_valid (gwFor e1 ip)"
        using w exit_inv_hosts [OF assms(3)] f by auto
      show "routes_over T (host_routes e1 (set (me_up e1)) \<union> half_routes e) (tbl os)" "distinct (me_up e1)"
        using exit_inv_routes [OF assms(3)] f by simp_all
    qed
    then obtain up where u: "e' = e1\<lparr>me_up := up\<rparr>" "distinct up" "set up = protected e1" "routes_over T (host_routes e1 (set up) \<union> half_routes e) (tbl os')"
      by blast
    have "gateway_of (g False) = Inr (me_gw4 e1)" "me_gw6 e1 = (case gateway_of (g True) of Inl _ \<Rightarrow> NoAddr | Inr x \<Rightarrow> x)"
      using True assms(3) f(6,7) unfolding exit_inv_def by auto
    from exit_inv_on [OF w u(2,3) _ _ this] True f(2,5) u(1,4) show ?thesis by simp
  qed
qed

lemma default_gateway:
  assumes "route8_ok mx tbl" and "gateways mx g" and "defaultGateway mx v6 os = (os', r)"
  shows "tbl os' = tbl os \<and> r = gateway_of (g v6)"
proof -
  obtain res where m: "mx_run mx (get_default v6) os = (os', res)" "r = gateway_of res"
    using assms(3) by (auto simp: defaultGateway_def split: prod.splits)
  moreover have "res = g v6" using assms(2) m(1) unfolding gateways_def by (metis snd_conv)
  ultimately show ?thesis using route8_okD(3) [OF assms(1)] by blast
qed

text \<open>A switch puts the routes of the hosts and the half-default routes on top of those that were there.\<close>

lemma apply_over:
  assumes "route8_ok mx tbl" and "gateways mx g" and "exit_fresh H T" and "exit_inv g H T e (tbl os)" and "me_active e \<longrightarrow> me_iface e = iface"
    and "\<not> (me_active e \<and> me_iface e = iface \<and> me_v6 e = v6)" and "mac_ec_Apply mx iface v6 e os = (e', os', Inr ())"
  shows "\<exists>gw4 up. e' = e\<lparr>me_gw4 := gw4, me_gw6 := me_gw6 e', me_iface := iface, me_v6 := v6, me_active := True, me_up := up\<rparr> \<and> distinct up \<and>
    set up = protected e' \<and> routes_over T (host_routes e' (set up) \<union> half_routes e' \<union> half_routes e) (tbl os') \<and>
    gateway_of (g False) = Inr (me_gw4 e') \<and> me_gw6 e' = (case gateway_of (g True) of Inl _ \<Rightarrow> NoAddr | Inr x \<Rightarrow> x)"
proof -
  obtain os1 r4 where d4: "defaultGateway mx False os = (os1, r4)" by (metis surj_pair)
  obtain os2 r6 where d6: "defaultGateway mx True os1 = (os2, r6)" by (metis surj_pair)
  note g4 = default_gateway [OF assms(1,2) d4] and g6 = default_gateway [OF assms(1,2) d6]
  obtain gw4 where Inr: "r4 = Inr gw4" using assms(6,7) d4 by (cases r4) (auto simp: mac_ec_Apply_def)
  define e1 where "e1 = e\<lparr>me_gw4 := gw4, me_gw6 := (case r6 of Inl _ \<Rightarrow> NoAddr | Inr x \<Rightarrow> x)\<rparr>"
  obtain e2 os3 where s: "syncBypassLocked mx e1 os2 = (e2, os3)" by (metis surj_pair)
  have res: "e' = e2\<lparr>me_iface := iface, me_v6 := v6, me_active := True\<rparr>" "os' = nets_run mx ''add'' iface (exit_halves v6) os3"
    using assms(6,7) d4 d6 Inr s by (auto simp: mac_ec_Apply_def e1_def)
  have same: "me_up e1 = me_up e" "me_want e1 = me_want e" by (simp_all add: e1_def)
  have gw: "gwFor e1 = gwFor e" if "me_active e"
    using that assms(4) g4 g6 Inr by (auto simp: exit_inv_def e1_def gwFor_def fun_eq_iff)
  have none: "\<not> me_active e \<Longrightarrow> me_up e = []" using assms(4) by (simp add: exit_inv_def)
  have hr: "host_routes e1 (set (me_up e1)) = host_routes e (set (me_up e))"
    using gw none same by (cases "me_active e") (auto simp: host_routes_def)
  have "\<exists>up. e2 = e1\<lparr>me_up := up\<rparr> \<and> distinct up \<and> set up = protected e1 \<and> routes_over T (host_routes e1 (set up) \<union> half_routes e) (tbl os3)"
  proof (rule sync_over [OF assms(1,3) _ _ half_routes_sub _ _ s])
    show "\<forall>ip \<in> set (me_want e1) \<union> set (me_up e1). ip \<in> H \<and> addr_is_valid ip"
      using exit_inv_hosts(1) [OF assms(4)] same by simp
    show "\<forall>ip \<in> set (me_up e1). addr_is_valid (gwFor e1 ip)"
      using exit_inv_hosts(2) [OF assms(4)] same gw none by (cases "me_active e") simp_all
    show "routes_over T (host_routes e1 (set (me_up e1)) \<union> half_routes e) (tbl os2)" "distinct (me_up e1)"
      using exit_inv_routes [OF assms(4)] same(1) hr g4 g6 by simp_all
  qed
  then obtain up where up: "e2 = e1\<lparr>me_up := up\<rparr>" "distinct up" "set up = protected e1" "routes_over T (host_routes e1 (set up) \<union> half_routes e) (tbl os3)"
    by blast
  let ?n = "map (\<lambda>p. NetVia p iface) (exit_halves v6)"
  have z: "\<forall>ip \<in> set up. addr_is_valid ip \<and> no_zone ip"
    using up(3) exit_inv_hosts(1) [OF assms(4)] assms(3) same by (auto simp: protected_def exit_fresh_def)
  have "routes_over T (host_routes e1 (set up) \<union> half_routes e \<union> set ?n) (tbl os')"
    unfolding res nets_run_map
  proof (rule exec_adds [OF assms(1) up(4), of _ "\<lambda>_. True" "{}", THEN conjunct1])
    show "\<forall>r \<in> set ?n. T (route_dst r) = None"
      using assms(3) halves_texts(3) [of v6] unfolding exit_fresh_def by auto
    show "inj_on route_dst (host_routes e1 (set up) \<union> half_routes e \<union> set ?n)"
      by (rule inj_on_subset [OF route_dst_inj [OF z, of "gwFor e1" iface True]])
        (use assms(5) halves_texts(3) in \<open>auto simp: host_routes_def half_routes_def\<close>)
  qed simp_all
  moreover have "host_routes e' = host_routes e1" "half_routes e' = set ?n" "protected e' = protected e1" "me_gw4 e' = gw4" "me_gw6 e' = me_gw6 e1"
    using res(1) up(1) by (simp_all add: host_routes_def half_routes_def protected_def e1_def fun_eq_iff)
  ultimately show ?thesis
    using up(1-3) res(1) g4 g6 Inr by (intro exI [of _ gw4] exI [of _ up]) (simp add: Un_ac e1_def)
qed

lemma apply_inv:
  assumes "route8_ok mx tbl" and "gateways mx g" and "exit_fresh H T" and "exit_inv g H T e (tbl os)"
    and "me_active e \<longrightarrow> me_iface e = iface \<and> (me_v6 e \<longrightarrow> v6)" and "mac_ec_Apply mx iface v6 e os = (e', os', r)"
  shows "exit_inv g H T e' (tbl os')"
proof -
  consider (kept) "me_active e \<and> me_iface e = iface \<and> me_v6 e = v6" | (fail) er where "r = Inl er"
    | (switched) "\<not> (me_active e \<and> me_iface e = iface \<and> me_v6 e = v6)" "r = Inr ()" by (cases r) auto
  then show ?thesis
  proof cases
    case kept
    with assms(4,6) show ?thesis by (simp add: mac_ec_Apply_def)
  next
    case fail
    with assms(6) obtain r4 where "e' = e" "defaultGateway mx False os = (os', r4)"
      by (auto simp: mac_ec_Apply_def split: if_splits prod.splits sum.splits)
    with default_gateway [OF assms(1,2)] assms(4) show ?thesis by simp
  next
    case switched
    then obtain gw4 up where e': "e' = e\<lparr>me_gw4 := gw4, me_gw6 := me_gw6 e', me_iface := iface, me_v6 := v6, me_active := True, me_up := up\<rparr>"
      and x: "distinct up" "set up = protected e'" "routes_over T (host_routes e' (set up) \<union> half_routes e' \<union> half_routes e) (tbl os')"
        "gateway_of (g False) = Inr (me_gw4 e')" "me_gw6 e' = (case gateway_of (g True) of Inl _ \<Rightarrow> NoAddr | Inr x \<Rightarrow> x)"
      using apply_over [OF assms(1-4)] assms(5,6) by blast
    have f: "me_active e'" "me_iface e' = iface" "me_v6 e' = v6" "me_want e' = me_want e" "me_up e' = up" by (subst e', simp)+
    then have "half_routes e \<subseteq> half_routes e'" using assms(5) by (auto simp: half_routes_def exit_halves_def)
    then have "host_routes e' (set up) \<union> half_routes e' \<union> half_routes e = host_routes e' (set up) \<union> half_routes e'" by blast
    with x f(1,4) exit_inv_hosts(1) [OF assms(4)] have "exit_inv g H T (e'\<lparr>me_up := up\<rparr>) (tbl os')"
      by (intro exit_inv_on) simp_all
    moreover have "e'\<lparr>me_up := up\<rparr> = e'" using f(5) by (cases e') simp
    ultimately show ?thesis by simp
  qed
qed

lemma exit_run_inv:
  assumes "route8_ok mx tbl" and "gateways mx g" and "exit_fresh H T"
  shows "run_ok (exit_op_ok H) (exit_step mx) ops s \<Longrightarrow> exit_inv g H T (fst s) (tbl (snd s)) \<Longrightarrow>
    exit_inv g H T (fst (fold (exit_step mx) ops s)) (tbl (snd (fold (exit_step mx) ops s)))"
proof (induction ops arbitrary: s)
  case (Cons op ops)
  obtain e os where s: "s = (e, os)" by (metis surj_pair)
  obtain e' os' where s': "exit_step mx op s = (e', os')" by (metis surj_pair)
  have "exit_inv g H T e' (tbl os')"
  proof (cases op)
    case (ExitApply iface v6)
    with s s' obtain r where r: "mac_ec_Apply mx iface v6 e os = (e', os', r)" by (auto split: prod.splits)
    show ?thesis by (rule apply_inv [OF assms _ _ r]) (use Cons.prems s ExitApply in simp_all)
  next
    case (ExitBypass ips)
    show ?thesis by (rule bypass_inv [OF assms(1,3), of g e os ips]) (use Cons.prems s s' ExitBypass in simp_all)
  next
    case ExitRemove
    with remove_inv [OF assms(1), of g H T e os e' os'] Cons.prems s s' show ?thesis by auto
  qed
  with Cons s s' show ?case by simp
qed simp


text \<open>A system that keeps a routing table and has an IPv4 gateway.\<close>

definition sample_mac :: "(string list \<rightharpoonup> string list) macos" where
  "sample_mac = \<lparr>mx_run = (\<lambda>cmd t. case cmd of
     [_, _, act, fam, x, y, z] \<Rightarrow>
       (let (dst, via) = (if x = ''-host'' then ([fam, x, y], [z]) else ([fam, x], [y, z])) in
        if act = ''add'' then (if t dst = None then (t(dst \<mapsto> via), [], None) else (t, ''File exists'', Some ''exit status 1''))
        else (t(dst := None), [], None))
   | [_, _, _, _] \<Rightarrow> (t, ''  route to: default'' @ nl @ ''   gateway: 192.168.1.1'' @ nl, None)
   | _ \<Rightarrow> (t, ''not in table'', Some ''exit status 1''))\<rparr>"

lemma prefix_text_no_host: "prefix_text p \<noteq> ''-host''"
proof (cases p)
  case (Pfx a b)
  then have "CHR ''/'' \<in> set (prefix_text p)" by simp
  moreover have "CHR ''/'' \<notin> set ''-host''" by simp
  ultimately show ?thesis by metis
qed simp

lemma sample_mac_ok: "route8_ok sample_mac (\<lambda>t. t)"
proof -
  have "mx_run sample_mac (route_argv ''add'' r) t =
      (if t (route_dst r) = None then (t(route_dst r \<mapsto> route_via r), [], None) else (t, ''File exists'', Some ''exit status 1''))"
    "mx_run sample_mac (route_argv ''delete'' r) t = (t(route_dst r := None), [], None)" for r t
    by (cases r; simp add: sample_mac_def route_argv_def prefix_text_no_host)+
  moreover have "fst (mx_run sample_mac (get_default v6) t) = t" for v6 t
    by (simp add: sample_mac_def get_default_def)
  ultimately show ?thesis
    by (auto simp: route8_ok_def) (metis fst_conv)
qed

definition sample_host :: Addr where "sample_host = V4 0xCB007105"

definition sample_exit_ops :: "exit_op list" where
  "sample_exit_ops = [ExitBypass [sample_host, V4 0x7F000001], ExitApply ''utun4'' False]"

definition sample_gateways :: "bool \<Rightarrow> string \<times> string option" where
  "sample_gateways v6 = snd (mx_run sample_mac (get_default v6) Map.empty)"

lemma sample_exit_run:
  "run_ok (exit_op_ok {sample_host, V4 0x7F000001}) (exit_step sample_mac) sample_exit_ops (mac_NewExitClient, Map.empty)"
  by code_simp


text \<open>When IPv6 is given up while the exit node is in use, its half-default routes stay for good.\<close>

lemma v6_halves_stay:
  assumes "route8_ok mx tbl" and "gateways mx g" and "exit_fresh H T" and "exit_inv g H T e (tbl os)" and "me_active e" and "me_v6 e"
    and "mac_ec_Apply mx (me_iface e) False e os = (e', os', Inr ())" and "mac_ec_Remove mx e' os' = (e'', os'')"
  shows "routes_over T ((\<lambda>p. NetVia p (me_iface e)) ` set exitHalves6) (tbl os'')"
proof -
  obtain gw4 up where e': "e' = e\<lparr>me_gw4 := gw4, me_gw6 := me_gw6 e', me_iface := me_iface e, me_v6 := False, me_active := True, me_up := up\<rparr>"
    and x: "distinct up" "routes_over T (host_routes e' (set up) \<union> half_routes e' \<union> half_routes e) (tbl os')"
    using apply_over [OF assms(1-4), of "me_iface e" False e' os'] assms(5-7) by blast
  let ?x = "(\<lambda>p. NetVia p (me_iface e)) ` set exitHalves6"
  have f: "me_active e'" "me_iface e' = me_iface e" "me_v6 e' = False" "me_up e' = up" by (subst e', simp)+
  have "half_routes e' \<union> half_routes e = half_routes e' \<union> ?x" "?x \<inter> half_routes e' = {}"
    using f assms(5,6) by (auto simp: half_routes_def exit_halves_def exitHalves4_def exitHalves6_def)
  moreover have "?x \<inter> host_routes e' (set up) = {}" by (auto simp: host_routes_def)
  ultimately show ?thesis
    using remove_over [OF assms(1) _ _ f(1) _ assms(8), of T ?x] x f(4) by (simp add: Un_assoc Int_Un_distrib)
qed

section \<open>Every moment of a switch\<close>

text \<open>The same code on a system that also keeps the states it went through.\<close>

definition logged :: "'os macos \<Rightarrow> ('os \<times> 'os list) macos" where
  "logged mx = \<lparr>mx_run = (\<lambda>cmd (os, h). case mx_run mx cmd os of (os', res) \<Rightarrow> ((os', h @ [os']), res))\<rparr>"

lemma logged_run:
  assumes "mx_run (logged mx) cmd s = (s', res)"
  shows "mx_run mx cmd (fst s) = (fst s', res)" "snd s' = snd s @ [fst s']"
  using assms by (auto simp: logged_def split: prod.splits)

lemma logged_ok:
  assumes "route8_ok mx tbl"
  shows "route8_ok (logged mx) (tbl \<circ> fst)"
  unfolding route8_ok_def comp_def
proof (intro conjI allI impI)
  show "if tbl (fst s) (route_dst r) = None then err = None \<and> tbl (fst s') = (tbl (fst s))(route_dst r \<mapsto> route_via r)
      else err \<noteq> None \<and> tbl (fst s') = tbl (fst s)" if "mx_run (logged mx) (route_argv ''add'' r) s = (s', out, err)" for r s s' out err
    by (rule route8_okD(1) [OF assms logged_run(1) [OF that]])
qed (use route8_okD(2,3) [OF assms logged_run(1)] in blast)+

lemma logged_gateways: "gateways mx g \<Longrightarrow> gateways (logged mx) g"
  unfolding gateways_def by (auto simp: logged_def split: prod.splits) (metis snd_conv)

lemma logged_exec: "route_exec (logged mx) act r s = (s', err) \<Longrightarrow> snd s' = snd s @ [fst s']"
  by (auto simp: route_exec_def dest: logged_run(2) split: prod.splits option.splits)

text \<open>While the exit node is switched on, in every state the system goes through, either no half-default route is there yet, or all hosts that
  have a gateway are routed around the tunnel.\<close>

definition no_loop :: "mac_ExitClient \<Rightarrow> (string list \<rightharpoonup> string list) \<Rightarrow> bool" where
  "no_loop e t \<longleftrightarrow> (\<forall>p \<in> set (exit_halves True). t (route_dst (NetVia p [])) = None) \<or>
     (\<forall>ip \<in> protected e. t (route_dst (HostVia ip (gwFor e ip))) = Some [addr_text (gwFor e ip)])"

lemma no_loop_hosts:
  assumes "exit_fresh H T" and "routes_over T (host_routes e A) t"
  shows "no_loop e' t"
proof -
  have "t (route_dst (NetVia p [])) = None" if "p \<in> set (exit_halves True)" for p
  proof -
    have "route_dst (NetVia p []) \<notin> route_dst ` host_routes e A" by (auto simp: host_routes_def)
    with assms(2) have "t (route_dst (NetVia p [])) = T (route_dst (NetVia p []))" unfolding routes_over_def by blast
    moreover have "T (route_dst (NetVia p [])) = None" using assms(1) that unfolding exit_fresh_def by blast
    ultimately show ?thesis by (rule trans)
  qed
  then show ?thesis by (simp only: no_loop_def) blast
qed

lemma no_loop_halves: "routes_over T R t \<Longrightarrow> host_routes e (protected e) \<subseteq> R \<Longrightarrow> no_loop e t"
  by (auto simp: routes_over_def no_loop_def host_routes_def image_subset_iff simp del: route_dst.simps)

lemma apply_no_window:
  assumes "route8_ok mx tbl" and "gateways mx g" and "exit_fresh H T" and "tbl os = T" and "\<not> me_active e" and "me_up e = []"
    and "\<forall>ip \<in> set (me_want e). ip \<in> H \<and> addr_is_valid ip" and "mac_ec_Apply (logged mx) iface v6 e (os, []) = (e', (os', states), Inr ())"
  shows "\<forall>s \<in> set states. no_loop e' (tbl s)"
proof -
  note ok = logged_ok [OF assms(1)] and gs = logged_gateways [OF assms(2)]
  let ?tbl = "tbl \<circ> fst"
  obtain s1 r4 where d4: "defaultGateway (logged mx) False (os, []) = (s1, r4)" by (metis surj_pair)
  obtain s2 r6 where d6: "defaultGateway (logged mx) True s1 = (s2, r6)" by (metis surj_pair)
  note g4 = default_gateway [OF ok gs d4] and g6 = default_gateway [OF ok gs d6]
  have "snd s1 = [fst s1]" "snd s2 = snd s1 @ [fst s2]"
    using d4 d6 by (auto simp: defaultGateway_def dest!: logged_run(2) split: prod.splits)
  moreover have "no_loop e' T" using no_loop_hosts [OF assms(3), of e "{}" T e'] by (simp add: host_routes_def)
  ultimately have q2: "\<forall>s \<in> set (snd s2). no_loop e' (tbl s)" and t2: "?tbl s2 = T" using g4 g6 assms(4) by auto
  obtain gw4 where Inr: "r4 = Inr gw4" using assms(5,8) d4 by (cases r4) (auto simp: mac_ec_Apply_def)
  define e1 where "e1 = e\<lparr>me_gw4 := gw4, me_gw6 := (case r6 of Inl _ \<Rightarrow> NoAddr | Inr x \<Rightarrow> x)\<rparr>"
  have f: "me_up e1 = []" "me_want e1 = me_want e" using assms(6) by (simp_all add: e1_def)
  obtain up s3 where b: "bypass_add (logged mx) e1 (me_want e1) [] s2 = (up, s3)" by (metis surj_pair)
  have sy: "syncBypassLocked (logged mx) e1 s2 = (e1\<lparr>me_up := up\<rparr>, s3)"
    using b f by (simp add: syncBypassLocked_def bypass_drop_def)
  have res: "e' = e1\<lparr>me_up := up, me_iface := iface, me_v6 := v6, me_active := True\<rparr>"
    "(os', states) = nets_run (logged mx) ''add'' iface (exit_halves v6) s3"
    using assms(5,8) d4 d6 Inr sy by (simp_all add: mac_ec_Apply_def e1_def)
  have e': "host_routes e' = host_routes e1" "protected e' = protected e1"
    using res(1) by (simp_all add: host_routes_def protected_def fun_eq_iff)
  have z: "\<forall>ip \<in> set (me_want e1) \<union> set []. addr_is_valid ip \<and> no_zone ip" "\<forall>ip \<in> set (me_want e1). T (route_dst (HostVia ip NoAddr)) = None"
    using assms(3,7) f unfolding exit_fresh_def by auto
  have "routes_over T (host_routes e1 (set up) \<union> {}) (?tbl s3) \<and> distinct up \<and> set up = set [] \<union> {ip \<in> set (me_want e1). addr_is_valid (gwFor e1 ip)} \<and>
      (\<forall>s \<in> set (snd s3). no_loop e' (tbl s))"
    using q2 t2 no_loop_hosts [OF assms(3), of e1 _ _ e']
    by (intro bypass_add_over [where Q = "\<lambda>s. \<forall>x \<in> set (snd s). no_loop e' (tbl x)" and i = iface, OF ok z _ _ _ b])
      (auto simp: host_routes_def dest!: logged_exec)
  then have o: "routes_over T (host_routes e1 (set up)) (?tbl s3)" "set up = protected e1" "\<forall>s \<in> set (snd s3). no_loop e' (tbl s)"
    by (auto simp: protected_def)
  let ?n = "map (\<lambda>p. NetVia p iface) (exit_halves v6)"
  have "\<forall>s \<in> set (snd (fold (\<lambda>r s. fst (route_exec (logged mx) ''add'' r s)) ?n s3)). no_loop e' (tbl s)"
  proof (rule exec_adds [OF ok o(1), of _ "\<lambda>s. \<forall>x \<in> set (snd s). no_loop e' (tbl x)" "host_routes e1 (set up)", THEN conjunct2])
    show "\<forall>r \<in> set ?n. T (route_dst r) = None"
      using assms(3) halves_texts(3) [of v6] unfolding exit_fresh_def by auto
    show "inj_on route_dst (host_routes e1 (set up) \<union> set ?n)"
      unfolding host_routes_def set_map by (rule route_dst_inj) (use o(2) z in \<open>auto simp: protected_def\<close>)
    show "\<forall>x \<in> set (snd s'). no_loop e' (tbl x)"
      if "route_exec (logged mx) ''add'' r s = (s', err)" "\<forall>x \<in> set (snd s). no_loop e' (tbl x)" "host_routes e1 (set up) \<subseteq> R" "routes_over T R (?tbl s')" for r s s' err R
      using that logged_exec [OF that(1)] no_loop_halves [of T R "tbl (fst s')" e'] o(2) e' by auto
  qed (use o(3) in simp_all)
  with res(2) show ?thesis unfolding nets_run_map by (metis snd_conv)
qed

section \<open>Subnet routes\<close>

lemma mac_sync_add_over:
  assumes "route8_ok mx tbl" and "mac_sync_add mx iface ps cur os = (cur', os')" and "routes_over T ((\<lambda>p. NetVia p iface) ` set cur) (tbl os)" and "distinct cur"
    and "\<forall>p \<in> set ps \<union> set cur. prefix_ok p" and "\<forall>p \<in> set ps. T (route_dst (NetVia p [])) = None"
  shows "routes_over T ((\<lambda>p. NetVia p iface) ` set cur') (tbl os') \<and> distinct cur' \<and> set cur' = set cur \<union> set ps"
  using assms(2-)
proof (induction ps arbitrary: cur os)
  case (Cons p ps)
  show ?case
  proof (cases "p \<in> set cur")
    case True
    with Cons.prems have "mac_sync_add mx iface ps cur os = (cur', os')" "\<forall>q \<in> set ps \<union> set cur. prefix_ok q" "\<forall>q \<in> set ps. T (route_dst (NetVia q [])) = None" by simp_all
    from Cons.IH [OF this(1) Cons.prems(2,3) this(2,3)]
    have "routes_over T ((\<lambda>p. NetVia p iface) ` set cur') (tbl os') \<and> distinct cur' \<and> set cur' = set cur \<union> set ps" .
    moreover have "set cur \<union> set (p # ps) = set cur \<union> set ps" using True by auto
    ultimately show ?thesis by metis
  next
    case False
    obtain os1 err where x: "route_exec mx ''add'' (NetVia p iface) os = (os1, err)" by (metis surj_pair)
    have "route_dst (NetVia p iface) \<notin> route_dst ` (\<lambda>p. NetVia p iface) ` set cur"
    proof
      assume "route_dst (NetVia p iface) \<in> route_dst ` (\<lambda>p. NetVia p iface) ` set cur"
      then obtain q where "q \<in> set cur" "prefix_text p = prefix_text q" by auto
      with prefix_codec.enc_inj [of p q] Cons.prems(4) False show False by auto
    qed
    with exec_add(2) [OF assms(1) Cons.prems(2) x] Cons.prems(5)
    have "err = None" "routes_over T ((\<lambda>p. NetVia p iface) ` set (cur @ [p])) (tbl os1)" by simp_all
    with Cons.IH [of "cur @ [p]" os1] Cons.prems False x show ?thesis by (auto simp: routeCmd_def)
  qed
qed auto

text \<open>After a synchronisation on the same interface exactly the wanted routes are on top of the table of the start, and closing gives that table.\<close>

lemma mac_sync_over:
  assumes "route8_ok mx tbl" and "routes_over T ((\<lambda>p. NetVia p iface) ` set (rs_current r)) (tbl os)" and "distinct (rs_current r)"
    and "\<forall>p \<in> set want \<union> set (rs_current r). prefix_ok p" and "\<forall>p \<in> set want. T (route_dst (NetVia p [])) = None" and "mac_rs_Sync mx iface want r os = (r', os')"
  shows "set (rs_current r') = set want \<and> distinct (rs_current r') \<and> rs_iface r' = iface \<and> routes_over T ((\<lambda>p. NetVia p iface) ` set want) (tbl os')"
proof -
  let ?N = "\<lambda>A. (\<lambda>p. NetVia p iface) ` A"
  let ?gone = "filter (\<lambda>p. p \<notin> set want) (rs_current r)" and ?kept = "filter (\<lambda>p. p \<in> set want) (rs_current r)"
  let ?os = "nets_run mx ''delete'' iface ?gone os"
  have "routes_over T (?N (set (rs_current r)) - set (map (\<lambda>p. NetVia p iface) ?gone)) (tbl ?os)"
    unfolding nets_run_map using assms(3) by (intro exec_deletes [OF assms(1,2)]) (auto simp: distinct_map inj_on_def)
  moreover have "?N (set (rs_current r)) - set (map (\<lambda>p. NetVia p iface) ?gone) = ?N (set ?kept)" by auto
  ultimately have k: "routes_over T (?N (set ?kept)) (tbl ?os)" by simp
  obtain cur' where c: "mac_sync_add mx iface (remdups want) ?kept ?os = (cur', os')" "r' = \<lparr>rs_iface = iface, rs_current = cur'\<rparr>"
    using assms(6) by (auto simp: mac_rs_Sync_def Let_def split: prod.splits)
  have "routes_over T (?N (set cur')) (tbl os') \<and> distinct cur' \<and> set cur' = set ?kept \<union> set (remdups want)"
    by (rule mac_sync_add_over [OF assms(1), OF c(1) k]) (use assms(3-5) in auto)
  moreover have "set ?kept \<union> set (remdups want) = set want" by auto
  ultimately show ?thesis unfolding c(2) by (metis RouteSync.select_convs(1,2))
qed

lemma mac_close_over:
  assumes "route8_ok mx tbl" and "routes_over T ((\<lambda>p. NetVia p (rs_iface r)) ` set (rs_current r)) (tbl os)" and "distinct (rs_current r)"
  shows "tbl (snd (mac_rs_Close mx r os)) = T"
proof -
  let ?rs = "map (\<lambda>p. NetVia p (rs_iface r)) (rs_current r)"
  have "routes_over T (set ?rs - set ?rs) (tbl (nets_run mx ''delete'' (rs_iface r) (rs_current r) os))"
    unfolding nets_run_map using assms(2,3) by (intro exec_deletes [OF assms(1)]) (auto simp: distinct_map inj_on_def)
  then have "tbl (nets_run mx ''delete'' (rs_iface r) (rs_current r) os) = T" unfolding Diff_cancel routes_over_none .
  then show ?thesis by (simp add: mac_rs_Close_def)
qed

end
