(* ===== verification/Spec2Isabelle.thy ===== *)
theory Spec2Isabelle
  imports Mobile_Props Server_Main Control Osdns_Darwin Router_Darwin Wg_Kernel
begin

text \<open>
  OverMesh is a WireGuard mesh network. A coordination server keeps the nodes of a network in a database, gives every node an overlay
  address and streams it a netmap: its peers, their keys, endpoints and routes, the packet filter, the name suffix, STUN servers and
  relays. A daemon on each machine applies the netmap to its WireGuard engine, its resolver, its routes and its connection
  manager, which looks for a direct path to each online peer with ICE; a relay forwards the packets of those that have none.
  Members and admins work on the network through a web API, and files are sent between nodes over the overlay. This library models
  these programs from their Go sources under \<^verbatim>\<open>src/\<close> and proves what makes them correct.

  \<^bold>\<open>How the code is modelled.\<close> A struct is a record, an enumeration a datatype, a method a function that takes the state and returns it
  changed. Go strings are HOL strings, byte slices lists of 8-bit words, and integers have their width where it matters: IDs and
  keys of maps in the daemon are 64-bit words, ports 16-bit words, IPv4 and IPv6 addresses 32-bit and 128-bit words. Errors are
  values of a sum type; a panic is \<open>None\<close>. Loops are structural recursion or functions with a termination proof, such as the searches for a free
  hostname and a free file name. Two loops are partial functions, with \<open>None\<close> for a run that does not return: the scan of the address allocator,
  which is proved to return always, and the removal of the marked block of resolv.conf, for which it is shown where it does not. No fuel is used.
  Every database statement may fail, at a place that the argument \<open>flt\<close> chooses; clocks, random bytes, system calls and the order in which a
  map is ranged over are arguments as well. Third-party code is a parameter: curve25519, nacl box, bcrypt, the DNS and STUN codecs,
  pion/ice, wireguard-go, netlink and wgctrl, and the commands iptables, ip, route, resolvectl and networksetup; what is assumed of it is
  a named predicate, and each property that assumes it has a witness on a concrete instance. A method under a lock is one step, and
  goroutines are interleavings of such steps.

  \<^bold>\<open>Foundations.\<close> \<open>Prelude\<close> has results, digits, Go's strings package and the interfaces shared by the components: \<open>text_codec\<close> (printing and
  parsing), \<open>rule_translation\<close> (two ordered rule lists that decide alike), \<open>inductive_invariant\<close> (reachable states of a step function),
  \<open>step_simulation\<close> (two step functions that stay in step) and \<open>free_search\<close> (the first free name of a sequence). \<open>Netip\<close> is net/netip with
  parsing and printing proved inverse. \<open>Golib\<close> has paths, URL queries and host-port text. \<open>Gochan\<close> has channels as bounded queues in a heap, with
  sends on closed channels as panics. \<open>Database\<close> has tables with AUTOINCREMENT identities and the schema.

  \<^bold>\<open>The server.\<close>
  \<^item> \<open>Key\<close>: \<^verbatim>\<open>internal/key/key.go\<close>. Text forms round-trip and the two kinds of keys are not confused.
  \<^item> \<open>Ipam\<close>: \<^verbatim>\<open>internal/ipam/ipam.go\<close>. The scan ends and gives a free assignable address if there is one; the allocator is an
    instance of the interface \<open>address_pool\<close>.
  \<^item> \<open>Store_Base\<close>, \<open>Store_Routes\<close>, \<open>Store_Acl\<close>, \<open>Store_Users\<close>: \<^verbatim>\<open>internal/store\<close>, one theory per file; a failed statement changes nothing.
  \<^item> \<open>Packet_Filter\<close>: \<^verbatim>\<open>internal/filter/filter.go\<close>. No packet panics the parser; the first matching rule decides.
  \<^item> \<open>Acl_Compile\<close>: \<^verbatim>\<open>internal/coord/aclcompile.go\<close>, the translation of rules on devices into rules on addresses.
  \<^item> \<open>Coord\<close>: \<^verbatim>\<open>internal/coord\<close> with the messages of \<^verbatim>\<open>proto\<close>. \<open>Coord_Inv\<close> has its invariant (consistent tables, distinct addresses
    known to the allocators, registered open channels) for every operation, failure and restart; \<open>Coord_Props\<close> what reachable states promise.
  \<^item> \<open>Admin_Api\<close>, \<open>Admin_Props\<close>: \<^verbatim>\<open>internal/adminapi/adminapi.go\<close>, every route; an enabled admin remains, members are confined to
    their own devices, sessions begin and end as they should.
  \<^item> \<open>Server_Main\<close>: \<^verbatim>\<open>cmd/overmesh-server/main.go\<close> and \<^verbatim>\<open>internal/stunserver\<close>; a server that starts is an initial state of
    the transition system, and the guard of the web interface.
  \<^item> \<open>Relay\<close>: \<^verbatim>\<open>internal/relay\<close>, frames as bytes, handshake, forwarding, client.

  \<^bold>\<open>The nodes.\<close>
  \<^item> \<open>Magicsock\<close>, \<open>Connmgr\<close>: \<^verbatim>\<open>internal/magicsock/bind.go\<close> and \<^verbatim>\<open>connmgr.go\<close>.
  \<^item> \<open>Wg_Engine\<close>, \<open>Wg_Kernel\<close>: \<^verbatim>\<open>internal/wgengine\<close>, the userspace engine with the filter in front of the tunnel, and the kernel engine.
  \<^item> \<open>Meshdns\<close>, \<open>Osdns\<close>, \<open>Osdns_Darwin\<close>: \<^verbatim>\<open>internal/meshdns\<close>, the resolver and the resolver settings of Linux and macOS.
  \<^item> \<open>Router\<close>, \<open>Router_Darwin\<close>: \<^verbatim>\<open>internal/router\<close>, forwarding, exit nodes and subnet routes on Linux and macOS.
  \<^item> \<open>Overdrop\<close>: \<^verbatim>\<open>internal/overdrop/overdrop.go\<close>, the sender and the receiver of files over an explicit file system.
  \<^item> \<open>Daemon_State\<close>, \<open>Daemon\<close>, \<open>Daemon_Props\<close>: \<^verbatim>\<open>internal/daemon/state.go\<close>, \<^verbatim>\<open>daemon.go\<close> and \<^verbatim>\<open>transfers.go\<close>. The properties go
    end to end: from the rules and nodes of the coordinator through the netmap to the packets, names and senders of a node.
  \<^item> \<open>Control\<close>: \<^verbatim>\<open>internal/daemon/control.go\<close> and \<^verbatim>\<open>netcheck.go\<close>.
  \<^item> \<open>Mobile\<close>, \<open>Mobile_Props\<close>: \<^verbatim>\<open>mobilecore\<close>, the core of the phone apps, which stays in step with the daemon.

  \<^bold>\<open>Bounds.\<close> Queues have the capacities of the source (8 netmaps, 32 signals, 256 frames of a relay client and of the bind's inbox);
  row identities are int64, and a table whose identities are used up refuses a new row; the rest is unbounded.

  \<^bold>\<open>Not modelled.\<close>
  \<^item> \<^verbatim>\<open>store.Open\<close> and the migrations: SQL text for the SQLite driver; the schema itself is in \<open>Database\<close>.
  \<^item> \<^verbatim>\<open>cmd/overmesh\<close>: flags and printing around the control socket. \<^verbatim>\<open>cmd/overmeshd\<close>, \<^verbatim>\<open>cmd/overmesh-relay\<close>: flags, process signals and the
    Windows service manager around the modelled daemon and relay.
  \<^item> \<^verbatim>\<open>router_windows.go\<close>, \<^verbatim>\<open>osdns_windows.go\<close>: calls of winipcfg and of the registry, libraries that are not among the sources.
    \<^verbatim>\<open>engine_darwin.go\<close>, \<^verbatim>\<open>engine_windows.go\<close>, \<^verbatim>\<open>tunfd_*.go\<close>: set-up of devices, without decisions.
  \<^item> Timers, backoff times and log lines, except where a decision depends on them; the TLS and HTTP transports, which are
    the outcome of a request.
  \<^item> Generated code under \<^verbatim>\<open>gen\<close>, the web UI, the Swift clients, packaging, scripts and tests.
\<close>

end
